(* ===== verification/CM_Prelude.thy ===== *)
theory CM_Prelude
  imports Complex_Main "HOL-Library.Multiset"
begin

text \<open>
  The prelude of the development: what the component theories share.
  \<^item> fallible, stateful computations \<open>('s, 'e, 'a) sm\<close> (a Rust \<open>async fn\<close> that takes the
    store and returns a \<open>Result\<close>), with \<open>?\<close> as \<open>bind_sm\<close>, loops as \<open>for_sm\<close> and
    \<open>fold_sm\<close>, and an SQL transaction as \<open>transaction\<close>;
  \<^item> frame reasoning about them, stated once in the locale \<open>frame_rel\<close>;
  \<^item> \<open>slice::sort_by\<close> as a stable insertion sort, with its contract in the locale \<open>cmp_on\<close>;
  \<^item> tables with a primary key and the SQL statements on them;
  \<^item> small string and list functions of the Rust standard library.
\<close>

named_theorems sm_simps \<open>one-step unfolding of the state-and-error operations\<close>
named_theorems frame_intros \<open>which computations keep a frame\<close>

section \<open>Fallible stateful computations\<close>

type_synonym ('s, 'e, 'a) sm = "'s \<Rightarrow> ('e + 'a) \<times> 's"

definition ret_sm :: "'a \<Rightarrow> ('s, 'e, 'a) sm" where
  "ret_sm x s = (Inr x, s)"

definition throw_sm :: "'e \<Rightarrow> ('s, 'e, 'a) sm" where
  "throw_sm e s = (Inl e, s)"

text \<open>\<open>m?\<close> followed by the rest: an error stops the function and keeps what was already
  written.\<close>

definition bind_sm :: "('s, 'e, 'a) sm \<Rightarrow> ('a \<Rightarrow> ('s, 'e, 'b) sm) \<Rightarrow> ('s, 'e, 'b) sm" where
  "bind_sm m f s = (case m s of (Inl e, s') \<Rightarrow> (Inl e, s') | (Inr x, s') \<Rightarrow> f x s')"

definition gets_sm :: "('s \<Rightarrow> 'a) \<Rightarrow> ('s, 'e, 'a) sm" where
  "gets_sm f s = (Inr (f s), s)"

definition modify_sm :: "('s \<Rightarrow> 's) \<Rightarrow> ('s, 'e, unit) sm" where
  "modify_sm f s = (Inr (), f s)"

definition lift_sm :: "'e + 'a \<Rightarrow> ('s, 'e, 'a) sm" where
  "lift_sm r s = (r, s)"

text \<open>The \<open>From\<close> conversion of the error at a \<open>?\<close>.\<close>

definition map_err :: "('e \<Rightarrow> 'f) \<Rightarrow> ('s, 'e, 'a) sm \<Rightarrow> ('s, 'f, 'a) sm" where
  "map_err f m s = (case m s of (Inl e, s') \<Rightarrow> (Inl (f e), s') | (Inr x, s') \<Rightarrow> (Inr x, s'))"

text \<open>\<open>begin ... commit\<close>: when the body fails the transaction is dropped, which rolls back.\<close>

definition transaction :: "('s, 'e, 'a) sm \<Rightarrow> ('s, 'e, 'a) sm" where
  "transaction m s = (case m s of (Inl e, s') \<Rightarrow> (Inl e, s) | (Inr x, s') \<Rightarrow> (Inr x, s'))"

primrec for_sm :: "'x list \<Rightarrow> ('x \<Rightarrow> ('s, 'e, unit) sm) \<Rightarrow> ('s, 'e, unit) sm" where
  "for_sm [] f = ret_sm ()"
| "for_sm (x # xs) f = bind_sm (f x) (\<lambda>_. for_sm xs f)"

primrec fold_sm :: "'x list \<Rightarrow> ('x \<Rightarrow> 'b \<Rightarrow> ('s, 'e, 'b) sm) \<Rightarrow> 'b \<Rightarrow> ('s, 'e, 'b) sm" where
  "fold_sm [] f b = ret_sm b"
| "fold_sm (x # xs) f b = bind_sm (f x b) (\<lambda>b'. fold_sm xs f b')"

text \<open>A computation on one part of a larger state.\<close>

definition zoom :: "('s \<Rightarrow> 't) \<Rightarrow> ('t \<Rightarrow> 's \<Rightarrow> 's) \<Rightarrow> ('t, 'e, 'a) sm \<Rightarrow> ('s, 'e, 'a) sm" where
  "zoom g p m s = (case m (g s) of (r, t) \<Rightarrow> (r, p t s))"

lemmas [sm_simps] = ret_sm_def throw_sm_def gets_sm_def modify_sm_def lift_sm_def

lemma bind_sm_ret [simp]: "bind_sm (ret_sm x) f = f x"
  by (rule ext) (simp add: bind_sm_def ret_sm_def)

lemma bind_sm_throw [simp]: "bind_sm (throw_sm e) f = throw_sm e"
  by (rule ext) (simp add: bind_sm_def throw_sm_def)

lemma bind_sm_assoc:
  "bind_sm (bind_sm m f) g = bind_sm m (\<lambda>x. bind_sm (f x) g)"
  by (rule ext) (simp add: bind_sm_def split: prod.split sum.split)

lemma bind_sm_Inr [sm_simps]: "m s = (Inr x, t) \<Longrightarrow> bind_sm m f s = f x t"
  by (simp add: bind_sm_def)

lemma bind_sm_Inl [sm_simps]: "m s = (Inl e, t) \<Longrightarrow> bind_sm m f s = (Inl e, t)"
  by (simp add: bind_sm_def)

lemma bind_sm_gets [simp]: "bind_sm (gets_sm g) f s = f (g s) s"
  by (simp add: bind_sm_def gets_sm_def)

lemma bind_sm_modify [simp]: "bind_sm (modify_sm g) f s = f () (g s)"
  by (simp add: bind_sm_def modify_sm_def)

lemma for_sm_append:
  "for_sm (xs @ ys) f = bind_sm (for_sm xs f) (\<lambda>_. for_sm ys f)"
  by (induction xs) (simp_all add: bind_sm_assoc)

text \<open>A computation that succeeds, step by step.\<close>

lemma ret_sm_Inr: "ret_sm x s = (Inr y, t) \<longleftrightarrow> x = y \<and> s = t"
  by (simp add: ret_sm_def)

lemma map_err_Inr: "map_err f m s = (Inr x, t) \<longleftrightarrow> m s = (Inr x, t)"
  by (auto simp: map_err_def split: prod.splits sum.splits)

lemma bind_sm_Inr_iff: "bind_sm m f s = (Inr y, u) \<longleftrightarrow> (\<exists>x t. m s = (Inr x, t) \<and> f x t = (Inr y, u))"
  by (auto simp: bind_sm_def split: prod.splits sum.splits)

lemma lift_map_sum_Inr: "lift_sm (map_sum f id x) s = (Inr y, t) \<longleftrightarrow> x = Inr y \<and> t = s"
  by (cases x) (auto simp: lift_sm_def)

section \<open>What a computation keeps\<close>

text \<open>\<open>keeps R m\<close>: from every state, whatever the outcome, the state after \<open>m\<close> is
  \<open>R\<close>-related to the state before.\<close>

definition keeps :: "('s \<Rightarrow> 's \<Rightarrow> bool) \<Rightarrow> ('s, 'e, 'a) sm \<Rightarrow> bool" where
  "keeps R m \<longleftrightarrow> (\<forall>s. R s (snd (m s)))"

lemma keepsI: "(\<And>s. R s (snd (m s))) \<Longrightarrow> keeps R m"
  by (simp add: keeps_def)

lemma keepsD: "keeps R m \<Longrightarrow> m s = (r, t) \<Longrightarrow> R s t"
  by (metis keeps_def snd_conv)

text \<open>An interface for every frame: a reflexive and transitive relation between the states
  before and after. The rules below are the client's side; each invariant or isolation
  property of the development interprets it.\<close>

locale frame_rel =
  fixes R :: "'s \<Rightarrow> 's \<Rightarrow> bool"
  assumes R_refl: "R s s"
    and R_trans: "R s t \<Longrightarrow> R t u \<Longrightarrow> R s u"
begin

lemma keeps_ret: "keeps R (ret_sm x)"
  by (simp add: keeps_def ret_sm_def R_refl)

lemma keeps_throw: "keeps R (throw_sm e)"
  by (simp add: keeps_def throw_sm_def R_refl)

lemma keeps_gets: "keeps R (gets_sm f)"
  by (simp add: keeps_def gets_sm_def R_refl)

lemma keeps_lift: "keeps R (lift_sm r)"
  by (simp add: keeps_def lift_sm_def R_refl)

lemma keeps_modify: "(\<And>s. R s (f s)) \<Longrightarrow> keeps R (modify_sm f)"
  by (simp add: keeps_def modify_sm_def)

lemma keeps_bind:
  assumes "keeps R m" and "\<And>x. keeps R (f x)"
  shows "keeps R (bind_sm m f)"
proof (rule keepsI)
  fix s
  obtain r t where m: "m s = (r, t)" by fastforce
  with assms(1) have "R s t" by (rule keepsD)
  moreover have "R t (snd (f x t))" for x
    using assms(2) by (simp add: keeps_def)
  ultimately show "R s (snd (bind_sm m f s))"
    by (cases r) (auto simp: bind_sm_def m intro: R_trans)
qed

lemma keeps_map_err: "keeps R m \<Longrightarrow> keeps R (map_err f m)"
  by (rule keepsI) (auto simp: map_err_def split: prod.split sum.split intro: keepsD)

lemma keeps_transaction: "keeps R m \<Longrightarrow> keeps R (transaction m)"
  by (rule keepsI)
    (auto simp: transaction_def R_refl split: prod.split sum.split intro: keepsD)

lemma keeps_for: "(\<And>x. x \<in> set xs \<Longrightarrow> keeps R (f x)) \<Longrightarrow> keeps R (for_sm xs f)"
  by (induction xs) (auto intro: keeps_ret keeps_bind)

lemma keeps_fold: "(\<And>x b. x \<in> set xs \<Longrightarrow> keeps R (f x b)) \<Longrightarrow> keeps R (fold_sm xs f b)"
  by (induction xs arbitrary: b) (auto intro: keeps_ret keeps_bind)

lemma keeps_if: "keeps R m \<Longrightarrow> keeps R n \<Longrightarrow> keeps R (if b then m else n)"
  by simp

lemmas keeps_rules =
  keeps_ret keeps_throw keeps_gets keeps_lift keeps_bind keeps_map_err keeps_transaction
  keeps_for keeps_fold keeps_if

end

section \<open>Sorting\<close>

text \<open>\<open>std::cmp::Ordering\<close> and \<open>slice::sort_by\<close>. Rust's sort is stable; under a comparator
  that is not a total preorder its result is unspecified, and the model's is the insertion
  sort's.\<close>

datatype ordering = Less | Equal | Greater

definition reverse_ordering :: "ordering \<Rightarrow> ordering" where
  "reverse_ordering c = (case c of Less \<Rightarrow> Greater | Equal \<Rightarrow> Equal | Greater \<Rightarrow> Less)"

fun insert_by :: "('a \<Rightarrow> 'a \<Rightarrow> ordering) \<Rightarrow> 'a \<Rightarrow> 'a list \<Rightarrow> 'a list" where
  "insert_by cmp x [] = [x]"
| "insert_by cmp x (y # ys) =
     (if cmp x y = Greater then y # insert_by cmp x ys else x # y # ys)"

definition sort_by :: "('a \<Rightarrow> 'a \<Rightarrow> ordering) \<Rightarrow> 'a list \<Rightarrow> 'a list" where
  "sort_by cmp xs = foldr (insert_by cmp) xs []"

lemma sort_by_Nil [simp]: "sort_by cmp [] = []"
  by (simp add: sort_by_def)

lemma sort_by_Cons [simp]: "sort_by cmp (x # xs) = insert_by cmp x (sort_by cmp xs)"
  by (simp add: sort_by_def)

lemma mset_insert_by [simp]: "mset (insert_by cmp x xs) = add_mset x (mset xs)"
  by (induction xs) auto

lemma mset_sort_by [simp]: "mset (sort_by cmp xs) = mset xs"
  by (induction xs) auto

lemma set_sort_by [simp]: "set (sort_by cmp xs) = set xs"
  by (metis mset_sort_by set_mset_mset)

lemma length_sort_by [simp]: "length (sort_by cmp xs) = length xs"
  by (metis mset_sort_by size_mset)

lemma mset_map_sort_by: "mset (map f (sort_by cmp xs)) = mset (map f xs)"
  by simp

lemma distinct_map_sort_by [simp]:
  "distinct (map f (sort_by cmp xs)) \<longleftrightarrow> distinct (map f xs)"
  by (metis mset_map_sort_by mset_eq_imp_distinct_iff)

text \<open>The contract of a comparator on the values it meets, and what it buys: the output is
  sorted, and the sort does nothing to a sorted list.\<close>

locale cmp_on =
  fixes cmp :: "'a \<Rightarrow> 'a \<Rightarrow> ordering" and A :: "'a set"
  assumes cmp_total: "x \<in> A \<Longrightarrow> y \<in> A \<Longrightarrow> cmp x y = Greater \<Longrightarrow> cmp y x \<noteq> Greater"
    and cmp_trans: "x \<in> A \<Longrightarrow> y \<in> A \<Longrightarrow> z \<in> A \<Longrightarrow>
      cmp x y \<noteq> Greater \<Longrightarrow> cmp y z \<noteq> Greater \<Longrightarrow> cmp x z \<noteq> Greater"
begin

lemma sorted_insert_by:
  assumes "x \<in> A" "set xs \<subseteq> A" "sorted_wrt (\<lambda>a b. cmp a b \<noteq> Greater) xs"
  shows "sorted_wrt (\<lambda>a b. cmp a b \<noteq> Greater) (insert_by cmp x xs)"
  using assms
proof (induction xs)
  case Nil
  then show ?case by simp
next
  case (Cons y ys)
  have xy: "x \<in> A" "y \<in> A" using Cons.prems by auto
  show ?case
  proof (cases "cmp x y = Greater")
    case True
    then have "cmp y x \<noteq> Greater" using xy cmp_total by blast
    moreover have "set (insert_by cmp x ys) = insert x (set ys)"
      by (metis mset_insert_by set_mset_add_mset_insert set_mset_mset)
    ultimately show ?thesis using True Cons by auto
  next
    case False
    moreover have "cmp x z \<noteq> Greater" if "z \<in> set ys" for z
      using that False xy Cons.prems cmp_trans [of x y z] by auto
    ultimately show ?thesis using Cons.prems by auto
  qed
qed

lemma sorted_sort_by:
  "set xs \<subseteq> A \<Longrightarrow> sorted_wrt (\<lambda>a b. cmp a b \<noteq> Greater) (sort_by cmp xs)"
  by (induction xs) (simp_all add: sorted_insert_by)

lemma sort_by_sorted:
  "sorted_wrt (\<lambda>a b. cmp a b \<noteq> Greater) xs \<Longrightarrow> sort_by cmp xs = xs"
proof (induction xs)
  case (Cons x xs)
  then have "sort_by cmp xs = xs" by simp
  with Cons.prems show ?case by (cases xs) auto
qed simp

end

text \<open>\<open>ORDER BY k\<close> and \<open>sort_by_key\<close>: comparison of keys of a linear order.\<close>

definition key_asc :: "('a \<Rightarrow> 'k::linorder) \<Rightarrow> 'a \<Rightarrow> 'a \<Rightarrow> ordering" where
  "key_asc k a b = (if k a < k b then Less else if k b < k a then Greater else Equal)"

definition key_desc :: "('a \<Rightarrow> 'k::linorder) \<Rightarrow> 'a \<Rightarrow> 'a \<Rightarrow> ordering" where
  "key_desc k a b = key_asc k b a"

lemma key_asc_not_Greater [simp]: "key_asc k a b \<noteq> Greater \<longleftrightarrow> k a \<le> k b"
  by (auto simp: key_asc_def)

lemma key_desc_not_Greater [simp]: "key_desc k a b \<noteq> Greater \<longleftrightarrow> k b \<le> k a"
  by (simp add: key_desc_def)

interpretation key_asc: cmp_on "key_asc k" UNIV for k
  by unfold_locales (auto simp: key_asc_def split: if_splits)

interpretation key_desc: cmp_on "key_desc k" UNIV for k
  by unfold_locales (auto simp: key_desc_def key_asc_def split: if_splits)

lemma sorted_key_asc: "sorted_wrt (\<lambda>a b. k a \<le> k b) (sort_by (key_asc k) xs)"
  using key_asc.sorted_sort_by [of xs k] by simp

lemma sorted_key_desc: "sorted_wrt (\<lambda>a b. k b \<le> k a) (sort_by (key_desc k) xs)"
  using key_desc.sorted_sort_by [of xs k] by simp

section \<open>Tables with a key\<close>

text \<open>A table is the list of its rows in rowid order. \<open>INSERT\<close> of a row whose key is taken
  violates the primary key; \<open>UPDATE ... WHERE\<close> maps, \<open>DELETE ... WHERE\<close> filters, and
  \<open>rows_affected\<close> counts the rows the condition holds for.\<close>

definition tbl_get :: "('r \<Rightarrow> 'k) \<Rightarrow> 'r list \<Rightarrow> 'k \<Rightarrow> 'r option" where
  "tbl_get key t k = find (\<lambda>r. key r = k) t"

definition tbl_insert :: "('r \<Rightarrow> 'k) \<Rightarrow> 'r \<Rightarrow> 'r list \<Rightarrow> 'r list option" where
  "tbl_insert key r t = (if key r \<in> key ` set t then None else Some (t @ [r]))"

definition tbl_update :: "('r \<Rightarrow> bool) \<Rightarrow> ('r \<Rightarrow> 'r) \<Rightarrow> 'r list \<Rightarrow> 'r list" where
  "tbl_update P f t = map (\<lambda>r. if P r then f r else r) t"

definition tbl_delete :: "('r \<Rightarrow> bool) \<Rightarrow> 'r list \<Rightarrow> 'r list" where
  "tbl_delete P t = filter (\<lambda>r. \<not> P r) t"

definition rows_affected :: "('r \<Rightarrow> bool) \<Rightarrow> 'r list \<Rightarrow> nat" where
  "rows_affected P t = length (filter P t)"

text \<open>\<open>LIMIT n\<close>: a negative limit is no limit.\<close>

definition sql_limit :: "int \<Rightarrow> 'a list \<Rightarrow> 'a list" where
  "sql_limit n xs = (if n < 0 then xs else take (nat n) xs)"

text \<open>\<open>OFFSET n\<close>: a negative offset is zero.\<close>

definition sql_offset :: "int \<Rightarrow> 'a list \<Rightarrow> 'a list" where
  "sql_offset n xs = drop (nat n) xs"

definition keyed :: "('r \<Rightarrow> 'k) \<Rightarrow> 'r list \<Rightarrow> bool" where
  "keyed key t \<longleftrightarrow> distinct (map key t)"

lemma keyed_insert: "keyed key t \<Longrightarrow> tbl_insert key r t = Some t' \<Longrightarrow> keyed key t'"
  by (auto simp: keyed_def tbl_insert_def split: if_splits)

lemma map_key_tbl_update [simp]:
  "(\<And>r. P r \<Longrightarrow> key (f r) = key r) \<Longrightarrow> map key (tbl_update P f t) = map key t"
  by (simp add: tbl_update_def)

lemma set_tbl_update: "set (tbl_update P f t) = (\<lambda>r. if P r then f r else r) ` set t"
  by (simp add: tbl_update_def)

lemma length_tbl_update [simp]: "length (tbl_update P f t) = length t"
  by (simp add: tbl_update_def)

lemma set_tbl_delete [simp]: "set (tbl_delete P t) = {r \<in> set t. \<not> P r}"
  by (auto simp: tbl_delete_def)

lemma keyed_update:
  "keyed key t \<Longrightarrow> (\<And>r. P r \<Longrightarrow> key (f r) = key r) \<Longrightarrow> keyed key (tbl_update P f t)"
  by (simp add: keyed_def)

lemma keyed_delete: "keyed key t \<Longrightarrow> keyed key (tbl_delete P t)"
  by (simp add: keyed_def tbl_delete_def distinct_map_filter)

lemma tbl_get_Some: "tbl_get key t k = Some r \<Longrightarrow> r \<in> set t \<and> key r = k"
  by (auto simp: tbl_get_def find_Some_iff)

lemma tbl_get_None: "tbl_get key t k = None \<longleftrightarrow> k \<notin> key ` set t"
  by (auto simp: tbl_get_def find_None_iff)

lemma tbl_get_eq_Some:
  "keyed key t \<Longrightarrow> tbl_get key t k = Some r \<longleftrightarrow> r \<in> set t \<and> key r = k"
proof (induction t)
  case (Cons a t)
  then show ?case by (auto simp: tbl_get_def keyed_def)
qed (simp add: tbl_get_def)

lemma tbl_get_append:
  "tbl_get key (t @ u) k =
     (case tbl_get key t k of Some r \<Rightarrow> Some r | None \<Rightarrow> tbl_get key u k)"
  by (induction t) (auto simp: tbl_get_def)

lemma tbl_get_insert:
  assumes "tbl_insert key r t = Some t'"
  shows "tbl_get key t' k = (if k = key r then Some r else tbl_get key t k)"
proof -
  have t': "t' = t @ [r]" and new: "key r \<notin> key ` set t"
    using assms by (auto simp: tbl_insert_def split: if_splits)
  then have "tbl_get key t (key r) = None" by (simp add: tbl_get_None)
  then show ?thesis
    by (auto simp: t' tbl_get_append split: option.split) (auto simp: tbl_get_def)
qed

lemma tbl_get_update:
  "(\<And>r. P r \<Longrightarrow> key (f r) = key r) \<Longrightarrow>
   tbl_get key (tbl_update P f t) k =
     map_option (\<lambda>r. if P r then f r else r) (tbl_get key t k)"
  by (induction t) (auto simp: tbl_get_def tbl_update_def)

lemma tbl_get_delete:
  "keyed key t \<Longrightarrow> tbl_get key (tbl_delete P t) k =
     (case tbl_get key t k of Some r \<Rightarrow> if P r then None else Some r | None \<Rightarrow> None)"
proof (induction t)
  case (Cons a t)
  then have IH: "tbl_get key (tbl_delete P t) k =
      (case tbl_get key t k of Some r \<Rightarrow> if P r then None else Some r | None \<Rightarrow> None)"
    and a: "key a \<notin> key ` set t"
    by (auto simp: keyed_def)
  have "tbl_get key t (key a) = None" using a by (simp add: tbl_get_None)
  with IH show ?case by (auto simp: tbl_get_def tbl_delete_def)
qed (simp add: tbl_get_def tbl_delete_def)

lemma rows_affected_le_1:
  assumes "keyed key t"
  shows "rows_affected (\<lambda>r. key r = k \<and> P r) t \<le> 1"
proof -
  have "\<forall>x\<in>set (filter (\<lambda>r. key r = k \<and> P r) t).
          \<forall>y\<in>set (filter (\<lambda>r. key r = k \<and> P r) t). x = y"
    using assms by (auto simp: keyed_def distinct_map dest: inj_onD)
  then have "card (set (filter (\<lambda>r. key r = k \<and> P r) t)) \<le> 1"
    using card_le_Suc0_iff_eq [of "set (filter (\<lambda>r. key r = k \<and> P r) t)"] by simp
  moreover have "distinct (filter (\<lambda>r. key r = k \<and> P r) t)"
    using assms by (simp add: keyed_def distinct_map)
  ultimately show ?thesis unfolding rows_affected_def by (metis distinct_card)
qed

lemma rows_affected_pos: "0 < rows_affected P t \<longleftrightarrow> (\<exists>r \<in> set t. P r)"
  by (auto simp: rows_affected_def filter_empty_conv)

text \<open>The interface of a table with a primary key, as its clients use it: an insertion under a
  free key succeeds and is found, one under a taken key fails and changes nothing. \<open>I\<close> is
  the invariant the provider needs.\<close>

locale row_store =
  fixes look :: "'s \<Rightarrow> 'k \<Rightarrow> 'r option" and key :: "'r \<Rightarrow> 'k"
    and ins :: "'r \<Rightarrow> ('s, 'e, unit) sm" and I :: "'s \<Rightarrow> bool" and ok :: "'r \<Rightarrow> bool"
  assumes ins_fresh: "I s \<Longrightarrow> ok r \<Longrightarrow> look s (key r) = None \<Longrightarrow>
      \<exists>s'. ins r s = (Inr (), s') \<and> I s' \<and> (\<forall>k. look s' k = (if k = key r then Some r else look s k))"
    and ins_taken: "look s (key r) \<noteq> None \<Longrightarrow> \<exists>e. ins r s = (Inl e, s)"
begin

lemma ins_succeeds: "I s \<Longrightarrow> ok r \<Longrightarrow> ins r s = (res, s') \<Longrightarrow>
   (res = Inr () \<longleftrightarrow> look s (key r) = None)"
  using ins_fresh [of s r] ins_taken [of s r] by (cases "look s (key r)") auto

lemma ins_look: "I s \<Longrightarrow> ok r \<Longrightarrow> ins r s = (Inr (), s') \<Longrightarrow>
   look s' k = (if k = key r then Some r else look s k)"
  using ins_fresh [of s r] ins_succeeds [of s r "Inr ()" s'] by auto

lemma ins_twice: "I s \<Longrightarrow> ok r \<Longrightarrow> ins r s = (Inr (), s') \<Longrightarrow> key r' = key r \<Longrightarrow>
   \<exists>e. ins r' s' = (Inl e, s')"
  using ins_look [of s r s' "key r"] ins_taken [of s' r'] by simp

text \<open>A batch under distinct free keys is inserted whole.\<close>

lemma ins_all:
  assumes "I s" "\<forall>r \<in> set rs. ok r" "distinct (map key rs)" "\<forall>r \<in> set rs. look s (key r) = None"
  shows "\<exists>s'. for_sm rs ins s = (Inr (), s') \<and> I s' \<and> (\<forall>r \<in> set rs. look s' (key r) = Some r)
    \<and> (\<forall>k. k \<notin> key ` set rs \<longrightarrow> look s' k = look s k)"
  using assms
proof (induction rs arbitrary: s)
  case Nil
  then show ?case by (simp add: ret_sm_def)
next
  case (Cons r rs)
  obtain s1 where s1: "ins r s = (Inr (), s1)" "I s1"
    "\<And>k. look s1 k = (if k = key r then Some r else look s k)"
    using ins_fresh [of s r] Cons.prems by auto
  have free: "look s1 (key x) = None" if "x \<in> set rs" for x
  proof -
    have "key x \<noteq> key r" using that Cons.prems(3) by (metis distinct.simps(2) image_eqI list.simps(9) set_map)
    then show ?thesis using that s1(3) Cons.prems(4) by simp
  qed
  then obtain s2 where s2: "for_sm rs ins s1 = (Inr (), s2)" "I s2"
    "\<forall>x \<in> set rs. look s2 (key x) = Some x" "\<forall>k. k \<notin> key ` set rs \<longrightarrow> look s2 k = look s1 k"
    using Cons.IH [OF s1(2)] Cons.prems by auto
  moreover have "look s2 (key r) = Some r"
    using s2(4) s1(3) Cons.prems(3) by simp
  ultimately show ?case using s1 by (auto simp: bind_sm_Inr [where m = "ins r"])
qed

end

text \<open>The interface of a write-once cache: a key that is absent takes the value, a key that is
  present keeps it, whatever is put later.\<close>

locale write_once =
  fixes look :: "'s \<Rightarrow> 'k \<Rightarrow> 'v option" and put :: "'k \<Rightarrow> 'v \<Rightarrow> 's \<Rightarrow> 's"
  assumes put_new: "look s k = None \<Longrightarrow> look (put k v s) k = Some v"
    and put_keeps: "look s k = Some w \<Longrightarrow> look (put k' v s) k = Some w"
begin

lemma put_present: "\<exists>w. look (put k v s) k = Some w"
  using put_new [of s k v] put_keeps [of s k] by (cases "look s k") auto

lemma put_stable: "look s k = Some w \<Longrightarrow> look (fold (\<lambda>(k', v). put k' v) ps s) k = Some w"
  by (induction ps arbitrary: s) (auto simp: put_keeps)

end

section \<open>Strings\<close>

text \<open>A Rust string is the list of its characters; HOL's \<open>char\<close> is the first 256 of them.\<close>

definition starts_with :: "string \<Rightarrow> string \<Rightarrow> bool" where
  "starts_with s p \<longleftrightarrow> take (length p) s = p"

fun find_str :: "string \<Rightarrow> string \<Rightarrow> nat option" where
  "find_str [] p = (if p = [] then Some 0 else None)"
| "find_str (c # s) p =
     (if starts_with (c # s) p then Some 0 else map_option Suc (find_str s p))"

definition contains_str :: "string \<Rightarrow> string \<Rightarrow> bool" where
  "contains_str s p \<longleftrightarrow> find_str s p \<noteq> None"

definition strip_prefix :: "string \<Rightarrow> string \<Rightarrow> string option" where
  "strip_prefix p s = (if starts_with s p then Some (drop (length p) s) else None)"

fun join_str :: "string \<Rightarrow> string list \<Rightarrow> string" where
  "join_str sep [] = []"
| "join_str sep [x] = x"
| "join_str sep (x # y # xs) = x @ sep @ join_str sep (y # xs)"

text \<open>\<open>char::is_whitespace\<close> below U+0100: U+0009 to U+000D, space, U+0085, U+00A0.\<close>

definition is_whitespace :: "char \<Rightarrow> bool" where
  "is_whitespace c = (let n = of_char c :: nat in (9 \<le> n \<and> n \<le> 13) \<or> n = 32 \<or> n = 133 \<or> n = 160)"

definition trim_start :: "string \<Rightarrow> string" where
  "trim_start s = dropWhile is_whitespace s"

definition trim_end :: "string \<Rightarrow> string" where
  "trim_end s = rev (dropWhile is_whitespace (rev s))"

definition trim_str :: "string \<Rightarrow> string" where
  "trim_str s = trim_end (trim_start s)"

lemma starts_with_length: "starts_with s p \<Longrightarrow> length p \<le> length s"
  by (metis starts_with_def length_take min.cobounded1)

lemma find_str_bound: "find_str s p = Some n \<Longrightarrow> n + length p \<le> length s"
  by (induction s arbitrary: n) (auto dest: starts_with_length split: if_splits)

lemma find_str_occurs: "find_str s p = Some n \<Longrightarrow> starts_with (drop n s) p"
  by (induction s arbitrary: n) (auto simp: starts_with_def split: if_splits)

lemma find_str_first: "find_str s p = Some n \<Longrightarrow> m < n \<Longrightarrow> \<not> starts_with (drop m s) p"
proof (induction s arbitrary: n m)
  case (Cons c s)
  then show ?case by (cases m) (auto split: if_splits)
qed (auto split: if_splits)

lemma starts_with_append [simp]: "starts_with (p @ s) p"
  by (simp add: starts_with_def)

section \<open>Integers at their width\<close>

text \<open>Casts and wrapping arithmetic of the release build, on the values they produce.\<close>

definition wrap_u64 :: "int \<Rightarrow> nat" where
  "wrap_u64 n = nat (n mod 2 ^ 64)"

definition as_i64 :: "int \<Rightarrow> int" where
  "as_i64 n = (n + 2 ^ 63) mod 2 ^ 64 - 2 ^ 63"

lemma as_i64_id: "- (2 ^ 63) \<le> n \<Longrightarrow> n < 2 ^ 63 \<Longrightarrow> as_i64 n = n"
  by (simp add: as_i64_def)

lemma as_i64_range: "- (2 ^ 63) \<le> as_i64 n \<and> as_i64 n < 2 ^ 63"
  by (simp add: as_i64_def pos_mod_bound [of "2 ^ 64" "n + 2 ^ 63"]
      pos_mod_sign [of "2 ^ 64" "n + 2 ^ 63"])

lemma wrap_u64_id: "0 \<le> n \<Longrightarrow> n < 2 ^ 64 \<Longrightarrow> wrap_u64 n = nat n"
  by (simp add: wrap_u64_def)

end
