(* ===== verification/Rust_Float.thy ===== *)
theory Rust_Float
  imports CM_Prelude "HOL-Library.Word"
begin

text \<open>
  Rust's \<open>f32\<close> and \<open>f64\<close> as the code uses them. A value is a real number, an infinity or
  NaN; the operations follow IEEE 754 on the special values and are exact on the real ones
  (rounding and overflow of finite results are not modelled, and the two zeros are one).
  Stored embeddings are bit patterns: \<open>f32\<close> is a 32-bit word, \<open>f32_val\<close> decodes it, and
  \<open>to_le_bytes\<close>/\<open>from_le_bytes\<close> are the byte order of the embedding blobs.
\<close>

unbundle bit_operations_syntax

named_theorems fl_simps \<open>float operations on finite values\<close>

section \<open>Values and operations\<close>

datatype fl = Fin real | PInf | NInf | NaN

fun f_neg :: "fl \<Rightarrow> fl" where
  "f_neg (Fin a) = Fin (- a)"
| "f_neg PInf = NInf"
| "f_neg NInf = PInf"
| "f_neg NaN = NaN"

fun f_add :: "fl \<Rightarrow> fl \<Rightarrow> fl" where
  "f_add NaN _ = NaN"
| "f_add _ NaN = NaN"
| "f_add (Fin a) (Fin b) = Fin (a + b)"
| "f_add PInf NInf = NaN"
| "f_add NInf PInf = NaN"
| "f_add PInf _ = PInf"
| "f_add _ PInf = PInf"
| "f_add NInf _ = NInf"
| "f_add _ NInf = NInf"

text \<open>The sign of an infinite product or quotient; a zero factor makes it NaN.\<close>

definition inf_of_sign :: "real \<Rightarrow> fl" where
  "inf_of_sign s = (if s > 0 then PInf else if s < 0 then NInf else NaN)"

fun f_sgn :: "fl \<Rightarrow> real" where
  "f_sgn (Fin a) = sgn a"
| "f_sgn PInf = 1"
| "f_sgn NInf = - 1"
| "f_sgn NaN = 0"

definition f_mul :: "fl \<Rightarrow> fl \<Rightarrow> fl" where
  "f_mul x y = (case (x, y) of
      (NaN, _) \<Rightarrow> NaN
    | (_, NaN) \<Rightarrow> NaN
    | (Fin a, Fin b) \<Rightarrow> Fin (a * b)
    | _ \<Rightarrow> inf_of_sign (f_sgn x * f_sgn y))"

definition f_div :: "fl \<Rightarrow> fl \<Rightarrow> fl" where
  "f_div x y = (case (x, y) of
      (NaN, _) \<Rightarrow> NaN
    | (_, NaN) \<Rightarrow> NaN
    | (Fin a, Fin b) \<Rightarrow> if b = 0 then inf_of_sign (sgn a) else Fin (a / b)
    | (Fin a, _) \<Rightarrow> Fin 0
    | (_, Fin b) \<Rightarrow> inf_of_sign (f_sgn x * (if b = 0 then 1 else sgn b))
    | _ \<Rightarrow> NaN)"

fun f_sqrt :: "fl \<Rightarrow> fl" where
  "f_sqrt (Fin a) = (if a < 0 then NaN else Fin (sqrt a))"
| "f_sqrt PInf = PInf"
| "f_sqrt _ = NaN"

fun f_exp :: "fl \<Rightarrow> fl" where
  "f_exp (Fin a) = Fin (exp a)"
| "f_exp PInf = PInf"
| "f_exp NInf = Fin 0"
| "f_exp NaN = NaN"

text \<open>\<open>x.powf(y)\<close> for a finite exponent \<open>y\<close>.\<close>

definition f_powf :: "fl \<Rightarrow> real \<Rightarrow> fl" where
  "f_powf x y = (if y = 0 then Fin 1 else case x of
      NaN \<Rightarrow> NaN
    | PInf \<Rightarrow> if y < 0 then Fin 0 else PInf
    | NInf \<Rightarrow> if y < 0 then Fin 0
              else if y \<in> \<int> \<and> odd \<lfloor>y\<rfloor> then NInf else PInf
    | Fin a \<Rightarrow>
        if a > 0 then Fin (a powr y)
        else if a = 0 then (if y < 0 then PInf else Fin 0)
        else if y \<in> \<int> then Fin (if odd \<lfloor>y\<rfloor> then - (\<bar>a\<bar> powr y) else \<bar>a\<bar> powr y)
        else NaN)"

text \<open>Comparisons are false on NaN; \<open>partial_cmp\<close> is then \<open>None\<close>.\<close>

fun f_lt :: "fl \<Rightarrow> fl \<Rightarrow> bool" where
  "f_lt (Fin a) (Fin b) = (a < b)"
| "f_lt NaN _ = False"
| "f_lt _ NaN = False"
| "f_lt _ NInf = False"
| "f_lt PInf _ = False"
| "f_lt NInf _ = True"
| "f_lt _ PInf = True"

fun f_eq :: "fl \<Rightarrow> fl \<Rightarrow> bool" where
  "f_eq (Fin a) (Fin b) = (a = b)"
| "f_eq PInf PInf = True"
| "f_eq NInf NInf = True"
| "f_eq _ _ = False"

definition f_le :: "fl \<Rightarrow> fl \<Rightarrow> bool" where
  "f_le x y \<longleftrightarrow> f_lt x y \<or> f_eq x y"

definition partial_cmp :: "fl \<Rightarrow> fl \<Rightarrow> ordering option" where
  "partial_cmp x y =
     (if x = NaN \<or> y = NaN then None
      else Some (if f_lt x y then Less else if f_lt y x then Greater else Equal))"

text \<open>\<open>f64::max\<close> and \<open>f64::min\<close> return the other argument when one is NaN.\<close>

definition f_max :: "fl \<Rightarrow> fl \<Rightarrow> fl" where
  "f_max x y = (if x = NaN then y else if y = NaN then x else if f_lt x y then y else x)"

definition f_min :: "fl \<Rightarrow> fl \<Rightarrow> fl" where
  "f_min x y = (if x = NaN then y else if y = NaN then x else if f_lt y x then y else x)"

definition is_infinite :: "fl \<Rightarrow> bool" where
  "is_infinite x \<longleftrightarrow> x = PInf \<or> x = NInf"

definition is_finite :: "fl \<Rightarrow> bool" where
  "is_finite x \<longleftrightarrow> (\<exists>a. x = Fin a)"

section \<open>Operations on finite values\<close>

lemma f_mul_Fin [simp, fl_simps]: "f_mul (Fin a) (Fin b) = Fin (a * b)"
  by (simp add: f_mul_def)

lemma f_mul_NaN [simp, fl_simps]: "f_mul NaN x = NaN" "f_mul x NaN = NaN"
  by (simp_all add: f_mul_def split: fl.split)

lemma f_mul_PInf [simp, fl_simps]:
  "f_mul (Fin a) PInf = inf_of_sign a" "f_mul PInf (Fin a) = inf_of_sign a"
  "f_mul (Fin a) NInf = inf_of_sign (- a)" "f_mul NInf (Fin a) = inf_of_sign (- a)"
  by (auto simp: f_mul_def inf_of_sign_def sgn_real_def)

lemma f_div_Fin [simp, fl_simps]: "b \<noteq> 0 \<Longrightarrow> f_div (Fin a) (Fin b) = Fin (a / b)"
  by (simp add: f_div_def)

lemma f_div_zero [fl_simps]: "f_div (Fin a) (Fin 0) = inf_of_sign a"
  by (simp add: f_div_def inf_of_sign_def sgn_real_def)

lemma f_div_NaN [simp, fl_simps]: "f_div NaN x = NaN" "f_div x NaN = NaN"
  by (simp_all add: f_div_def split: fl.split)

lemma f_div_inf [simp, fl_simps]: "f_div (Fin a) PInf = Fin 0" "f_div (Fin a) NInf = Fin 0"
  by (simp_all add: f_div_def)

lemma f_powf_Fin [simp, fl_simps]: "0 < a \<Longrightarrow> f_powf (Fin a) y = Fin (a powr y)"
  by (simp add: f_powf_def)

lemma f_powf_zero [simp, fl_simps]: "0 < y \<Longrightarrow> f_powf (Fin 0) y = Fin 0"
  by (simp add: f_powf_def)

lemma f_le_Fin [simp, fl_simps]: "f_le (Fin a) (Fin b) \<longleftrightarrow> a \<le> b"
  by (auto simp: f_le_def)

lemma f_le_NaN [simp, fl_simps]: "\<not> f_le NaN x" "\<not> f_le x NaN"
  by (cases x; simp add: f_le_def)+

lemma f_max_Fin [simp, fl_simps]: "f_max (Fin a) (Fin b) = Fin (max a b)"
  by (simp add: f_max_def)

lemma f_max_NaN [simp, fl_simps]: "f_max NaN x = x" "f_max x NaN = x"
  by (simp_all add: f_max_def)

lemma f_max_PInf [simp, fl_simps]: "f_max PInf (Fin a) = PInf"
  by (simp add: f_max_def)

lemma f_max_NInf [simp, fl_simps]: "f_max NInf (Fin a) = Fin a"
  by (simp add: f_max_def)

lemma f_min_Fin [simp, fl_simps]: "f_min (Fin a) (Fin b) = Fin (min a b)"
  by (auto simp: f_min_def)

lemma f_min_NaN [simp, fl_simps]: "f_min NaN x = x" "f_min x NaN = x"
  by (simp_all add: f_min_def)

lemma f_min_PInf_le: "f_min x (Fin a) = Fin b \<Longrightarrow> b \<le> a"
  by (cases x) (auto simp: f_min_def split: if_splits)

lemma is_infinite_simps [simp]:
  "\<not> is_infinite (Fin a)" "is_infinite PInf" "is_infinite NInf" "\<not> is_infinite NaN"
  by (simp_all add: is_infinite_def)

lemma is_finite_simps [simp]:
  "is_finite (Fin a)" "\<not> is_finite PInf" "\<not> is_finite NInf" "\<not> is_finite NaN"
  by (simp_all add: is_finite_def)

lemma partial_cmp_Fin [simp, fl_simps]:
  "partial_cmp (Fin a) (Fin b) = Some (if a < b then Less else if b < a then Greater else Equal)"
  by (simp add: partial_cmp_def)

text \<open>Off NaN the float order is a total preorder, so sorting by it meets the contract of
  \<open>sort_by\<close>. The comparator below is the descending one of the search results.\<close>

lemma f_lt_trans: "f_lt x y \<Longrightarrow> f_lt y z \<Longrightarrow> f_lt x z"
  by (cases x; cases y; cases z) auto

lemma f_lt_irrefl [simp]: "\<not> f_lt x x"
  by (cases x) auto

lemma f_not_lt_trans: "y \<noteq> NaN \<Longrightarrow> \<not> f_lt x y \<Longrightarrow> \<not> f_lt y z \<Longrightarrow> \<not> f_lt x z"
  by (cases x; cases y; cases z) auto

lemma f_lt_asym: "f_lt x y \<Longrightarrow> \<not> f_lt y x"
  by (cases x; cases y) auto

lemma f_le_not_lt: "x \<noteq> NaN \<Longrightarrow> y \<noteq> NaN \<Longrightarrow> f_le x y \<longleftrightarrow> \<not> f_lt y x"
  by (cases x; cases y) (auto simp: f_le_def)

definition cmp_desc :: "('a \<Rightarrow> fl) \<Rightarrow> 'a \<Rightarrow> 'a \<Rightarrow> ordering" where
  "cmp_desc score a b = (case partial_cmp (score b) (score a) of Some c \<Rightarrow> c | None \<Rightarrow> Equal)"

definition cmp_asc :: "('a \<Rightarrow> fl) \<Rightarrow> 'a \<Rightarrow> 'a \<Rightarrow> ordering" where
  "cmp_asc score a b = (case partial_cmp (score a) (score b) of Some c \<Rightarrow> c | None \<Rightarrow> Equal)"

lemma cmp_desc_not_Greater:
  "score a \<noteq> NaN \<Longrightarrow> score b \<noteq> NaN \<Longrightarrow> cmp_desc score a b \<noteq> Greater \<longleftrightarrow> f_le (score b) (score a)"
  by (auto simp: cmp_desc_def partial_cmp_def f_le_not_lt dest: f_lt_asym)

lemma cmp_asc_not_Greater:
  "score a \<noteq> NaN \<Longrightarrow> score b \<noteq> NaN \<Longrightarrow> cmp_asc score a b \<noteq> Greater \<longleftrightarrow> f_le (score a) (score b)"
  by (auto simp: cmp_asc_def partial_cmp_def f_le_not_lt dest: f_lt_asym)

lemma f_le_trans: "f_le x y \<Longrightarrow> f_le y z \<Longrightarrow> f_le x z"
  by (cases x; cases y; cases z) (auto simp: f_le_def)

lemma f_le_total: "x \<noteq> NaN \<Longrightarrow> y \<noteq> NaN \<Longrightarrow> f_le x y \<or> f_le y x"
  by (cases x; cases y) (auto simp: f_le_def)

interpretation desc: cmp_on "cmp_desc score" "{a. score a \<noteq> NaN}" for score
proof
  fix x y
  assume "x \<in> {a. score a \<noteq> NaN}" "y \<in> {a. score a \<noteq> NaN}" "cmp_desc score x y = Greater"
  then show "cmp_desc score y x \<noteq> Greater"
    using cmp_desc_not_Greater [of score x y] cmp_desc_not_Greater [of score y x]
      f_le_total [of "score x" "score y"] by auto
next
  fix x y z
  assume "x \<in> {a. score a \<noteq> NaN}" "y \<in> {a. score a \<noteq> NaN}" "z \<in> {a. score a \<noteq> NaN}"
    "cmp_desc score x y \<noteq> Greater" "cmp_desc score y z \<noteq> Greater"
  then show "cmp_desc score x z \<noteq> Greater"
    by (simp add: cmp_desc_not_Greater) (blast intro: f_le_trans)
qed

interpretation asc: cmp_on "cmp_asc score" "{a. score a \<noteq> NaN}" for score
proof
  fix x y
  assume "x \<in> {a. score a \<noteq> NaN}" "y \<in> {a. score a \<noteq> NaN}" "cmp_asc score x y = Greater"
  then show "cmp_asc score y x \<noteq> Greater"
    using cmp_asc_not_Greater [of score x y] cmp_asc_not_Greater [of score y x]
      f_le_total [of "score x" "score y"] by auto
next
  fix x y z
  assume "x \<in> {a. score a \<noteq> NaN}" "y \<in> {a. score a \<noteq> NaN}" "z \<in> {a. score a \<noteq> NaN}"
    "cmp_asc score x y \<noteq> Greater" "cmp_asc score y z \<noteq> Greater"
  then show "cmp_asc score x z \<noteq> Greater"
    by (simp add: cmp_asc_not_Greater) (blast intro: f_le_trans)
qed

section \<open>Bit patterns\<close>

type_synonym f32 = "32 word"
type_synonym byte = "8 word"

definition f32_val :: "f32 \<Rightarrow> fl" where
  "f32_val w =
     (let neg = bit w 31;
          e = unat (take_bit 8 (drop_bit 23 w));
          m = unat (take_bit 23 w)
      in if e = 255 then (if m \<noteq> 0 then NaN else if neg then NInf else PInf)
         else let v = (if e = 0 then real m / 2 ^ 149
                       else real ((8388608 + m) * 2 ^ e) / 2 ^ 150)
              in Fin (if neg then - v else v))"

definition to_le_bytes :: "f32 \<Rightarrow> byte list" where
  "to_le_bytes w =
     [ucast w, ucast (drop_bit 8 w), ucast (drop_bit 16 w), ucast (drop_bit 24 w)]"

definition from_le_bytes :: "byte \<Rightarrow> byte \<Rightarrow> byte \<Rightarrow> byte \<Rightarrow> f32" where
  "from_le_bytes a b c d =
     ucast a OR push_bit 8 (ucast b) OR push_bit 16 (ucast c) OR push_bit 24 (ucast d)"

text \<open>\<open>bytes.chunks_exact(4).map(f32::from_le_bytes)\<close>: a short last chunk is dropped.\<close>

fun decode_f32s :: "byte list \<Rightarrow> f32 list" where
  "decode_f32s (a # b # c # d # bs) = from_le_bytes a b c d # decode_f32s bs"
| "decode_f32s _ = []"

definition encode_f32s :: "f32 list \<Rightarrow> byte list" where
  "encode_f32s v = concat (map to_le_bytes v)"

lemma from_to_le_bytes [simp]:
  "from_le_bytes (ucast w) (ucast (drop_bit 8 w)) (ucast (drop_bit 16 w)) (ucast (drop_bit 24 w)) = w"
proof (rule bit_word_eqI)
  fix n
  assume "n < LENGTH(32)"
  then have "n < 8 \<or> (8 \<le> n \<and> n < 16) \<or> (16 \<le> n \<and> n < 24) \<or> (24 \<le> n \<and> n < 32)"
    by auto
  then show "bit (from_le_bytes (ucast w) (ucast (drop_bit 8 w)) (ucast (drop_bit 16 w))
      (ucast (drop_bit 24 w))) n = bit w n"
    by (auto simp: from_le_bytes_def bit_simps)
qed

lemma decode_encode_f32s [simp]: "decode_f32s (encode_f32s v) = v"
  by (induction v) (simp_all add: encode_f32s_def to_le_bytes_def)

lemma length_encode_f32s [simp]: "length (encode_f32s v) = 4 * length v"
  by (induction v) (simp_all add: encode_f32s_def to_le_bytes_def)

lemma length_decode_f32s: "length (decode_f32s bs) = length bs div 4"
  by (induction bs rule: decode_f32s.induct) auto

lemma f32_val_one: "f32_val 1065353216 = Fin 1"
  by (simp add: f32_val_def Let_def)

lemma f32_val_zero: "f32_val 0 = Fin 0"
  by (simp add: f32_val_def Let_def)

end
