(* ===== verification/Lifecycle.thy ===== *)
theory Lifecycle
  imports Rust_Float
begin

text \<open>
  The lifecycle crate (\<open>crates/lifecycle/src/lib.rs\<close>): the decay model, the retrieval
  boosts and the promotion of a memory to core. Configuration parameters, stability,
  importance, floor and association weights are real numbers; the base decay rate may be
  infinite, and a computed retention or score is a float (\<open>fl\<close>), because a division by zero
  or an overflowing power of a hostile parameter is one. Timestamps are unix seconds.
\<close>

section \<open>Configuration\<close>

datatype decay_model = Exponential | Power

record lifecycle_config =
  decay_model :: decay_model
  retrieval_score_exponent :: real
  power_decay_gamma :: real
  direct_boost :: real
  associative_boost :: real
  spaced_rep_interval_days :: real
  max_spaced_rep_multiplier :: real
  core_access_threshold :: nat
  core_stability_threshold :: real
  core_session_threshold :: nat
  association_decay_constant_days :: real
  base_decay_rates :: "string \<rightharpoonup> fl"

definition default_base_decay_rates :: "string \<rightharpoonup> fl" where
  "default_base_decay_rates =
     [''episodic'' \<mapsto> Fin 45, ''semantic'' \<mapsto> Fin 240, ''core'' \<mapsto> Fin 120, ''procedural'' \<mapsto> PInf]"

definition default_lifecycle_config :: lifecycle_config where
  "default_lifecycle_config = \<lparr>
     decay_model = Exponential,
     retrieval_score_exponent = 3 / 10,
     power_decay_gamma = 7 / 10,
     direct_boost = 1 / 10,
     associative_boost = 5 / 100,
     spaced_rep_interval_days = 7,
     max_spaced_rep_multiplier = 2,
     core_access_threshold = 10,
     core_stability_threshold = 85 / 100,
     core_session_threshold = 2,
     association_decay_constant_days = 90,
     base_decay_rates = default_base_decay_rates\<rparr>"

definition beta_for :: "lifecycle_config \<Rightarrow> string \<Rightarrow> fl" where
  "beta_for cfg category =
     (case base_decay_rates cfg category of Some b \<Rightarrow> b | None \<Rightarrow> Fin 120)"

section \<open>The lifecycle view of a memory\<close>

datatype category = Episodic | Semantic | Procedural | Core

record memory_state =
  last_accessed_at :: int
  created_at :: int
  stability :: real
  importance :: real
  base_decay_rate :: fl
  floor_of :: real
  is_stub :: bool
  access_count :: nat
  session_count :: nat
  category_of :: category

definition parse_category :: "string \<Rightarrow> category" where
  "parse_category s =
     (if s = ''episodic'' then Episodic
      else if s = ''semantic'' then Semantic
      else if s = ''procedural'' then Procedural
      else if s = ''core'' then Core
      else Semantic)"

definition dt_days :: "int \<Rightarrow> int \<Rightarrow> real" where
  "dt_days now t0 = real_of_int (max 0 (now - t0)) / 86400"

definition decay_association_weight :: "real \<Rightarrow> int \<Rightarrow> int \<Rightarrow> real \<Rightarrow> fl" where
  "decay_association_weight stored_weight last_co_retrieval now tau_days =
     f_mul (Fin stored_weight)
       (f_exp (f_div (f_neg (Fin (dt_days now last_co_retrieval))) (Fin tau_days)))"

definition stability_from_importance :: "real \<Rightarrow> real" where
  "stability_from_importance imp = 1 / 10 + 3 / 10 * imp"

definition session_root :: "string \<Rightarrow> string" where
  "session_root sid =
     (case find_str sid ''_perspective_'' of Some idx \<Rightarrow> take idx sid | None \<Rightarrow> sid)"

definition base_decay_rate_for_category :: "string \<Rightarrow> fl" where
  "base_decay_rate_for_category category =
     (if category = ''episodic'' then Fin 45
      else if category = ''semantic'' then Fin 120
      else if category = ''core'' then Fin 120
      else if category = ''procedural'' then PInf
      else Fin 120)"

section \<open>Retention and score\<close>

definition effective_rate :: "memory_state \<Rightarrow> fl" where
  "effective_rate m =
     f_mul (Fin (max (stability m) (1 / 100) * min (1 + importance m * 2) 3)) (base_decay_rate m)"

definition raw_retention :: "lifecycle_config \<Rightarrow> real \<Rightarrow> fl \<Rightarrow> fl" where
  "raw_retention cfg dt rate =
     (case decay_model cfg of
        Exponential \<Rightarrow> f_exp (f_div (f_neg (Fin dt)) rate)
      | Power \<Rightarrow> f_powf (f_add (Fin 1) (f_div (Fin dt) rate)) (- power_decay_gamma cfg))"

definition compute_retention :: "memory_state \<Rightarrow> int \<Rightarrow> lifecycle_config \<Rightarrow> fl" where
  "compute_retention m now cfg =
     (if is_stub m then Fin 0
      else if is_infinite (base_decay_rate m) then Fin 1
      else f_max (raw_retention cfg (dt_days now (last_accessed_at m)) (effective_rate m))
                 (Fin (floor_of m)))"

definition score_memory :: "memory_state \<Rightarrow> fl \<Rightarrow> int \<Rightarrow> lifecycle_config \<Rightarrow> fl" where
  "score_memory m relevance now cfg =
     f_mul relevance (f_powf (compute_retention m now cfg) (retrieval_score_exponent cfg))"

section \<open>Boosts and promotion\<close>

text \<open>\<open>max_mult.min(dt / interval)\<close>: \<open>dt\<close> is not negative, so the quotient is finite or the
  zero interval made it infinite or NaN, and then \<open>min\<close> is the cap.\<close>

definition spaced_rep_factor :: "memory_state \<Rightarrow> int \<Rightarrow> lifecycle_config \<Rightarrow> real" where
  "spaced_rep_factor m now cfg =
     (case f_min (Fin (max_spaced_rep_multiplier cfg))
             (f_div (Fin (dt_days now (last_accessed_at m))) (Fin (spaced_rep_interval_days cfg))) of
        Fin r \<Rightarrow> r | _ \<Rightarrow> max_spaced_rep_multiplier cfg)"

definition boost_by :: "real \<Rightarrow> memory_state \<Rightarrow> int \<Rightarrow> lifecycle_config \<Rightarrow> memory_state" where
  "boost_by amount m now cfg =
     m\<lparr>stability := min (stability m + amount * spaced_rep_factor m now cfg) 1,
       access_count := access_count m + 1,
       last_accessed_at := now\<rparr>"

definition apply_direct_boost :: "memory_state \<Rightarrow> int \<Rightarrow> lifecycle_config \<Rightarrow> memory_state" where
  "apply_direct_boost m now cfg = boost_by (direct_boost cfg) m now cfg"

definition apply_associative_boost :: "memory_state \<Rightarrow> int \<Rightarrow> lifecycle_config \<Rightarrow> memory_state" where
  "apply_associative_boost m now cfg = boost_by (associative_boost cfg) m now cfg"

definition check_core_promotion :: "memory_state \<Rightarrow> lifecycle_config \<Rightarrow> bool \<times> memory_state" where
  "check_core_promotion m cfg =
     (if category_of m = Core then (False, m)
      else if core_access_threshold cfg \<le> access_count m
            \<and> core_stability_threshold cfg \<le> stability m
            \<and> core_session_threshold cfg \<le> session_count m
      then (True, m\<lparr>category_of := Core\<rparr>)
      else (False, m))"

section \<open>Facts about elapsed time and rates\<close>

lemma dt_days_nonneg [simp]: "0 \<le> dt_days now t0"
  by (simp add: dt_days_def)

lemma dt_days_mono: "now \<le> now' \<Longrightarrow> dt_days now t0 \<le> dt_days now' t0"
  by (simp add: dt_days_def divide_right_mono)

lemma dt_days_add:
  "t0 \<le> t \<Longrightarrow> t \<le> now \<Longrightarrow> dt_days now t0 = dt_days t t0 + dt_days now t"
  by (simp add: dt_days_def add_divide_distrib [symmetric])

lemma dt_days_past [simp]: "now \<le> t0 \<Longrightarrow> dt_days now t0 = 0"
  by (simp add: dt_days_def)

text \<open>What a memory and a configuration must satisfy for the formulas of the paper to apply.\<close>

definition wf_config :: "lifecycle_config \<Rightarrow> bool" where
  "wf_config cfg \<longleftrightarrow> 0 \<le> power_decay_gamma cfg \<and> 0 \<le> direct_boost cfg
     \<and> 0 \<le> associative_boost cfg \<and> 0 < spaced_rep_interval_days cfg
     \<and> 0 \<le> max_spaced_rep_multiplier cfg \<and> 0 < association_decay_constant_days cfg
     \<and> 0 < retrieval_score_exponent cfg"

definition wf_state :: "memory_state \<Rightarrow> bool" where
  "wf_state m \<longleftrightarrow> 0 \<le> stability m \<and> stability m \<le> 1 \<and> 0 \<le> importance m
     \<and> 0 \<le> floor_of m \<and> floor_of m \<le> 1
     \<and> (case base_decay_rate m of Fin b \<Rightarrow> 0 < b | PInf \<Rightarrow> True | _ \<Rightarrow> False)"

lemma wf_default_config: "wf_config default_lifecycle_config"
  by (simp add: wf_config_def default_lifecycle_config_def)

lemma wf_state_rate:
  assumes "wf_state m" "\<not> is_infinite (base_decay_rate m)"
  obtains e where "0 < e" "effective_rate m = Fin e"
proof -
  obtain b where b: "base_decay_rate m = Fin b" "0 < b"
    using assms by (cases "base_decay_rate m") (auto simp: wf_state_def)
  have "0 < max (stability m) (1 / 100) * min (1 + importance m * 2) 3"
    using assms by (auto simp: wf_state_def)
  then show thesis
    using b that [of "max (stability m) (1 / 100) * min (1 + importance m * 2) 3 * b"]
    by (simp add: effective_rate_def)
qed

lemma raw_retention_Fin:
  assumes "0 \<le> dt" "0 < e"
  shows "raw_retention cfg dt (Fin e) = Fin (case decay_model cfg of
     Exponential \<Rightarrow> exp (- dt / e) | Power \<Rightarrow> (1 + dt / e) powr (- power_decay_gamma cfg))"
proof -
  have "0 < 1 + dt / e" using assms by (simp add: add_pos_nonneg)
  then show ?thesis
    using assms by (simp add: raw_retention_def split: decay_model.split)
qed

lemma powr_neg_antimono:
  fixes a b g :: real
  assumes "0 < a" "a \<le> b" "0 \<le> g"
  shows "b powr (- g) \<le> a powr (- g)"
  using assms powr_mono2' [of "- g" a b] by simp

text \<open>The closed form of the retention on well-formed inputs, the formula the module's
  documentation quotes.\<close>

lemma compute_retention_Fin:
  assumes "wf_state m" "\<not> is_stub m" "base_decay_rate m \<noteq> PInf"
  obtains e where "0 < e" "effective_rate m = Fin e"
    and "\<And>now. compute_retention m now cfg = Fin (max (case decay_model cfg of
          Exponential \<Rightarrow> exp (- dt_days now (last_accessed_at m) / e)
        | Power \<Rightarrow> (1 + dt_days now (last_accessed_at m) / e) powr (- power_decay_gamma cfg))
        (floor_of m))"
proof -
  have ni: "\<not> is_infinite (base_decay_rate m)"
    using assms by (cases "base_decay_rate m") (auto simp: wf_state_def)
  obtain e where "0 < e" "effective_rate m = Fin e"
    using wf_state_rate [OF assms(1) ni] .
  then show thesis
    using that assms(2) ni by (simp add: compute_retention_def raw_retention_Fin)
qed

lemma compute_retention_bounds:
  assumes "wf_state m" "wf_config cfg"
  shows "if is_stub m then compute_retention m now cfg = Fin 0
         else \<exists>r. compute_retention m now cfg = Fin r \<and> floor_of m \<le> r \<and> r \<le> 1"
proof (cases "is_stub m \<or> base_decay_rate m = PInf")
  case True
  then show ?thesis using assms by (auto simp: compute_retention_def wf_state_def)
next
  case False
  then obtain e where e: "0 < e" and ret: "compute_retention m now cfg = Fin (max
      (case decay_model cfg of Exponential \<Rightarrow> exp (- dt_days now (last_accessed_at m) / e)
       | Power \<Rightarrow> (1 + dt_days now (last_accessed_at m) / e) powr (- power_decay_gamma cfg))
      (floor_of m))"
    using compute_retention_Fin [OF assms(1)] by metis
  have "(1 + dt_days now (last_accessed_at m) / e) powr (- power_decay_gamma cfg) \<le> 1"
    using e assms(2) powr_neg_antimono [of 1 "1 + dt_days now (last_accessed_at m) / e"]
    by (simp add: wf_config_def)
  then show ?thesis
    using e False assms(1) by (auto simp: ret wf_state_def split: decay_model.split)
qed

lemma compute_retention_antimono:
  assumes "wf_state m" "wf_config cfg" "now \<le> now'"
  shows "f_le (compute_retention m now' cfg) (compute_retention m now cfg)"
proof (cases "is_stub m \<or> base_decay_rate m = PInf")
  case True
  then show ?thesis by (auto simp: compute_retention_def)
next
  case False
  obtain e where e: "0 < e" and ret: "\<And>t. compute_retention m t cfg = Fin (max
      (case decay_model cfg of Exponential \<Rightarrow> exp (- dt_days t (last_accessed_at m) / e)
       | Power \<Rightarrow> (1 + dt_days t (last_accessed_at m) / e) powr (- power_decay_gamma cfg))
      (floor_of m))"
    using False compute_retention_Fin [OF assms(1), where cfg = cfg] by metis
  have dt: "dt_days now (last_accessed_at m) / e \<le> dt_days now' (last_accessed_at m) / e"
    using e assms(3) by (simp add: dt_days_mono divide_right_mono)
  have "(1 + dt_days now' (last_accessed_at m) / e) powr (- power_decay_gamma cfg)
      \<le> (1 + dt_days now (last_accessed_at m) / e) powr (- power_decay_gamma cfg)"
    using e dt assms(2) by (intro powr_neg_antimono) (auto simp: wf_config_def add_pos_nonneg)
  moreover have "exp (- dt_days now' (last_accessed_at m) / e) \<le> exp (- dt_days now (last_accessed_at m) / e)"
    using dt by simp
  ultimately show ?thesis
    by (auto simp: ret intro: max.coboundedI1 split: decay_model.split)
qed

text \<open>C22: Forgetting. On a well-formed memory and configuration the retention is at every time a number
  between the memory's retention floor and 1, unless the memory is a stub, whose retention is 0; and
  at a later time the retention of an unchanged memory is not larger.\<close>

theorem compute_retention_spec:
  assumes "wf_state m" "wf_config cfg" "now \<le> now'"
  shows "(if is_stub m then compute_retention m now cfg = Fin 0
          else \<exists>r. compute_retention m now cfg = Fin r \<and> floor_of m \<le> r \<and> r \<le> 1)
    \<and> f_le (compute_retention m now' cfg) (compute_retention m now cfg)"
  using compute_retention_bounds [OF assms(1,2)] compute_retention_antimono [OF assms] by blast

definition demo_mem :: memory_state where
  "demo_mem = \<lparr>last_accessed_at = 0, created_at = 0, stability = 1 / 5, importance = 1 / 2, base_decay_rate = Fin 45,
     floor_of = 1 / 50, is_stub = False, access_count = 0, session_count = 0, category_of = Episodic\<rparr>"

theorem compute_retention_spec_witness:
  "(\<exists>r. compute_retention demo_mem 86400 default_lifecycle_config = Fin r \<and> 1 / 50 \<le> r \<and> r \<le> 1)
   \<and> f_le (compute_retention demo_mem 864000 default_lifecycle_config)
       (compute_retention demo_mem 86400 default_lifecycle_config)"
  using compute_retention_spec [of demo_mem default_lifecycle_config 86400 864000]
  by (simp add: demo_mem_def wf_state_def wf_default_config)

section \<open>Boosts\<close>

lemma spaced_rep_factor_eq:
  "0 < spaced_rep_interval_days cfg \<Longrightarrow> spaced_rep_factor m now cfg =
     min (max_spaced_rep_multiplier cfg)
         (dt_days now (last_accessed_at m) / spaced_rep_interval_days cfg)"
  by (simp add: spaced_rep_factor_def)

lemma spaced_rep_factor_nonneg: "wf_config cfg \<Longrightarrow> 0 \<le> spaced_rep_factor m now cfg"
  by (simp add: wf_config_def spaced_rep_factor_eq)

lemma spaced_rep_factor_le:
  "wf_config cfg \<Longrightarrow> spaced_rep_factor m now cfg \<le> max_spaced_rep_multiplier cfg"
  by (simp add: wf_config_def spaced_rep_factor_eq)

lemma boost_by_simps [simp]:
  "created_at (boost_by a m now cfg) = created_at m"
  "importance (boost_by a m now cfg) = importance m"
  "base_decay_rate (boost_by a m now cfg) = base_decay_rate m"
  "floor_of (boost_by a m now cfg) = floor_of m"
  "is_stub (boost_by a m now cfg) = is_stub m"
  "session_count (boost_by a m now cfg) = session_count m"
  "category_of (boost_by a m now cfg) = category_of m"
  "access_count (boost_by a m now cfg) = Suc (access_count m)"
  "last_accessed_at (boost_by a m now cfg) = now"
  by (simp_all add: boost_by_def)

lemma boost_by_stability:
  assumes "0 \<le> a" "wf_config cfg" "stability m \<le> 1"
  shows "stability m \<le> stability (boost_by a m now cfg)"
    and "stability (boost_by a m now cfg) \<le> 1"
    and "stability (boost_by a m now cfg) \<le> stability m + a * max_spaced_rep_multiplier cfg"
proof -
  have "0 \<le> a * spaced_rep_factor m now cfg"
    using assms by (simp add: spaced_rep_factor_nonneg)
  then show "stability m \<le> stability (boost_by a m now cfg)"
    using assms by (simp add: boost_by_def)
  show "stability (boost_by a m now cfg) \<le> 1"
    by (simp add: boost_by_def)
  have "a * spaced_rep_factor m now cfg \<le> a * max_spaced_rep_multiplier cfg"
    using assms spaced_rep_factor_le mult_left_mono by blast
  then show "stability (boost_by a m now cfg) \<le> stability m + a * max_spaced_rep_multiplier cfg"
    by (simp add: boost_by_def)
qed

text \<open>C23: Both retrieval boosts keep a well-formed memory well-formed, count the access and
  record its time; they never lower the stability and raise it by at most the boost amount
  times the spaced-repetition cap, never above 1.\<close>

theorem retrieval_boosts:
  assumes "wf_state m" "wf_config cfg"
    and "(b, amount) \<in> {(apply_direct_boost m now cfg, direct_boost cfg),
                         (apply_associative_boost m now cfg, associative_boost cfg)}"
  shows "wf_state b \<and> access_count b = access_count m + 1 \<and> last_accessed_at b = now
    \<and> stability m \<le> stability b \<and> stability b \<le> 1
    \<and> stability b \<le> stability m + amount * max_spaced_rep_multiplier cfg"
proof -
  have b: "b = boost_by amount m now cfg" and a: "0 \<le> amount"
    using assms(2,3) by (auto simp: apply_direct_boost_def apply_associative_boost_def wf_config_def)
  have s: "stability m \<le> 1" "0 \<le> stability m" using assms(1) by (auto simp: wf_state_def)
  have "wf_state b"
    using assms(1) boost_by_stability(1) [OF a assms(2) s(1), of now] s(2)
      boost_by_stability(2) [OF a assms(2) s(1), of now]
    by (simp add: wf_state_def b)
  then show ?thesis
    using boost_by_stability [OF a assms(2) s(1), of now] by (simp add: b)
qed

theorem retrieval_boosts_witness:
  "stability (apply_direct_boost \<lparr>last_accessed_at = 0, created_at = 0, stability = 1 / 5,
       importance = 1 / 2, base_decay_rate = Fin 45, floor_of = 1 / 50, is_stub = False,
       access_count = 0, session_count = 0, category_of = Episodic\<rparr> 864000
       default_lifecycle_config) \<le> 1 / 5 + 1 / 10 * 2"
  using retrieval_boosts [of "\<lparr>last_accessed_at = 0, created_at = 0, stability = 1 / 5,
       importance = 1 / 2, base_decay_rate = Fin 45, floor_of = 1 / 50, is_stub = False,
       access_count = 0, session_count = 0, category_of = Episodic\<rparr>" default_lifecycle_config
       "apply_direct_boost \<lparr>last_accessed_at = 0, created_at = 0, stability = 1 / 5,
       importance = 1 / 2, base_decay_rate = Fin 45, floor_of = 1 / 50, is_stub = False,
       access_count = 0, session_count = 0, category_of = Episodic\<rparr> 864000 default_lifecycle_config"
       "direct_boost default_lifecycle_config" 864000]
  by (simp add: wf_state_def wf_default_config) (simp add: default_lifecycle_config_def)

text \<open>A memory seen again in the same instant gains nothing.\<close>

lemma boost_by_same_instant:
  "wf_config cfg \<Longrightarrow> last_accessed_at m = now \<Longrightarrow> stability m \<le> 1 \<Longrightarrow>
   stability (boost_by a m now cfg) = stability m"
  by (simp add: boost_by_def spaced_rep_factor_eq wf_config_def)

lemma compute_retention_fresh:
  "wf_state m \<Longrightarrow> \<not> is_stub m \<Longrightarrow> last_accessed_at m = now \<Longrightarrow> compute_retention m now cfg = Fin 1"
proof (cases "base_decay_rate m = PInf")
  case False
  assume wf: "wf_state m" and ns: "\<not> is_stub m" and t0: "last_accessed_at m = now"
  obtain e where "0 < e" "compute_retention m now cfg = Fin (max (case decay_model cfg of
          Exponential \<Rightarrow> exp (- dt_days now (last_accessed_at m) / e)
        | Power \<Rightarrow> (1 + dt_days now (last_accessed_at m) / e) powr (- power_decay_gamma cfg))
        (floor_of m))"
    using compute_retention_Fin [OF wf ns False, where cfg = cfg] by metis
  then show ?thesis
    using wf t0 by (simp add: wf_state_def max_def split: decay_model.split)
qed (simp add: compute_retention_def)

text \<open>A memory is promoted exactly when it is not core yet and its access count,
  stability and session count all reach their thresholds; promotion only sets the category
  to core, and a second check never promotes again.\<close>

theorem check_core_promotion_spec:
  "(fst (check_core_promotion m cfg) \<longleftrightarrow>
      category_of m \<noteq> Core \<and> core_access_threshold cfg \<le> access_count m
      \<and> core_stability_threshold cfg \<le> stability m
      \<and> core_session_threshold cfg \<le> session_count m)
   \<and> snd (check_core_promotion m cfg) =
       (if fst (check_core_promotion m cfg) then m\<lparr>category_of := Core\<rparr> else m)
   \<and> (fst (check_core_promotion m cfg) \<or> category_of m = Core) =
       (category_of (snd (check_core_promotion m cfg)) = Core)
   \<and> \<not> (fst (check_core_promotion m cfg)
        \<and> fst (check_core_promotion (snd (check_core_promotion m cfg)) cfg))"
  by (simp add: check_core_promotion_def)

section \<open>Association decay and session roots\<close>

lemma decay_association_weight_Fin:
  "0 < tau \<Longrightarrow> decay_association_weight w t0 now tau =
     Fin (w * exp (- dt_days now t0 / tau))"
  by (simp add: decay_association_weight_def)

text \<open>The read-side decay of an edge weight never raises it or makes it negative, leaves
  it alone under clock skew, and composes over time: decaying up to an intermediate time and
  from there to now is decaying to now.\<close>

theorem decay_association_weight_spec:
  assumes "0 < tau" "0 \<le> w"
  shows "\<exists>r. decay_association_weight w t0 now tau = Fin r \<and> 0 \<le> r \<and> r \<le> w
          \<and> (now \<le> t0 \<longrightarrow> r = w)
          \<and> (\<forall>t r1. t0 \<le> t \<and> t \<le> now \<and> decay_association_weight w t0 t tau = Fin r1 \<longrightarrow>
                decay_association_weight r1 t now tau = Fin r)"
proof -
  have "exp (- (dt_days now t0 / tau)) \<le> 1" using assms by simp
  then have "w * exp (- (dt_days now t0 / tau)) \<le> w"
    using assms by (simp add: mult_left_le)
  moreover have "w * exp (- dt_days t t0 / tau) * exp (- dt_days now t / tau)
      = w * exp (- dt_days now t0 / tau)" if "t0 \<le> t" "t \<le> now" for t
    using dt_days_add [OF that]
    by (simp add: mult.assoc exp_add [symmetric] add_divide_distrib diff_divide_distrib)
  ultimately show ?thesis
    using assms by (auto simp: decay_association_weight_Fin)
qed

theorem decay_association_weight_spec_witness:
  "\<exists>r. decay_association_weight (1 / 2) 0 864000 90 = Fin r \<and> 0 \<le> r \<and> r \<le> 1 / 2"
  using decay_association_weight_spec [of 90 "1 / 2" 0 864000] by auto

lemma session_root_no_suffix: "find_str (session_root sid) ''_perspective_'' = None"
proof (cases "find_str sid ''_perspective_''")
  case (Some n)
  have "find_str (take n sid) ''_perspective_'' = None"
  proof (rule ccontr)
    assume "find_str (take n sid) ''_perspective_'' \<noteq> None"
    then obtain k where k: "find_str (take n sid) ''_perspective_'' = Some k" by blast
    have len: "k + length ''_perspective_'' \<le> n"
      using find_str_bound [OF k] by simp
    have "starts_with (drop k (take n sid)) ''_perspective_''"
      using find_str_occurs [OF k] .
    then have "starts_with (drop k sid) ''_perspective_''"
      using len by (simp add: starts_with_def drop_take)
    moreover have "k < n" using len by simp
    ultimately show False using find_str_first [OF Some] by blast
  qed
  then show ?thesis by (simp add: session_root_def Some)
qed (simp add: session_root_def)

lemma session_root_idem [simp]: "session_root (session_root sid) = session_root sid"
  using session_root_no_suffix [of sid] by (simp add: session_root_def [of "session_root sid"])

lemma stability_from_importance_range:
  "0 \<le> i \<Longrightarrow> i \<le> 1 \<Longrightarrow> 1 / 10 \<le> stability_from_importance i \<and> stability_from_importance i \<le> 4 / 10"
  by (simp add: stability_from_importance_def)

end
