(* ===== verification/Schema.thy ===== *)
theory Schema
  imports Lifecycle
begin

text \<open>
  The SQLite database of \<open>crates/store\<close>: the rows of each table (\<open>store/src/pool.rs\<close>,
  migrations 1 to 5, and the row types of \<open>store/src/repos.rs\<close>), the constraints the
  schema declares (primary keys, foreign keys with \<open>ON DELETE CASCADE\<close>, the three FTS
  triggers) and the statements the repositories are built from. A table is the list of its
  rows in rowid order; \<open>wf_db\<close> collects the invariants of the schema and of the code, and the
  last section shows which statements keep them and which rows a statement leaves alone.
\<close>

section \<open>Rows\<close>

record memory_row =
  m_id :: string
  m_user_id :: string
  m_content :: string
  m_category :: string
  m_memory_type :: string
  m_embedding :: "byte list option"
  m_embedding_provider :: "string option"
  m_embedding_model :: "string option"
  m_created_at :: int
  m_last_accessed_at :: int
  m_valid_from :: "int option"
  m_valid_until :: "int option"
  m_ttl_seconds :: "int option"
  m_retention_floor :: real
  m_retrieval_count :: int
  m_metadata :: string
  m_importance :: real
  m_stability :: real
  m_is_cold :: bool
  m_cold_since :: "int option"
  m_days_at_floor :: int
  m_is_superseded :: bool
  m_superseded_by :: "string option"
  m_is_stub :: bool
  m_stub_content :: "string option"
  m_contradicted_by :: "string option"
  m_session_ids :: "string list"

record association_row =
  a_source :: string
  a_target :: string
  a_weight :: real
  a_kind :: string
  a_updated_at :: int
  a_last_co_retrieval :: "int option"

record event_row =
  e_id :: int
  e_kind :: string
  e_payload :: string
  e_occurred_at :: int

record cache_row =
  c_provider :: string
  c_model :: string
  c_text_hash :: "byte list"
  c_embedding :: "byte list"
  c_created_at :: int

record kv_row =
  k_namespace :: string
  k_key :: string
  k_value :: string

record conflict_row =
  q_id :: int
  q_user_id :: string
  q_new :: string
  q_existing :: string
  q_similarity :: fl
  q_queued_at :: int

record db =
  memories :: "memory_row list"
  memories_fts :: "(string \<times> string) list"
  associations :: "association_row list"
  events :: "event_row list"
  events_seq :: int
  embedding_cache :: "cache_row list"
  kv :: "kv_row list"
  conflict_queue :: "conflict_row list"
  conflict_seq :: int

definition empty_db :: db where
  "empty_db = \<lparr>memories = [], memories_fts = [], associations = [], events = [], events_seq = 0,
     embedding_cache = [], kv = [], conflict_queue = [], conflict_seq = 0\<rparr>"

text \<open>The failures of \<open>sqlx\<close> that a statement of the code can meet.\<close>

datatype sqlx_error = Unique_violation | Foreign_key_violation | Syntax_error

type_synonym 'a sql = "(db, sqlx_error, 'a) sm"

section \<open>Statements on memories\<close>

definition fts_insert :: "memory_row \<Rightarrow> (string \<times> string) list \<Rightarrow> (string \<times> string) list" where
  "fts_insert new fts = fts @ [(m_id new, m_content new)]"

definition fts_delete :: "memory_row \<Rightarrow> (string \<times> string) list \<Rightarrow> (string \<times> string) list" where
  "fts_delete old fts = filter (\<lambda>e. fst e \<noteq> m_id old) fts"

text \<open>\<open>INSERT INTO memories\<close> and the trigger \<open>memories_after_insert\<close>.\<close>

definition insert_memory :: "memory_row \<Rightarrow> unit sql" where
  "insert_memory r d = (case tbl_insert m_id r (memories d) of
      None \<Rightarrow> (Inl Unique_violation, d)
    | Some t \<Rightarrow> (Inr (), d\<lparr>memories := t, memories_fts := fts_insert r (memories_fts d)\<rparr>))"

text \<open>\<open>UPDATE memories SET ... WHERE\<close> on columns other than \<open>content\<close>.\<close>

definition update_memories :: "(memory_row \<Rightarrow> bool) \<Rightarrow> (memory_row \<Rightarrow> memory_row) \<Rightarrow> nat sql" where
  "update_memories P f d =
     (Inr (rows_affected P (memories d)), d\<lparr>memories := tbl_update P f (memories d)\<rparr>)"

text \<open>The same with \<open>content\<close> among the assigned columns: the trigger
  \<open>memories_after_update\<close> fires for each row, in order.\<close>

definition update_memories_content ::
  "(memory_row \<Rightarrow> bool) \<Rightarrow> (memory_row \<Rightarrow> memory_row) \<Rightarrow> nat sql" where
  "update_memories_content P f d =
     (Inr (rows_affected P (memories d)),
      d\<lparr>memories := tbl_update P f (memories d),
        memories_fts := fold (\<lambda>r fts. fts_insert (f r) (fts_delete r fts))
                             (filter P (memories d)) (memories_fts d)\<rparr>)"

text \<open>\<open>DELETE FROM memories WHERE\<close>: the delete trigger, and the cascades to associations and
  queued conflicts.\<close>

definition delete_memories :: "(memory_row \<Rightarrow> bool) \<Rightarrow> nat sql" where
  "delete_memories P d =
     (let gone = map m_id (filter P (memories d)) in
      (Inr (rows_affected P (memories d)),
       d\<lparr>memories := tbl_delete P (memories d),
         memories_fts := fold fts_delete (filter P (memories d)) (memories_fts d),
         associations := tbl_delete (\<lambda>a. a_source a \<in> set gone \<or> a_target a \<in> set gone)
                           (associations d),
         conflict_queue := tbl_delete (\<lambda>q. q_new q \<in> set gone \<or> q_existing q \<in> set gone)
                             (conflict_queue d)\<rparr>))"

definition select_memories :: "(memory_row \<Rightarrow> bool) \<Rightarrow> (memory_row list) sql" where
  "select_memories P = gets_sm (\<lambda>d. filter P (memories d))"

section \<open>Statements on the other tables\<close>

definition memory_exists :: "db \<Rightarrow> string \<Rightarrow> bool" where
  "memory_exists d i \<longleftrightarrow> i \<in> set (map m_id (memories d))"

definition edge_key :: "association_row \<Rightarrow> string \<times> string" where
  "edge_key a = (a_source a, a_target a)"

text \<open>\<open>INSERT INTO associations ... ON CONFLICT(source, target) DO UPDATE SET\<close>: the foreign
  keys of the new row are checked, on a conflict the old row is changed by \<open>upd\<close>.\<close>

definition upsert_association ::
  "association_row \<Rightarrow> (association_row \<Rightarrow> association_row) \<Rightarrow> nat sql" where
  "upsert_association r upd d =
     (if edge_key r \<in> edge_key ` set (associations d)
      then (Inr 1, d\<lparr>associations := tbl_update (\<lambda>a. edge_key a = edge_key r) upd (associations d)\<rparr>)
      else if \<not> memory_exists d (a_source r) \<or> \<not> memory_exists d (a_target r)
      then (Inl Foreign_key_violation, d)
      else (Inr 1, d\<lparr>associations := associations d @ [r]\<rparr>))"

definition delete_associations :: "(association_row \<Rightarrow> bool) \<Rightarrow> nat sql" where
  "delete_associations P d =
     (Inr (rows_affected P (associations d)), d\<lparr>associations := tbl_delete P (associations d)\<rparr>)"

text \<open>\<open>INSERT OR IGNORE INTO conflict_queue\<close>: ignored when the triple is queued already; the
  foreign keys are not subject to \<open>OR IGNORE\<close>.\<close>

definition conflict_key :: "conflict_row \<Rightarrow> string \<times> string \<times> string" where
  "conflict_key q = (q_user_id q, q_new q, q_existing q)"

definition insert_conflict :: "string \<Rightarrow> string \<Rightarrow> string \<Rightarrow> fl \<Rightarrow> int \<Rightarrow> nat sql" where
  "insert_conflict u new existing sim now d =
     (let q = \<lparr>q_id = conflict_seq d + 1, q_user_id = u, q_new = new, q_existing = existing,
               q_similarity = sim, q_queued_at = now\<rparr> in
      if conflict_key q \<in> conflict_key ` set (conflict_queue d) then (Inr 0, d)
      else if \<not> memory_exists d new \<or> \<not> memory_exists d existing
      then (Inl Foreign_key_violation, d)
      else (Inr 1, d\<lparr>conflict_queue := conflict_queue d @ [q], conflict_seq := conflict_seq d + 1\<rparr>))"

definition delete_conflicts :: "(conflict_row \<Rightarrow> bool) \<Rightarrow> nat sql" where
  "delete_conflicts P d =
     (Inr (rows_affected P (conflict_queue d)),
      d\<lparr>conflict_queue := tbl_delete P (conflict_queue d)\<rparr>)"

definition kv_key :: "kv_row \<Rightarrow> string \<times> string" where
  "kv_key r = (k_namespace r, k_key r)"

definition insert_kv :: "string \<Rightarrow> string \<Rightarrow> string \<Rightarrow> unit sql" where
  "insert_kv ns k v d =
     (case tbl_insert kv_key \<lparr>k_namespace = ns, k_key = k, k_value = v\<rparr> (kv d) of
        None \<Rightarrow> (Inl Unique_violation, d)
      | Some t \<Rightarrow> (Inr (), d\<lparr>kv := t\<rparr>))"

definition select_kv :: "string \<Rightarrow> string \<Rightarrow> (string option) sql" where
  "select_kv ns k = gets_sm (\<lambda>d. map_option k_value (tbl_get kv_key (kv d) (ns, k)))"

section \<open>Invariants\<close>

definition cache_key :: "cache_row \<Rightarrow> string \<times> string \<times> byte list" where
  "cache_key r = (c_provider r, c_model r, c_text_hash r)"

text \<open>What the code keeps of each memory: the cold flag and its time, the superseded flag and
  its successor go together, and the counters do not go negative.\<close>

definition wf_memory :: "memory_row \<Rightarrow> bool" where
  "wf_memory m \<longleftrightarrow> (m_is_cold m \<longleftrightarrow> m_cold_since m \<noteq> None)
     \<and> (m_is_superseded m \<longleftrightarrow> m_superseded_by m \<noteq> None)
     \<and> (m_is_stub m \<longleftrightarrow> m_stub_content m \<noteq> None)
     \<and> 0 \<le> m_days_at_floor m \<and> 0 \<le> m_retrieval_count m
     \<and> distinct (m_session_ids m)"

definition wf_edge :: "db \<Rightarrow> association_row \<Rightarrow> bool" where
  "wf_edge d a \<longleftrightarrow> memory_exists d (a_source a) \<and> memory_exists d (a_target a)
     \<and> 0 \<le> a_weight a \<and> a_weight a \<le> 1"

definition wf_conflict :: "db \<Rightarrow> conflict_row \<Rightarrow> bool" where
  "wf_conflict d q \<longleftrightarrow> memory_exists d (q_new q) \<and> memory_exists d (q_existing q)
     \<and> q_id q \<le> conflict_seq d"

definition fts_mirror :: "db \<Rightarrow> bool" where
  "fts_mirror d \<longleftrightarrow> mset (memories_fts d) = mset (map (\<lambda>m. (m_id m, m_content m)) (memories d))"

definition wf_db :: "db \<Rightarrow> bool" where
  "wf_db d \<longleftrightarrow> keyed m_id (memories d) \<and> keyed edge_key (associations d)
     \<and> keyed cache_key (embedding_cache d) \<and> keyed kv_key (kv d)
     \<and> keyed conflict_key (conflict_queue d) \<and> keyed q_id (conflict_queue d)
     \<and> keyed e_id (events d)
     \<and> (\<forall>e \<in> set (events d). e_id e \<le> events_seq d)
     \<and> fts_mirror d
     \<and> (\<forall>m \<in> set (memories d). wf_memory m)
     \<and> (\<forall>a \<in> set (associations d). wf_edge d a)
     \<and> (\<forall>q \<in> set (conflict_queue d). wf_conflict d q)"

lemma wf_empty_db: "wf_db empty_db"
  by (simp add: wf_db_def empty_db_def keyed_def fts_mirror_def)

lemma wf_dbD:
  assumes "wf_db d"
  shows "keyed m_id (memories d)" "keyed edge_key (associations d)"
    "keyed cache_key (embedding_cache d)" "keyed kv_key (kv d)"
    "keyed conflict_key (conflict_queue d)" "keyed q_id (conflict_queue d)" "keyed e_id (events d)"
    "\<And>e. e \<in> set (events d) \<Longrightarrow> e_id e \<le> events_seq d"
    "fts_mirror d"
    "\<And>m. m \<in> set (memories d) \<Longrightarrow> wf_memory m"
    "\<And>a. a \<in> set (associations d) \<Longrightarrow> wf_edge d a"
    "\<And>q. q \<in> set (conflict_queue d) \<Longrightarrow> wf_conflict d q"
  using assms by (auto simp: wf_db_def)

text \<open>The two frames of the development. \<open>inv_step\<close>: a computation keeps the invariant.
  \<open>others_step u\<close>: it leaves every memory of the other users as it is, in place.\<close>

definition inv_step :: "db \<Rightarrow> db \<Rightarrow> bool" where
  "inv_step d d' \<longleftrightarrow> (wf_db d \<longrightarrow> wf_db d')"

definition others :: "string \<Rightarrow> db \<Rightarrow> memory_row list" where
  "others u d = filter (\<lambda>m. m_user_id m \<noteq> u) (memories d)"

definition others_step :: "string \<Rightarrow> db \<Rightarrow> db \<Rightarrow> bool" where
  "others_step u d d' \<longleftrightarrow> others u d' = others u d"

interpretation inv: frame_rel inv_step
  by unfold_locales (auto simp: inv_step_def)

interpretation iso: frame_rel "others_step u" for u
  by unfold_locales (auto simp: others_step_def)

lemma keeps_invD: "keeps inv_step m \<Longrightarrow> m d = (r, d') \<Longrightarrow> wf_db d \<Longrightarrow> wf_db d'"
  by (auto dest: keepsD simp: inv_step_def)

lemma keeps_isoD: "keeps (others_step u) m \<Longrightarrow> m d = (r, d') \<Longrightarrow> others u d' = others u d"
  by (auto dest: keepsD simp: others_step_def)

section \<open>What the statements keep\<close>

lemma memory_exists_simps [simp]:
  "memory_exists (d\<lparr>memories_fts := x\<rparr>) i = memory_exists d i"
  "memory_exists (d\<lparr>associations := y\<rparr>) i = memory_exists d i"
  "memory_exists (d\<lparr>conflict_queue := z\<rparr>) i = memory_exists d i"
  "memory_exists (d\<lparr>conflict_seq := n\<rparr>) i = memory_exists d i"
  "memory_exists (d\<lparr>embedding_cache := c\<rparr>) i = memory_exists d i"
  "memory_exists (d\<lparr>kv := k\<rparr>) i = memory_exists d i"
  "memory_exists (d\<lparr>events := e\<rparr>) i = memory_exists d i"
  "memory_exists (d\<lparr>events_seq := n\<rparr>) i = memory_exists d i"
  by (simp_all add: memory_exists_def)

lemma insert_memory_inv [frame_intros]:
  assumes "wf_memory r"
  shows "keeps inv_step (insert_memory r)"
proof (rule keepsI)
  fix d :: db
  show "inv_step d (snd (insert_memory r d))"
  proof (cases "tbl_insert m_id r (memories d)")
    case (Some t)
    then have t: "t = memories d @ [r]" and new: "m_id r \<notin> m_id ` set (memories d)"
      by (auto simp: tbl_insert_def split: if_splits)
    have mono: "memory_exists d i \<Longrightarrow>
        memory_exists (d\<lparr>memories := t, memories_fts := x\<rparr>) i" for i x
      by (auto simp: memory_exists_def t)
    show ?thesis
      using assms Some new mono
      by (auto simp: inv_step_def insert_memory_def wf_db_def keyed_def t fts_mirror_def
          fts_insert_def wf_edge_def wf_conflict_def)
  qed (simp add: insert_memory_def inv_step_def)
qed

lemma insert_memory_iso [frame_intros]:
  "m_user_id r = u \<Longrightarrow> keeps (others_step u) (insert_memory r)"
  by (rule keepsI) (auto simp: insert_memory_def others_step_def others_def tbl_insert_def)

text \<open>An update keeps the invariant when it keeps id and content and maps well-formed rows to
  well-formed rows.\<close>

lemma memory_exists_update:
  "(\<And>m. P m \<Longrightarrow> m_id (f m) = m_id m) \<Longrightarrow>
   memory_exists (d\<lparr>memories := tbl_update P f (memories d)\<rparr>) i = memory_exists d i"
  by (simp add: memory_exists_def del: set_map)

lemma update_memories_inv [frame_intros]:
  assumes f: "\<And>m. m_id (f m) = m_id m" "\<And>m. m_content (f m) = m_content m"
    and wf: "\<And>m. P m \<Longrightarrow> wf_memory m \<Longrightarrow> wf_memory (f m)"
  shows "keeps inv_step (update_memories P f)"
proof (rule keepsI)
  fix d :: db
  let ?d = "d\<lparr>memories := tbl_update P f (memories d)\<rparr>"
  have ex: "memory_exists ?d i = memory_exists d i" for i
    by (rule memory_exists_update) (rule f(1))
  have fts: "map (\<lambda>m. (m_id m, m_content m)) (tbl_update P f (memories d))
      = map (\<lambda>m. (m_id m, m_content m)) (memories d)"
    by (rule map_key_tbl_update) (simp add: f)
  have "wf_db ?d" if "wf_db d"
    using that wf
    by (auto simp: wf_db_def keyed_def f fts_mirror_def fts ex wf_edge_def wf_conflict_def
        set_tbl_update simp del: mset_map)
  then show "inv_step d (snd (update_memories P f d))"
    by (simp add: update_memories_def inv_step_def)
qed

lemma update_memories_iso [frame_intros]:
  assumes "\<And>m. P m \<Longrightarrow> m_user_id m = u" "\<And>m. m_user_id (f m) = m_user_id m"
  shows "keeps (others_step u) (update_memories P f)"
proof (rule keepsI)
  fix d :: db
  have "filter (\<lambda>m. m_user_id m \<noteq> u) (tbl_update P f t) = filter (\<lambda>m. m_user_id m \<noteq> u) t" for t
    using assms by (induction t) (auto simp: tbl_update_def)
  then show "others_step u d (snd (update_memories P f d))"
    by (simp add: update_memories_def others_step_def others_def)
qed

lemma fold_fts_delete:
  "fold fts_delete rs fts = filter (\<lambda>e. fst e \<notin> m_id ` set rs) fts"
  by (induction rs arbitrary: fts) (auto simp: fts_delete_def intro: filter_cong)

lemma filter_fts_mirror:
  "filter (\<lambda>e. fst e \<notin> m_id ` set (filter P ms)) (map (\<lambda>m. (m_id m, m_content m)) ms) =
   map (\<lambda>m. (m_id m, m_content m)) (filter (\<lambda>m. \<not> P m) ms)"
  if "keyed m_id ms"
proof -
  have "m_id m \<notin> m_id ` set (filter P ms) \<longleftrightarrow> \<not> P m" if "m \<in> set ms" for m
    using \<open>keyed m_id ms\<close> that by (auto simp: keyed_def distinct_map inj_on_def)
  then have "filter (\<lambda>m. m_id m \<notin> m_id ` set (filter P ms)) ms = filter (\<lambda>m. \<not> P m) ms"
    by (metis (mono_tags, lifting) filter_cong)
  then show ?thesis by (simp add: filter_map o_def)
qed

lemma delete_memories_inv [frame_intros]: "keeps inv_step (delete_memories P)"
proof (rule keepsI)
  fix d :: db
  let ?d = "snd (delete_memories P d)"
  have wf: "wf_db ?d" if "wf_db d"
  proof -
    note D = wf_dbD [OF that]
    have "mset (memories_fts ?d) =
        mset (filter (\<lambda>e. fst e \<notin> m_id ` set (filter P (memories d)))
          (map (\<lambda>m. (m_id m, m_content m)) (memories d)))"
      using D(9) by (simp add: delete_memories_def Let_def fold_fts_delete fts_mirror_def)
    then have fts: "fts_mirror ?d"
      unfolding filter_fts_mirror [OF D(1)]
      by (simp add: fts_mirror_def delete_memories_def tbl_delete_def Let_def)
    have ex: "memory_exists ?d i" if "memory_exists d i" "i \<notin> m_id ` set (filter P (memories d))" for i
      using that by (auto simp: memory_exists_def delete_memories_def Let_def)
    have "wf_edge ?d a" if "a \<in> set (associations ?d)" for a
      using that D(11) ex by (auto simp: delete_memories_def Let_def wf_edge_def)
    moreover have "wf_conflict ?d q" if "q \<in> set (conflict_queue ?d)" for q
      using that D(12) ex by (auto simp: delete_memories_def Let_def wf_conflict_def)
    ultimately show ?thesis
      using D fts by (auto simp: wf_db_def delete_memories_def Let_def keyed_delete)
  qed
  then show "inv_step d ?d" by (simp add: inv_step_def)
qed

lemma delete_memories_iso [frame_intros]:
  "(\<And>m. P m \<Longrightarrow> m_user_id m = u) \<Longrightarrow> keeps (others_step u) (delete_memories P)"
  by (rule keepsI)
    (auto simp: delete_memories_def Let_def others_step_def others_def tbl_delete_def intro: filter_cong)

lemma fold_fts_update:
  assumes "distinct (map m_id rs)" "\<And>m. m_id (f m) = m_id m"
  shows "mset (fold (\<lambda>r fts. fts_insert (f r) (fts_delete r fts)) rs fts) =
     mset (filter (\<lambda>e. fst e \<notin> m_id ` set rs) fts) + mset (map (\<lambda>r. (m_id r, m_content (f r))) rs)"
  using assms(1)
proof (induction rs arbitrary: fts)
  case (Cons r rs)
  then have IH: "mset (fold (\<lambda>r fts. fts_insert (f r) (fts_delete r fts)) rs fts') =
     mset (filter (\<lambda>e. fst e \<notin> m_id ` set rs) fts') + mset (map (\<lambda>r. (m_id r, m_content (f r))) rs)"
    for fts' by simp
  have "filter (\<lambda>e. fst e \<notin> m_id ` set rs) (fts_insert (f r) (fts_delete r fts)) =
      filter (\<lambda>e. fst e \<notin> m_id ` set (r # rs)) fts @ [(m_id r, m_content (f r))]"
    using Cons.prems
    by (auto simp: fts_insert_def fts_delete_def assms(2) intro!: filter_cong)
  then show ?case by (simp add: IH)
qed simp

lemma update_memories_content_inv [frame_intros]:
  assumes f: "\<And>m. m_id (f m) = m_id m"
    and wf: "\<And>m. P m \<Longrightarrow> wf_memory m \<Longrightarrow> wf_memory (f m)"
  shows "keeps inv_step (update_memories_content P f)"
proof (rule keepsI)
  fix d :: db
  let ?d = "snd (update_memories_content P f d)"
  have ex: "memory_exists ?d i = memory_exists d i" for i
    using f by (simp add: memory_exists_def update_memories_content_def del: set_map)
  have split: "mset (map (\<lambda>m. (m_id m, m_content m)) (filter (\<lambda>m. \<not> P m) ms))
      + mset (map (\<lambda>m. (m_id m, m_content (f m))) (filter P ms))
      = mset (map (\<lambda>m. (m_id m, m_content m)) (tbl_update P f ms))" for ms
    by (induction ms) (auto simp: tbl_update_def f)
  have wfd: "wf_db ?d" if "wf_db d"
  proof -
    note D = wf_dbD [OF that]
    have dist: "distinct (map m_id (filter P (memories d)))"
      using D(1) by (simp add: keyed_def distinct_map_filter)
    have "mset (filter (\<lambda>e. fst e \<notin> m_id ` set (filter P (memories d))) (memories_fts d)) =
        mset (filter (\<lambda>e. fst e \<notin> m_id ` set (filter P (memories d)))
          (map (\<lambda>m. (m_id m, m_content m)) (memories d)))"
      using D(9) unfolding fts_mirror_def by (metis mset_filter)
    then have "fts_mirror ?d"
      unfolding filter_fts_mirror [OF D(1)]
      by (simp add: fts_mirror_def update_memories_content_def fold_fts_update [OF dist f]
          split [symmetric] del: mset_map)
    then show ?thesis
      using D wf
      by (auto simp: wf_db_def update_memories_content_def keyed_def f set_tbl_update)
        (auto simp: wf_edge_def wf_conflict_def ex update_memories_content_def
          memory_exists_update f)
  qed
  then show "inv_step d ?d" by (simp add: inv_step_def)
qed

lemma update_memories_content_iso [frame_intros]:
  assumes "\<And>m. P m \<Longrightarrow> m_user_id m = u" "\<And>m. m_user_id (f m) = m_user_id m"
  shows "keeps (others_step u) (update_memories_content P f)"
proof (rule keepsI)
  fix d :: db
  have "others_step u d (snd (update_memories P f d))"
    using update_memories_iso [OF assms] by (simp add: keeps_def)
  then show "others_step u d (snd (update_memories_content P f d))"
    by (simp add: update_memories_content_def update_memories_def others_step_def others_def)
qed

lemma select_memories_keeps [frame_intros]:
  "keeps inv_step (select_memories P)" "keeps (others_step u) (select_memories P)"
  by (simp_all add: select_memories_def inv.keeps_gets iso.keeps_gets)

lemma wf_edge_simps [simp]:
  "wf_edge (d\<lparr>associations := y\<rparr>) a = wf_edge d a"
  "wf_edge (d\<lparr>conflict_queue := z\<rparr>) a = wf_edge d a"
  "wf_edge (d\<lparr>conflict_seq := n\<rparr>) a = wf_edge d a"
  "wf_edge (d\<lparr>embedding_cache := c\<rparr>) a = wf_edge d a"
  "wf_edge (d\<lparr>kv := k\<rparr>) a = wf_edge d a"
  "wf_edge (d\<lparr>events := e\<rparr>) a = wf_edge d a"
  "wf_edge (d\<lparr>events_seq := n\<rparr>) a = wf_edge d a"
  by (simp_all add: wf_edge_def)

lemma wf_conflict_simps [simp]:
  "wf_conflict (d\<lparr>associations := y\<rparr>) q = wf_conflict d q"
  "wf_conflict (d\<lparr>conflict_queue := z\<rparr>) q = wf_conflict d q"
  "wf_conflict (d\<lparr>embedding_cache := c\<rparr>) q = wf_conflict d q"
  "wf_conflict (d\<lparr>kv := k\<rparr>) q = wf_conflict d q"
  "wf_conflict (d\<lparr>events := e\<rparr>) q = wf_conflict d q"
  "wf_conflict (d\<lparr>events_seq := n\<rparr>) q = wf_conflict d q"
  by (simp_all add: wf_conflict_def)

lemma fts_mirror_simps [simp]:
  "fts_mirror (d\<lparr>associations := y\<rparr>) = fts_mirror d"
  "fts_mirror (d\<lparr>conflict_queue := z\<rparr>) = fts_mirror d"
  "fts_mirror (d\<lparr>conflict_seq := n\<rparr>) = fts_mirror d"
  "fts_mirror (d\<lparr>embedding_cache := c\<rparr>) = fts_mirror d"
  "fts_mirror (d\<lparr>kv := k\<rparr>) = fts_mirror d"
  "fts_mirror (d\<lparr>events := e\<rparr>) = fts_mirror d"
  "fts_mirror (d\<lparr>events_seq := n\<rparr>) = fts_mirror d"
  by (simp_all add: fts_mirror_def)

text \<open>An upsert keeps the invariant when the new row has a weight in the unit interval and the
  conflict action keeps the key and puts the weight there.\<close>

lemma upsert_association_inv [frame_intros]:
  assumes "0 \<le> a_weight r" "a_weight r \<le> 1"
    and upd: "\<And>a. edge_key (upd a) = edge_key a"
    and wt: "\<And>a. 0 \<le> a_weight a \<Longrightarrow> a_weight a \<le> 1 \<Longrightarrow>
      0 \<le> a_weight (upd a) \<and> a_weight (upd a) \<le> 1"
  shows "keeps inv_step (upsert_association r upd)"
proof (rule keepsI)
  fix d :: db
  have upd_edge: "wf_edge d a \<Longrightarrow> wf_edge d (upd a)" for a
    using upd [of a] wt [of a] by (auto simp: wf_edge_def edge_key_def)
  have "wf_db (snd (upsert_association r upd d))" if "wf_db d"
    using that assms(1,2) upd_edge
    by (auto simp: upsert_association_def wf_db_def upd keyed_def set_tbl_update)
      (auto simp: wf_edge_def)
  then show "inv_step d (snd (upsert_association r upd d))" by (simp add: inv_step_def)
qed

lemma delete_associations_inv [frame_intros]: "keeps inv_step (delete_associations P)"
  by (rule keepsI) (auto simp: inv_step_def delete_associations_def wf_db_def keyed_delete)

lemma insert_conflict_inv [frame_intros]: "keeps inv_step (insert_conflict u n e sim now)"
proof (rule keepsI)
  fix d :: db
  show "inv_step d (snd (insert_conflict u n e sim now d))"
    by (auto simp: inv_step_def insert_conflict_def wf_db_def keyed_def Let_def)
      (force simp: wf_conflict_def)+
qed

lemma delete_conflicts_inv [frame_intros]: "keeps inv_step (delete_conflicts P)"
  by (rule keepsI) (auto simp: inv_step_def delete_conflicts_def wf_db_def keyed_delete)

lemma insert_kv_inv [frame_intros]: "keeps inv_step (insert_kv ns k v)"
  by (rule keepsI)
    (auto simp: inv_step_def insert_kv_def wf_db_def split: option.split intro: keyed_insert)

lemma select_kv_keeps [frame_intros]:
  "keeps inv_step (select_kv ns k)" "keeps (others_step u) (select_kv ns k)"
  by (simp_all add: select_kv_def inv.keeps_gets iso.keeps_gets)

text \<open>Statements on the other tables change no memory.\<close>

lemma other_tables_iso [frame_intros]:
  "keeps (others_step u) (upsert_association r upd)"
  "keeps (others_step u) (delete_associations Pa)"
  "keeps (others_step u) (insert_conflict w n e sim now)"
  "keeps (others_step u) (delete_conflicts Pq)"
  "keeps (others_step u) (insert_kv ns k v)"
  by (auto intro!: keepsI simp: others_step_def others_def upsert_association_def
      delete_associations_def insert_conflict_def delete_conflicts_def insert_kv_def Let_def
      split: option.split)

section \<open>Tables as row stores\<close>

interpretation memory_rows: row_store "\<lambda>d. tbl_get m_id (memories d)" m_id insert_memory wf_db wf_memory
proof
  fix d :: db and r :: memory_row
  assume d: "wf_db d" and r: "wf_memory r" and none: "tbl_get m_id (memories d) (m_id r) = None"
  then obtain t where t: "tbl_insert m_id r (memories d) = Some t"
    by (simp add: tbl_get_None tbl_insert_def)
  let ?d = "d\<lparr>memories := t, memories_fts := fts_insert r (memories_fts d)\<rparr>"
  have i: "insert_memory r d = (Inr (), ?d)" by (simp add: insert_memory_def t)
  then have "wf_db ?d" by (rule keeps_invD [OF insert_memory_inv [OF r] _ d])
  with i tbl_get_insert [OF t]
  show "\<exists>d'. insert_memory r d = (Inr (), d') \<and> wf_db d' \<and>
      (\<forall>k. tbl_get m_id (memories d') k = (if k = m_id r then Some r else tbl_get m_id (memories d) k))"
    by simp
next
  fix d :: db and r :: memory_row
  assume "tbl_get m_id (memories d) (m_id r) \<noteq> None"
  then show "\<exists>e. insert_memory r d = (Inl e, d)"
    by (simp add: tbl_get_None insert_memory_def tbl_insert_def)
qed

interpretation kv_rows: row_store "\<lambda>d. tbl_get kv_key (kv d)" kv_key
  "\<lambda>r. insert_kv (k_namespace r) (k_key r) (k_value r)" wf_db "\<lambda>_. True"
proof
  fix d :: db and r :: kv_row
  have eta: "\<lparr>k_namespace = k_namespace r, k_key = k_key r, k_value = k_value r\<rparr> = r" by simp
  assume d: "wf_db d" and none: "tbl_get kv_key (kv d) (kv_key r) = None"
  then obtain t where t: "tbl_insert kv_key r (kv d) = Some t"
    by (simp add: tbl_get_None tbl_insert_def)
  have i: "insert_kv (k_namespace r) (k_key r) (k_value r) d = (Inr (), d\<lparr>kv := t\<rparr>)"
    by (simp add: insert_kv_def eta t)
  then have "wf_db (d\<lparr>kv := t\<rparr>)" by (rule keeps_invD [OF insert_kv_inv _ d])
  with i tbl_get_insert [OF t]
  show "\<exists>d'. insert_kv (k_namespace r) (k_key r) (k_value r) d = (Inr (), d') \<and> wf_db d' \<and>
      (\<forall>k. tbl_get kv_key (kv d') k = (if k = kv_key r then Some r else tbl_get kv_key (kv d) k))"
    by simp
next
  fix d :: db and r :: kv_row
  have eta: "\<lparr>k_namespace = k_namespace r, k_key = k_key r, k_value = k_value r\<rparr> = r" by simp
  assume "tbl_get kv_key (kv d) (kv_key r) \<noteq> None"
  then show "\<exists>e. insert_kv (k_namespace r) (k_key r) (k_value r) d = (Inl e, d)"
    by (simp add: tbl_get_None insert_kv_def tbl_insert_def eta)
qed

end
