(* ===== verification/Memory_Repo.thy ===== *)
theory Memory_Repo
  imports Schema
begin

text \<open>
  \<open>MemoryRepo\<close> (\<open>crates/store/src/repos.rs\<close>): one definition per method, over the statements
  of \<open>Schema\<close>. Every statement is scoped by \<open>user_id\<close> in its \<open>WHERE\<close> clause, which
  \<open>own\<close> states once. Two things of SQLite are parameters: the FTS5 engine (\<open>fts_match\<close>: the
  ids of the rows that match, best \<open>bm25\<close> first) and what the driver makes of an SQL NULL in
  an integer column (\<open>null_i64\<close>).
\<close>

section \<open>Row constructors and argument types\<close>

definition new_minimal :: "string \<Rightarrow> string \<Rightarrow> string \<Rightarrow> string \<Rightarrow> string \<Rightarrow> int \<Rightarrow> memory_row" where
  "new_minimal i u content cat ty now = \<lparr>
     m_id = i, m_user_id = u, m_content = content, m_category = cat, m_memory_type = ty,
     m_embedding = None, m_embedding_provider = None, m_embedding_model = None,
     m_created_at = now, m_last_accessed_at = now,
     m_valid_from = None, m_valid_until = None, m_ttl_seconds = None,
     m_retention_floor = 0, m_retrieval_count = 0, m_metadata = ''{}'',
     m_importance = 0, m_stability = 1 / 10,
     m_is_cold = False, m_cold_since = None, m_days_at_floor = 0,
     m_is_superseded = False, m_superseded_by = None,
     m_is_stub = False, m_stub_content = None, m_contradicted_by = None,
     m_session_ids = []\<rparr>"

record memory_filters =
  f_categories :: "string list option"
  f_memory_types :: "string list option"
  f_min_retention_floor :: "real option"
  f_min_importance :: "real option"
  f_created_after :: "int option"
  f_created_before :: "int option"
  f_limit :: "int option"
  f_offset :: "int option"
  f_include_superseded :: bool
  f_include_cold :: bool
  f_include_stubs :: bool

record memory_update =
  u_content :: "string option"
  u_category :: "string option"
  u_memory_type :: "string option"
  u_metadata :: "string option"
  u_retention_floor :: "real option"
  u_importance :: "real option"
  u_stability :: "real option"
  u_valid_until :: "int option"

record memory_counts =
  n_hot :: int
  n_cold :: int
  n_stub :: int
  n_total :: int

record search_candidate =
  sc_id :: string
  sc_content :: string
  sc_embedding :: "byte list"
  sc_category :: string
  sc_memory_type :: string
  sc_last_accessed_at :: int
  sc_created_at :: int
  sc_retention_floor :: real
  sc_retrieval_count :: int
  sc_stability :: real
  sc_importance :: real
  sc_is_stub :: bool

definition embedding_vec :: "search_candidate \<Rightarrow> f32 list" where
  "embedding_vec c = decode_f32s (sc_embedding c)"

text \<open>\<open>WHERE user_id = ? AND id = ?\<close>.\<close>

definition own :: "string \<Rightarrow> string \<Rightarrow> memory_row \<Rightarrow> bool" where
  "own u i m \<longleftrightarrow> m_user_id m = u \<and> m_id m = i"

section \<open>Reading\<close>

definition get_for_user :: "string \<Rightarrow> string \<Rightarrow> (memory_row option) sql" where
  "get_for_user u i = gets_sm (\<lambda>d. find (own u i) (memories d))"

text \<open>\<open>ids.iter().position(..)\<close>; \<open>usize::MAX\<close> past the end does not occur for a selected row.\<close>

fun position :: "string \<Rightarrow> string list \<Rightarrow> nat" where
  "position i [] = 0"
| "position i (j # js) = (if i = j then 0 else Suc (position i js))"

definition get_many_for_user :: "string \<Rightarrow> string list \<Rightarrow> (memory_row list) sql" where
  "get_many_for_user u ids =
     (if ids = [] then ret_sm []
      else bind_sm (select_memories (\<lambda>m. m_user_id m = u \<and> m_id m \<in> set ids)) (\<lambda>rows.
        ret_sm (sort_by (key_asc (\<lambda>r. position (m_id r) ids)) rows)))"

definition opt_holds :: "('a \<Rightarrow> bool) \<Rightarrow> 'a option \<Rightarrow> bool" where
  "opt_holds P x \<longleftrightarrow> (case x of None \<Rightarrow> True | Some v \<Rightarrow> P v)"

definition matches_filters :: "string \<Rightarrow> memory_filters \<Rightarrow> memory_row \<Rightarrow> bool" where
  "matches_filters u f m \<longleftrightarrow> m_user_id m = u
     \<and> (f_include_cold f \<or> \<not> m_is_cold m)
     \<and> (f_include_stubs f \<or> \<not> m_is_stub m)
     \<and> (f_include_superseded f \<or> \<not> m_is_superseded m)
     \<and> opt_holds (\<lambda>cats. cats = [] \<or> m_category m \<in> set cats) (f_categories f)
     \<and> opt_holds (\<lambda>tys. tys = [] \<or> m_memory_type m \<in> set tys) (f_memory_types f)
     \<and> opt_holds (\<lambda>v. v \<le> m_retention_floor m) (f_min_retention_floor f)
     \<and> opt_holds (\<lambda>v. v \<le> m_importance m) (f_min_importance f)
     \<and> opt_holds (\<lambda>v. v \<le> m_created_at m) (f_created_after f)
     \<and> opt_holds (\<lambda>v. m_created_at m \<le> v) (f_created_before f)"

text \<open>The statement is built as text: without a limit an offset makes
  \<open>ORDER BY ... OFFSET n\<close>, which SQLite does not parse.\<close>

definition query :: "string \<Rightarrow> memory_filters \<Rightarrow> (memory_row list) sql" where
  "query u f =
     (if f_limit f = None \<and> f_offset f \<noteq> None then throw_sm Syntax_error
      else bind_sm (select_memories (matches_filters u f)) (\<lambda>rows.
        let ordered = sort_by (key_desc m_created_at) rows;
            skipped = (case f_offset f of None \<Rightarrow> ordered | Some n \<Rightarrow> sql_offset n ordered)
        in ret_sm (case f_limit f of None \<Rightarrow> skipped | Some n \<Rightarrow> sql_limit n skipped)))"

definition find_fading_candidates :: "string \<Rightarrow> (memory_row list) sql" where
  "find_fading_candidates u =
     bind_sm (select_memories (\<lambda>m. m_user_id m = u \<and> \<not> m_is_superseded m \<and> \<not> m_is_stub m
                                   \<and> \<not> m_is_cold m)) (\<lambda>rows.
       ret_sm (sort_by (key_asc m_last_accessed_at) rows))"

definition find_stable :: "string \<Rightarrow> real \<Rightarrow> int \<Rightarrow> int \<Rightarrow> (memory_row list) sql" where
  "find_stable u min_stability min_access limit =
     bind_sm (select_memories (\<lambda>m. m_user_id m = u \<and> min_stability \<le> m_stability m
         \<and> min_access \<le> m_retrieval_count m
         \<and> \<not> m_is_cold m \<and> \<not> m_is_stub m \<and> \<not> m_is_superseded m)) (\<lambda>rows.
       ret_sm (sql_limit limit (sort_by (key_desc m_stability) rows)))"

definition counts_for_user :: "sqlx_error + int \<Rightarrow> string \<Rightarrow> memory_counts sql" where
  "counts_for_user null_i64 u =
     bind_sm (select_memories (\<lambda>m. m_user_id m = u)) (\<lambda>rows.
       let sum_of = (\<lambda>P. if rows = [] then null_i64 else Inr (int (rows_affected P rows)))
       in bind_sm (lift_sm (sum_of (\<lambda>m. \<not> m_is_cold m \<and> \<not> m_is_stub m))) (\<lambda>hot.
          bind_sm (lift_sm (sum_of (\<lambda>m. m_is_cold m \<and> \<not> m_is_stub m))) (\<lambda>cold.
          bind_sm (lift_sm (sum_of m_is_stub)) (\<lambda>stub.
            ret_sm \<lparr>n_hot = hot, n_cold = cold, n_stub = stub, n_total = int (length rows)\<rparr>))))"

definition quote_query :: "string \<Rightarrow> string" where
  "quote_query q =
     (let dq = CHR 0x22 in [dq] @ map (\<lambda>c. if c = dq then CHR '' '' else c) q @ [dq])"

definition bm25_search ::
  "(string \<Rightarrow> (string \<times> string) list \<Rightarrow> string list) \<Rightarrow> string \<Rightarrow> string \<Rightarrow> nat \<Rightarrow> (string list) sql" where
  "bm25_search fts_match u q limit = gets_sm (\<lambda>d.
     sql_limit (as_i64 (int limit))
       (filter (\<lambda>i. \<exists>m \<in> set (memories d). m_id m = i \<and> m_user_id m = u)
         (fts_match (quote_query q) (memories_fts d))))"

definition searchable :: "string \<Rightarrow> string \<Rightarrow> string \<Rightarrow> int \<Rightarrow> bool \<Rightarrow> memory_row \<Rightarrow> bool" where
  "searchable u provider model now include_expired m \<longleftrightarrow>
     m_user_id m = u \<and> m_embedding m \<noteq> None
     \<and> m_embedding_provider m = Some provider \<and> m_embedding_model m = Some model
     \<and> \<not> m_is_stub m
     \<and> opt_holds (\<lambda>v. v \<le> now) (m_valid_from m)
     \<and> (include_expired \<or> \<not> m_is_superseded m \<and> \<not> m_is_cold m
           \<and> opt_holds (\<lambda>v. now < v) (m_valid_until m))"

definition to_candidate :: "memory_row \<Rightarrow> search_candidate" where
  "to_candidate m = \<lparr>sc_id = m_id m, sc_content = m_content m,
     sc_embedding = (case m_embedding m of Some b \<Rightarrow> b | None \<Rightarrow> []),
     sc_category = m_category m, sc_memory_type = m_memory_type m,
     sc_last_accessed_at = m_last_accessed_at m, sc_created_at = m_created_at m,
     sc_retention_floor = m_retention_floor m, sc_retrieval_count = m_retrieval_count m,
     sc_stability = m_stability m, sc_importance = m_importance m, sc_is_stub = m_is_stub m\<rparr>"

definition candidates_for_search ::
  "string \<Rightarrow> string \<Rightarrow> string \<Rightarrow> int \<Rightarrow> bool \<Rightarrow> (search_candidate list) sql" where
  "candidates_for_search u provider model now include_expired =
     bind_sm (select_memories (searchable u provider model now include_expired)) (\<lambda>rows.
       ret_sm (map to_candidate rows))"

section \<open>Writing\<close>

definition insert_row :: "memory_row \<Rightarrow> unit sql" where
  "insert_row r = insert_memory r"

definition upd_or :: "'a option \<Rightarrow> 'a \<Rightarrow> 'a" where
  "upd_or new old = (case new of Some v \<Rightarrow> v | None \<Rightarrow> old)"

definition apply_update :: "memory_update \<Rightarrow> memory_row \<Rightarrow> memory_row" where
  "apply_update upd m = m\<lparr>
     m_content := upd_or (u_content upd) (m_content m),
     m_category := upd_or (u_category upd) (m_category m),
     m_memory_type := upd_or (u_memory_type upd) (m_memory_type m),
     m_metadata := upd_or (u_metadata upd) (m_metadata m),
     m_retention_floor := upd_or (u_retention_floor upd) (m_retention_floor m),
     m_importance := upd_or (u_importance upd) (m_importance m),
     m_stability := upd_or (u_stability upd) (m_stability m),
     m_valid_until := (case u_valid_until upd of Some v \<Rightarrow> Some v | None \<Rightarrow> m_valid_until m)\<rparr>"

definition no_sets :: "memory_update \<Rightarrow> bool" where
  "no_sets upd \<longleftrightarrow> u_content upd = None \<and> u_category upd = None \<and> u_memory_type upd = None
     \<and> u_metadata upd = None \<and> u_retention_floor upd = None \<and> u_importance upd = None
     \<and> u_stability upd = None \<and> u_valid_until upd = None"

definition update_row :: "string \<Rightarrow> string \<Rightarrow> memory_update \<Rightarrow> bool sql" where
  "update_row u i upd =
     (if no_sets upd then ret_sm False
      else bind_sm (if u_content upd \<noteq> None
                    then update_memories_content (own u i) (apply_update upd)
                    else update_memories (own u i) (apply_update upd)) (\<lambda>n.
        ret_sm (0 < n)))"

definition delete_row :: "string \<Rightarrow> string \<Rightarrow> bool sql" where
  "delete_row u i = bind_sm (delete_memories (own u i)) (\<lambda>n. ret_sm (0 < n))"

definition delete_many :: "string \<Rightarrow> string list \<Rightarrow> nat sql" where
  "delete_many u ids =
     (if ids = [] then ret_sm 0
      else delete_memories (\<lambda>m. m_user_id m = u \<and> m_id m \<in> set ids))"

definition reinforce_stability :: "string \<Rightarrow> string \<Rightarrow> real \<Rightarrow> nat sql" where
  "reinforce_stability u i amount =
     update_memories (own u i) (\<lambda>m. m\<lparr>m_stability := min 1 (m_stability m + amount)\<rparr>)"

definition push_session :: "string \<Rightarrow> memory_row \<Rightarrow> memory_row" where
  "push_session sid m =
     (if sid \<in> set (m_session_ids m) then m
      else m\<lparr>m_session_ids := m_session_ids m @ [sid]\<rparr>)"

definition boost_row :: "string \<Rightarrow> int \<Rightarrow> string option \<Rightarrow> string \<times> real \<Rightarrow> nat \<Rightarrow> nat sql" where
  "boost_row u now session_id = (\<lambda>(i, new_stability) total.
     bind_sm (update_memories (own u i) (\<lambda>m. m\<lparr>m_stability := new_stability,
         m_last_accessed_at := now, m_retrieval_count := m_retrieval_count m + 1\<rparr>)) (\<lambda>n.
     bind_sm (case session_id of None \<Rightarrow> ret_sm 0
              | Some sid \<Rightarrow> update_memories (own u i) (push_session sid)) (\<lambda>_.
       ret_sm (total + n))))"

definition apply_direct_boosts ::
  "string \<Rightarrow> (string \<times> real) list \<Rightarrow> int \<Rightarrow> string option \<Rightarrow> nat sql" where
  "apply_direct_boosts u boosts now session_id =
     (if boosts = [] then ret_sm 0
      else transaction (fold_sm boosts (boost_row u now session_id) 0))"

text \<open>The loop \<open>for x in xs { total += UPDATE ... }\<close> of the bulk operations.\<close>

definition update_each ::
  "'x list \<Rightarrow> ('x \<Rightarrow> memory_row \<Rightarrow> bool) \<Rightarrow> ('x \<Rightarrow> memory_row \<Rightarrow> memory_row) \<Rightarrow> nat sql" where
  "update_each xs P f =
     (if xs = [] then ret_sm 0
      else transaction (fold_sm xs (\<lambda>x total.
             bind_sm (update_memories (P x) (f x)) (\<lambda>n. ret_sm (total + n))) 0))"

definition promote_to_core :: "string \<Rightarrow> string list \<Rightarrow> nat sql" where
  "promote_to_core u ids =
     update_each ids (\<lambda>i m. own u i m \<and> m_category m \<noteq> ''core'')
       (\<lambda>_ m. m\<lparr>m_category := ''core'', m_retention_floor := 6 / 10\<rparr>)"

definition update_retention_scores :: "string \<Rightarrow> (string \<times> real) list \<Rightarrow> nat sql" where
  "update_retention_scores u updates =
     update_each updates (\<lambda>(i, score). own u i) (\<lambda>(i, score) m. m\<lparr>m_retention_floor := score\<rparr>)"

definition mark_superseded :: "string \<Rightarrow> string list \<Rightarrow> string \<Rightarrow> nat sql" where
  "mark_superseded u ids summary_id =
     (if ids = [] then ret_sm 0
      else update_memories (\<lambda>m. m_user_id m = u \<and> m_id m \<in> set ids)
             (\<lambda>m. m\<lparr>m_is_superseded := True, m_superseded_by := Some summary_id\<rparr>))"

definition to_cold :: "int \<Rightarrow> memory_row \<Rightarrow> memory_row" where
  "to_cold since m = m\<lparr>m_is_cold := True, m_cold_since := Some since\<rparr>"

definition to_hot :: "memory_row \<Rightarrow> memory_row" where
  "to_hot m = m\<lparr>m_is_cold := False, m_cold_since := None, m_days_at_floor := 0\<rparr>"

definition migrate_to_cold :: "string \<Rightarrow> string \<Rightarrow> int \<Rightarrow> bool sql" where
  "migrate_to_cold u i since = bind_sm (update_memories (own u i) (to_cold since)) (\<lambda>n. ret_sm (0 < n))"

definition migrate_to_hot :: "string \<Rightarrow> string \<Rightarrow> bool sql" where
  "migrate_to_hot u i = bind_sm (update_memories (own u i) to_hot) (\<lambda>n. ret_sm (0 < n))"

definition migrate_to_hot_many :: "string \<Rightarrow> string list \<Rightarrow> nat sql" where
  "migrate_to_hot_many u ids = update_each ids (own u) (\<lambda>_. to_hot)"

definition convert_to_stub :: "string \<Rightarrow> string \<Rightarrow> string \<Rightarrow> bool sql" where
  "convert_to_stub u i stub =
     bind_sm (update_memories (own u i) (\<lambda>m. m\<lparr>m_is_stub := True, m_stub_content := Some stub\<rparr>))
       (\<lambda>n. ret_sm (0 < n))"

definition clear_user :: "string \<Rightarrow> nat sql" where
  "clear_user u = delete_memories (\<lambda>m. m_user_id m = u)"

definition record_access :: "string \<Rightarrow> string \<Rightarrow> int \<Rightarrow> unit sql" where
  "record_access u i accessed_at =
     bind_sm (update_memories (own u i)
       (\<lambda>m. m\<lparr>m_last_accessed_at := accessed_at, m_retrieval_count := m_retrieval_count m + 1\<rparr>))
       (\<lambda>_. ret_sm ())"

section \<open>Frames\<close>

lemma wf_new_minimal [simp]: "wf_memory (new_minimal i u c cat ty now)"
  by (simp add: wf_memory_def new_minimal_def)

lemma new_minimal_simps [simp]:
  "m_id (new_minimal i u c cat ty now) = i"
  "m_user_id (new_minimal i u c cat ty now) = u"
  "m_content (new_minimal i u c cat ty now) = c"
  "m_category (new_minimal i u c cat ty now) = cat"
  by (simp_all add: new_minimal_def)

lemma apply_update_simps [simp]:
  "m_id (apply_update upd m) = m_id m"
  "m_user_id (apply_update upd m) = m_user_id m"
  "u_content upd = None \<Longrightarrow> m_content (apply_update upd m) = m_content m"
  "wf_memory (apply_update upd m) = wf_memory m"
  by (simp_all add: apply_update_def upd_or_def wf_memory_def)

lemma push_session_simps [simp]:
  "m_id (push_session sid m) = m_id m"
  "m_user_id (push_session sid m) = m_user_id m"
  "m_content (push_session sid m) = m_content m"
  "wf_memory m \<Longrightarrow> wf_memory (push_session sid m)"
  by (auto simp: push_session_def wf_memory_def)

lemma own_user: "own u i m \<Longrightarrow> m_user_id m = u"
  by (simp add: own_def)

text \<open>The operations that only read.\<close>

lemma repo_reads_inv [frame_intros]:
  "keeps inv_step (get_for_user u i)"
  "keeps inv_step (get_many_for_user u ids)"
  "keeps inv_step (query u f)"
  "keeps inv_step (find_fading_candidates u)"
  "keeps inv_step (find_stable u ms ma k)"
  "keeps inv_step (counts_for_user null_i64 u)"
  "keeps inv_step (bm25_search fts u q nmax)"
  "keeps inv_step (candidates_for_search u p mo now e)"
  by (auto simp: get_for_user_def get_many_for_user_def query_def find_fading_candidates_def
      find_stable_def counts_for_user_def bm25_search_def candidates_for_search_def Let_def
      split: option.split intro!: inv.keeps_rules select_memories_keeps)

lemma reads_iso [frame_intros]:
  "keeps (others_step w) (get_for_user u i)"
  "keeps (others_step w) (get_many_for_user u ids)"
  "keeps (others_step w) (query u f)"
  "keeps (others_step w) (find_fading_candidates u)"
  "keeps (others_step w) (find_stable u ms ma k)"
  "keeps (others_step w) (counts_for_user null_i64 u)"
  "keeps (others_step w) (bm25_search fts u q nmax)"
  "keeps (others_step w) (candidates_for_search u p mo now e)"
  by (auto simp: get_for_user_def get_many_for_user_def query_def find_fading_candidates_def
      find_stable_def counts_for_user_def bm25_search_def candidates_for_search_def Let_def
      split: option.split intro!: iso.keeps_rules select_memories_keeps)

lemma update_each_inv:
  assumes "\<And>x m. m_id (f x m) = m_id m" "\<And>x m. m_content (f x m) = m_content m"
    and "\<And>x m. P x m \<Longrightarrow> wf_memory m \<Longrightarrow> wf_memory (f x m)"
  shows "keeps inv_step (update_each xs P f)"
  unfolding update_each_def
  by (intro inv.keeps_rules update_memories_inv) (simp_all add: assms)

lemma update_each_iso:
  assumes "\<And>x m. P x m \<Longrightarrow> m_user_id m = u" "\<And>x m. m_user_id (f x m) = m_user_id m"
  shows "keeps (others_step u) (update_each xs P f)"
  unfolding update_each_def
  by (intro iso.keeps_rules update_memories_iso) (simp_all add: assms)

lemma writes_inv [frame_intros]:
  "wf_memory r \<Longrightarrow> keeps inv_step (insert_row r)"
  "keeps inv_step (update_row u i upd)"
  "keeps inv_step (delete_row u i)"
  "keeps inv_step (delete_many u ids)"
  "keeps inv_step (reinforce_stability u i amount)"
  "keeps inv_step (apply_direct_boosts u boosts now sid)"
  "keeps inv_step (promote_to_core u ids)"
  "keeps inv_step (update_retention_scores u upds)"
  "keeps inv_step (mark_superseded u ids s)"
  "keeps inv_step (migrate_to_cold u i c)"
  "keeps inv_step (migrate_to_hot u i)"
  "keeps inv_step (migrate_to_hot_many u ids)"
  "keeps inv_step (convert_to_stub u i stub)"
  "keeps inv_step (clear_user u)"
  "keeps inv_step (record_access u i accessed_at)"
proof -
  show "wf_memory r \<Longrightarrow> keeps inv_step (insert_row r)"
    by (simp add: insert_row_def insert_memory_inv)
  show "keeps inv_step (update_row u i upd)"
    unfolding update_row_def
    by (auto intro!: inv.keeps_rules update_memories_inv update_memories_content_inv)
  show "keeps inv_step (apply_direct_boosts u boosts now sid)"
    unfolding apply_direct_boosts_def boost_row_def
    by (auto intro!: inv.keeps_rules update_memories_inv split: option.split)
      (auto simp: wf_memory_def)
  show "keeps inv_step (promote_to_core u ids)"
    unfolding promote_to_core_def by (rule update_each_inv) (auto simp: wf_memory_def)
  show "keeps inv_step (update_retention_scores u upds)"
    unfolding update_retention_scores_def
    by (rule update_each_inv) (auto simp: wf_memory_def split: prod.splits)
  show "keeps inv_step (migrate_to_hot_many u ids)"
    unfolding migrate_to_hot_many_def
    by (rule update_each_inv) (auto simp: wf_memory_def to_hot_def)
qed (auto simp: delete_row_def delete_many_def reinforce_stability_def mark_superseded_def
    migrate_to_cold_def migrate_to_hot_def convert_to_stub_def clear_user_def record_access_def
    to_cold_def to_hot_def wf_memory_def
    intro!: inv.keeps_rules delete_memories_inv update_memories_inv)

lemma writes_iso [frame_intros]:
  "m_user_id r = u \<Longrightarrow> keeps (others_step u) (insert_row r)"
  "keeps (others_step u) (update_row u i upd)"
  "keeps (others_step u) (delete_row u i)"
  "keeps (others_step u) (delete_many u ids)"
  "keeps (others_step u) (reinforce_stability u i amount)"
  "keeps (others_step u) (apply_direct_boosts u boosts now sid)"
  "keeps (others_step u) (promote_to_core u ids)"
  "keeps (others_step u) (update_retention_scores u upds)"
  "keeps (others_step u) (mark_superseded u ids s)"
  "keeps (others_step u) (migrate_to_cold u i c)"
  "keeps (others_step u) (migrate_to_hot u i)"
  "keeps (others_step u) (migrate_to_hot_many u ids)"
  "keeps (others_step u) (convert_to_stub u i stub)"
  "keeps (others_step u) (clear_user u)"
  "keeps (others_step u) (record_access u i accessed_at)"
proof -
  show "keeps (others_step u) (apply_direct_boosts u boosts now sid)"
    unfolding apply_direct_boosts_def boost_row_def
    by (auto intro!: iso.keeps_rules update_memories_iso split: option.split dest: own_user)
  show "keeps (others_step u) (promote_to_core u ids)"
    unfolding promote_to_core_def by (rule update_each_iso) (auto dest: own_user)
  show "keeps (others_step u) (update_retention_scores u upds)"
    unfolding update_retention_scores_def
    by (rule update_each_iso) (auto split: prod.splits dest: own_user)
  show "keeps (others_step u) (migrate_to_hot_many u ids)"
    unfolding migrate_to_hot_many_def
    by (rule update_each_iso) (auto simp: to_hot_def dest: own_user)
qed (auto simp: insert_row_def update_row_def delete_row_def delete_many_def
    reinforce_stability_def mark_superseded_def migrate_to_cold_def migrate_to_hot_def
    convert_to_stub_def clear_user_def record_access_def to_cold_def to_hot_def
    intro!: iso.keeps_rules delete_memories_iso update_memories_iso update_memories_content_iso
      insert_memory_iso dest: own_user)

end
