(* ===== verification/Association_Repo.thy ===== *)
theory Association_Repo
  imports Memory_Repo
begin

text \<open>
  The other repositories of \<open>crates/store/src/repos.rs\<close>: \<open>AssociationRepo\<close> (weighted directed
  edges between memories), \<open>EmbeddingCacheRepo\<close> (\<open>INSERT OR IGNORE\<close> on a content hash) and
  \<open>EventLogRepo\<close>.
\<close>

section \<open>Associations\<close>

record neighbor_edge =
  ne_target_id :: string
  ne_weight :: real
  ne_last_co_retrieval :: "int option"

record linked_memory =
  lm_memory :: memory_row
  lm_link_strength :: real
  lm_last_co_retrieval :: "int option"

definition clamp01 :: "real \<Rightarrow> real" where
  "clamp01 w = max (min w 1) 0"

definition create_or_strengthen ::
  "string \<Rightarrow> string \<Rightarrow> real \<Rightarrow> int \<Rightarrow> string \<Rightarrow> real sql" where
  "create_or_strengthen src tgt bump now kind =
     bind_sm (gets_sm (\<lambda>d. tbl_get edge_key (associations d) (src, tgt))) (\<lambda>existing.
       let new_weight = (case existing of Some a \<Rightarrow> clamp01 (a_weight a + bump)
                                        | None \<Rightarrow> clamp01 bump)
       in bind_sm (upsert_association
            \<lparr>a_source = src, a_target = tgt, a_weight = new_weight, a_kind = kind,
             a_updated_at = now, a_last_co_retrieval = Some now\<rparr>
            (\<lambda>a. a\<lparr>a_weight := new_weight, a_kind := kind, a_updated_at := now,
                   a_last_co_retrieval := Some now\<rparr>)) (\<lambda>_.
          ret_sm new_weight))"

definition strengthen_edge ::
  "real \<Rightarrow> int \<Rightarrow> string \<Rightarrow> string \<times> string \<Rightarrow> nat \<Rightarrow> nat sql" where
  "strengthen_edge amount now kind = (\<lambda>(src, tgt) total.
     bind_sm (upsert_association
       \<lparr>a_source = src, a_target = tgt, a_weight = clamp01 amount, a_kind = kind,
        a_updated_at = now, a_last_co_retrieval = Some now\<rparr>
       (\<lambda>a. a\<lparr>a_weight := min 1 (a_weight a + amount), a_updated_at := now,
              a_last_co_retrieval := Some now\<rparr>)) (\<lambda>n.
     ret_sm (total + n)))"

definition both_ways :: "('a \<times> 'a) list \<Rightarrow> ('a \<times> 'a) list" where
  "both_ways pairs = concat (map (\<lambda>(a, b). [(a, b), (b, a)]) pairs)"

definition strengthen_pairs ::
  "(string \<times> string) list \<Rightarrow> real \<Rightarrow> int \<Rightarrow> string \<Rightarrow> nat sql" where
  "strengthen_pairs pairs amount now kind =
     (if pairs = [] then ret_sm 0
      else transaction (fold_sm (both_ways pairs) (strengthen_edge amount now kind) 0))"

definition link_bidirectional :: "string \<Rightarrow> string \<Rightarrow> real \<Rightarrow> int \<Rightarrow> string \<Rightarrow> real sql" where
  "link_bidirectional a b bump now kind =
     bind_sm (create_or_strengthen a b bump now kind) (\<lambda>w1.
     bind_sm (create_or_strengthen b a bump now kind) (\<lambda>_. ret_sm w1))"

text \<open>Both \<open>linked_for\<close> methods end the same way: fetch the memories, attach the edge.\<close>

definition attach_edges :: "string \<Rightarrow> (string \<times> real \<times> int option) list \<Rightarrow> (linked_memory list) sql" where
  "attach_edges u edges =
     (if edges = [] then ret_sm []
      else bind_sm (get_many_for_user u (map fst edges)) (\<lambda>mems.
        ret_sm (List.map_filter (\<lambda>m. case map_of (rev edges) (m_id m) of
                  None \<Rightarrow> None
                | Some (w, last_co) \<Rightarrow> Some \<lparr>lm_memory = m, lm_link_strength = w,
                                             lm_last_co_retrieval = last_co\<rparr>) mems)))"

definition edges_from :: "string \<Rightarrow> real \<Rightarrow> db \<Rightarrow> association_row list" where
  "edges_from src min_weight d =
     sort_by (key_desc a_weight)
       (filter (\<lambda>a. a_source a = src \<and> min_weight \<le> a_weight a) (associations d))"

definition linked_for :: "string \<Rightarrow> string \<Rightarrow> real \<Rightarrow> (linked_memory list) sql" where
  "linked_for u src min_weight =
     bind_sm (gets_sm (edges_from src min_weight)) (\<lambda>edges.
       attach_edges u (map (\<lambda>a. (a_target a, a_weight a, a_last_co_retrieval a)) edges))"

text \<open>\<open>MAX\<close> of a column over a group; NULLs are ignored.\<close>

definition max_opt :: "int option \<Rightarrow> int option \<Rightarrow> int option" where
  "max_opt a b = (case (a, b) of (Some x, Some y) \<Rightarrow> Some (max x y) | (None, _) \<Rightarrow> b | _ \<Rightarrow> a)"

definition group_edges :: "association_row list \<Rightarrow> (string \<times> real \<times> int option) list" where
  "group_edges es =
     map (\<lambda>t. let g = filter (\<lambda>a. a_target a = t) es
              in (t, Max (set (map a_weight g)), foldr max_opt (map a_last_co_retrieval g) None))
       (remdups (map a_target es))"

definition linked_for_many :: "string \<Rightarrow> string list \<Rightarrow> real \<Rightarrow> (linked_memory list) sql" where
  "linked_for_many u srcs min_weight =
     (if srcs = [] then ret_sm []
      else bind_sm (gets_sm (\<lambda>d. sort_by (key_desc (\<lambda>e. fst (snd e)))
              (group_edges (filter (\<lambda>a. a_source a \<in> set srcs \<and> min_weight \<le> a_weight a)
                 (associations d))))) (\<lambda>edges.
           attach_edges u edges))"

definition neighbor_edges :: "string \<Rightarrow> real \<Rightarrow> (neighbor_edge list) sql" where
  "neighbor_edges src min_weight = gets_sm (\<lambda>d.
     map (\<lambda>a. \<lparr>ne_target_id = a_target a, ne_weight = a_weight a,
               ne_last_co_retrieval = a_last_co_retrieval a\<rparr>) (edges_from src min_weight d))"

definition delete_link :: "string \<Rightarrow> string \<Rightarrow> bool sql" where
  "delete_link src tgt =
     bind_sm (delete_associations (\<lambda>a. a_source a = src \<and> a_target a = tgt)) (\<lambda>n. ret_sm (0 < n))"

definition delete_bidirectional :: "string \<Rightarrow> string \<Rightarrow> nat sql" where
  "delete_bidirectional a b =
     delete_associations (\<lambda>e. (a_source e = a \<and> a_target e = b) \<or> (a_source e = b \<and> a_target e = a))"

section \<open>Embedding cache and event log\<close>

definition cache_insert :: "string \<Rightarrow> string \<Rightarrow> byte list \<Rightarrow> f32 list \<Rightarrow> int \<Rightarrow> bool sql" where
  "cache_insert provider model text_hash vec now d =
     (case tbl_insert cache_key \<lparr>c_provider = provider, c_model = model, c_text_hash = text_hash,
              c_embedding = encode_f32s vec, c_created_at = now\<rparr> (embedding_cache d) of
        None \<Rightarrow> (Inr False, d)
      | Some t \<Rightarrow> (Inr True, d\<lparr>embedding_cache := t\<rparr>))"

definition cache_get :: "string \<Rightarrow> string \<Rightarrow> byte list \<Rightarrow> (f32 list option) sql" where
  "cache_get provider model text_hash = gets_sm (\<lambda>d.
     map_option (\<lambda>r. decode_f32s (c_embedding r))
       (tbl_get cache_key (embedding_cache d) (provider, model, text_hash)))"

definition event_append :: "string \<Rightarrow> string \<Rightarrow> int \<Rightarrow> int sql" where
  "event_append kind payload occurred_at d =
     (let i = events_seq d + 1 in
      (Inr i, d\<lparr>events := events d @ [\<lparr>e_id = i, e_kind = kind, e_payload = payload,
                                        e_occurred_at = occurred_at\<rparr>], events_seq := i\<rparr>))"

section \<open>Frames\<close>

lemma clamp01_range [simp]: "0 \<le> clamp01 w" "clamp01 w \<le> 1"
  by (simp_all add: clamp01_def)

lemma clamp01_id [simp]: "0 \<le> w \<Longrightarrow> w \<le> 1 \<Longrightarrow> clamp01 w = w"
  by (simp add: clamp01_def)

lemma attach_edges_keeps:
  "keeps inv_step (attach_edges u es)" "keeps (others_step w) (attach_edges u es)"
  by (auto simp: attach_edges_def intro!: inv.keeps_rules iso.keeps_rules repo_reads_inv reads_iso)

lemma assoc_reads_keep [frame_intros]:
  "keeps inv_step (linked_for u src mw)" "keeps (others_step w) (linked_for u src mw)"
  "keeps inv_step (linked_for_many u srcs mw)" "keeps (others_step w) (linked_for_many u srcs mw)"
  "keeps inv_step (neighbor_edges src mw)" "keeps (others_step w) (neighbor_edges src mw)"
  by (auto simp: linked_for_def linked_for_many_def neighbor_edges_def
      intro!: inv.keeps_rules iso.keeps_rules attach_edges_keeps)

lemma create_or_strengthen_inv [frame_intros]:
  "keeps inv_step (create_or_strengthen src tgt bump now kind)"
  unfolding create_or_strengthen_def Let_def
  by (intro inv.keeps_rules upsert_association_inv) (auto simp: edge_key_def split: option.split)

lemma strengthen_pairs_inv [frame_intros]:
  "0 \<le> amount \<Longrightarrow> keeps inv_step (strengthen_pairs pairs amount now kind)"
  unfolding strengthen_pairs_def strengthen_edge_def
  by (auto intro!: inv.keeps_rules upsert_association_inv simp: edge_key_def)

lemma link_bidirectional_inv [frame_intros]:
  "keeps inv_step (link_bidirectional a b bump now kind)"
  unfolding link_bidirectional_def by (intro inv.keeps_rules create_or_strengthen_inv)

lemma delete_links_inv [frame_intros]:
  "keeps inv_step (delete_link src tgt)" "keeps inv_step (delete_bidirectional a b)"
  by (auto simp: delete_link_def delete_bidirectional_def
      intro!: inv.keeps_rules delete_associations_inv)

lemma assoc_writes_iso [frame_intros]:
  "keeps (others_step u) (create_or_strengthen src tgt bump now kind)"
  "keeps (others_step u) (strengthen_pairs pairs amount now kind)"
  "keeps (others_step u) (link_bidirectional a b bump now kind)"
  "keeps (others_step u) (delete_link src tgt)"
  "keeps (others_step u) (delete_bidirectional a b)"
  by (auto simp: create_or_strengthen_def strengthen_pairs_def strengthen_edge_def
      link_bidirectional_def delete_link_def delete_bidirectional_def Let_def
      intro!: iso.keeps_rules other_tables_iso)

lemma cache_keeps [frame_intros]:
  "keeps inv_step (cache_insert p m h v now)" "keeps (others_step u) (cache_insert p m h v now)"
  "keeps inv_step (cache_get p m h)" "keeps (others_step u) (cache_get p m h)"
  by (auto simp: cache_get_def inv.keeps_gets iso.keeps_gets cache_insert_def inv_step_def
      others_step_def others_def wf_db_def
      split: option.split intro!: keepsI intro: keyed_insert)

lemma event_append_keeps [frame_intros]:
  "keeps inv_step (event_append k p t)" "keeps (others_step u) (event_append k p t)"
  by (force simp: event_append_def inv_step_def others_step_def others_def wf_db_def keyed_def
      Let_def intro!: keepsI)+

end
