(* ===== verification/Store_Laws.thy ===== *)
theory Store_Laws
  imports Association_Repo
begin

text \<open>
  What the repositories promise to their callers, over the definitions of \<open>Memory_Repo\<close> and
  \<open>Association_Repo\<close>: what a read returns after a write, what a deletion cascades to, the
  order and the contents of the listings, and the clamping of association weights.
\<close>

section \<open>A small database\<close>

text \<open>Two memories of one user and one of another, with an edge between the first two. It is
  used to exhibit the hypotheses of the theorems.\<close>

definition demo_row :: "string \<Rightarrow> string \<Rightarrow> memory_row" where
  "demo_row i u = new_minimal i u ''likes tea'' ''semantic'' ''fact'' 5"

definition demo_db :: db where
  "demo_db = empty_db\<lparr>
     memories := [demo_row ''mem_1'' ''alice'', demo_row ''mem_2'' ''alice'', demo_row ''mem_3'' ''bob''],
     memories_fts := [(''mem_1'', ''likes tea''), (''mem_2'', ''likes tea''), (''mem_3'', ''likes tea'')],
     associations := [\<lparr>a_source = ''mem_1'', a_target = ''mem_2'', a_weight = 1 / 2, a_kind = ''manual'',
                       a_updated_at = 5, a_last_co_retrieval = Some 5\<rparr>]\<rparr>"

lemma demo_row_simps [simp]:
  "m_id (demo_row i u) = i" "m_user_id (demo_row i u) = u" "wf_memory (demo_row i u)"
  "m_content (demo_row i u) = ''likes tea''" "m_created_at (demo_row i u) = 5"
  "m_is_cold (demo_row i u) = False" "m_is_stub (demo_row i u) = False"
  "m_is_superseded (demo_row i u) = False"
  by (simp_all add: demo_row_def) (simp_all add: new_minimal_def)

lemma memories_demo [simp]:
  "memories demo_db = [demo_row ''mem_1'' ''alice'', demo_row ''mem_2'' ''alice'', demo_row ''mem_3'' ''bob'']"
  by (simp add: demo_db_def)

lemma wf_demo_db: "wf_db demo_db"
  by (simp add: demo_db_def wf_db_def empty_db_def keyed_def fts_mirror_def edge_key_def wf_edge_def
      memory_exists_def)

section \<open>Lookups\<close>

lemma find_own:
  assumes "keyed m_id ms"
  shows "find (own u i) ms = (case tbl_get m_id ms i of
     Some r \<Rightarrow> if m_user_id r = u then Some r else None | None \<Rightarrow> None)"
  using assms
proof (induction ms)
  case (Cons a ms)
  have "tbl_get m_id ms (m_id a) = None"
    using Cons.prems by (simp add: tbl_get_None keyed_def)
  then show ?case
    using Cons by (auto simp: tbl_get_def own_def keyed_def)
qed (simp add: tbl_get_def)

lemma get_for_user_eq:
  "wf_db d \<Longrightarrow> get_for_user u i d = (Inr (case tbl_get m_id (memories d) i of
     Some r \<Rightarrow> if m_user_id r = u then Some r else None | None \<Rightarrow> None), d)"
  by (simp add: get_for_user_def gets_sm_def find_own wf_dbD(1))

lemma get_for_user_Some:
  "wf_db d \<Longrightarrow> fst (get_for_user u i d) = Inr (Some r) \<longleftrightarrow>
     r \<in> set (memories d) \<and> m_user_id r = u \<and> m_id r = i"
proof -
  assume d: "wf_db d"
  have "fst (get_for_user u i d) = Inr (Some r) \<longleftrightarrow>
      tbl_get m_id (memories d) i = Some r \<and> m_user_id r = u"
    using d by (auto simp: get_for_user_eq split: option.split)
  then show ?thesis using tbl_get_eq_Some [OF wf_dbD(1) [OF d], of i r] by auto
qed

text \<open>Storing a memory under an id that is not taken succeeds, keeps the database
  well-formed, and from then on the memory's user reads back exactly that row, no other user
  sees it, and every other id reads as before; under a taken id the insertion fails and
  changes nothing.\<close>

theorem insert_then_get:
  assumes "wf_db d" "wf_memory r"
  shows "if tbl_get m_id (memories d) (m_id r) \<noteq> None
    then insert_row r d = (Inl Unique_violation, d)
    else \<exists>d'. insert_row r d = (Inr (), d') \<and> wf_db d'
      \<and> fst (get_for_user (m_user_id r) (m_id r) d') = Inr (Some r)
      \<and> (\<forall>u. u \<noteq> m_user_id r \<longrightarrow> fst (get_for_user u (m_id r) d') = Inr None)
      \<and> (\<forall>u i. i \<noteq> m_id r \<longrightarrow> fst (get_for_user u i d') = fst (get_for_user u i d))"
proof (cases "tbl_get m_id (memories d) (m_id r) = None")
  case True
  then obtain d' where d': "insert_memory r d = (Inr (), d')" "wf_db d'"
    "\<And>k. tbl_get m_id (memories d') k = (if k = m_id r then Some r else tbl_get m_id (memories d) k)"
    using memory_rows.ins_fresh [OF assms True] by blast
  then show ?thesis using True assms by (simp add: insert_row_def get_for_user_eq)
next
  case False
  then show ?thesis
    by (auto simp: insert_row_def insert_memory_def tbl_insert_def tbl_get_None)
qed

theorem insert_then_get_witness:
  "\<exists>d'. insert_row (new_minimal ''mem_1'' ''alice'' ''likes tea'' ''semantic'' ''fact'' 5) empty_db = (Inr (), d')
     \<and> wf_db d' \<and> fst (get_for_user ''alice'' ''mem_1'' d')
         = Inr (Some (new_minimal ''mem_1'' ''alice'' ''likes tea'' ''semantic'' ''fact'' 5))"
  using insert_then_get [OF wf_empty_db, of "new_minimal ''mem_1'' ''alice'' ''likes tea'' ''semantic'' ''fact'' 5"]
  by (auto simp: tbl_get_def empty_db_def)

text \<open>An update is a function on the row it selects; everything else reads as before.\<close>

lemma tbl_get_own_update:
  assumes "\<And>m. m_id (f m) = m_id m"
  shows "tbl_get m_id (tbl_update (own u i) f ms) k =
     map_option (\<lambda>m. if own u i m then f m else m) (tbl_get m_id ms k)"
  by (rule tbl_get_update) (simp add: assms)

lemma rows_affected_own:
  "keyed m_id ms \<Longrightarrow> 0 < rows_affected (own u i) ms \<longleftrightarrow> find (own u i) ms \<noteq> None"
  by (auto simp: rows_affected_pos find_None_iff)

lemma update_memories_get:
  assumes "wf_db d" "wf_db d'" "\<And>m. m_id (f m) = m_id m" "\<And>m. m_user_id (f m) = m_user_id m"
    and "memories d' = tbl_update (own u i) f (memories d)"
  shows "fst (get_for_user v k d') = map_sum id (map_option (\<lambda>m. if v = u \<and> k = i then f m else m))
     (fst (get_for_user v k d))"
  using assms tbl_get_Some [of m_id "memories d" k]
  by (auto simp: get_for_user_eq tbl_get_own_update own_def split: option.split)



section \<open>Deletion\<close>

text \<open>C25: Deleting a memory answers true iff the user owns it. If so, afterwards the id is gone
  from the memories, from the full-text index, from every association and from every queued
  conflict, and all other memories, associations and conflicts are untouched; if not, nothing
  changes.\<close>

theorem delete_row_cascades:
  assumes "wf_db d" "delete_row u i d = (res, d')"
  shows "(res = Inr True \<and> fst (get_for_user u i d) \<noteq> Inr None
      \<and> wf_db d' \<and> \<not> memory_exists d' i \<and> i \<notin> fst ` set (memories_fts d')
      \<and> memories d' = filter (\<lambda>m. m_id m \<noteq> i) (memories d)
      \<and> associations d' = filter (\<lambda>a. a_source a \<noteq> i \<and> a_target a \<noteq> i) (associations d)
      \<and> conflict_queue d' = filter (\<lambda>q. q_new q \<noteq> i \<and> q_existing q \<noteq> i) (conflict_queue d))
    \<or> (res = Inr False \<and> fst (get_for_user u i d) = Inr None \<and> d' = d)"
proof -
  note key = wf_dbD(1) [OF assms(1)]
  have wf': "wf_db d'" using keeps_invD [OF writes_inv(3) assms(2,1)] .
  have res: "res = Inr (0 < rows_affected (own u i) (memories d))"
    and d': "d' = snd (delete_memories (own u i) d)"
    using assms(2) by (auto simp: delete_row_def bind_sm_def ret_sm_def delete_memories_def Let_def)
  have aff: "0 < rows_affected (own u i) (memories d) \<longleftrightarrow> fst (get_for_user u i d) \<noteq> Inr None"
    using rows_affected_own [OF key] by (simp add: get_for_user_def gets_sm_def)
  show ?thesis
  proof (cases "0 < rows_affected (own u i) (memories d)")
    case True
    then obtain r where r: "r \<in> set (memories d)" "own u i r" by (auto simp: rows_affected_pos)
    have own_eq: "own u i m \<longleftrightarrow> m_id m = i" if "m \<in> set (memories d)" for m
      using that r key by (auto simp: own_def keyed_def distinct_map dest: inj_onD)
    have gone: "m_id ` set (filter (own u i) (memories d)) = {i}"
      using r by (auto simp: own_def)
    have mem: "memories d' = filter (\<lambda>m. m_id m \<noteq> i) (memories d)"
      using own_eq by (auto simp: d' delete_memories_def Let_def tbl_delete_def intro: filter_cong)
    moreover have "set (memories_fts d') = (\<lambda>m. (m_id m, m_content m)) ` set (memories d')"
      using wf_dbD(9) [OF wf'] unfolding fts_mirror_def by (metis set_map set_mset_mset)
    ultimately show ?thesis
      using True res aff wf' gone
      by (auto simp: d' delete_memories_def Let_def tbl_delete_def memory_exists_def)
  next
    case False
    then have none: "filter (own u i) (memories d) = []" by (simp add: rows_affected_def)
    then have "tbl_delete (own u i) (memories d) = memories d"
      by (simp add: tbl_delete_def filter_id_conv filter_empty_conv)
    then show ?thesis
      using False res aff none by (auto simp: d' delete_memories_def Let_def tbl_delete_def)
  qed
qed

theorem delete_row_cascades_witness:
  "\<exists>d'. delete_row ''alice'' ''mem_1'' demo_db = (Inr True, d') \<and> \<not> memory_exists d' ''mem_1''
     \<and> associations d' = []"
proof -
  obtain res d' where run: "delete_row ''alice'' ''mem_1'' demo_db = (res, d')" by fastforce
  have "fst (get_for_user ''alice'' ''mem_1'' demo_db) \<noteq> Inr None"
    by (simp add: get_for_user_def gets_sm_def own_def)
  then show ?thesis
    using run delete_row_cascades [OF wf_demo_db run] by (auto simp: demo_db_def)
qed

section \<open>Listings\<close>

lemma position_less: "i \<in> set ids \<Longrightarrow> position i ids < length ids"
  by (induction ids) auto

lemma nth_position: "i \<in> set ids \<Longrightarrow> ids ! position i ids = i"
  by (induction ids) auto

lemma inj_position: "inj_on (\<lambda>i. position i ids) (set ids)"
  by (rule inj_on_inverseI [where g = "\<lambda>k. ids ! k"]) (rule nth_position)

lemma map_position: "distinct ids \<Longrightarrow> map (\<lambda>i. position i ids) ids = [0..<length ids]"
proof (rule nth_equalityI)
  assume "distinct ids"
  fix k
  assume "k < length (map (\<lambda>i. position i ids) ids)"
  then have k: "k < length ids" by simp
  then have "ids ! position (ids ! k) ids = ids ! k" "position (ids ! k) ids < length ids"
    by (simp_all add: nth_position position_less)
  then show "map (\<lambda>i. position i ids) ids ! k = [0..<length ids] ! k"
    using k \<open>distinct ids\<close> by (simp add: nth_eq_iff_index_eq)
qed simp

lemma sorted_wrt_strict:
  assumes "sorted_wrt (\<lambda>a b. (k a :: nat) \<le> k b) xs" "inj_on k (set xs)" "distinct xs"
  shows "sorted_wrt (\<lambda>a b. k a < k b) xs"
  using assms by (induction xs) (auto simp: order.strict_iff_order inj_on_def)

text \<open>Fetching many memories by id returns exactly the user's memories among the ids, each
  once, in the order of the first occurrence of their ids; ids that are distinct and all owned
  come back as given.\<close>

theorem get_many_for_user_order:
  assumes "wf_db d"
  shows "\<exists>rows. get_many_for_user u ids d = (Inr rows, d)
    \<and> set rows = {m \<in> set (memories d). m_user_id m = u \<and> m_id m \<in> set ids}
    \<and> sorted_wrt (\<lambda>a b. position (m_id a) ids < position (m_id b) ids) rows
    \<and> (distinct ids \<and> (\<forall>i \<in> set ids. fst (get_for_user u i d) \<noteq> Inr None) \<longrightarrow> map m_id rows = ids)"
proof -
  define sel where "sel = filter (\<lambda>m. m_user_id m = u \<and> m_id m \<in> set ids) (memories d)"
  define rows where "rows = sort_by (key_asc (\<lambda>r. position (m_id r) ids)) sel"
  have run: "get_many_for_user u ids d = (Inr rows, d)"
    by (simp add: get_many_for_user_def select_memories_def gets_sm_def bind_sm_def ret_sm_def
        rows_def sel_def)
  have set_rows: "set rows = {m \<in> set (memories d). m_user_id m = u \<and> m_id m \<in> set ids}"
    by (auto simp: rows_def sel_def)
  have "distinct (map m_id sel)"
    using wf_dbD(1) [OF assms] by (simp add: keyed_def sel_def distinct_map_filter)
  then have dist: "distinct (map m_id rows)" by (simp add: rows_def)
  have strict: "sorted_wrt (\<lambda>a b. position (m_id a) ids < position (m_id b) ids) rows"
  proof (rule sorted_wrt_strict)
    show "sorted_wrt (\<lambda>a b. position (m_id a) ids \<le> position (m_id b) ids) rows"
      unfolding rows_def by (rule sorted_key_asc)
    show "inj_on (\<lambda>r. position (m_id r) ids) (set rows)"
      using dist inj_position [of ids] set_rows by (auto simp: distinct_map inj_on_def)
    show "distinct rows" using dist by (simp add: distinct_map)
  qed
  have "map m_id rows = ids"
    if "distinct ids" "\<forall>i \<in> set ids. fst (get_for_user u i d) \<noteq> Inr None"
  proof -
    have ids: "m_id ` set rows = set ids"
      using that(2) get_for_user_Some [OF assms]
      by (force simp: set_rows get_for_user_def gets_sm_def)
    have "sorted (map (\<lambda>i. position i ids) (map m_id rows))"
      using strict unfolding sorted_map sorted_wrt_map
      by (rule sorted_wrt_mono_rel [rotated]) simp
    moreover have "distinct (map (\<lambda>i. position i ids) (map m_id rows))"
      using dist inj_position [of ids] ids by (simp add: distinct_map inj_on_subset comp_inj_on)
    moreover have "set (map (\<lambda>i. position i ids) (map m_id rows)) = set [0..<length ids]"
      using ids map_position [OF that(1)] by (metis list.set_map)
    ultimately have "map (\<lambda>i. position i ids) (map m_id rows) = map (\<lambda>i. position i ids) ids"
      using map_position [OF that(1)] sorted_distinct_set_unique [of "map (\<lambda>i. position i ids) (map m_id rows)" "[0..<length ids]"]
      by simp
    then show ?thesis
      using inj_position [of ids] ids map_inj_on [of "\<lambda>i. position i ids" "map m_id rows" ids] by simp
  qed
  then show ?thesis using run set_rows strict by blast
qed

theorem get_many_for_user_order_witness:
  "\<exists>rows. get_many_for_user ''alice'' [''mem_2'', ''mem_1''] demo_db = (Inr rows, demo_db)
     \<and> map m_id rows = [''mem_2'', ''mem_1'']"
  using get_many_for_user_order [OF wf_demo_db, of "''alice''" "[''mem_2'', ''mem_1'']"]
  by (auto simp: get_for_user_def gets_sm_def own_def)

text \<open>C26: Listing is paging over one fixed ordering: the user's memories that match the filters,
  each once, newest first. A page with limit \<open>n\<close> and offset \<open>k\<close> is rows \<open>k\<close> to
  \<open>k + n\<close> of it; without limit and offset it is the whole ordering; an offset without a
  limit is a storage error.\<close>

theorem query_pages:
  assumes "wf_db d"
  shows "\<exists>full. set full = {m \<in> set (memories d). matches_filters u f m}
    \<and> distinct (map m_id full) \<and> sorted_wrt (\<lambda>a b. m_created_at b \<le> m_created_at a) full
    \<and> query u (f\<lparr>f_limit := None, f_offset := None\<rparr>) d = (Inr full, d)
    \<and> (\<forall>n k. query u (f\<lparr>f_limit := Some (int n), f_offset := Some (int k)\<rparr>) d
           = (Inr (take n (drop k full)), d))
    \<and> (\<forall>k. query u (f\<lparr>f_limit := None, f_offset := Some k\<rparr>) d = (Inl Syntax_error, d))"
proof -
  define full where "full = sort_by (key_desc m_created_at) (filter (matches_filters u f) (memories d))"
  have indep: "matches_filters u (f\<lparr>f_limit := l, f_offset := k\<rparr>) = matches_filters u f" for l k
    by (rule ext) (simp add: matches_filters_def)
  have "distinct (map m_id full)"
    using wf_dbD(1) [OF assms] by (simp add: full_def keyed_def distinct_map_filter)
  moreover have "sorted_wrt (\<lambda>a b. m_created_at b \<le> m_created_at a) full"
    unfolding full_def by (rule sorted_key_desc)
  ultimately show ?thesis
    by (intro exI [of _ full])
      (auto simp: query_def select_memories_def bind_sm_def gets_sm_def ret_sm_def throw_sm_def
        indep sql_limit_def sql_offset_def full_def)
qed

theorem query_pages_witness:
  "\<exists>full. length full = 2 \<and>
     query ''alice'' \<lparr>f_categories = None, f_memory_types = None, f_min_retention_floor = None,
        f_min_importance = None, f_created_after = None, f_created_before = None, f_limit = Some 1,
        f_offset = Some 1, f_include_superseded = False, f_include_cold = False,
        f_include_stubs = False\<rparr> demo_db = (Inr (take 1 (drop 1 full)), demo_db)"
proof -
  define f where "f = \<lparr>f_categories = None, f_memory_types = None, f_min_retention_floor = None,
        f_min_importance = None, f_created_after = None, f_created_before = None, f_limit = Some 1,
        f_offset = Some 1, f_include_superseded = False, f_include_cold = False,
        f_include_stubs = False\<rparr>"
  obtain full where full: "set full = {m \<in> set (memories demo_db). matches_filters ''alice'' f m}"
    "distinct (map m_id full)"
    "\<forall>n k. query ''alice'' (f\<lparr>f_limit := Some (int n), f_offset := Some (int k)\<rparr>) demo_db
           = (Inr (take n (drop k full)), demo_db)"
    using query_pages [OF wf_demo_db, of "''alice''" f] by blast
  have "set full = {demo_row ''mem_1'' ''alice'', demo_row ''mem_2'' ''alice''}"
    unfolding full(1) by (auto simp: f_def matches_filters_def opt_holds_def)
  then have "set (map m_id full) = {''mem_1'', ''mem_2''}" by simp
  then have "length full = 2"
    using distinct_card [OF full(2)] by simp
  then show ?thesis using full(3) [rule_format, of 1 1] by (auto simp: f_def)
qed

text \<open>The tier counts partition the user's memories: on a user with at least one memory the
  three tiers add up to the total, which is the number of their memories. On a user without
  memories the sums are SQL NULLs, and the answer is what the driver makes of them.\<close>

theorem counts_partition:
  "\<exists>r. counts_for_user null_i64 u d = (r, d) \<and>
     (if \<exists>m \<in> set (memories d). m_user_id m = u
      then \<exists>c. r = Inr c \<and> n_hot c + n_cold c + n_stub c = n_total c
             \<and> n_total c = int (length (filter (\<lambda>m. m_user_id m = u) (memories d)))
             \<and> 0 \<le> n_hot c \<and> 0 \<le> n_cold c \<and> 0 \<le> n_stub c
      else r = map_sum id (\<lambda>z. \<lparr>n_hot = z, n_cold = z, n_stub = z, n_total = 0\<rparr>) null_i64)"
proof -
  define rows where "rows = filter (\<lambda>m. m_user_id m = u) (memories d)"
  have "rows_affected (\<lambda>m. \<not> m_is_cold m \<and> \<not> m_is_stub m) xs
      + rows_affected (\<lambda>m. m_is_cold m \<and> \<not> m_is_stub m) xs + rows_affected m_is_stub xs = length xs" for xs
    by (induction xs) (auto simp: rows_affected_def)
  then have part: "int (rows_affected (\<lambda>m. \<not> m_is_cold m \<and> \<not> m_is_stub m) rows)
      + int (rows_affected (\<lambda>m. m_is_cold m \<and> \<not> m_is_stub m) rows)
      + int (rows_affected m_is_stub rows) = int (length rows)"
    by (metis of_nat_add)
  have "rows = [] \<longleftrightarrow> \<not> (\<exists>m \<in> set (memories d). m_user_id m = u)"
    by (auto simp: rows_def filter_empty_conv)
  then show ?thesis
    using part
    by (cases null_i64) (auto simp: counts_for_user_def select_memories_def bind_sm_def gets_sm_def
        lift_sm_def ret_sm_def Let_def rows_def [symmetric])
qed

section \<open>Associations\<close>

definition edge_weight :: "db \<Rightarrow> string \<Rightarrow> string \<Rightarrow> real option" where
  "edge_weight d s t = map_option a_weight (tbl_get edge_key (associations d) (s, t))"

lemma edge_weight_upsert:
  assumes "upsert_association r upd d = (Inr n, d')" "\<And>a. edge_key (upd a) = edge_key a"
  shows "edge_weight d' s t =
     (if (s, t) = edge_key r
      then (case tbl_get edge_key (associations d) (s, t) of
              Some a \<Rightarrow> Some (a_weight (upd a)) | None \<Rightarrow> Some (a_weight r))
      else edge_weight d s t)"
proof (cases "edge_key r \<in> edge_key ` set (associations d)")
  case True
  then have d': "d' = d\<lparr>associations := tbl_update (\<lambda>a. edge_key a = edge_key r) upd (associations d)\<rparr>"
    using assms(1) by (simp add: upsert_association_def)
  have "tbl_get edge_key (associations d) (edge_key r) \<noteq> None"
    using True by (simp add: tbl_get_None)
  moreover have "tbl_get edge_key (associations d') k =
      map_option (\<lambda>a. if edge_key a = edge_key r then upd a else a) (tbl_get edge_key (associations d) k)" for k
    unfolding d' by (simp add: tbl_get_update assms(2))
  ultimately show ?thesis
    by (auto simp: edge_weight_def option.map_comp o_def dest: tbl_get_Some split: option.split
        intro!: option.map_cong0)
next
  case False
  then have d': "d' = d\<lparr>associations := associations d @ [r]\<rparr>"
    using assms(1) by (auto simp: upsert_association_def split: if_splits)
  have none: "tbl_get edge_key (associations d) (edge_key r) = None"
    using False by (simp add: tbl_get_None)
  have "tbl_get edge_key [r] k = (if k = edge_key r then Some r else None)" for k
    by (auto simp: tbl_get_def)
  then show ?thesis
    using none by (auto simp: d' edge_weight_def tbl_get_append split: option.split)
qed

lemma upsert_ok:
  assumes "memory_exists d (a_source r)" "memory_exists d (a_target r)"
  obtains d' where "upsert_association r upd d = (Inr 1, d')" "memories d' = memories d"
  using assms that by (cases "edge_key r \<in> edge_key ` set (associations d)")
    (auto simp: upsert_association_def)

text \<open>Linking two existing memories answers the new weight, which is the old one (0 when there
  was no edge) plus the bump clamped to the unit interval, stores it, and touches neither other
  edges nor memories. If an endpoint does not exist nothing is written.\<close>

theorem create_or_strengthen_spec:
  assumes "wf_db d"
  shows "if memory_exists d src \<and> memory_exists d tgt
    then \<exists>w d'. create_or_strengthen src tgt bump now kind d = (Inr w, d') \<and> wf_db d'
      \<and> w = clamp01 ((case edge_weight d src tgt of Some old \<Rightarrow> old | None \<Rightarrow> 0) + bump)
      \<and> 0 \<le> w \<and> w \<le> 1 \<and> memories d' = memories d
      \<and> (\<forall>s t. edge_weight d' s t = (if (s, t) = (src, tgt) then Some w else edge_weight d s t))
    else create_or_strengthen src tgt bump now kind d = (Inl Foreign_key_violation, d)"
proof (cases "memory_exists d src \<and> memory_exists d tgt")
  case True
  define w where "w = clamp01 ((case edge_weight d src tgt of Some old \<Rightarrow> old | None \<Rightarrow> 0) + bump)"
  have w: "w = (case tbl_get edge_key (associations d) (src, tgt) of
      Some a \<Rightarrow> clamp01 (a_weight a + bump) | None \<Rightarrow> clamp01 bump)"
    by (simp add: w_def edge_weight_def split: option.split)
  define r where "r = \<lparr>a_source = src, a_target = tgt, a_weight = w, a_kind = kind,
      a_updated_at = now, a_last_co_retrieval = Some now\<rparr>"
  define upd :: "association_row \<Rightarrow> association_row" where
    "upd = (\<lambda>a. a\<lparr>a_weight := w, a_kind := kind, a_updated_at := now, a_last_co_retrieval := Some now\<rparr>)"
  obtain d' where d': "upsert_association r upd d = (Inr 1, d')" "memories d' = memories d"
    using True upsert_ok [of d r upd] by (auto simp: r_def)
  have run: "create_or_strengthen src tgt bump now kind d = (Inr w, d')"
    using d'(1) by (simp add: create_or_strengthen_def Let_def bind_sm_def gets_sm_def
        w [symmetric] r_def upd_def ret_sm_def)
  have "edge_weight d' s t = (if (s, t) = (src, tgt) then Some w else edge_weight d s t)" for s t
    using edge_weight_upsert [OF d'(1), of s t]
    by (auto simp: upd_def edge_key_def r_def split: option.split)
  moreover have "wf_db d'" using keeps_invD [OF create_or_strengthen_inv run assms] .
  ultimately show ?thesis using True run d'(2) w_def by auto
next
  case False
  have "edge_weight d src tgt = None"
    using False wf_dbD(11) [OF assms] tbl_get_Some [of edge_key "associations d" "(src, tgt)"]
    by (fastforce simp: edge_weight_def wf_edge_def edge_key_def split: option.split)
  then have "(src, tgt) \<notin> edge_key ` set (associations d)"
    by (simp add: edge_weight_def tbl_get_None)
  then have "create_or_strengthen src tgt bump now kind d = (Inl Foreign_key_violation, d)"
    using False by (auto simp: create_or_strengthen_def bind_sm_def Let_def upsert_association_def
        edge_key_def gets_sm_def)
  then show ?thesis unfolding if_not_P [OF False] .
qed

theorem create_or_strengthen_spec_witness:
  "\<exists>d'. create_or_strengthen ''mem_1'' ''mem_2'' (7 / 10) 9 ''manual'' demo_db = (Inr 1, d') \<and> wf_db d'"
proof -
  have "edge_weight demo_db ''mem_1'' ''mem_2'' = Some (1 / 2)"
    by (simp add: edge_weight_def demo_db_def tbl_get_def edge_key_def)
  then show ?thesis
    using create_or_strengthen_spec [OF wf_demo_db, of "''mem_1''" "''mem_2''" "7 / 10" 9 "''manual''"]
    by (auto simp: memory_exists_def clamp01_def)
qed

text \<open>Strengthening only raises weights: a frame for batches of upserts.\<close>

definition edges_grow :: "db \<Rightarrow> db \<Rightarrow> bool" where
  "edges_grow d d' \<longleftrightarrow> (wf_db d \<longrightarrow> wf_db d' \<and> memories d' = memories d
     \<and> (\<forall>s t w. edge_weight d s t = Some w \<longrightarrow> (\<exists>w'. edge_weight d' s t = Some w' \<and> w \<le> w')))"

interpretation grow: frame_rel edges_grow
proof
  fix d d' d'' :: db
  show "edges_grow d d" by (auto simp: edges_grow_def)
  assume "edges_grow d d'" "edges_grow d' d''"
  then show "edges_grow d d''" unfolding edges_grow_def by (metis order_trans)
qed

lemma edge_weight_le_1: "wf_db d \<Longrightarrow> edge_weight d s t = Some w \<Longrightarrow> w \<le> 1"
  using wf_dbD(11) by (auto simp: edge_weight_def wf_edge_def dest!: tbl_get_Some)

lemma strengthen_edge_grow:
  assumes "0 \<le> amount"
  shows "keeps edges_grow (strengthen_edge amount now kind e n)"
proof (rule keepsI)
  fix d :: db
  obtain src tgt where e: "e = (src, tgt)" by fastforce
  define r where "r = \<lparr>a_source = src, a_target = tgt, a_weight = clamp01 amount, a_kind = kind,
      a_updated_at = now, a_last_co_retrieval = Some now\<rparr>"
  define upd :: "association_row \<Rightarrow> association_row" where
    "upd = (\<lambda>a. a\<lparr>a_weight := min 1 (a_weight a + amount), a_updated_at := now, a_last_co_retrieval := Some now\<rparr>)"
  have key: "edge_key (upd a) = edge_key a" for a by (simp add: upd_def edge_key_def)
  have run: "snd (strengthen_edge amount now kind e n d) = snd (upsert_association r upd d)"
    by (simp add: strengthen_edge_def e r_def upd_def bind_sm_def ret_sm_def split: prod.split sum.split)
  have inv: "keeps inv_step (upsert_association r upd)"
    using assms by (intro upsert_association_inv) (auto simp: r_def upd_def edge_key_def)
  show "edges_grow d (snd (strengthen_edge amount now kind e n d))"
  proof (cases "fst (upsert_association r upd d)")
    case (Inl x)
    then have "upsert_association r upd d = (Inl x, d)"
      by (auto simp: upsert_association_def split: if_splits)
    then show ?thesis by (simp add: run grow.R_refl)
  next
    case (Inr m)
    then obtain d' where d': "upsert_association r upd d = (Inr m, d')" by (metis prod.collapse)
    have mem: "memories d' = memories d"
      using d' by (auto simp: upsert_association_def split: if_splits)
    have "\<exists>w'. edge_weight d' s t = Some w' \<and> w \<le> w'" if "wf_db d" "edge_weight d s t = Some w" for s t w
      using edge_weight_upsert [OF d' key, of s t] edge_weight_le_1 [OF that] that(2) assms
      by (auto simp: edge_weight_def upd_def)
    then show ?thesis
      using mem keeps_invD [OF inv d'] by (simp add: run d' edges_grow_def)
  qed
qed

text \<open>Co-retrieval strengthening never weakens an edge, never touches a memory, keeps the
  database well-formed, and is all or nothing: either every pair is strengthened in both
  directions or the whole batch is rolled back.\<close>

theorem strengthen_pairs_monotone:
  assumes "0 \<le> amount" "strengthen_pairs pairs amount now kind d = (res, d')"
  shows "edges_grow d d' \<and> (res = Inr (2 * length pairs) \<or> (\<exists>e. res = Inl e) \<and> d' = d)"
proof
  have "keeps edges_grow (strengthen_pairs pairs amount now kind)"
    unfolding strengthen_pairs_def
    by (intro grow.keeps_rules strengthen_edge_grow assms(1))
  then show "edges_grow d d'" using assms(2) by (rule keepsD)
  have step: "r = Inr (Suc n) \<or> (\<exists>x. r = Inl x)"
    if "strengthen_edge amount now kind e n d = (r, d1)" for e n d r d1
    using that by (auto simp: strengthen_edge_def upsert_association_def bind_sm_def ret_sm_def
        split: prod.splits if_splits)
  have fold: "r = Inr (n + length es) \<or> (\<exists>x. r = Inl x)"
    if "fold_sm es (strengthen_edge amount now kind) n d = (r, d1)" for es n d r d1
    using that
  proof (induction es arbitrary: n d)
    case (Cons e es)
    then show ?case
      using step [of e n d] Cons.IH [of "Suc n"]
      by (auto simp: bind_sm_def split: prod.splits sum.splits)
  qed (simp add: ret_sm_def)
  have len: "length (both_ways pairs) = 2 * length pairs"
    by (induction pairs) (auto simp: both_ways_def)
  show "res = Inr (2 * length pairs) \<or> (\<exists>e. res = Inl e) \<and> d' = d"
    using assms(2) fold [of "both_ways pairs" 0 d] len
    by (auto simp: strengthen_pairs_def transaction_def ret_sm_def split: if_splits prod.splits sum.splits)
qed

theorem strengthen_pairs_monotone_witness:
  "\<exists>res d'. strengthen_pairs [(''mem_1'', ''mem_2'')] (1 / 10) 9 ''co-retrieval'' demo_db = (res, d')
     \<and> edges_grow demo_db d' \<and> (res = Inr 2 \<or> (\<exists>e. res = Inl e) \<and> d' = demo_db)"
proof -
  obtain res d' where
    run: "strengthen_pairs [(''mem_1'', ''mem_2'')] (1 / 10) 9 ''co-retrieval'' demo_db = (res, d')"
    by fastforce
  show ?thesis using strengthen_pairs_monotone [OF _ run] run by auto
qed

end
