(* ===== verification/Level_Search.thy ===== *)
theory Level_Search
  imports CM_Prelude
begin

text \<open>
  Breadth-first search with a depth bound, as both \<open>bfs_path\<close> (\<open>crates/search\<close>) and
  \<open>expand_graph\<close> (\<open>crates/graph\<close>) do it: a visited set and a queue of nodes with their depth.
  This theory holds the invariant they share, on the abstract queue of nodes and depths:
  queued depths are shortest distances, the queue is in level order, and a visited node that
  is not queued is finished.
\<close>

section \<open>Distances\<close>

definition edge_rel :: "('v \<Rightarrow> 'v list) \<Rightarrow> ('v \<times> 'v) set" where
  "edge_rel nbrs = {(u, v). v \<in> set (nbrs u)}"

text \<open>\<open>v\<close> is reached from a source by a walk of \<open>k\<close> edges.\<close>

definition reach :: "('v \<Rightarrow> 'v list) \<Rightarrow> 'v set \<Rightarrow> nat \<Rightarrow> 'v \<Rightarrow> bool" where
  "reach nbrs S k v \<longleftrightarrow> (\<exists>s \<in> S. (s, v) \<in> edge_rel nbrs ^^ k)"

lemma reach_0 [simp]: "reach nbrs S 0 v \<longleftrightarrow> v \<in> S"
  by (auto simp: reach_def)

lemma reach_Suc: "reach nbrs S (Suc k) v \<longleftrightarrow> (\<exists>u. reach nbrs S k u \<and> v \<in> set (nbrs u))"
  by (auto simp: reach_def edge_rel_def)

text \<open>The first node of a walk that leaves a set.\<close>

lemma reach_leaves:
  assumes "reach nbrs S k v" "S \<subseteq> V" "v \<notin> V"
  shows "\<exists>i x y. i < k \<and> reach nbrs S i x \<and> x \<in> V \<and> y \<in> set (nbrs x) \<and> y \<notin> V"
  using assms(1,3)
proof (induction k arbitrary: v)
  case 0
  then show ?case using assms(2) by auto
next
  case (Suc k)
  then obtain w where w: "reach nbrs S k w" "v \<in> set (nbrs w)" by (auto simp: reach_Suc)
  show ?case
  proof (cases "w \<in> V")
    case True
    then show ?thesis using w Suc.prems by blast
  next
    case False
    then show ?thesis using Suc.IH [OF w(1)] less_Suc_eq by blast
  qed
qed

section \<open>The invariant\<close>

definition at_dist :: "('v \<Rightarrow> 'v list) \<Rightarrow> 'v set \<Rightarrow> 'v set \<Rightarrow> 'v \<times> nat \<Rightarrow> bool" where
  "at_dist nbrs S visited = (\<lambda>(v, h). v \<in> visited \<and> reach nbrs S h v
     \<and> (\<forall>k. reach nbrs S k v \<longrightarrow> h \<le> k))"

text \<open>A node is finished when its neighbours are visited or it is too far to be expanded.\<close>

definition finished :: "('v \<Rightarrow> 'v list) \<Rightarrow> 'v set \<Rightarrow> nat \<Rightarrow> 'v set \<Rightarrow> 'v \<Rightarrow> bool" where
  "finished nbrs S max_depth visited v \<longleftrightarrow> set (nbrs v) \<subseteq> visited
     \<or> (\<forall>k. reach nbrs S k v \<longrightarrow> max_depth \<le> k)"

definition level_inv :: "('v \<Rightarrow> 'v list) \<Rightarrow> 'v set \<Rightarrow> nat \<Rightarrow> 'v set \<Rightarrow> ('v \<times> nat) list \<Rightarrow> bool" where
  "level_inv nbrs S max_depth visited queue \<longleftrightarrow> S \<subseteq> visited
     \<and> (\<forall>e \<in> set queue. at_dist nbrs S visited e)
     \<and> sorted (map snd queue) \<and> (\<forall>e \<in> set queue. snd e \<le> Suc (snd (hd queue)))
     \<and> (\<forall>v \<in> visited. v \<in> fst ` set queue \<or> finished nbrs S max_depth visited v)"

text \<open>Inside the loop over the edges of the current node \<open>c\<close> at depth \<open>h\<close>, of which
  \<open>ns\<close> are still to be looked at.\<close>

definition edge_inv ::
  "('v \<Rightarrow> 'v list) \<Rightarrow> 'v set \<Rightarrow> nat \<Rightarrow> 'v \<Rightarrow> nat \<Rightarrow> 'v list \<Rightarrow> 'v set \<Rightarrow> ('v \<times> nat) list \<Rightarrow> bool" where
  "edge_inv nbrs S max_depth c h ns visited queue \<longleftrightarrow> S \<subseteq> visited \<and> h < max_depth
     \<and> at_dist nbrs S visited (c, h) \<and> set ns \<subseteq> set (nbrs c) \<and> set (nbrs c) - set ns \<subseteq> visited
     \<and> (\<forall>e \<in> set queue. at_dist nbrs S visited e)
     \<and> sorted (map snd queue) \<and> (\<forall>e \<in> set queue. h \<le> snd e \<and> snd e \<le> Suc h)
     \<and> (\<forall>v \<in> visited. v = c \<or> v \<in> fst ` set queue \<or> finished nbrs S max_depth visited v)"

lemma finished_mono:
  "finished nbrs S d visited v \<Longrightarrow> visited \<subseteq> visited' \<Longrightarrow> finished nbrs S d visited' v"
  by (auto simp: finished_def)

lemma at_dist_mono:
  "at_dist nbrs S visited e \<Longrightarrow> visited \<subseteq> visited' \<Longrightarrow> at_dist nbrs S visited' e"
  by (auto simp: at_dist_def split_def)

text \<open>Key fact: a node that is not visited yet is farther than the current node.\<close>

lemma unvisited_far:
  assumes inv: "edge_inv nbrs S max_depth c h ns visited queue"
    and n: "n \<notin> visited" and k: "reach nbrs S k n"
  shows "Suc h \<le> k"
proof -
  have S: "S \<subseteq> visited" using inv by (simp add: edge_inv_def)
  obtain i x y where i: "i < k" "reach nbrs S i x" "x \<in> visited" "y \<in> set (nbrs x)" "y \<notin> visited"
    using reach_leaves [OF k S n] by blast
  have "x = c \<or> x \<in> fst ` set queue \<or> finished nbrs S max_depth visited x"
    using inv i(3) by (simp add: edge_inv_def)
  then consider "x = c" | g where "(x, g) \<in> set queue" | "finished nbrs S max_depth visited x"
    by auto
  then show ?thesis
  proof cases
    case 1
    then have "h \<le> i" using inv i(2) by (auto simp: edge_inv_def at_dist_def)
    then show ?thesis using i(1) by simp
  next
    case 2
    then have "at_dist nbrs S visited (x, g)" "h \<le> snd (x, g)"
      using inv unfolding edge_inv_def by blast+
    then have "g \<le> i" "h \<le> g" using i(2) by (simp_all add: at_dist_def)
    then show ?thesis using i(1) by simp
  next
    case 3
    then have "max_depth \<le> i" using i(2,4,5) by (auto simp: finished_def)
    then show ?thesis using inv i(1) by (simp add: edge_inv_def)
  qed
qed

lemma at_dist_new:
  assumes inv: "edge_inv nbrs S max_depth c h ns visited queue" and n: "n \<in> set ns" "n \<notin> visited"
  shows "at_dist nbrs S (insert n visited) (n, Suc h)"
proof -
  have "reach nbrs S h c" "n \<in> set (nbrs c)"
    using inv n(1) by (auto simp: edge_inv_def at_dist_def)
  then have "reach nbrs S (Suc h) n" by (auto simp: reach_Suc)
  then show ?thesis using unvisited_far [OF inv n(2)] by (simp add: at_dist_def)
qed

lemma edge_inv_start:
  assumes "level_inv nbrs S d visited ((c, h) # queue)" "h < d"
  shows "edge_inv nbrs S d c h (nbrs c) visited queue"
  using assms unfolding level_inv_def edge_inv_def by auto

lemma edge_inv_skip:
  "edge_inv nbrs S d c h (n # ns) visited queue \<Longrightarrow> n \<in> visited \<Longrightarrow>
   edge_inv nbrs S d c h ns visited queue"
  unfolding edge_inv_def by auto

lemma edge_inv_push:
  assumes inv: "edge_inv nbrs S d c h (n # ns) visited queue" and n: "n \<notin> visited"
  shows "edge_inv nbrs S d c h ns (insert n visited) (queue @ [(n, Suc h)])"
proof -
  have new: "at_dist nbrs S (insert n visited) (n, Suc h)"
    using at_dist_new [OF inv _ n] by simp
  have mono: "visited \<subseteq> insert n visited" by auto
  have old: "at_dist nbrs S (insert n visited) e" if "e \<in> insert (c, h) (set queue)" for e
  proof (rule at_dist_mono [OF _ mono])
    show "at_dist nbrs S visited e" using that inv by (auto simp: edge_inv_def)
  qed
  have "at_dist nbrs S (insert n visited) e" if "e \<in> set (queue @ [(n, Suc h)])" for e
    using that new old [of e] by auto
  moreover have "v = c \<or> v \<in> fst ` set (queue @ [(n, Suc h)]) \<or> finished nbrs S d (insert n visited) v"
    if "v \<in> insert n visited" for v
    using that inv finished_mono [OF _ mono] by (auto simp: edge_inv_def)
  ultimately show ?thesis
    using inv old [of "(c, h)"] unfolding edge_inv_def by (auto simp: sorted_append)
qed

lemma edge_inv_finish:
  assumes "edge_inv nbrs S d c h [] visited queue"
  shows "level_inv nbrs S d visited queue"
proof -
  have "finished nbrs S d visited c" using assms by (auto simp: edge_inv_def finished_def)
  moreover have "snd e \<le> Suc (snd (hd queue))" if "e \<in> set queue" for e
  proof -
    have "hd queue \<in> set queue" using that by (cases queue) auto
    then have "h \<le> snd (hd queue)" "snd e \<le> Suc h" using assms that by (auto simp: edge_inv_def)
    then show ?thesis by simp
  qed
  ultimately show ?thesis using assms unfolding edge_inv_def level_inv_def by auto
qed

lemma level_inv_drop:
  assumes inv: "level_inv nbrs S d visited ((c, h) # queue)" and far: "finished nbrs S d visited c"
  shows "level_inv nbrs S d visited queue"
proof -
  have "snd e \<le> Suc (snd (hd queue))" if "e \<in> set queue" for e
  proof -
    have "hd queue \<in> set queue" using that by (cases queue) auto
    then show ?thesis using inv that by (force simp: level_inv_def)
  qed
  then show ?thesis using inv far unfolding level_inv_def by auto
qed

lemma finished_deep: "level_inv nbrs S d visited ((c, h) # queue) \<Longrightarrow> d \<le> h \<Longrightarrow> finished nbrs S d visited c"
  by (fastforce simp: level_inv_def at_dist_def finished_def)

lemma finished_isolated: "nbrs c = [] \<Longrightarrow> finished nbrs S d visited c"
  by (simp add: finished_def)

text \<open>When the queue is empty, everything within the bound has been visited.\<close>

lemma level_inv_complete:
  assumes inv: "level_inv nbrs S d visited []" and k: "reach nbrs S k v" "k \<le> d"
  shows "v \<in> visited"
proof (rule ccontr)
  assume "v \<notin> visited"
  then obtain i x y where "i < k" "reach nbrs S i x" "x \<in> visited" "y \<in> set (nbrs x)" "y \<notin> visited"
    using reach_leaves [OF k(1), of visited] inv by (auto simp: level_inv_def)
  then have "d \<le> i" using inv by (auto simp: level_inv_def finished_def)
  then show False using \<open>i < k\<close> k(2) by simp
qed

end
