(* ===== verification/Assoc_Graph.thy ===== *)
theory Assoc_Graph
  imports Lifecycle Level_Search
begin

text \<open>
  The graph crate (\<open>crates/graph/src/lib.rs\<close>): strengthening and decay of one association and
  the bounded breadth-first expansion from a set of anchors over an adjacency map.
\<close>

record graph_assoc =
  target_id_index :: nat
  g_weight :: real
  g_last_co_retrieval :: int

record graph_config =
  strengthen_amount :: real
  decay_constant_days :: real
  retrieval_threshold :: real

definition default_graph_config :: graph_config where
  "default_graph_config = \<lparr>strengthen_amount = 1 / 10, decay_constant_days = 90, retrieval_threshold = 5 / 100\<rparr>"

definition strengthen :: "graph_assoc \<Rightarrow> int \<Rightarrow> graph_config \<Rightarrow> graph_assoc" where
  "strengthen a now cfg =
     a\<lparr>g_weight := min (g_weight a + strengthen_amount cfg) 1, g_last_co_retrieval := now\<rparr>"

text \<open>\<open>decay\<close> returns the decayed weight and stores it; the decay constant is not zero.\<close>

definition decay :: "graph_assoc \<Rightarrow> int \<Rightarrow> graph_config \<Rightarrow> real \<times> graph_assoc" where
  "decay a now cfg =
     (let decayed = g_weight a * exp (- dt_days now (g_last_co_retrieval a) / decay_constant_days cfg)
      in (decayed, a\<lparr>g_weight := decayed\<rparr>))"

record expanded_memory =
  x_index :: nat
  combined_weight :: real
  hops_from_anchor :: nat

type_synonym adjacency_list = "nat \<rightharpoonup> graph_assoc list"
type_synonym frontier = "(nat \<times> real \<times> nat) list"

primrec expand_edges ::
  "graph_config \<Rightarrow> real \<Rightarrow> nat \<Rightarrow> graph_assoc list \<Rightarrow> nat list \<Rightarrow> frontier \<Rightarrow> expanded_memory list \<Rightarrow>
   nat list \<times> frontier \<times> expanded_memory list" where
  "expand_edges cfg w hop [] seen frontier results = (seen, frontier, results)"
| "expand_edges cfg w hop (e # es) seen frontier results =
     (if g_weight e < retrieval_threshold cfg then expand_edges cfg w hop es seen frontier results
      else if target_id_index e \<in> set seen then expand_edges cfg w hop es seen frontier results
      else expand_edges cfg w hop es (target_id_index e # seen)
             (frontier @ [(target_id_index e, w * g_weight e, hop + 1)])
             (results @ [\<lparr>x_index = target_id_index e, combined_weight = w * g_weight e,
                          hops_from_anchor = hop + 1\<rparr>]))"

lemma expand_edges_frontier:
  "expand_edges cfg w hop es seen frontier results = (seen', frontier', results') \<Longrightarrow>
   \<exists>new. frontier' = frontier @ new \<and> (\<forall>(v, c, h) \<in> set new. h = hop + 1)"
proof (induction es arbitrary: seen frontier results)
  case (Cons e es)
  show ?case
  proof (cases "g_weight e < retrieval_threshold cfg \<or> target_id_index e \<in> set seen")
    case True
    then show ?thesis using Cons.IH Cons.prems by (auto split: if_splits)
  next
    case False
    then have "expand_edges cfg w hop es (target_id_index e # seen)
        (frontier @ [(target_id_index e, w * g_weight e, hop + 1)])
        (results @ [\<lparr>x_index = target_id_index e, combined_weight = w * g_weight e, hops_from_anchor = hop + 1\<rparr>])
      = (seen', frontier', results')" using Cons.prems by simp
    from Cons.IH [OF this] show ?thesis by fastforce
  qed
qed simp

definition frontier_rank :: "nat \<Rightarrow> frontier \<Rightarrow> nat multiset" where
  "frontier_rank max_hops fr = mset (map (\<lambda>(v, c, h). max_hops - h) fr)"

lemma frontier_rank_drop: "(frontier_rank m fr, frontier_rank m (x # fr)) \<in> mult less_than"
  using one_step_implies_mult [of "{#m - snd (snd x)#}" "{#}" less_than "frontier_rank m fr"]
  by (simp add: frontier_rank_def split_def)

lemma frontier_rank_expand:
  assumes "\<forall>(v, c, h) \<in> set new. h = hop + 1" "hop < m"
  shows "(frontier_rank m (fr @ new), frontier_rank m ((v, w, hop) # fr)) \<in> mult less_than"
proof -
  have "\<forall>k \<in> set_mset (frontier_rank m new). \<exists>j \<in> set_mset {#m - hop#}. (k, j) \<in> less_than"
    using assms by (auto simp: frontier_rank_def)
  then have "(frontier_rank m fr + frontier_rank m new, frontier_rank m fr + {#m - hop#}) \<in> mult less_than"
    by (intro one_step_implies_mult) simp_all
  then show ?thesis by (simp add: frontier_rank_def)
qed

function expand_loop ::
  "adjacency_list \<Rightarrow> nat \<Rightarrow> graph_config \<Rightarrow> nat list \<Rightarrow> frontier \<Rightarrow> expanded_memory list \<Rightarrow> expanded_memory list" where
  "expand_loop adj max_hops cfg seen [] results = results"
| "expand_loop adj max_hops cfg seen ((current, weight_so_far, hop) # frontier) results =
     (if max_hops \<le> hop then expand_loop adj max_hops cfg seen frontier results
      else case adj current of
             None \<Rightarrow> expand_loop adj max_hops cfg seen frontier results
           | Some edges \<Rightarrow>
               (case expand_edges cfg weight_so_far hop edges seen frontier results of
                  (seen', frontier', results') \<Rightarrow> expand_loop adj max_hops cfg seen' frontier' results'))"
  by pat_completeness auto

termination expand_loop
proof (relation "inv_image (mult less_than) (\<lambda>(adj, m, cfg, seen, fr, res). frontier_rank m fr)")
  show "wf (inv_image (mult less_than)
      (\<lambda>(adj :: adjacency_list, m, cfg :: graph_config, seen :: nat list, fr, res :: expanded_memory list).
        frontier_rank m fr))"
    by (intro wf_inv_image wf_mult wf_less_than)
next
  fix adj :: adjacency_list and m :: nat and cfg :: graph_config and seen seen' :: "nat list"
    and v w hop fr res edges y fr' res'
  assume "\<not> m \<le> hop" "adj v = Some edges" "(seen', y) = expand_edges cfg w hop edges seen fr res"
    "(fr', res') = y"
  then obtain new where "fr' = fr @ new" "\<forall>(v, c, h) \<in> set new. h = hop + 1" "hop < m"
    using expand_edges_frontier [of cfg w hop edges seen fr res seen' fr' res'] by auto
  then show "((adj, m, cfg, seen', fr', res'), adj, m, cfg, seen, (v, w, hop) # fr, res)
      \<in> inv_image (mult less_than) (\<lambda>(adj, m, cfg, seen, fr, res). frontier_rank m fr)"
    using frontier_rank_expand by simp
qed (auto simp: frontier_rank_drop)

definition expand_graph ::
  "nat list \<Rightarrow> adjacency_list \<Rightarrow> nat \<Rightarrow> graph_config \<Rightarrow> expanded_memory list" where
  "expand_graph anchors adj max_hops cfg =
     (if max_hops = 0 \<or> anchors = [] then []
      else expand_loop adj max_hops cfg anchors (map (\<lambda>i. (i, 1, 0)) anchors) [])"

section \<open>One association\<close>

text \<open>The graph crate's decay of an association is the lifecycle crate's read-side decay, and
  strengthening raises the weight by the configured amount up to 1.\<close>

theorem decay_agrees_with_lifecycle:
  assumes "0 < decay_constant_days cfg"
  shows "Fin (fst (decay a now cfg)) =
      decay_association_weight (g_weight a) (g_last_co_retrieval a) now (decay_constant_days cfg)
    \<and> g_weight (snd (decay a now cfg)) = fst (decay a now cfg)
    \<and> g_weight (strengthen a now cfg) \<le> 1
    \<and> fst (decay (strengthen a now cfg) now cfg) = g_weight (strengthen a now cfg)"
  using assms by (simp add: decay_def Let_def decay_association_weight_Fin strengthen_def)

theorem decay_agrees_with_lifecycle_witness:
  "Fin (fst (decay \<lparr>target_id_index = 1, g_weight = 1 / 2, g_last_co_retrieval = 0\<rparr> 86400 default_graph_config))
     = decay_association_weight (1 / 2) 0 86400 90"
  using decay_agrees_with_lifecycle [of default_graph_config
      "\<lparr>target_id_index = 1, g_weight = 1 / 2, g_last_co_retrieval = 0\<rparr>" 86400]
  by (simp add: default_graph_config_def)

section \<open>What the expansion finds\<close>

text \<open>A walk of strong edges from an anchor, with the product of its weights.\<close>

inductive strong_walk :: "graph_config \<Rightarrow> adjacency_list \<Rightarrow> nat set \<Rightarrow> nat \<Rightarrow> real \<Rightarrow> nat \<Rightarrow> bool"
  for cfg adj anchors where
  anchor: "a \<in> anchors \<Longrightarrow> strong_walk cfg adj anchors a 1 0"
| hop: "strong_walk cfg adj anchors v w h \<Longrightarrow> adj v = Some es \<Longrightarrow> e \<in> set es \<Longrightarrow>
    retrieval_threshold cfg \<le> g_weight e \<Longrightarrow>
    strong_walk cfg adj anchors (target_id_index e) (w * g_weight e) (Suc h)"

definition expand_inv ::
  "graph_config \<Rightarrow> adjacency_list \<Rightarrow> nat list \<Rightarrow> nat \<Rightarrow> nat list \<Rightarrow> frontier \<Rightarrow> expanded_memory list \<Rightarrow> bool" where
  "expand_inv cfg adj anchors max_hops seen fr res \<longleftrightarrow>
     (\<forall>(v, w, h) \<in> set fr. strong_walk cfg adj (set anchors) v w h \<and> h \<le> max_hops)
     \<and> (\<forall>r \<in> set res. strong_walk cfg adj (set anchors) (x_index r) (combined_weight r) (hops_from_anchor r)
          \<and> 1 \<le> hops_from_anchor r \<and> hops_from_anchor r \<le> max_hops)
     \<and> distinct (map x_index res) \<and> set seen = set anchors \<union> x_index ` set res
     \<and> set anchors \<inter> x_index ` set res = {}"

text \<open>The graph the expansion walks: the strong edges, in adjacency order.\<close>

definition strong_nbrs :: "graph_config \<Rightarrow> adjacency_list \<Rightarrow> nat \<Rightarrow> nat list" where
  "strong_nbrs cfg adj v = (case adj v of None \<Rightarrow> []
     | Some es \<Rightarrow> map target_id_index (filter (\<lambda>e. retrieval_threshold cfg \<le> g_weight e) es))"

definition hops :: "frontier \<Rightarrow> (nat \<times> nat) list" where
  "hops fr = map (\<lambda>(v, w, h). (v, h)) fr"

definition nearest :: "graph_config \<Rightarrow> adjacency_list \<Rightarrow> nat list \<Rightarrow> expanded_memory \<Rightarrow> bool" where
  "nearest cfg adj anchors r \<longleftrightarrow>
     (\<forall>k. reach (strong_nbrs cfg adj) (set anchors) k (x_index r) \<longrightarrow> hops_from_anchor r \<le> k)"

lemma hops_simps [simp]:
  "hops [] = []" "hops ((v, w, h) # fr) = (v, h) # hops fr" "hops (fr @ fr') = hops fr @ hops fr'"
  by (simp_all add: hops_def)

lemma expand_edges_inv:
  assumes "expand_inv cfg adj anchors m seen fr res"
    and "strong_walk cfg adj (set anchors) v w hop" "adj v = Some es0" "set es \<subseteq> set es0"
    and "expand_edges cfg w hop es seen fr res = (seen', fr', res')"
    and "edge_inv (strong_nbrs cfg adj) (set anchors) m v hop
           (map target_id_index (filter (\<lambda>e. retrieval_threshold cfg \<le> g_weight e) es)) (set seen) (hops fr)"
    and "\<forall>r \<in> set res. nearest cfg adj anchors r"
  shows "expand_inv cfg adj anchors m seen' fr' res'
    \<and> level_inv (strong_nbrs cfg adj) (set anchors) m (set seen') (hops fr')
    \<and> (\<forall>r \<in> set res'. nearest cfg adj anchors r)"
  using assms(1,4-7)
proof (induction es arbitrary: seen fr res)
  case Nil
  then show ?case using edge_inv_finish by auto
next
  case (Cons e es)
  consider "g_weight e < retrieval_threshold cfg"
    | "\<not> g_weight e < retrieval_threshold cfg" "target_id_index e \<in> set seen"
    | "\<not> g_weight e < retrieval_threshold cfg" "target_id_index e \<notin> set seen" by blast
  then show ?case
  proof cases
    case 1
    then show ?thesis using Cons.IH [OF Cons.prems(1)] Cons.prems by simp
  next
    case 2
    then have "edge_inv (strong_nbrs cfg adj) (set anchors) m v hop
        (map target_id_index (filter (\<lambda>e. retrieval_threshold cfg \<le> g_weight e) es)) (set seen) (hops fr)"
      using Cons.prems(4) edge_inv_skip [where n = "target_id_index e"] by (simp add: not_less)
    then show ?thesis using Cons.IH [OF Cons.prems(1)] Cons.prems 2 by simp
  next
    case 3
    have inv: "edge_inv (strong_nbrs cfg adj) (set anchors) m v hop (target_id_index e #
        map target_id_index (filter (\<lambda>e. retrieval_threshold cfg \<le> g_weight e) es)) (set seen) (hops fr)"
      using Cons.prems(4) 3 by (simp add: not_less)
    have walk: "strong_walk cfg adj (set anchors) (target_id_index e) (w * g_weight e) (Suc hop)"
      using assms(2,3) Cons.prems(2) 3 by (intro strong_walk.hop) auto
    have "hop < m" using inv by (simp add: edge_inv_def)
    then have inv': "expand_inv cfg adj anchors m (target_id_index e # seen)
        (fr @ [(target_id_index e, w * g_weight e, hop + 1)])
        (res @ [\<lparr>x_index = target_id_index e, combined_weight = w * g_weight e, hops_from_anchor = hop + 1\<rparr>])"
      using Cons.prems(1) walk 3 by (auto simp: expand_inv_def)
    have near: "nearest cfg adj anchors \<lparr>x_index = target_id_index e, combined_weight = w * g_weight e,
        hops_from_anchor = hop + 1\<rparr>"
      using at_dist_new [OF inv _ 3(2)] by (simp add: nearest_def at_dist_def)
    have run: "expand_edges cfg w hop es (target_id_index e # seen)
        (fr @ [(target_id_index e, w * g_weight e, hop + 1)])
        (res @ [\<lparr>x_index = target_id_index e, combined_weight = w * g_weight e, hops_from_anchor = hop + 1\<rparr>])
        = (seen', fr', res')"
      using Cons.prems(3) 3 by simp
    have sub: "set es \<subseteq> set es0" using Cons.prems(2) by simp
    show ?thesis
      by (rule Cons.IH [OF inv' sub run])
        (use edge_inv_push [OF inv 3(2)] near Cons.prems(5) in simp_all)
  qed
qed

lemma expand_loop_inv:
  assumes "expand_inv cfg adj anchors m seen fr res"
    and "level_inv (strong_nbrs cfg adj) (set anchors) m (set seen) (hops fr)"
    and "\<forall>r \<in> set res. nearest cfg adj anchors r"
  shows "\<exists>seen'. expand_inv cfg adj anchors m seen' [] (expand_loop adj m cfg seen fr res)
    \<and> level_inv (strong_nbrs cfg adj) (set anchors) m (set seen') []
    \<and> (\<forall>r \<in> set (expand_loop adj m cfg seen fr res). nearest cfg adj anchors r)"
  using assms
proof (induction adj m cfg seen fr res rule: expand_loop.induct)
  case (1 adj m cfg seen res)
  then show ?case by auto
next
  case (2 adj m cfg seen v w hop fr res)
  have tail: "expand_inv cfg adj anchors m seen fr res"
    using 2(4) by (auto simp: expand_inv_def)
  have lvl: "level_inv (strong_nbrs cfg adj) (set anchors) m (set seen) ((v, hop) # hops fr)"
    using 2(5) by simp
  show ?case
  proof (cases "m \<le> hop")
    case True
    have "level_inv (strong_nbrs cfg adj) (set anchors) m (set seen) (hops fr)"
      using level_inv_drop [OF lvl finished_deep [OF lvl True]] .
    then show ?thesis using 2(1) [OF True tail _ 2(6)] True by simp
  next
    case hop: False
    show ?thesis
    proof (cases "adj v")
      case None
      then have "strong_nbrs cfg adj v = []" by (simp add: strong_nbrs_def)
      then have "level_inv (strong_nbrs cfg adj) (set anchors) m (set seen) (hops fr)"
        using level_inv_drop [OF lvl finished_isolated] by blast
      then show ?thesis using 2(2) [OF hop None tail _ 2(6)] hop None by simp
    next
      case (Some es)
      obtain seen' fr' res' where run: "expand_edges cfg w hop es seen fr res = (seen', fr', res')"
        by (metis prod.exhaust)
      have walk: "strong_walk cfg adj (set anchors) v w hop" using 2(4) by (auto simp: expand_inv_def)
      have "edge_inv (strong_nbrs cfg adj) (set anchors) m v hop (strong_nbrs cfg adj v) (set seen) (hops fr)"
        using edge_inv_start [OF lvl] hop by simp
      then have "expand_inv cfg adj anchors m seen' fr' res'
          \<and> level_inv (strong_nbrs cfg adj) (set anchors) m (set seen') (hops fr')
          \<and> (\<forall>r \<in> set res'. nearest cfg adj anchors r)"
        using expand_edges_inv [OF tail walk Some subset_refl run _ 2(6)] Some
        by (simp add: strong_nbrs_def)
      then show ?thesis
        using 2(3) [OF hop Some run [symmetric]] run hop Some by simp
    qed
  qed
qed

text \<open>C15: Graph expansion returns every memory within the hop limit of an anchor along edges not
  below the retrieval threshold, except the anchors, each once; the hop count is the shortest
  distance, and the weight is the product of the edge weights of a walk of that length.\<close>

theorem expand_graph_correct:
  "distinct (map x_index (expand_graph anchors adj max_hops cfg))
   \<and> x_index ` set (expand_graph anchors adj max_hops cfg) =
       {v. \<exists>k. k \<le> max_hops \<and> reach (strong_nbrs cfg adj) (set anchors) k v} - set anchors
   \<and> set (expand_graph anchors adj max_hops cfg) \<subseteq>
       {r. strong_walk cfg adj (set anchors) (x_index r) (combined_weight r) (hops_from_anchor r)
           \<and> 1 \<le> hops_from_anchor r \<and> hops_from_anchor r \<le> max_hops \<and> nearest cfg adj anchors r}"
proof (cases "max_hops = 0 \<or> anchors = []")
  case True
  have "reach nbrs {} k v = False" for nbrs k and v :: nat by (simp add: reach_def)
  then show ?thesis using True by (auto simp: expand_graph_def)
next
  case False
  have level: "level_inv (strong_nbrs cfg adj) (set anchors) max_hops (set anchors) (hops (map (\<lambda>i. (i, 1, 0)) anchors))"
    by (auto simp: level_inv_def at_dist_def hops_def o_def map_replicate_const image_image)
  have "expand_inv cfg adj anchors max_hops anchors (map (\<lambda>i. (i, 1, 0)) anchors) []"
    by (auto simp: expand_inv_def intro: strong_walk.anchor)
  from expand_loop_inv [OF this level] obtain seen' where
    inv: "expand_inv cfg adj anchors max_hops seen' [] (expand_graph anchors adj max_hops cfg)"
    and lvl: "level_inv (strong_nbrs cfg adj) (set anchors) max_hops (set seen') []"
    and near: "\<forall>r \<in> set (expand_graph anchors adj max_hops cfg). nearest cfg adj anchors r"
    using False by (auto simp: expand_graph_def)
  have strong: "reach (strong_nbrs cfg adj) (set anchors) h v"
    if "strong_walk cfg adj (set anchors) v w h" for v w h
    using that
  proof induction
    case (hop v w h es e)
    then have "target_id_index e \<in> set (strong_nbrs cfg adj v)" by (auto simp: strong_nbrs_def)
    then show ?case using hop.IH by (auto simp: reach_Suc)
  qed simp
  have "x_index ` set (expand_graph anchors adj max_hops cfg) = set seen' - set anchors"
    using inv by (auto simp: expand_inv_def)
  moreover have "set seen' - set anchors =
      {v. \<exists>k. k \<le> max_hops \<and> reach (strong_nbrs cfg adj) (set anchors) k v} - set anchors"
  proof -
    have "\<exists>k. k \<le> max_hops \<and> reach (strong_nbrs cfg adj) (set anchors) k v" if v: "v \<in> set seen' - set anchors" for v
    proof -
      obtain r where r: "r \<in> set (expand_graph anchors adj max_hops cfg)" "v = x_index r"
        using v inv by (auto simp: expand_inv_def)
      then have "strong_walk cfg adj (set anchors) v (combined_weight r) (hops_from_anchor r)"
        "hops_from_anchor r \<le> max_hops"
        using inv by (auto simp: expand_inv_def)
      then show ?thesis using strong by blast
    qed
    then show ?thesis using level_inv_complete [OF lvl] by auto
  qed
  ultimately show ?thesis using inv near by (auto simp: expand_inv_def)
qed

end
