(* ===== verification/Embeddings.thy ===== *)
theory Embeddings
  imports Store_Laws
begin

text \<open>
  The embeddings crate (\<open>crates/embeddings\<close>): text canonicalisation and the cache in front of
  a provider. The provider is a parameter (\<open>embedder\<close>: the trait \<open>EmbeddingProvider\<close>), and
  so is \<open>sha256\<close>. Vectors are lists of \<open>f32\<close> bit patterns.
\<close>

section \<open>Canonicalisation\<close>

fun collapse_ws :: "bool \<Rightarrow> string \<Rightarrow> string" where
  "collapse_ws last_was_space [] = []"
| "collapse_ws last_was_space (ch # cs) =
     (if is_whitespace ch
      then if last_was_space then collapse_ws True cs else CHR '' '' # collapse_ws True cs
      else ch # collapse_ws False cs)"

definition canonicalise :: "string \<Rightarrow> string" where
  "canonicalise inp = collapse_ws False (trim_str inp)"

section \<open>The cache\<close>

record embedder =
  emb_name :: string
  emb_model :: string
  emb_dimension :: nat
  emb_embed :: "string \<Rightarrow> string + f32 list"

datatype embedding_error = Provider_error string | Embedding_storage sqlx_error

definition cached_embed ::
  "(string \<Rightarrow> byte list) \<Rightarrow> embedder \<Rightarrow> int \<Rightarrow> string \<Rightarrow> (db, embedding_error, f32 list) sm" where
  "cached_embed sha256 P now inp =
     (let canonical = canonicalise inp;
          hash = sha256 canonical
      in bind_sm (map_err Embedding_storage (cache_get (emb_name P) (emb_model P) hash)) (\<lambda>hit.
         case hit of
           Some cached \<Rightarrow> ret_sm cached
         | None \<Rightarrow>
             bind_sm (lift_sm (map_sum Provider_error id (emb_embed P canonical))) (\<lambda>vec.
             bind_sm (map_err Embedding_storage
                        (cache_insert (emb_name P) (emb_model P) hash vec now)) (\<lambda>_.
               ret_sm vec))))"

section \<open>Canonical text\<close>

lemma is_whitespace_space [simp]: "is_whitespace (CHR '' '')"
  by (simp add: is_whitespace_def Let_def)

lemma collapse_ws_idem: "collapse_ws b (collapse_ws b s) = collapse_ws b s"
  by (induction b s rule: collapse_ws.induct) auto

lemma collapse_ws_hd:
  "s \<noteq> [] \<Longrightarrow> \<not> is_whitespace (hd s) \<Longrightarrow>
   collapse_ws b s \<noteq> [] \<and> \<not> is_whitespace (hd (collapse_ws b s))"
  by (cases s) auto

lemma collapse_ws_last:
  "s \<noteq> [] \<Longrightarrow> \<not> is_whitespace (last s) \<Longrightarrow> collapse_ws b s \<noteq> [] \<and> last (collapse_ws b s) = last s"
  by (induction b s rule: collapse_ws.induct) (auto split: if_splits)

lemma dropWhile_id: "s = [] \<or> \<not> P (hd s) \<Longrightarrow> dropWhile P s = s"
  by (cases s) auto

lemma hd_dropWhile_not: "dropWhile P s = [] \<or> \<not> P (hd (dropWhile P s))"
  using hd_dropWhile by blast

lemma trim_str_id:
  "s = [] \<or> \<not> is_whitespace (hd s) \<and> \<not> is_whitespace (last s) \<Longrightarrow> trim_str s = s"
  by (auto simp: trim_str_def trim_start_def trim_end_def dropWhile_id hd_rev)

lemma trim_str_ends:
  "trim_str s = [] \<or> \<not> is_whitespace (hd (trim_str s)) \<and> \<not> is_whitespace (last (trim_str s))"
proof (cases "trim_str s = []")
  case False
  define r where "r = trim_start s"
  have ne: "dropWhile is_whitespace (rev r) \<noteq> []"
    using False by (simp add: trim_str_def trim_end_def r_def)
  have "last (trim_str s) = hd (dropWhile is_whitespace (rev r))"
    using ne by (simp add: trim_str_def trim_end_def r_def last_rev)
  moreover obtain p where p: "r = trim_str s @ p"
    using takeWhile_dropWhile_id [of is_whitespace "rev r"]
    by (metis append.assoc r_def rev_append rev_rev_ident trim_end_def trim_str_def)
  then have "hd (trim_str s) = hd r" "r \<noteq> []" using False by auto
  moreover have "\<not> is_whitespace (hd r)" if "r \<noteq> []"
    using hd_dropWhile_not [of is_whitespace s] that unfolding r_def trim_start_def by blast
  moreover have "\<not> is_whitespace (hd (dropWhile is_whitespace (rev r)))"
    using ne hd_dropWhile_not by blast
  ultimately show ?thesis by simp
qed simp

text \<open>Canonicalisation is idempotent, as its documentation claims, and its result has no
  white space at either end.\<close>

theorem canonicalise_idempotent:
  "canonicalise (canonicalise inp) = canonicalise inp
   \<and> trim_str (canonicalise inp) = canonicalise inp"
proof -
  have "canonicalise inp = [] \<or> \<not> is_whitespace (hd (canonicalise inp))
      \<and> \<not> is_whitespace (last (canonicalise inp))"
    using trim_str_ends [of inp] collapse_ws_hd [of "trim_str inp" False]
      collapse_ws_last [of "trim_str inp" False]
    by (cases "trim_str inp = []") (auto simp: canonicalise_def)
  then have ends: "trim_str (canonicalise inp) = canonicalise inp" by (rule trim_str_id)
  then have "canonicalise (canonicalise inp) = canonicalise inp"
    by (simp add: canonicalise_def [of "canonicalise inp"]) (simp add: canonicalise_def collapse_ws_idem)
  with ends show ?thesis by blast
qed

section \<open>The cache as a write-once store\<close>

definition cache_look :: "db \<Rightarrow> string \<times> string \<times> byte list \<Rightarrow> f32 list option" where
  "cache_look d k = map_option (\<lambda>r. decode_f32s (c_embedding r)) (tbl_get cache_key (embedding_cache d) k)"

definition cache_put :: "int \<Rightarrow> string \<times> string \<times> byte list \<Rightarrow> f32 list \<Rightarrow> db \<Rightarrow> db" where
  "cache_put now k v d = snd (cache_insert (fst k) (fst (snd k)) (snd (snd k)) v now d)"

lemma cache_get_look: "cache_get p m h d = (Inr (cache_look d (p, m, h)), d)"
  by (simp add: cache_get_def gets_sm_def cache_look_def)

lemma cache_insert_put:
  "cache_insert p m h v now d = (Inr (cache_look d (p, m, h) = None), cache_put now (p, m, h) v d)"
  by (auto simp: cache_put_def cache_insert_def cache_look_def tbl_insert_def tbl_get_None
      cache_key_def split: option.split)

interpretation vec_cache: write_once cache_look "cache_put now" for now
proof
  fix d k v
  assume "cache_look d k = None"
  then have none: "tbl_get cache_key (embedding_cache d) k = None" by (simp add: cache_look_def)
  then have "k \<notin> cache_key ` set (embedding_cache d)" by (simp add: tbl_get_None)
  then show "cache_look (cache_put now k v d) k = Some v"
    using none by (simp add: cache_put_def cache_insert_def cache_look_def tbl_insert_def
        cache_key_def [of "cache_row_ext _ _ _ _ _ _"] tbl_get_append)
      (simp add: tbl_get_def cache_key_def)
next
  fix d k w k' v
  assume "cache_look d k = Some w"
  then show "cache_look (cache_put now k' v d) k = Some w"
    by (auto simp: cache_put_def cache_insert_def cache_look_def tbl_insert_def
        tbl_get_append split: option.split)
qed

lemma cached_embed_eq:
  "cached_embed sha256 P now inp d =
     (case cache_look d (emb_name P, emb_model P, sha256 (canonicalise inp)) of
        Some v \<Rightarrow> (Inr v, d)
      | None \<Rightarrow> (case emb_embed P (canonicalise inp) of
          Inl e \<Rightarrow> (Inl (Provider_error e), d)
        | Inr v \<Rightarrow> (Inr v, cache_put now (emb_name P, emb_model P, sha256 (canonicalise inp)) v d)))"
  by (simp add: cached_embed_def Let_def bind_sm_def map_err_def cache_get_look cache_insert_put
      lift_sm_def ret_sm_def split: option.split sum.split)

lemma cached_embed_keeps [frame_intros]:
  "keeps inv_step (cached_embed sha256 P now inp)"
  "keeps (others_step u) (cached_embed sha256 P now inp)"
  by (auto simp: cached_embed_def Let_def split: option.split
      intro!: inv.keeps_rules iso.keeps_rules cache_keeps)

lemma cached_embed_Inr:
  assumes "cached_embed sha256 P now inp d = (Inr v, d')"
  shows "cache_look d' (emb_name P, emb_model P, sha256 (canonicalise inp)) = Some v"
  using assms vec_cache.put_new
  by (auto simp: cached_embed_eq split: option.splits sum.splits)

text \<open>One provider call per text: once a text has been embedded, every later embedding of a
  text with the same canonical form under the same provider and model name answers the same
  vector bit for bit from the cache, without asking the provider and without changing the
  database, whatever was cached in between and whatever the provider would answer now.\<close>

theorem cached_embed_once:
  assumes "cached_embed sha256 P now inp d = (Inr v, d')"
    and "d'' = fold (\<lambda>(k, w). cache_put now' k w) later d'"
    and "canonicalise inp' = canonicalise inp" "emb_name Q = emb_name P" "emb_model Q = emb_model P"
  shows "cached_embed sha256 Q now'' inp' d'' = (Inr v, d'')"
proof -
  have "cache_look d'' (emb_name P, emb_model P, sha256 (canonicalise inp)) = Some v"
    unfolding assms(2) by (rule vec_cache.put_stable) (rule cached_embed_Inr [OF assms(1)])
  then show ?thesis using assms(3-5) by (simp add: cached_embed_eq)
qed

theorem cached_embed_once_witness:
  "cached_embed (\<lambda>_. []) \<lparr>emb_name = ''fake'', emb_model = ''m'', emb_dimension = 1,
       emb_embed = (\<lambda>_. Inl ''down'')\<rparr> 9 ''  hello   world '' (snd (cached_embed (\<lambda>_. [])
       \<lparr>emb_name = ''fake'', emb_model = ''m'', emb_dimension = 1, emb_embed = (\<lambda>_. Inr [1])\<rparr>
       5 ''hello world'' empty_db))
   = (Inr [1], snd (cached_embed (\<lambda>_. [])
       \<lparr>emb_name = ''fake'', emb_model = ''m'', emb_dimension = 1, emb_embed = (\<lambda>_. Inr [1])\<rparr>
       5 ''hello world'' empty_db))"
proof (rule cached_embed_once [where inp = "''hello world''" and later = "[]" and now = 5])
  show "cached_embed (\<lambda>_. []) \<lparr>emb_name = ''fake'', emb_model = ''m'', emb_dimension = 1,
      emb_embed = (\<lambda>_. Inr [1])\<rparr> 5 ''hello world'' empty_db =
    (Inr [1], snd (cached_embed (\<lambda>_. []) \<lparr>emb_name = ''fake'', emb_model = ''m'', emb_dimension = 1,
      emb_embed = (\<lambda>_. Inr [1])\<rparr> 5 ''hello world'' empty_db))"
    by (simp add: cached_embed_eq cache_look_def empty_db_def tbl_get_def)
  show "canonicalise ''  hello   world '' = canonicalise ''hello world''"
    by (simp add: canonicalise_def trim_str_def trim_start_def trim_end_def is_whitespace_def)
qed simp_all

end
