(* ===== verification/Rank.thy ===== *)
theory Rank
  imports Rust_Float
begin

text \<open>
  The two scoring primitives of \<open>crates/search\<close>: cosine similarity (\<open>cosine.rs\<close>, and its
  copy in \<open>daemon/src/handlers.rs\<close>) and reciprocal rank fusion (\<open>hybrid.rs\<close>). The order in
  which Rust's \<open>HashMap\<close> yields its entries is a parameter (\<open>iter\<close>), of which only that it
  is a permutation is used.
\<close>

section \<open>Cosine similarity\<close>

fun cosine_loop :: "(fl \<times> fl) list \<Rightarrow> fl \<Rightarrow> fl \<Rightarrow> fl \<Rightarrow> fl \<times> fl \<times> fl" where
  "cosine_loop [] dot norm_a norm_b = (dot, norm_a, norm_b)"
| "cosine_loop ((x, y) # ps) dot norm_a norm_b =
     cosine_loop ps (f_add dot (f_mul x y)) (f_add norm_a (f_mul x x)) (f_add norm_b (f_mul y y))"

definition cosine_similarity :: "f32 list \<Rightarrow> f32 list \<Rightarrow> fl" where
  "cosine_similarity a b =
     (case cosine_loop (zip (map f32_val a) (map f32_val b)) (Fin 0) (Fin 0) (Fin 0) of
        (dot, norm_a, norm_b) \<Rightarrow>
          if f_eq norm_a (Fin 0) \<or> f_eq norm_b (Fin 0) then Fin 0
          else f_div dot (f_mul (f_sqrt norm_a) (f_sqrt norm_b)))"

definition f_sum :: "fl list \<Rightarrow> fl" where
  "f_sum xs = foldl f_add (Fin 0) xs"

text \<open>The inline copy of the consolidation pass sums each vector on its own.\<close>

definition cosine_similarity_f32 :: "f32 list \<Rightarrow> f32 list \<Rightarrow> fl" where
  "cosine_similarity_f32 a b =
     (let dot = f_sum (map (\<lambda>(x, y). f_mul x y) (zip (map f32_val a) (map f32_val b)));
          na = f_sqrt (f_sum (map (\<lambda>x. f_mul x x) (map f32_val a)));
          nb = f_sqrt (f_sum (map (\<lambda>y. f_mul y y) (map f32_val b)))
      in if f_eq na (Fin 0) \<or> f_eq nb (Fin 0) then Fin 0 else f_div dot (f_mul na nb))"

section \<open>Reciprocal rank fusion\<close>

record ranked_hit =
  rh_id :: string
  rh_rank :: nat

definition contribution :: "nat \<Rightarrow> ranked_hit \<Rightarrow> real" where
  "contribution k hit = 1 / (real k + real (rh_rank hit) + 1)"

text \<open>\<open>*scores.entry(id).or_insert(0.0) += c\<close> on the map as an association list.\<close>

fun entry_add :: "string \<Rightarrow> real \<Rightarrow> (string \<times> real) list \<Rightarrow> (string \<times> real) list" where
  "entry_add i c [] = [(i, 0 + c)]"
| "entry_add i c ((j, s) # m) = (if i = j then (j, s + c) # m else (j, s) # entry_add i c m)"

definition rrf_scores :: "ranked_hit list list \<Rightarrow> nat \<Rightarrow> (string \<times> real) list" where
  "rrf_scores rankings k =
     fold (\<lambda>hits m. fold (\<lambda>hit. entry_add (rh_id hit) (contribution k hit)) hits m) rankings []"

definition reciprocal_rank_fusion ::
  "((string \<times> real) list \<Rightarrow> (string \<times> real) list) \<Rightarrow> ranked_hit list list \<Rightarrow> nat \<Rightarrow> (string \<times> real) list" where
  "reciprocal_rank_fusion iter rankings k = sort_by (key_desc snd) (iter (rrf_scores rankings k))"

section \<open>Cosine of finite vectors\<close>

definition finite_vec :: "f32 list \<Rightarrow> bool" where
  "finite_vec v \<longleftrightarrow> (\<forall>w \<in> set v. is_finite (f32_val w))"

fun real_of_fl :: "fl \<Rightarrow> real" where
  "real_of_fl (Fin a) = a"
| "real_of_fl _ = 0"

definition reals_of :: "f32 list \<Rightarrow> real list" where
  "reals_of v = map (\<lambda>w. real_of_fl (f32_val w)) v"

definition dot_product :: "real list \<Rightarrow> real list \<Rightarrow> real" where
  "dot_product xs ys = sum_list (map (\<lambda>(x, y). x * y) (zip xs ys))"

lemma finite_vec_vals: "finite_vec v \<Longrightarrow> map f32_val v = map Fin (reals_of v)"
proof (induction v)
  case (Cons w v)
  then show ?case by (cases "f32_val w") (auto simp: finite_vec_def reals_of_def)
qed (simp add: reals_of_def)

lemma dot_product_simps [simp]:
  "dot_product [] ys = 0" "dot_product xs [] = 0"
  "dot_product (x # xs) (y # ys) = x * y + dot_product xs ys"
  by (simp_all add: dot_product_def)

lemma dot_product_comm: "dot_product xs ys = dot_product ys xs"
  by (induction xs ys rule: list_induct2') (simp_all add: mult.commute)

lemma dot_product_self_nonneg [simp]: "0 \<le> dot_product xs xs"
  by (induction xs) simp_all

lemma dot_product_self_zero: "dot_product xs xs = 0 \<longleftrightarrow> (\<forall>x \<in> set xs. x = 0)"
proof (induction xs)
  case (Cons x xs)
  have "x * x + dot_product xs xs = 0 \<longleftrightarrow> x * x = 0 \<and> dot_product xs xs = 0"
    by (rule add_nonneg_eq_0_iff) simp_all
  then show ?case using Cons by simp
qed simp

lemma cosine_loop_Fin:
  "length xs = length ys \<Longrightarrow>
   cosine_loop (zip (map Fin xs) (map Fin ys)) (Fin d) (Fin a) (Fin b) =
     (Fin (d + dot_product xs ys), Fin (a + dot_product xs xs), Fin (b + dot_product ys ys))"
  by (induction xs ys arbitrary: d a b rule: list_induct2) (simp_all add: algebra_simps)

lemma cosine_similarity_Fin:
  assumes "finite_vec a" "finite_vec b" "length a = length b"
  shows "cosine_similarity a b =
    (let x = reals_of a; y = reals_of b
     in if dot_product x x = 0 \<or> dot_product y y = 0 then Fin 0
        else Fin (dot_product x y / (sqrt (dot_product x x) * sqrt (dot_product y y))))"
proof -
  have "length (reals_of a) = length (reals_of b)" using assms(3) by (simp add: reals_of_def)
  moreover have "\<not> dot_product (reals_of v) (reals_of v) < 0" for v
    by (simp add: not_less)
  ultimately show ?thesis
    by (simp add: cosine_similarity_def finite_vec_vals [OF assms(1)] finite_vec_vals [OF assms(2)]
        cosine_loop_Fin Let_def)
qed

lemma cauchy_schwarz_step:
  fixes D A B x y :: real
  assumes "D\<^sup>2 \<le> A * B" "0 \<le> A" "0 \<le> B"
  shows "(x * y + D)\<^sup>2 \<le> (x * x + A) * (y * y + B)"
proof -
  have "(2 * (D * (x * y)))\<^sup>2 = 4 * (D\<^sup>2 * (x * y)\<^sup>2)" by (simp add: power_mult_distrib)
  also have "\<dots> \<le> 4 * ((A * B) * (x * y)\<^sup>2)"
    using assms(1) by (simp add: mult_right_mono)
  also have "\<dots> \<le> (A * y\<^sup>2 + B * x\<^sup>2)\<^sup>2"
  proof -
    have "0 \<le> (A * y\<^sup>2 - B * x\<^sup>2)\<^sup>2" by simp
    then show ?thesis by (simp add: power2_eq_square algebra_simps)
  qed
  finally have "2 * (D * (x * y)) \<le> A * y\<^sup>2 + B * x\<^sup>2"
    by (rule power2_le_imp_le) (simp add: assms)
  then show ?thesis using assms(1) by (simp add: power2_eq_square algebra_simps)
qed

lemma cauchy_schwarz_list:
  "(dot_product xs ys)\<^sup>2 \<le> dot_product xs xs * dot_product ys ys"
proof (induction xs ys rule: list_induct2')
  case (4 x xs y ys)
  then show ?case
    using cauchy_schwarz_step [OF 4, of x y] by simp
qed simp_all

lemma normalised_dot_le_1:
  assumes "dot_product xs xs \<noteq> 0" "dot_product ys ys \<noteq> 0"
  shows "\<bar>dot_product xs ys / (sqrt (dot_product xs xs) * sqrt (dot_product ys ys))\<bar> \<le> 1"
proof -
  have pos: "0 < dot_product xs xs" "0 < dot_product ys ys"
    using assms by (simp_all add: less_le)
  have "\<bar>dot_product xs ys\<bar> \<le> sqrt (dot_product xs xs * dot_product ys ys)"
    using cauchy_schwarz_list [of xs ys] real_le_rsqrt by (simp add: abs_le_iff)
  then show ?thesis using pos by (simp add: real_sqrt_mult)
qed

text \<open>On finite vectors of equal length the cosine is a number between -1 and 1, symmetric,
  0 when a vector is zero, and 1 for a non-zero vector against itself.\<close>

theorem cosine_similarity_range:
  assumes "finite_vec a" "finite_vec b" "length a = length b"
  shows "\<exists>c. cosine_similarity a b = Fin c \<and> - 1 \<le> c \<and> c \<le> 1
    \<and> cosine_similarity b a = Fin c
    \<and> ((\<forall>x \<in> set (reals_of a). x = 0) \<longrightarrow> c = 0)
    \<and> (cosine_similarity a a = Fin (if \<forall>x \<in> set (reals_of a). x = 0 then 0 else 1))"
proof -
  define x y where "x = reals_of a" and "y = reals_of b"
  have eq: "cosine_similarity a b = (if dot_product x x = 0 \<or> dot_product y y = 0 then Fin 0
      else Fin (dot_product x y / (sqrt (dot_product x x) * sqrt (dot_product y y))))"
    "cosine_similarity b a = (if dot_product y y = 0 \<or> dot_product x x = 0 then Fin 0
      else Fin (dot_product y x / (sqrt (dot_product y y) * sqrt (dot_product x x))))"
    "cosine_similarity a a = (if dot_product x x = 0 \<or> dot_product x x = 0 then Fin 0
      else Fin (dot_product x x / (sqrt (dot_product x x) * sqrt (dot_product x x))))"
    using cosine_similarity_Fin [OF assms] cosine_similarity_Fin [OF assms(1,1)]
      cosine_similarity_Fin [OF assms(2,1) assms(3) [symmetric]]
    by (simp_all add: x_def y_def Let_def)
  have "- 1 \<le> dot_product x y / (sqrt (dot_product x x) * sqrt (dot_product y y)) \<and>
      dot_product x y / (sqrt (dot_product x x) * sqrt (dot_product y y)) \<le> 1"
    if nz: "dot_product x x \<noteq> 0" "dot_product y y \<noteq> 0"
    using normalised_dot_le_1 [OF nz] by linarith
  moreover have "dot_product x x = 0 \<longleftrightarrow> (\<forall>v \<in> set (reals_of a). v = 0)"
    by (simp add: dot_product_self_zero x_def)
  ultimately show ?thesis
    unfolding eq
    by (auto simp: dot_product_comm [of y x] mult.commute
        [of "sqrt (dot_product y y)" "sqrt (dot_product x x)"])
qed

theorem cosine_similarity_range_witness:
  "\<exists>c. cosine_similarity [1065353216, 0] [1065353216, 1065353216] = Fin c \<and> - 1 \<le> c \<and> c \<le> 1"
  using cosine_similarity_range [of "[1065353216, 0]" "[1065353216, 1065353216]"]
  by (auto simp: finite_vec_def f32_val_one f32_val_zero)

text \<open>The inline cosine of the consolidation pass agrees with the search crate's on finite vectors
  of equal length.\<close>

lemma f_sum_Fin: "f_sum (map Fin xs) = Fin (sum_list xs)"
proof -
  have "foldl f_add (Fin s) (map Fin xs) = Fin (s + sum_list xs)" for s
    by (induction xs arbitrary: s) (simp_all add: add.assoc)
  then show ?thesis by (simp add: f_sum_def)
qed

lemma zip_mul_Fin: "map (\<lambda>(x, y). f_mul x y) (zip (map Fin xs) (map Fin ys)) =
    map Fin (map (\<lambda>(x, y). x * y) (zip xs ys))"
  by (induction xs ys rule: list_induct2') simp_all

lemma zip_self: "zip xs xs = map (\<lambda>x. (x, x)) xs"
  by (induction xs) simp_all

text \<open>The consolidation pass's own cosine computes the same value as the search crate's on
  finite vectors of equal length.\<close>

theorem cosine_copies_agree:
  assumes "finite_vec a" "finite_vec b" "length a = length b"
  shows "cosine_similarity_f32 a b = cosine_similarity a b"
proof -
  have sq: "f_sum (map (\<lambda>x. f_mul x x) (map Fin xs)) = Fin (dot_product xs xs)" for xs
    using f_sum_Fin [of "map (\<lambda>x. x * x) xs"] by (simp add: dot_product_def zip_self o_def)
  have dot: "f_sum (map (\<lambda>(x, y). f_mul x y) (zip (map Fin xs) (map Fin ys))) = Fin (dot_product xs ys)" for xs ys
    by (simp only: zip_mul_Fin f_sum_Fin dot_product_def)
  have "\<not> dot_product xs xs < 0" for xs by (simp add: not_less)
  then show ?thesis
    unfolding cosine_similarity_Fin [OF assms] cosine_similarity_f32_def
      finite_vec_vals [OF assms(1)] finite_vec_vals [OF assms(2)] sq dot Let_def
    by simp
qed

theorem cosine_copies_agree_witness:
  "cosine_similarity_f32 [1065353216, 0] [1065353216, 1065353216]
     = cosine_similarity [1065353216, 0] [1065353216, 1065353216]"
  by (rule cosine_copies_agree) (auto simp: finite_vec_def f32_val_one f32_val_zero)

section \<open>What fusion computes\<close>

definition rrf_total :: "nat \<Rightarrow> ranked_hit list \<Rightarrow> string \<Rightarrow> real" where
  "rrf_total k hits i = sum_list (map (contribution k) (filter (\<lambda>h. rh_id h = i) hits))"

lemma entry_add_keys: "fst ` set (entry_add i c m) = insert i (fst ` set m)"
  by (induction i c m rule: entry_add.induct) auto

lemma entry_add_distinct: "distinct (map fst m) \<Longrightarrow> distinct (map fst (entry_add i c m))"
  by (induction i c m rule: entry_add.induct) (auto simp: entry_add_keys)

lemma entry_add_map_of:
  "map_of (entry_add i c m) j =
     (if j = i then Some ((case map_of m i of Some s \<Rightarrow> s | None \<Rightarrow> 0) + c) else map_of m j)"
  by (induction i c m rule: entry_add.induct) auto

lemma rrf_scores_flat:
  "rrf_scores rankings k = fold (\<lambda>hit. entry_add (rh_id hit) (contribution k hit)) (concat rankings) []"
proof -
  have "fold (\<lambda>hits m. fold (\<lambda>hit. entry_add (rh_id hit) (contribution k hit)) hits m) rankings m
      = fold (\<lambda>hit. entry_add (rh_id hit) (contribution k hit)) (concat rankings) m" for m
    by (induction rankings arbitrary: m) simp_all
  then show ?thesis by (simp add: rrf_scores_def)
qed

lemma fold_entry_add:
  fixes k :: nat and hits :: "ranked_hit list"
  defines "F \<equiv> fold (\<lambda>hit. entry_add (rh_id hit) (contribution k hit)) hits"
  shows "distinct (map fst m) \<Longrightarrow> distinct (map fst (F m))"
    and "fst ` set (F m) = fst ` set m \<union> rh_id ` set hits"
    and "map_of (F m) i = (if i \<in> fst ` set m \<union> rh_id ` set hits
           then Some ((case map_of m i of Some s \<Rightarrow> s | None \<Rightarrow> 0) + rrf_total k hits i) else None)"
proof -
  show "distinct (map fst m) \<Longrightarrow> distinct (map fst (F m))"
    unfolding F_def by (induction hits arbitrary: m) (simp_all add: entry_add_distinct)
  show "fst ` set (F m) = fst ` set m \<union> rh_id ` set hits"
    unfolding F_def by (induction hits arbitrary: m) (auto simp: entry_add_keys)
  show "map_of (F m) i = (if i \<in> fst ` set m \<union> rh_id ` set hits
           then Some ((case map_of m i of Some s \<Rightarrow> s | None \<Rightarrow> 0) + rrf_total k hits i) else None)"
    unfolding F_def
  proof (induction hits arbitrary: m)
    case Nil
    then show ?case
      by (cases "map_of m i") (auto simp: rrf_total_def map_of_eq_None_iff, force dest: map_of_SomeD)
  next
    case (Cons h hits)
    then show ?case
      by (auto simp: entry_add_keys entry_add_map_of rrf_total_def add.assoc)
  qed
qed

lemma reciprocal_rank_fusion_keys:
  assumes "\<And>m. mset (iter m) = mset m"
  shows "distinct (map fst (reciprocal_rank_fusion iter rankings k))"
    and "fst ` set (reciprocal_rank_fusion iter rankings k) = rh_id ` set (concat rankings)"
    and "(i, s) \<in> set (reciprocal_rank_fusion iter rankings k) \<Longrightarrow> s = rrf_total k (concat rankings) i"
    and "sorted_wrt (\<lambda>a b. snd b \<le> snd a) (reciprocal_rank_fusion iter rankings k)"
proof -
  define sc where "sc = rrf_scores rankings k"
  have dist: "distinct (map fst sc)"
    unfolding sc_def rrf_scores_flat using fold_entry_add(1) [of "[]"] by simp
  have set_fused: "set (reciprocal_rank_fusion iter rankings k) = set sc"
    using assms [of sc] by (simp add: reciprocal_rank_fusion_def sc_def [symmetric]) (metis set_mset_mset)
  have "distinct (map fst (iter sc))"
    using dist assms by (metis mset_eq_imp_distinct_iff mset_map)
  then show "distinct (map fst (reciprocal_rank_fusion iter rankings k))"
    by (simp add: reciprocal_rank_fusion_def sc_def)
  show "fst ` set (reciprocal_rank_fusion iter rankings k) = rh_id ` set (concat rankings)"
    unfolding set_fused sc_def rrf_scores_flat using fold_entry_add(2) [of k "concat rankings" "[]"] by simp
  show "s = rrf_total k (concat rankings) i" if "(i, s) \<in> set (reciprocal_rank_fusion iter rankings k)"
  proof -
    have "map_of sc i = Some s" using that dist by (simp add: set_fused)
    then show ?thesis
      unfolding sc_def rrf_scores_flat using fold_entry_add(3) [of k "concat rankings" "[]" i]
      by (simp split: if_splits)
  qed
  show "sorted_wrt (\<lambda>a b. snd b \<le> snd a) (reciprocal_rank_fusion iter rankings k)"
    by (simp add: reciprocal_rank_fusion_def sorted_key_desc)
qed

text \<open>C27: Rank fusion returns every id of the input rankings exactly once, with the sum of
  \<open>1 / (k + rank + 1)\<close> over all its hits as score, best score first, in whatever order the
  hash map yields its entries.\<close>

theorem reciprocal_rank_fusion_spec:
  assumes "\<And>m. mset (iter m) = mset m"
  shows "distinct (map fst (reciprocal_rank_fusion iter rankings k))
    \<and> set (reciprocal_rank_fusion iter rankings k) =
        (\<lambda>i. (i, rrf_total k (concat rankings) i)) ` rh_id ` set (concat rankings)
    \<and> sorted_wrt (\<lambda>a b. snd b \<le> snd a) (reciprocal_rank_fusion iter rankings k)"
proof -
  have "set (reciprocal_rank_fusion iter rankings k) =
      (\<lambda>i. (i, rrf_total k (concat rankings) i)) ` fst ` set (reciprocal_rank_fusion iter rankings k)"
    using reciprocal_rank_fusion_keys(3) [OF assms] by force
  then show ?thesis
    using reciprocal_rank_fusion_keys(1,2,4) [OF assms, where rankings = rankings and k = k] by simp
qed

theorem reciprocal_rank_fusion_spec_witness:
  "map fst (reciprocal_rank_fusion rev [[\<lparr>rh_id = ''a'', rh_rank = 0\<rparr>, \<lparr>rh_id = ''b'', rh_rank = 1\<rparr>],
       [\<lparr>rh_id = ''b'', rh_rank = 0\<rparr>]] 60) = [''b'', ''a''] \<and>
   distinct (map fst (reciprocal_rank_fusion rev [[\<lparr>rh_id = ''a'', rh_rank = 0\<rparr>,
       \<lparr>rh_id = ''b'', rh_rank = 1\<rparr>], [\<lparr>rh_id = ''b'', rh_rank = 0\<rparr>]] 60))"
  using reciprocal_rank_fusion_spec [of rev "[[\<lparr>rh_id = ''a'', rh_rank = 0\<rparr>, \<lparr>rh_id = ''b'', rh_rank = 1\<rparr>],
       [\<lparr>rh_id = ''b'', rh_rank = 0\<rparr>]]" 60]
  by (simp add: reciprocal_rank_fusion_def rrf_scores_def contribution_def key_desc_def key_asc_def)

end
