(* ===== verification/Bridge_Search.thy ===== *)
theory Bridge_Search
  imports Level_Search
begin

text \<open>
  The breadth-first search of \<open>bfs_path\<close> (\<open>crates/search/src/searcher.rs\<close>) over the
  neighbours of a node in their order, with the visited set and the queue of the code. It
  terminates on every graph because the depth is bounded, and it returns a shortest path
  within the bound, and \<open>None\<close> only when there is none.
\<close>

section \<open>The loops\<close>

type_synonym 'v bfs_queue = "('v \<times> 'v list) list"

text \<open>The inner loop over the edges of the current node: a path to the target (left), or the new
  visited set and queue.\<close>

primrec bfs_edges ::
  "'v \<Rightarrow> 'v list \<Rightarrow> 'v list \<Rightarrow> 'v list \<Rightarrow> 'v bfs_queue \<Rightarrow> 'v list + 'v list \<times> 'v bfs_queue" where
  "bfs_edges tgt path [] visited queue = Inr (visited, queue)"
| "bfs_edges tgt path (n # ns) visited queue =
     (if n \<in> set visited then bfs_edges tgt path ns visited queue
      else if n = tgt then Inl (path @ [n])
      else bfs_edges tgt path ns (n # visited) (queue @ [(n, path @ [n])]))"

lemma bfs_edges_queue:
  "bfs_edges tgt path ns visited queue = Inr (visited', queue') \<Longrightarrow>
   \<exists>new. queue' = queue @ new \<and> (\<forall>(v, p) \<in> set new. p = path @ [v])"
proof (induction ns arbitrary: visited queue)
  case (Cons n ns)
  show ?case
  proof (cases "n \<in> set visited")
    case True
    then show ?thesis using Cons by simp
  next
    case False
    with Cons.prems have "n \<noteq> tgt" by auto
    with Cons.prems False have
      "bfs_edges tgt path ns (n # visited) (queue @ [(n, path @ [n])]) = Inr (visited', queue')" by simp
    from Cons.IH [OF this] show ?thesis by fastforce
  qed
qed simp

definition bfs_rank :: "nat \<Rightarrow> 'v bfs_queue \<Rightarrow> nat multiset" where
  "bfs_rank max_depth queue = mset (map (\<lambda>(v, p). Suc max_depth - length p) queue)"

lemma bfs_rank_drop: "(bfs_rank d queue, bfs_rank d (x # queue)) \<in> mult less_than"
  using one_step_implies_mult [of "{#Suc d - length (snd x)#}" "{#}" less_than "bfs_rank d queue"]
  by (simp add: bfs_rank_def split_def)

lemma bfs_rank_expand:
  assumes "\<forall>(v, p) \<in> set new. p = path @ [v]" "length path \<le> d"
  shows "(bfs_rank d (queue @ new), bfs_rank d ((c, path) # queue)) \<in> mult less_than"
proof -
  have "\<forall>k \<in> set_mset (bfs_rank d new). \<exists>j \<in> set_mset {#Suc d - length path#}. (k, j) \<in> less_than"
    using assms by (auto simp: bfs_rank_def)
  then have "(bfs_rank d queue + bfs_rank d new, bfs_rank d queue + {#Suc d - length path#}) \<in> mult less_than"
    by (intro one_step_implies_mult) simp_all
  then show ?thesis by (simp add: bfs_rank_def)
qed

function bfs_loop ::
  "('v \<Rightarrow> 'v list) \<Rightarrow> 'v \<Rightarrow> nat \<Rightarrow> 'v list \<Rightarrow> 'v bfs_queue \<Rightarrow> 'v list option" where
  "bfs_loop nbrs tgt max_depth visited [] = None"
| "bfs_loop nbrs tgt max_depth visited ((current, path) # queue) =
     (if max_depth < length path then bfs_loop nbrs tgt max_depth visited queue
      else case bfs_edges tgt path (nbrs current) visited queue of
             Inl found \<Rightarrow> Some found
           | Inr (visited', queue') \<Rightarrow> bfs_loop nbrs tgt max_depth visited' queue')"
  by pat_completeness auto

termination bfs_loop
proof (relation "inv_image (mult less_than) (\<lambda>(nbrs, tgt, d, visited, queue). bfs_rank d queue)")
  show "wf (inv_image (mult less_than)
      (\<lambda>(nbrs :: 'a \<Rightarrow> 'a list, tgt :: 'a, d, visited :: 'a list, queue). bfs_rank d queue))"
    by (intro wf_inv_image wf_mult wf_less_than)
qed (auto simp: bfs_rank_drop dest!: bfs_edges_queue intro: bfs_rank_expand)

definition bfs_path_on :: "('v \<Rightarrow> 'v list) \<Rightarrow> 'v \<Rightarrow> 'v \<Rightarrow> nat \<Rightarrow> 'v list option" where
  "bfs_path_on nbrs src tgt max_depth = bfs_loop nbrs tgt max_depth [src] [(src, [src])]"

section \<open>Walks\<close>

text \<open>A walk: consecutive nodes are joined by an edge.\<close>

fun is_walk :: "('v \<Rightarrow> 'v list) \<Rightarrow> 'v list \<Rightarrow> bool" where
  "is_walk nbrs [] \<longleftrightarrow> False"
| "is_walk nbrs [v] \<longleftrightarrow> True"
| "is_walk nbrs (u # v # p) \<longleftrightarrow> v \<in> set (nbrs u) \<and> is_walk nbrs (v # p)"

lemma is_walk_snoc: "is_walk nbrs p \<Longrightarrow> v \<in> set (nbrs (last p)) \<Longrightarrow> is_walk nbrs (p @ [v])"
  by (induction nbrs p rule: is_walk.induct) auto

lemma is_walk_relpow: "is_walk nbrs p \<Longrightarrow> (hd p, last p) \<in> edge_rel nbrs ^^ (length p - 1)"
proof (induction nbrs p rule: is_walk.induct)
  case (3 nbrs u v p)
  then have "(u, v) \<in> edge_rel nbrs" "(v, last (v # p)) \<in> edge_rel nbrs ^^ length p"
    by (auto simp: edge_rel_def)
  then have "(u, last (v # p)) \<in> edge_rel nbrs ^^ Suc (length p)" by (rule relpow_Suc_I2)
  then show ?case by simp
qed auto

lemma reach_single_walk:
  "is_walk nbrs p \<Longrightarrow> reach nbrs {hd p} (length p - 1) (last p)"
  using is_walk_relpow by (simp add: reach_def)

section \<open>Correctness\<close>

definition path_entry :: "('v \<Rightarrow> 'v list) \<Rightarrow> 'v \<Rightarrow> 'v \<times> 'v list \<Rightarrow> bool" where
  "path_entry nbrs src = (\<lambda>(v, p). is_walk nbrs p \<and> hd p = src \<and> last p = v)"

definition depths :: "'v bfs_queue \<Rightarrow> ('v \<times> nat) list" where
  "depths queue = map (\<lambda>(v, p). (v, length p - 1)) queue"

lemma depths_append [simp]: "depths (q @ q') = depths q @ depths q'"
  by (simp add: depths_def)

lemma depths_Cons [simp]: "depths ((v, p) # q) = (v, length p - 1) # depths q"
  by (simp add: depths_def)

lemma depths_Nil [simp]: "depths [] = []"
  by (simp add: depths_def)

definition bfs_inv :: "('v \<Rightarrow> 'v list) \<Rightarrow> 'v \<Rightarrow> 'v \<Rightarrow> nat \<Rightarrow> 'v list \<Rightarrow> 'v bfs_queue \<Rightarrow> bool" where
  "bfs_inv nbrs src tgt d visited queue \<longleftrightarrow> tgt \<notin> set visited
     \<and> (\<forall>e \<in> set queue. path_entry nbrs src e) \<and> level_inv nbrs {src} d (set visited) (depths queue)"

text \<open>A found path is a shortest walk from the source to the target within the bound.\<close>

definition shortest :: "('v \<Rightarrow> 'v list) \<Rightarrow> 'v \<Rightarrow> 'v \<Rightarrow> nat \<Rightarrow> 'v list \<Rightarrow> bool" where
  "shortest nbrs src tgt d p \<longleftrightarrow> is_walk nbrs p \<and> hd p = src \<and> last p = tgt \<and> length p \<le> Suc d
     \<and> (\<forall>k. (src, tgt) \<in> edge_rel nbrs ^^ k \<longrightarrow> length p \<le> Suc k)"

lemma path_entry_snoc:
  "path_entry nbrs src (c, path) \<Longrightarrow> n \<in> set (nbrs c) \<Longrightarrow> path_entry nbrs src (n, path @ [n])"
  using is_walk_snoc [of nbrs path n] by (cases path) (auto simp: path_entry_def)

lemma path_entry_length: "path_entry nbrs src (c, path) \<Longrightarrow> 0 < length path"
  by (cases path) (auto simp: path_entry_def)

lemma bfs_edges_correct:
  assumes "edge_inv nbrs {src} d c (length path - 1) ns (set visited) (depths queue)"
    and "path_entry nbrs src (c, path)" "\<forall>e \<in> set queue. path_entry nbrs src e" "tgt \<notin> set visited"
  shows "case bfs_edges tgt path ns visited queue of
     Inl found \<Rightarrow> shortest nbrs src tgt d found
   | Inr (visited', queue') \<Rightarrow> bfs_inv nbrs src tgt d visited' queue'"
  using assms(1,3,4)
proof (induction ns arbitrary: visited queue)
  case Nil
  then show ?case using edge_inv_finish by (auto simp: bfs_inv_def)
next
  case (Cons n ns)
  have len: "0 < length path" using path_entry_length [OF assms(2)] .
  have nc: "n \<in> set (nbrs c)" using Cons.prems(1) by (simp add: edge_inv_def)
  show ?case
  proof (cases "n \<in> set visited")
    case True
    then show ?thesis using Cons.IH [OF edge_inv_skip [OF Cons.prems(1)]] Cons.prems by simp
  next
    case new: False
    have entry: "path_entry nbrs src (n, path @ [n])"
      using path_entry_snoc [OF assms(2) nc] .
    show ?thesis
    proof (cases "n = tgt")
      case True
      have "at_dist nbrs {src} (insert n (set visited)) (n, Suc (length path - 1))"
        using at_dist_new [OF Cons.prems(1) _ new] by simp
      moreover have "length path - 1 < d" using Cons.prems(1) by (simp add: edge_inv_def)
      ultimately show ?thesis
        using True new entry len
        by (auto simp: shortest_def path_entry_def at_dist_def reach_def)
    next
      case False
      have "edge_inv nbrs {src} d c (length path - 1) ns (set (n # visited))
          (depths (queue @ [(n, path @ [n])]))"
        using edge_inv_push [OF Cons.prems(1) new] len by simp
      then show ?thesis using Cons.IH Cons.prems entry new False by simp
    qed
  qed
qed

lemma bfs_loop_correct:
  assumes "bfs_inv nbrs src tgt d visited queue"
  shows "case bfs_loop nbrs tgt d visited queue of
     Some found \<Rightarrow> shortest nbrs src tgt d found
   | None \<Rightarrow> (\<forall>k. (src, tgt) \<in> edge_rel nbrs ^^ k \<longrightarrow> d < k)"
  using assms
proof (induction nbrs tgt d visited queue rule: bfs_loop.induct)
  case (1 nbrs tgt d visited)
  then show ?case
    using level_inv_complete [of nbrs "{src}" d "set visited" _ tgt]
    by (auto simp: bfs_inv_def reach_def not_le [symmetric])
next
  case (2 nbrs tgt d visited c path queue)
  have len: "0 < length path"
    using 2(3) path_entry_length [of nbrs src c path] by (simp add: bfs_inv_def)
  have lvl: "level_inv nbrs {src} d (set visited) ((c, length path - 1) # depths queue)"
    using 2(3) by (simp add: bfs_inv_def)
  show ?case
  proof (cases "d < length path")
    case True
    then have "finished nbrs {src} d (set visited) c" using finished_deep [OF lvl] by simp
    then have "bfs_inv nbrs src tgt d visited queue"
      using 2(3) level_inv_drop [OF lvl] by (simp add: bfs_inv_def)
    then show ?thesis using 2(1) [OF True] True by simp
  next
    case False
    then have "edge_inv nbrs {src} d c (length path - 1) (nbrs c) (set visited) (depths queue)"
      using len by (intro edge_inv_start [OF lvl]) linarith
    note edges = bfs_edges_correct [OF this, of tgt]
    show ?thesis
    proof (cases "bfs_edges tgt path (nbrs c) visited queue")
      case (Inl found)
      then show ?thesis using edges 2(3) False by (simp add: bfs_inv_def)
    next
      case (Inr r)
      obtain visited' queue' where r: "r = (visited', queue')" by fastforce
      have "bfs_inv nbrs src tgt d visited' queue'"
        using edges 2(3) Inr r by (simp add: bfs_inv_def)
      then show ?thesis using 2(2) [OF False Inr r [symmetric]] False Inr r by simp
    qed
  qed
qed

lemma bfs_path_on_correct:
  assumes "src \<noteq> tgt"
  shows "case bfs_path_on nbrs src tgt d of
     Some found \<Rightarrow> shortest nbrs src tgt d found
   | None \<Rightarrow> (\<forall>k. (src, tgt) \<in> edge_rel nbrs ^^ k \<longrightarrow> d < k)"
proof -
  have "bfs_inv nbrs src tgt d [src] [(src, [src])]"
    using assms by (simp add: bfs_inv_def path_entry_def level_inv_def at_dist_def)
  then show ?thesis unfolding bfs_path_on_def by (rule bfs_loop_correct)
qed

end
