(* ===== verification/Searcher.thy ===== *)
theory Searcher
  imports Embeddings Rank Bridge_Search
begin

text \<open>
  \<open>Searcher\<close> of \<open>crates/search/src/searcher.rs\<close>: dense scoring, hybrid fusion with the
  full-text ranking, graph expansion, truncation, and bridge discovery. Two parameters stand
  for code outside: the FTS5 engine (\<open>fts_match\<close>) and the iteration order of the hash map
  inside rank fusion (\<open>iter\<close>).
\<close>

section \<open>Types\<close>

datatype search_error =
    Search_storage sqlx_error
  | Dimension_mismatch nat nat
  | Invalid_query string

datatype result_source = Direct | Graph_expanded

record search_result =
  r_memory_id :: string
  r_content :: string
  r_category :: string
  r_memory_type :: string
  r_score :: fl
  r_source :: result_source

record search_options =
  o_limit :: nat
  o_deep_recall :: bool
  o_provider :: string
  o_model :: string
  o_now :: int
  o_hybrid :: bool
  o_query_text :: "string option"
  o_graph_expansion_hops :: nat
  o_min_bridge_edge_weight :: real
  o_bridge_discovery :: bool
  o_max_bridge_paths :: nat

definition new_search_options :: "string \<Rightarrow> string \<Rightarrow> int \<Rightarrow> search_options" where
  "new_search_options provider model now = \<lparr>o_limit = 10, o_deep_recall = False, o_provider = provider,
     o_model = model, o_now = now, o_hybrid = False, o_query_text = None, o_graph_expansion_hops = 0,
     o_min_bridge_edge_weight = 3 / 10, o_bridge_discovery = False, o_max_bridge_paths = 3\<rparr>"

definition candidate_to_state :: "search_candidate \<Rightarrow> lifecycle_config \<Rightarrow> memory_state" where
  "candidate_to_state c cfg = \<lparr>
     last_accessed_at = sc_last_accessed_at c, created_at = sc_created_at c,
     stability = sc_stability c, importance = sc_importance c,
     base_decay_rate = beta_for cfg (sc_category c), floor_of = sc_retention_floor c,
     is_stub = sc_is_stub c, access_count = wrap_u64 (sc_retrieval_count c), session_count = 0,
     category_of = parse_category (sc_category c)\<rparr>"

definition default_search_lifecycle_config :: lifecycle_config where
  "default_search_lifecycle_config = default_lifecycle_config\<lparr>decay_model := Power\<rparr>"

section \<open>Dense scoring\<close>

definition composite_score ::
  "lifecycle_config \<Rightarrow> int \<Rightarrow> f32 list \<Rightarrow> f32 list \<Rightarrow> memory_state \<Rightarrow> fl" where
  "composite_score cfg now query_vec memory_vec state =
     f_mul (cosine_similarity query_vec memory_vec)
       (f_powf (compute_retention state now cfg) (retrieval_score_exponent cfg))"

definition score_candidate ::
  "lifecycle_config \<Rightarrow> int \<Rightarrow> f32 list \<Rightarrow> search_candidate \<Rightarrow> search_result" where
  "score_candidate cfg now query_vec c = \<lparr>
     r_memory_id = sc_id c, r_content = sc_content c, r_category = sc_category c,
     r_memory_type = sc_memory_type c,
     r_score = composite_score cfg now query_vec (embedding_vec c) (candidate_to_state c cfg),
     r_source = Direct\<rparr>"

fun score_candidates ::
  "lifecycle_config \<Rightarrow> int \<Rightarrow> f32 list \<Rightarrow> search_candidate list \<Rightarrow> search_error + search_result list" where
  "score_candidates cfg now query_vec [] = Inr []"
| "score_candidates cfg now query_vec (c # cs) =
     (if length (embedding_vec c) \<noteq> length query_vec
      then Inl (Dimension_mismatch (length query_vec) (length (embedding_vec c)))
      else case score_candidates cfg now query_vec cs of
             Inl e \<Rightarrow> Inl e
           | Inr rs \<Rightarrow> Inr (score_candidate cfg now query_vec c # rs))"

definition sort_results :: "search_result list \<Rightarrow> search_result list" where
  "sort_results rs = sort_by (cmp_desc r_score) rs"

section \<open>Hybrid fusion\<close>

definition ranked :: "string list \<Rightarrow> ranked_hit list" where
  "ranked ids = map (\<lambda>(rank, i). \<lparr>rh_id = i, rh_rank = rank\<rparr>) (enumerate 0 ids)"

text \<open>The loop over the fused ids: \<open>by_id.remove(&id)\<close> and the fused score.\<close>

fun take_fused :: "(string \<times> real) list \<Rightarrow> (string \<rightharpoonup> search_result) \<Rightarrow> search_result list" where
  "take_fused [] by_id = []"
| "take_fused ((i, fused_score) # fused) by_id =
     (case by_id i of
        Some r \<Rightarrow> r\<lparr>r_score := Fin fused_score\<rparr> # take_fused fused (by_id(i := None))
      | None \<Rightarrow> take_fused fused by_id)"

definition hybrid_fuse ::
  "((string \<times> real) list \<Rightarrow> (string \<times> real) list) \<Rightarrow> string list \<Rightarrow> search_result list \<Rightarrow> search_result list" where
  "hybrid_fuse iter bm25_ids scored =
     take_fused (reciprocal_rank_fusion iter [ranked (map r_memory_id scored), ranked bm25_ids] 60)
       (map_of (rev (map (\<lambda>r. (r_memory_id r, r)) scored)))"

section \<open>Graph expansion\<close>

definition live_weight :: "lifecycle_config \<Rightarrow> int \<Rightarrow> linked_memory \<Rightarrow> fl" where
  "live_weight cfg now lm = (case lm_last_co_retrieval lm of
      Some last_co \<Rightarrow> decay_association_weight (lm_link_strength lm) last_co now
                        (association_decay_constant_days cfg)
    | None \<Rightarrow> Fin (lm_link_strength lm))"

definition row_state :: "memory_row \<Rightarrow> lifecycle_config \<Rightarrow> memory_state" where
  "row_state m cfg = \<lparr>
     last_accessed_at = m_last_accessed_at m, created_at = m_created_at m,
     stability = m_stability m, importance = m_importance m,
     base_decay_rate = beta_for cfg (m_category m), floor_of = m_retention_floor m,
     is_stub = m_is_stub m, access_count = wrap_u64 (m_retrieval_count m), session_count = 0,
     category_of = parse_category (m_category m)\<rparr>"

definition expand_result ::
  "lifecycle_config \<Rightarrow> int \<Rightarrow> f32 list \<Rightarrow> linked_memory \<Rightarrow> f32 list \<Rightarrow> search_result" where
  "expand_result cfg now query_vec lm memory_vec = \<lparr>
     r_memory_id = m_id (lm_memory lm), r_content = m_content (lm_memory lm),
     r_category = m_category (lm_memory lm), r_memory_type = m_memory_type (lm_memory lm),
     r_score = f_mul (composite_score cfg now query_vec memory_vec (row_state (lm_memory lm) cfg))
                     (live_weight cfg now lm),
     r_source = Graph_expanded\<rparr>"

text \<open>The loop over the linked memories of one hop; the state is the ids seen so far, the results
  added, and the next frontier.\<close>

fun expand_linked ::
  "lifecycle_config \<Rightarrow> search_options \<Rightarrow> f32 list \<Rightarrow> linked_memory list \<Rightarrow>
   string list \<Rightarrow> search_result list \<Rightarrow> string list \<Rightarrow> string list \<times> search_result list \<times> string list" where
  "expand_linked cfg opts query_vec [] have_ids scored next = (have_ids, scored, next)"
| "expand_linked cfg opts query_vec (lm # lms) have_ids scored next =
     (if m_id (lm_memory lm) \<in> set have_ids then expand_linked cfg opts query_vec lms have_ids scored next
      else if f_lt (live_weight cfg (o_now opts) lm) (Fin (o_min_bridge_edge_weight opts))
      then expand_linked cfg opts query_vec lms have_ids scored next
      else case m_embedding (lm_memory lm) of
             None \<Rightarrow> expand_linked cfg opts query_vec lms have_ids scored next
           | Some bytes \<Rightarrow>
               if length (decode_f32s bytes) \<noteq> length query_vec
               then expand_linked cfg opts query_vec lms have_ids scored next
               else expand_linked cfg opts query_vec lms (m_id (lm_memory lm) # have_ids)
                      (scored @ [expand_result cfg (o_now opts) query_vec lm (decode_f32s bytes)])
                      (next @ [m_id (lm_memory lm)]))"

primrec expand_hops ::
  "nat \<Rightarrow> lifecycle_config \<Rightarrow> search_options \<Rightarrow> string \<Rightarrow> f32 list \<Rightarrow>
   string list \<Rightarrow> search_result list \<Rightarrow> string list \<Rightarrow> (search_result list) sql" where
  "expand_hops 0 cfg opts u query_vec have_ids scored frontier_ids = ret_sm scored"
| "expand_hops (Suc n) cfg opts u query_vec have_ids scored frontier_ids =
     (if frontier_ids = [] then ret_sm scored
      else bind_sm (linked_for_many u frontier_ids (o_min_bridge_edge_weight opts)) (\<lambda>linked.
        case expand_linked cfg opts query_vec linked have_ids scored [] of
          (have_ids', scored', next) \<Rightarrow> expand_hops n cfg opts u query_vec have_ids' scored' next))"

definition expand_via_graph ::
  "lifecycle_config \<Rightarrow> search_options \<Rightarrow> string \<Rightarrow> f32 list \<Rightarrow> search_result list \<Rightarrow> (search_result list) sql" where
  "expand_via_graph cfg opts u query_vec scored =
     expand_hops (o_graph_expansion_hops opts) cfg opts u query_vec (map r_memory_id scored) scored
       (map r_memory_id (take (max (o_limit opts) 5) scored))"

section \<open>Search and bridges\<close>

definition hybrid_stage ::
  "(string \<Rightarrow> (string \<times> string) list \<Rightarrow> string list) \<Rightarrow>
   ((string \<times> real) list \<Rightarrow> (string \<times> real) list) \<Rightarrow>
   string \<Rightarrow> search_options \<Rightarrow> search_result list \<Rightarrow> (db, search_error, search_result list) sm" where
  "hybrid_stage fts_match iter u opts dense =
     (if o_hybrid opts
      then (case o_query_text opts of
              None \<Rightarrow> throw_sm (Invalid_query ''hybrid mode requires query_text in SearchOptions'')
            | Some query_text \<Rightarrow>
                bind_sm (map_err Search_storage
                  (bm25_search fts_match u query_text (max (wrap_u64 (int (o_limit opts) * 4)) 20)))
                  (\<lambda>bm25_ids. ret_sm (hybrid_fuse iter bm25_ids dense)))
      else ret_sm dense)"

definition expansion_stage ::
  "lifecycle_config \<Rightarrow> string \<Rightarrow> f32 list \<Rightarrow> search_options \<Rightarrow> search_result list \<Rightarrow>
   (db, search_error, search_result list) sm" where
  "expansion_stage cfg u query_vec opts scored =
     (if o_graph_expansion_hops opts > 0 \<and> scored \<noteq> []
      then bind_sm (map_err Search_storage (expand_via_graph cfg opts u query_vec scored))
             (\<lambda>more. ret_sm (sort_results more))
      else ret_sm scored)"

definition search ::
  "(string \<Rightarrow> (string \<times> string) list \<Rightarrow> string list) \<Rightarrow>
   ((string \<times> real) list \<Rightarrow> (string \<times> real) list) \<Rightarrow>
   lifecycle_config \<Rightarrow> string \<Rightarrow> f32 list \<Rightarrow> search_options \<Rightarrow> (db, search_error, search_result list) sm" where
  "search fts_match iter cfg u query_vec opts =
     (if query_vec = [] then throw_sm (Invalid_query ''query vector is empty'')
      else if o_limit opts = 0 then ret_sm []
      else
       bind_sm (map_err Search_storage
          (candidates_for_search u (o_provider opts) (o_model opts) (o_now opts) (o_deep_recall opts)))
          (\<lambda>candidates.
       bind_sm (lift_sm (score_candidates cfg (o_now opts) query_vec candidates)) (\<lambda>unsorted.
       bind_sm (hybrid_stage fts_match iter u opts (sort_results unsorted)) (\<lambda>scored.
       bind_sm (expansion_stage cfg u query_vec opts scored) (\<lambda>final.
         ret_sm (take (o_limit opts) final))))))"

definition neighbours :: "real \<Rightarrow> db \<Rightarrow> string \<Rightarrow> string list" where
  "neighbours min_weight d i = map a_target (edges_from i min_weight d)"

text \<open>\<open>bfs_path\<close> reads the neighbours of each node it expands; the reads change nothing, so they
  are a function of the database.\<close>

definition bfs_path :: "string \<Rightarrow> string \<Rightarrow> nat \<Rightarrow> real \<Rightarrow> (string list option) sql" where
  "bfs_path src tgt max_depth min_weight =
     gets_sm (\<lambda>d. bfs_path_on (neighbours min_weight d) src tgt max_depth)"

text \<open>\<open>for i in 0..n { for j in (i+1)..n { .. } }\<close>.\<close>

fun pairs_of :: "'a list \<Rightarrow> ('a \<times> 'a) list" where
  "pairs_of [] = []"
| "pairs_of (x # xs) = map (Pair x) xs @ pairs_of xs"

text \<open>A \<open>break\<close> at the cap leaves the inner loop only; the later rows break at once too, since
  the number of chains does not shrink.\<close>

definition find_bridges :: "string list \<Rightarrow> search_options \<Rightarrow> (db, search_error, string list list) sm" where
  "find_bridges anchors opts =
     (if \<not> o_bridge_discovery opts \<or> length anchors < 2 then ret_sm []
      else fold_sm (pairs_of (take 3 anchors)) (\<lambda>(a, b) chains.
        if o_max_bridge_paths opts \<le> length chains then ret_sm chains
        else bind_sm (map_err Search_storage (bfs_path a b 3 (o_min_bridge_edge_weight opts))) (\<lambda>found.
          ret_sm (case found of
                    Some path \<Rightarrow> if 2 < length path then chains @ [path] else chains
                  | None \<Rightarrow> chains))) [])"

section \<open>Frames\<close>

text \<open>A search reads only.\<close>

definition unchanged :: "db \<Rightarrow> db \<Rightarrow> bool" where
  "unchanged d d' \<longleftrightarrow> d' = d"

interpretation ro: frame_rel unchanged
  by unfold_locales (simp_all add: unchanged_def)

lemma get_many_ro: "keeps unchanged (get_many_for_user u ids)"
  by (auto simp: get_many_for_user_def select_memories_def intro!: ro.keeps_rules)

lemma linked_for_many_ro: "keeps unchanged (linked_for_many u srcs mw)"
  by (auto simp: linked_for_many_def attach_edges_def intro!: ro.keeps_rules get_many_ro)

lemma expand_hops_ro: "keeps unchanged (expand_hops n cfg opts u q have_ids scored fr)"
  by (induction n arbitrary: have_ids scored fr)
    (auto intro!: ro.keeps_rules linked_for_many_ro split: prod.split)

lemma search_ro: "keeps unchanged (search fts iter cfg u q opts)"
  by (auto simp: search_def candidates_for_search_def select_memories_def bm25_search_def
      hybrid_stage_def expansion_stage_def expand_via_graph_def split: option.split intro!: ro.keeps_rules expand_hops_ro)

lemma find_bridges_ro: "keeps unchanged (find_bridges anchors opts)"
  by (auto simp: find_bridges_def bfs_path_def split: prod.split intro!: ro.keeps_rules)

lemma unchanged_keeps:
  "keeps unchanged m \<Longrightarrow> keeps inv_step m" "keeps unchanged m \<Longrightarrow> keeps (others_step u) m"
  by (auto simp: keeps_def unchanged_def inv_step_def others_step_def)

lemma search_keeps [frame_intros]:
  "keeps inv_step (search fts iter cfg u q opts)"
  "keeps (others_step w) (search fts iter cfg u q opts)"
  "keeps inv_step (find_bridges anchors opts)"
  "keeps (others_step w) (find_bridges anchors opts)"
  using unchanged_keeps search_ro find_bridges_ro by blast+

lemma search_state: "search fts iter cfg u q opts d = (r, d') \<Longrightarrow> d' = d"
  using keepsD [OF search_ro] by (auto simp: unchanged_def)

end
