(* ===== verification/Search_Laws.thy ===== *)
theory Search_Laws
  imports Searcher
begin

text \<open>
  What a search returns: memories of the user, each once, at most the limit, best score first;
  for a plain dense search exactly the best candidates; and for bridge discovery the shortest
  association paths between the top results.
\<close>

section \<open>Scores are numbers on sane data\<close>

text \<open>A row is sane when its lifecycle fields are in range and its stored vector is finite.\<close>

definition sane_row :: "lifecycle_config \<Rightarrow> memory_row \<Rightarrow> bool" where
  "sane_row cfg m \<longleftrightarrow> wf_state (row_state m cfg)
     \<and> (\<forall>b. m_embedding m = Some b \<longrightarrow> finite_vec (decode_f32s b))"

lemma candidate_row_state: "candidate_to_state (to_candidate m) cfg = row_state m cfg"
  by (simp add: candidate_to_state_def to_candidate_def row_state_def)

lemma compute_retention_ge_0:
  assumes "wf_state m"
  obtains r where "compute_retention m now cfg = Fin r" "0 \<le> r"
proof (cases "is_stub m \<or> base_decay_rate m = PInf")
  case True
  then show ?thesis
    using that [of "if is_stub m then 0 else 1"] by (auto simp: compute_retention_def)
next
  case False
  then obtain r where "compute_retention m now cfg = Fin r" "floor_of m \<le> r"
    using compute_retention_Fin [OF assms, of cfg] max.cobounded2 by metis
  moreover have "0 \<le> floor_of m" using assms by (simp add: wf_state_def)
  ultimately show ?thesis using that by force
qed

lemma composite_score_Fin:
  assumes "wf_state st" "wf_config cfg" "finite_vec q" "finite_vec v" "length q = length v"
  shows "\<exists>s. composite_score cfg now q v st = Fin s"
proof -
  obtain r where r: "compute_retention st now cfg = Fin r" "0 \<le> r"
    using compute_retention_ge_0 [OF assms(1)] .
  obtain c where "cosine_similarity q v = Fin c"
    using cosine_similarity_Fin [OF assms(3-5)] by (simp add: Let_def split: if_splits)
  moreover have "\<exists>p. f_powf (Fin r) (retrieval_score_exponent cfg) = Fin p"
    using r(2) assms(2) by (cases "r = 0") (auto simp: wf_config_def)
  ultimately show ?thesis by (auto simp: composite_score_def r(1))
qed

lemma live_weight_Fin: "wf_config cfg \<Longrightarrow> \<exists>w. live_weight cfg now lm = Fin w"
  by (auto simp: live_weight_def decay_association_weight_Fin wf_config_def split: option.split)

section \<open>Results are the user's memories\<close>

definition result_of :: "string \<Rightarrow> db \<Rightarrow> search_result \<Rightarrow> bool" where
  "result_of u d r \<longleftrightarrow> (\<exists>m \<in> set (memories d). m_user_id m = u \<and> r_memory_id r = m_id m
     \<and> r_content r = m_content m \<and> r_category r = m_category m \<and> r_memory_type r = m_memory_type m)"

lemma score_candidates_eq:
  "score_candidates cfg now q cs =
     (case find (\<lambda>c. length (embedding_vec c) \<noteq> length q) cs of
        Some c \<Rightarrow> Inl (Dimension_mismatch (length q) (length (embedding_vec c)))
      | None \<Rightarrow> Inr (map (score_candidate cfg now q) cs))"
  by (induction cs) (auto split: option.split)

lemma score_candidates_Inr:
  "score_candidates cfg now q cs = Inr rs \<longleftrightarrow>
     (\<forall>c \<in> set cs. length (embedding_vec c) = length q) \<and> rs = map (score_candidate cfg now q) cs"
  by (auto simp: score_candidates_eq find_None_iff find_Some_iff split: option.split)

lemma take_fused_subset:
  "r \<in> set (take_fused fused by_id) \<Longrightarrow>
   \<exists>i r0 s. (i, s) \<in> set fused \<and> by_id i = Some r0 \<and> r = r0\<lparr>r_score := Fin s\<rparr>"
proof (induction fused arbitrary: by_id)
  case (Cons e fused)
  obtain i s where e: "e = (i, s)" by fastforce
  show ?case
  proof (cases "by_id i")
    case None
    then show ?thesis using Cons.IH [of by_id] Cons.prems e by auto
  next
    case (Some r0)
    show ?thesis
    proof (cases "r = r0\<lparr>r_score := Fin s\<rparr>")
      case True
      then show ?thesis using Some e by (intro exI [of _ i] exI [of _ r0] exI [of _ s]) simp
    next
      case False
      then have "r \<in> set (take_fused fused (by_id(i := None)))" using Cons.prems Some e by simp
      from Cons.IH [OF this] show ?thesis using e by (auto split: if_splits)
    qed
  qed
qed simp

lemma take_fused_keys:
  assumes "\<And>i r. by_id i = Some r \<Longrightarrow> r_memory_id r = i" "distinct (map fst fused)"
  shows "map r_memory_id (take_fused fused by_id) = filter (\<lambda>i. by_id i \<noteq> None) (map fst fused)"
  using assms
proof (induction fused by_id rule: take_fused.induct)
  case (2 i s fused by_id)
  show ?case
  proof (cases "by_id i")
    case None
    then show ?thesis using 2 by simp
  next
    case (Some r)
    have "filter (\<lambda>j. (by_id(i := None)) j \<noteq> None) (map fst fused) = filter (\<lambda>j. by_id j \<noteq> None) (map fst fused)"
      using 2(4) by (intro filter_cong) auto
    moreover have "(by_id(i := None)) j = Some r' \<Longrightarrow> r_memory_id r' = j" for j r'
      using 2(3) by (auto split: if_splits)
    ultimately show ?thesis using 2(2) [OF Some] 2(3,4) Some by (simp add: fun_upd_def)
  qed
qed simp

lemma take_fused_sorted:
  assumes "sorted_wrt (\<lambda>a b. snd b \<le> snd a) fused"
  shows "sorted_wrt (\<lambda>a b. f_le (r_score b) (r_score a)) (take_fused fused by_id)"
  using assms
proof (induction fused by_id rule: take_fused.induct)
  case (2 i s fused by_id)
  have "f_le (r_score b) (Fin s)" if "b \<in> set (take_fused fused m)" for b m
    using take_fused_subset [OF that] 2(3) by fastforce
  then show ?case using 2 by (cases "by_id i") (auto simp: fun_upd_def)
qed simp

lemma map_of_results:
  assumes "distinct (map r_memory_id scored)"
  shows "map_of (rev (map (\<lambda>r. (r_memory_id r, r)) scored)) i = Some r \<longleftrightarrow>
     r \<in> set scored \<and> r_memory_id r = i"
proof -
  have "distinct (map fst (rev (map (\<lambda>r. (r_memory_id r, r)) scored)))"
    using assms by (simp add: rev_map [symmetric] o_def)
  then show ?thesis by (auto simp: map_of_eq_Some_iff)
qed

text \<open>Fusion keeps every dense result exactly once and nothing else.\<close>

lemma hybrid_fuse_ids:
  assumes perm: "\<And>m. mset (iter m) = mset m" and dist: "distinct (map r_memory_id scored)"
  shows "distinct (map r_memory_id (hybrid_fuse iter bm25 scored))"
    and "set (map r_memory_id (hybrid_fuse iter bm25 scored)) = set (map r_memory_id scored)"
proof -
  define fused where "fused = reciprocal_rank_fusion iter [ranked (map r_memory_id scored), ranked bm25] 60"
  define by_id where "by_id = map_of (rev (map (\<lambda>r. (r_memory_id r, r)) scored))"
  have fused: "distinct (map fst fused)" "fst ` set fused = rh_id ` set (concat [ranked (map r_memory_id scored), ranked bm25])"
    using reciprocal_rank_fusion_keys [OF perm] by (simp_all add: fused_def)
  have ranked_ids: "rh_id ` set (ranked xs) = set xs" for xs
  proof -
    have "map rh_id (ranked xs) = xs" by (simp add: ranked_def o_def split_def)
    then show ?thesis by (metis set_map)
  qed
  have keys: "map r_memory_id (hybrid_fuse iter bm25 scored) = filter (\<lambda>i. by_id i \<noteq> None) (map fst fused)"
    unfolding hybrid_fuse_def fused_def [symmetric] by_id_def [symmetric]
    using map_of_results [OF dist] fused(1) by (intro take_fused_keys) (auto simp: by_id_def)
  have dom: "by_id i \<noteq> None \<longleftrightarrow> i \<in> set (map r_memory_id scored)" for i
    using map_of_results [OF dist, of i] by (force simp: by_id_def)
  show "distinct (map r_memory_id (hybrid_fuse iter bm25 scored))"
    unfolding keys using fused(1) by simp
  show "set (map r_memory_id (hybrid_fuse iter bm25 scored)) = set (map r_memory_id scored)"
    unfolding keys using dom fused(2) by (auto simp: ranked_ids image_Un)
qed

section \<open>The pipeline\<close>

text \<open>What every stage of the search keeps: each result is a memory of the user, no id occurs
  twice, and on sane data every score is a number.\<close>

definition good_results :: "lifecycle_config \<Rightarrow> string \<Rightarrow> db \<Rightarrow> search_result list \<Rightarrow> bool" where
  "good_results cfg u d rs \<longleftrightarrow> distinct (map r_memory_id rs) \<and> (\<forall>r \<in> set rs. result_of u d r)
     \<and> (wf_config cfg \<and> (\<forall>m \<in> set (memories d). sane_row cfg m) \<longrightarrow> (\<forall>r \<in> set rs. is_finite (r_score r)))"

lemma good_results_sort [simp]: "good_results cfg u d (sort_results rs) = good_results cfg u d rs"
  by (simp add: good_results_def sort_results_def)

lemma good_results_take: "good_results cfg u d rs \<Longrightarrow> good_results cfg u d (take n rs)"
  by (auto simp: good_results_def take_map [symmetric] dest: in_set_takeD)

lemma good_dense:
  assumes "wf_db d" "finite_vec q"
    and "score_candidates cfg now q (map to_candidate (filter (searchable u p mo now e) (memories d))) = Inr rs"
  shows "good_results cfg u d rs"
proof -
  define sel where "sel = filter (searchable u p mo now e) (memories d)"
  have rs: "rs = map (\<lambda>m. score_candidate cfg now q (to_candidate m)) sel"
    and len: "\<And>m. m \<in> set sel \<Longrightarrow> length (embedding_vec (to_candidate m)) = length q"
    using assms(3) by (auto simp: score_candidates_Inr sel_def [symmetric])
  have "map r_memory_id rs = map m_id sel"
    by (simp add: rs score_candidate_def to_candidate_def)
  then have "distinct (map r_memory_id rs)"
    using wf_dbD(1) [OF assms(1)] by (simp add: sel_def keyed_def distinct_map_filter)
  moreover have "result_of u d (score_candidate cfg now q (to_candidate m))" if "m \<in> set sel" for m
    using that by (auto simp: sel_def searchable_def result_of_def score_candidate_def to_candidate_def)
  moreover have "is_finite (r_score (score_candidate cfg now q (to_candidate m)))"
    if "m \<in> set sel" "wf_config cfg" "sane_row cfg m" for m
  proof -
    have "finite_vec (embedding_vec (to_candidate m))"
      using that by (auto simp: sel_def searchable_def sane_row_def embedding_vec_def to_candidate_def)
    then show ?thesis
      using composite_score_Fin [of "row_state m cfg" cfg q "embedding_vec (to_candidate m)" now] that assms(2) len
      by (auto simp: score_candidate_def candidate_row_state sane_row_def is_finite_def)
  qed
  ultimately show ?thesis by (auto simp: good_results_def rs sel_def)
qed

lemma good_hybrid:
  assumes "\<And>m. mset (iter m) = mset m" "good_results cfg u d rs"
  shows "good_results cfg u d (hybrid_fuse iter bm25 rs)"
proof -
  have dist: "distinct (map r_memory_id rs)" using assms(2) by (simp add: good_results_def)
  have "\<exists>r0 s. r0 \<in> set rs \<and> r = r0\<lparr>r_score := Fin s\<rparr>" if r: "r \<in> set (hybrid_fuse iter bm25 rs)" for r
    using take_fused_subset [OF r [unfolded hybrid_fuse_def]] map_of_results [OF dist] by blast
  then have "result_of u d r \<and> is_finite (r_score r)" if "r \<in> set (hybrid_fuse iter bm25 rs)" for r
    using that assms(2) by (fastforce simp: good_results_def result_of_def)
  then show ?thesis
    using hybrid_fuse_ids(1) [OF assms(1) dist] by (simp add: good_results_def)
qed

lemma good_expand_linked:
  assumes "good_results cfg u d scored" "set have_ids = r_memory_id ` set scored" "finite_vec q"
    and "\<forall>lm \<in> set lms. lm_memory lm \<in> set (memories d) \<and> m_user_id (lm_memory lm) = u"
    and "expand_linked cfg opts q lms have_ids scored next = (have_ids', scored', next')"
  shows "good_results cfg u d scored' \<and> set have_ids' = r_memory_id ` set scored'"
  using assms(1,2,4,5)
proof (induction lms arbitrary: have_ids scored "next")
  case (Cons lm lms)
  let ?m = "lm_memory lm"
  show ?case
  proof (cases "m_id ?m \<in> set have_ids \<or> f_lt (live_weight cfg (o_now opts) lm) (Fin (o_min_bridge_edge_weight opts))
      \<or> m_embedding ?m = None \<or> (\<exists>b. m_embedding ?m = Some b \<and> length (decode_f32s b) \<noteq> length q)")
    case True
    then show ?thesis using Cons.IH [OF Cons.prems(1,2)] Cons.prems(3,4) by (auto split: if_splits)
  next
    case False
    then obtain b where b: "m_embedding ?m = Some b" "length (decode_f32s b) = length q"
      "m_id ?m \<notin> set have_ids" by auto
    let ?r = "expand_result cfg (o_now opts) q lm (decode_f32s b)"
    have "result_of u d ?r" using Cons.prems(3) by (auto simp: result_of_def expand_result_def)
    moreover have "is_finite (r_score ?r)" if wc: "wf_config cfg" and sane: "\<forall>m \<in> set (memories d). sane_row cfg m"
    proof -
      have "sane_row cfg ?m" using sane Cons.prems(3) by simp
      then obtain c where "composite_score cfg (o_now opts) q (decode_f32s b) (row_state ?m cfg) = Fin c"
        using composite_score_Fin [of "row_state ?m cfg" cfg q "decode_f32s b" "o_now opts"] b assms(3) wc
        by (auto simp: sane_row_def)
      moreover obtain w where "live_weight cfg (o_now opts) lm = Fin w" using live_weight_Fin [OF wc] by blast
      ultimately show ?thesis by (simp add: expand_result_def)
    qed
    moreover have "r_memory_id ?r = m_id ?m" by (simp add: expand_result_def)
    ultimately have "good_results cfg u d (scored @ [?r])"
      using Cons.prems(1,2) b(3) by (auto simp: good_results_def)
    then show ?thesis
      using Cons.IH [of "scored @ [?r]" "m_id ?m # have_ids"] Cons.prems(2-4) b False
      by (simp add: expand_result_def)
  qed
qed simp

lemma attach_edges_own:
  assumes "attach_edges u es d = (Inr lms, d')"
  shows "\<forall>lm \<in> set lms. lm_memory lm \<in> set (memories d) \<and> m_user_id (lm_memory lm) = u"
proof (cases "es = []")
  case False
  then obtain mems where mems: "get_many_for_user u (map fst es) d = (Inr mems, d)"
    "\<forall>m \<in> set mems. m \<in> set (memories d) \<and> m_user_id m = u"
    by (auto simp: get_many_for_user_def select_memories_def bind_sm_def gets_sm_def ret_sm_def)
  then show ?thesis
    using assms False
    by (auto simp: attach_edges_def bind_sm_def ret_sm_def List.map_filter_def split: option.splits)
qed (use assms in \<open>simp add: attach_edges_def ret_sm_def\<close>)

lemma linked_for_many_own:
  "linked_for_many u srcs mw d = (Inr lms, d') \<Longrightarrow>
   \<forall>lm \<in> set lms. lm_memory lm \<in> set (memories d) \<and> m_user_id (lm_memory lm) = u"
  using attach_edges_own [of u _ d lms d']
  by (auto simp: linked_for_many_def ret_sm_def split: if_splits)

lemma good_expand_hops:
  assumes "good_results cfg u d scored" "set have_ids = r_memory_id ` set scored" "finite_vec q"
    and "expand_hops n cfg opts u q have_ids scored fr d = (Inr rs, d')"
  shows "good_results cfg u d rs"
  using assms(1,2,4)
proof (induction n arbitrary: have_ids scored fr)
  case (Suc n)
  show ?case
  proof (cases "fr = []")
    case False
    obtain res d1 where run: "linked_for_many u fr (o_min_bridge_edge_weight opts) d = (res, d1)" by fastforce
    have d1: "d1 = d" using keepsD [OF linked_for_many_ro run] by (simp add: unchanged_def)
    with run False Suc.prems(3) obtain lms where
      linked: "linked_for_many u fr (o_min_bridge_edge_weight opts) d = (Inr lms, d)"
      by (cases res) (auto simp: bind_sm_def)
    obtain h' s' n' where ex: "expand_linked cfg opts q lms have_ids scored [] = (h', s', n')"
      by (metis prod.exhaust)
    have "good_results cfg u d s'" "set h' = r_memory_id ` set s'"
      using good_expand_linked [OF Suc.prems(1,2) assms(3) linked_for_many_own [OF linked] ex] by auto
    then show ?thesis
      using Suc.IH [of s' h' n'] Suc.prems(3) False linked ex by (simp add: bind_sm_def)
  qed (use Suc.prems in \<open>simp add: ret_sm_def\<close>)
qed (simp add: ret_sm_def)

text \<open>The stages as functions: no stage changes the database, and only the hybrid one without a
  query text fails.\<close>

definition candidates_of :: "string \<Rightarrow> search_options \<Rightarrow> db \<Rightarrow> memory_row list" where
  "candidates_of u opts d =
     filter (searchable u (o_provider opts) (o_model opts) (o_now opts) (o_deep_recall opts)) (memories d)"

definition bm25_of :: "(string \<Rightarrow> (string \<times> string) list \<Rightarrow> string list) \<Rightarrow> string \<Rightarrow> search_options \<Rightarrow> db \<Rightarrow> string list" where
  "bm25_of fts u opts d = (case fst (bm25_search fts u (the (o_query_text opts))
      (max (wrap_u64 (int (o_limit opts) * 4)) 20) d) of Inr ids \<Rightarrow> ids | Inl _ \<Rightarrow> [])"

lemma linked_for_many_total: "\<exists>lms. linked_for_many u fr mw d = (Inr lms, d)"
  by (auto simp: linked_for_many_def attach_edges_def get_many_for_user_def select_memories_def
      bind_sm_def gets_sm_def ret_sm_def)

lemma expand_hops_total: "\<exists>more. expand_hops n cfg opts u q have_ids scored fr d = (Inr more, d)"
proof (induction n arbitrary: have_ids scored fr)
  case (Suc n)
  obtain lms where "linked_for_many u fr (o_min_bridge_edge_weight opts) d = (Inr lms, d)"
    using linked_for_many_total by blast
  then show ?case using Suc by (auto simp: bind_sm_def ret_sm_def split: prod.split)
qed (simp add: ret_sm_def)

lemma expansion_stage_total: "\<exists>final. expansion_stage cfg u q opts scored d = (Inr final, d)"
proof -
  obtain more where "expand_via_graph cfg opts u q scored d = (Inr more, d)"
    using expand_hops_total unfolding expand_via_graph_def by blast
  then show ?thesis by (simp add: expansion_stage_def bind_sm_def map_err_def ret_sm_def)
qed

lemma hybrid_stage_eq:
  "\<not> (o_hybrid opts \<and> o_query_text opts = None) \<Longrightarrow> hybrid_stage fts iter u opts dense d =
     (Inr (if o_hybrid opts then hybrid_fuse iter (bm25_of fts u opts d) dense else dense), d)"
  by (auto simp: hybrid_stage_def bm25_of_def bm25_search_def bind_sm_def map_err_def gets_sm_def ret_sm_def)

lemma candidates_eq:
  "candidates_for_search u (o_provider opts) (o_model opts) (o_now opts) (o_deep_recall opts) d
     = (Inr (map to_candidate (candidates_of u opts d)), d)"
  by (simp add: candidates_for_search_def candidates_of_def select_memories_def bind_sm_def gets_sm_def ret_sm_def)

text \<open>A search with a query vector, a positive limit and candidates of the right dimension
  succeeds, and its result comes from the stages in order.\<close>

lemma search_succeeds:
  assumes "q \<noteq> []" "o_limit opts \<noteq> 0" "\<not> (o_hybrid opts \<and> o_query_text opts = None)"
    and "score_candidates cfg (o_now opts) q (map to_candidate (candidates_of u opts d)) = Inr dense"
  obtains scored final where
    "scored = (if o_hybrid opts then hybrid_fuse iter (bm25_of fts u opts d) (sort_results dense) else sort_results dense)"
    "expansion_stage cfg u q opts scored d = (Inr final, d)"
    "search fts iter cfg u q opts d = (Inr (take (o_limit opts) final), d)"
proof -
  define scored where
    "scored = (if o_hybrid opts then hybrid_fuse iter (bm25_of fts u opts d) (sort_results dense) else sort_results dense)"
  obtain final where final: "expansion_stage cfg u q opts scored d = (Inr final, d)"
    using expansion_stage_total by blast
  have "search fts iter cfg u q opts d = (Inr (take (o_limit opts) final), d)"
    using assms(1,2) final
    by (simp add: search_def bind_sm_def map_err_def candidates_eq lift_sm_def assms(4)
        hybrid_stage_eq [OF assms(3)] scored_def [symmetric] ret_sm_def)
  then show thesis using that scored_def final by blast
qed

lemma search_fails:
  assumes "search fts iter cfg u q opts d = (Inl e, d')"
  shows "q = [] \<or> (o_hybrid opts \<and> o_query_text opts = None)
    \<or> (\<exists>m \<in> set (candidates_of u opts d). length (embedding_vec (to_candidate m)) \<noteq> length q)"
proof (rule ccontr)
  assume c: "\<not> ?thesis"
  then have "score_candidates cfg (o_now opts) q (map to_candidate (candidates_of u opts d))
      = Inr (map (score_candidate cfg (o_now opts) q) (map to_candidate (candidates_of u opts d)))"
    unfolding score_candidates_Inr by auto
  moreover have "o_limit opts \<noteq> 0"
    using assms c by (auto simp: search_def ret_sm_def split: if_splits)
  ultimately show False
    using search_succeeds [of q opts cfg u d _ iter fts] c assms by (metis Inl_Inr_False prod.inject)
qed

lemma good_expansion:
  assumes "good_results cfg u d scored" "finite_vec q" "expansion_stage cfg u q opts scored d = (Inr final, d')"
  shows "good_results cfg u d final"
proof (cases "o_graph_expansion_hops opts > 0 \<and> scored \<noteq> []")
  case True
  obtain more where more: "expand_via_graph cfg opts u q scored d = (Inr more, d)"
    using expand_hops_total unfolding expand_via_graph_def by blast
  then have "final = sort_results more"
    using assms(3) True by (auto simp: expansion_stage_def bind_sm_def map_err_def ret_sm_def)
  then show ?thesis
    using good_expand_hops [OF assms(1) _ assms(2) more [unfolded expand_via_graph_def]] by simp
qed (use assms in \<open>auto simp: expansion_stage_def ret_sm_def\<close>)

section \<open>What a search returns\<close>

lemma sort_results_sorted:
  assumes "\<forall>r \<in> set rs. is_finite (r_score r)"
  shows "sorted_wrt (\<lambda>a b. f_le (r_score b) (r_score a)) (sort_results rs)"
proof -
  have nn: "r_score r \<noteq> NaN" if "r \<in> set rs" for r using assms that by (force simp: is_finite_def)
  have "sorted_wrt (\<lambda>a b. cmp_desc r_score a b \<noteq> Greater) (sort_results rs)"
    unfolding sort_results_def by (rule desc.sorted_sort_by) (use nn in auto)
  then show ?thesis
    by (rule sorted_wrt_mono_rel [rotated]) (auto simp: sort_results_def cmp_desc_not_Greater nn)
qed

lemma sorted_wrt_take: "sorted_wrt P xs \<Longrightarrow> sorted_wrt P (take n xs)"
  by (metis append_take_drop_id sorted_wrt_append)

lemma hybrid_sorted:
  "(\<And>m. mset (iter m) = mset m) \<Longrightarrow>
   sorted_wrt (\<lambda>a b. f_le (r_score b) (r_score a)) (hybrid_fuse iter bm25 rs)"
  unfolding hybrid_fuse_def by (rule take_fused_sorted) (rule reciprocal_rank_fusion_keys(4))

lemma expansion_sorted:
  assumes "expansion_stage cfg u q opts scored d = (Inr final, d')"
    and "\<forall>r \<in> set final. is_finite (r_score r)"
    and "sorted_wrt (\<lambda>a b. f_le (r_score b) (r_score a)) scored"
  shows "sorted_wrt (\<lambda>a b. f_le (r_score b) (r_score a)) final"
proof (cases "o_graph_expansion_hops opts > 0 \<and> scored \<noteq> []")
  case True
  then obtain more where "final = sort_results more"
    using assms(1) by (auto simp: expansion_stage_def bind_sm_def ret_sm_def split: prod.splits sum.splits)
  then show ?thesis using assms(2) sort_results_sorted [of more] by (simp add: sort_results_def)
qed (use assms in \<open>auto simp: expansion_stage_def ret_sm_def\<close>)

lemma search_success_inv:
  assumes "search fts iter cfg u q opts d = (Inr rs, d')" "o_limit opts \<noteq> 0"
  obtains dense where
    "score_candidates cfg (o_now opts) q (map to_candidate (candidates_of u opts d)) = Inr dense"
    "q \<noteq> []" "\<not> (o_hybrid opts \<and> o_query_text opts = None)"
proof (cases "score_candidates cfg (o_now opts) q (map to_candidate (candidates_of u opts d))")
  case (Inl e)
  then show thesis
    using assms by (auto simp: search_def throw_sm_def bind_sm_def map_err_def candidates_eq lift_sm_def
        split: if_splits)
next
  case (Inr dense)
  then show thesis
    using assms that
    by (cases "o_query_text opts") (auto simp: search_def throw_sm_def bind_sm_def map_err_def
        candidates_eq lift_sm_def hybrid_stage_def split: if_splits)
qed

text \<open>C12: A search changes nothing. When it succeeds it returns at most \<open>limit\<close> results, no
  memory twice, each with the content and classification of a memory of the user, and, when
  the stored rows are sane, in descending order of score; this holds for dense, hybrid and
  graph-expanded search alike. It fails only on an empty query vector, on a stored vector of
  another dimension, or in hybrid mode without a query text.\<close>

theorem search_results:
  assumes "wf_db d" "finite_vec q" "\<And>m. mset (iter m) = mset m"
    and "search fts iter cfg u q opts d = (res, d')"
  shows "d' = d \<and> (case res of
      Inr rs \<Rightarrow> length rs \<le> o_limit opts \<and> distinct (map r_memory_id rs)
        \<and> (\<forall>r \<in> set rs. result_of u d r)
        \<and> (wf_config cfg \<and> (\<forall>m \<in> set (memories d). sane_row cfg m) \<longrightarrow>
             sorted_wrt (\<lambda>a b. f_le (r_score b) (r_score a)) rs)
    | Inl e \<Rightarrow> q = [] \<or> (o_hybrid opts \<and> o_query_text opts = None)
        \<or> (\<exists>m \<in> set (memories d). m_user_id m = u \<and> length (embedding_vec (to_candidate m)) \<noteq> length q))"
proof -
  have d': "d' = d" using search_state [OF assms(4)] .
  show ?thesis
  proof (cases res)
    case (Inl e)
    then show ?thesis
      using d' search_fails [OF assms(4) [unfolded Inl]] by (auto simp: candidates_of_def searchable_def)
  next
    case (Inr rs)
    show ?thesis
    proof (cases "o_limit opts = 0")
      case True
      then show ?thesis using assms(4) Inr d' by (auto simp: search_def ret_sm_def throw_sm_def split: if_splits)
    next
      case False
      obtain dense where dense: "score_candidates cfg (o_now opts) q (map to_candidate (candidates_of u opts d)) = Inr dense"
        and ok: "q \<noteq> []" "\<not> (o_hybrid opts \<and> o_query_text opts = None)"
        using search_success_inv [OF assms(4) [unfolded Inr] False] .
      obtain scored final where st:
        "scored = (if o_hybrid opts then hybrid_fuse iter (bm25_of fts u opts d) (sort_results dense) else sort_results dense)"
        "expansion_stage cfg u q opts scored d = (Inr final, d)"
        "search fts iter cfg u q opts d = (Inr (take (o_limit opts) final), d)"
        using search_succeeds [OF ok(1) False ok(2) dense, of iter fts] .
      have rs: "rs = take (o_limit opts) final" using st(3) assms(4) Inr by simp
      have gd: "good_results cfg u d dense"
        using good_dense [OF assms(1,2)] dense unfolding candidates_of_def .
      have gs: "good_results cfg u d scored"
        using st(1) gd good_hybrid [OF assms(3)] by auto
      have gf: "good_results cfg u d final" using good_expansion [OF gs assms(2) st(2)] .
      have "sorted_wrt (\<lambda>a b. f_le (r_score b) (r_score a)) final"
        if "wf_config cfg" "\<forall>m \<in> set (memories d). sane_row cfg m"
      proof -
        have fin: "\<forall>r \<in> set dense. is_finite (r_score r)" "\<forall>r \<in> set final. is_finite (r_score r)"
          using that gd gf by (simp_all add: good_results_def)
        then have "sorted_wrt (\<lambda>a b. f_le (r_score b) (r_score a)) scored"
          using st(1) sort_results_sorted hybrid_sorted [OF assms(3)] by auto
        then show ?thesis using expansion_sorted [OF st(2)] fin(2) by blast
      qed
      then show ?thesis
        using Inr d' rs good_results_take [OF gf] sorted_wrt_take by (auto simp: good_results_def)
    qed
  qed
qed

theorem search_results_witness:
  "\<exists>rs. search (\<lambda>_ _. []) (\<lambda>m. m) default_lifecycle_config ''alice'' [1065353216]
       (new_search_options ''local'' ''bge'' 9) demo_db = (Inr rs, demo_db) \<and> length rs \<le> 10"
proof -
  obtain res d' where run: "search (\<lambda>_ _. []) (\<lambda>m. m) default_lifecycle_config ''alice'' [1065353216]
      (new_search_options ''local'' ''bge'' 9) demo_db = (res, d')" by fastforce
  have fin: "finite_vec [1065353216]" by (simp add: finite_vec_def f32_val_one)
  note S = search_results [OF wf_demo_db fin _ run]
  have ok: "res = Inr []"
    using run by (simp add: search_def new_search_options_def candidates_for_search_def select_memories_def
        bind_sm_def gets_sm_def ret_sm_def map_err_def lift_sm_def Let_def searchable_def demo_row_def
        new_minimal_def sort_results_def hybrid_stage_def expansion_stage_def)
  show ?thesis using S run by (simp add: ok new_search_options_def)
qed

section \<open>A dense search returns the best candidates\<close>

text \<open>C13: A dense search without graph expansion over sane rows of the right dimension returns
  the \<open>limit\<close> best of the searchable memories: as many as there are up to the limit, each of
  them searchable with score cosine times retention to the \<open>alpha\<close>, and no searchable memory
  left out scores more than one returned.\<close>

theorem dense_search_top_k:
  assumes "wf_db d" "wf_config cfg" "finite_vec q" "q \<noteq> []" "\<not> o_hybrid opts" "o_graph_expansion_hops opts = 0"
    and "\<forall>m \<in> set (candidates_of u opts d). sane_row cfg m \<and> length (embedding_vec (to_candidate m)) = length q"
  shows "\<exists>rs. search fts iter cfg u q opts d = (Inr rs, d)
    \<and> length rs = min (o_limit opts) (length (candidates_of u opts d))
    \<and> set rs \<subseteq> (\<lambda>m. score_candidate cfg (o_now opts) q (to_candidate m)) ` set (candidates_of u opts d)
    \<and> (\<forall>r \<in> set rs. \<forall>m \<in> set (candidates_of u opts d). m_id m \<notin> r_memory_id ` set rs \<longrightarrow>
         f_le (composite_score cfg (o_now opts) q (embedding_vec (to_candidate m)) (row_state m cfg)) (r_score r))"
proof -
  define score where "score = (\<lambda>m. score_candidate cfg (o_now opts) q (to_candidate m))"
  define dense where "dense = map score (candidates_of u opts d)"
  have run: "score_candidates cfg (o_now opts) q (map to_candidate (candidates_of u opts d)) = Inr dense"
    unfolding score_candidates_Inr dense_def score_def using assms(7) by auto
  have search: "search fts iter cfg u q opts d = (Inr (take (o_limit opts) (sort_results dense)), d)"
  proof (cases "o_limit opts = 0")
    case True
    then show ?thesis using assms(4) by (simp add: search_def ret_sm_def)
  next
    case False
    then show ?thesis
      using search_succeeds [OF assms(4) False _ run, of iter fts] assms(5,6)
      by (auto simp: expansion_stage_def ret_sm_def)
  qed
  have fin: "\<forall>r \<in> set dense. is_finite (r_score r)"
  proof
    fix r assume "r \<in> set dense"
    then obtain m where m: "m \<in> set (candidates_of u opts d)" "r = score m" by (auto simp: dense_def)
    then have "finite_vec (embedding_vec (to_candidate m))"
      using assms(7) by (auto simp: candidates_of_def searchable_def sane_row_def embedding_vec_def to_candidate_def)
    then show "is_finite (r_score r)"
      using m assms(2,3,7) composite_score_Fin [of "row_state m cfg" cfg q "embedding_vec (to_candidate m)"]
      by (auto simp: score_def score_candidate_def candidate_row_state sane_row_def is_finite_def)
  qed
  have sorted: "sorted_wrt (\<lambda>a b. f_le (r_score b) (r_score a))
      (take (o_limit opts) (sort_results dense) @ drop (o_limit opts) (sort_results dense))"
    using sort_results_sorted [OF fin] by simp
  have "f_le (r_score (score m)) (r_score r)"
    if "r \<in> set (take (o_limit opts) (sort_results dense))" "m \<in> set (candidates_of u opts d)"
      "m_id m \<notin> r_memory_id ` set (take (o_limit opts) (sort_results dense))" for r m
  proof -
    have id: "r_memory_id (score m) = m_id m" by (simp add: score_def score_candidate_def to_candidate_def)
    have "score m \<in> set (sort_results dense)" using that(2) by (simp add: dense_def sort_results_def)
    moreover have "score m \<notin> set (take (o_limit opts) (sort_results dense))"
      using that(3) id by (metis image_eqI)
    ultimately have "score m \<in> set (drop (o_limit opts) (sort_results dense))"
      by (metis append_take_drop_id Un_iff set_append)
    then show ?thesis using sorted that(1) unfolding sorted_wrt_append by blast
  qed
  moreover have "r_score (score m) = composite_score cfg (o_now opts) q (embedding_vec (to_candidate m)) (row_state m cfg)" for m
    by (simp add: score_def score_candidate_def candidate_row_state)
  moreover have "set (take (o_limit opts) (sort_results dense)) \<subseteq> score ` set (candidates_of u opts d)"
    by (auto simp: dense_def sort_results_def dest: in_set_takeD)
  ultimately show ?thesis
    using search unfolding score_def [symmetric] by (auto simp: dense_def sort_results_def min.commute)
qed

definition demo_vec_row :: memory_row where
  "demo_vec_row = (demo_row ''mem_1'' ''alice'')\<lparr>m_embedding := Some [0, 0, 128, 63],
     m_embedding_provider := Some ''local'', m_embedding_model := Some ''bge''\<rparr>"

definition demo_vec_db :: db where
  "demo_vec_db = empty_db\<lparr>memories := [demo_vec_row], memories_fts := [(''mem_1'', ''likes tea'')]\<rparr>"

lemma wf_demo_vec_db: "wf_db demo_vec_db"
  by (simp add: demo_vec_db_def wf_db_def empty_db_def keyed_def fts_mirror_def demo_vec_row_def
      wf_memory_def demo_row_def new_minimal_def)

lemma demo_vec_decode [simp]: "from_le_bytes 0 0 128 63 = 1065353216"
  by (simp add: from_le_bytes_def)

theorem dense_search_top_k_witness:
  "\<exists>rs. search (\<lambda>_ _. []) (\<lambda>m. m) default_lifecycle_config ''alice'' [1065353216]
       (new_search_options ''local'' ''bge'' 9) demo_vec_db = (Inr rs, demo_vec_db) \<and> length rs = 1"
proof -
  let ?o = "new_search_options ''local'' ''bge'' 9"
  have cand: "candidates_of ''alice'' ?o demo_vec_db = [demo_vec_row]"
    by (simp add: candidates_of_def demo_vec_db_def searchable_def demo_vec_row_def new_search_options_def
        demo_row_def new_minimal_def opt_holds_def)
  have "sane_row default_lifecycle_config demo_vec_row"
    by (simp add: sane_row_def demo_vec_row_def row_state_def wf_state_def beta_for_def 
        default_lifecycle_config_def default_base_decay_rates_def demo_row_def new_minimal_def
        finite_vec_def f32_val_one)
  moreover have "length (embedding_vec (to_candidate demo_vec_row)) = 1"
    by (simp add: embedding_vec_def to_candidate_def demo_vec_row_def)
  moreover have "\<not> o_hybrid ?o" "o_graph_expansion_hops ?o = 0" "o_limit ?o = 10"
    by (simp_all add: new_search_options_def)
  moreover have "finite_vec [1065353216]" by (simp add: finite_vec_def f32_val_one)
  ultimately show ?thesis
    using dense_search_top_k [OF wf_demo_vec_db wf_default_config, of "[1065353216]" ?o "''alice''" "\<lambda>_ _. []" "\<lambda>m. m"]
    by (auto simp: cand)
qed

section \<open>Bridges\<close>

definition bridge :: "db \<Rightarrow> real \<Rightarrow> string \<Rightarrow> string \<Rightarrow> string list \<Rightarrow> bool" where
  "bridge d min_weight a b p \<longleftrightarrow> shortest (neighbours min_weight d) a b 3 p \<and> 2 < length p"

definition bridge_of :: "db \<Rightarrow> real \<Rightarrow> string \<times> string \<Rightarrow> string list option" where
  "bridge_of d mw = (\<lambda>(a, b). case bfs_path_on (neighbours mw d) a b 3 of
      Some p \<Rightarrow> if 2 < length p then Some p else None | None \<Rightarrow> None)"

lemma find_bridges_eq:
  "find_bridges anchors opts d = (Inr (if o_bridge_discovery opts \<and> 2 \<le> length anchors
     then take (o_max_bridge_paths opts)
            (List.map_filter (bridge_of d (o_min_bridge_edge_weight opts)) (pairs_of (take 3 anchors)))
     else []), d)"
proof -
  let ?f = "\<lambda>(a, b) chains. if o_max_bridge_paths opts \<le> length chains then ret_sm chains
        else bind_sm (map_err Search_storage (bfs_path a b 3 (o_min_bridge_edge_weight opts))) (\<lambda>found.
          ret_sm (case found of Some path \<Rightarrow> if 2 < length path then chains @ [path] else chains
                  | None \<Rightarrow> chains))"
  let ?g = "bridge_of d (o_min_bridge_edge_weight opts)"
  have step: "?f e chains d = (Inr (if o_max_bridge_paths opts \<le> length chains then chains
      else chains @ (case ?g e of Some p \<Rightarrow> [p] | None \<Rightarrow> [])), d)" for e chains
    by (cases e) (auto simp: bridge_of_def bfs_path_def bind_sm_def map_err_def gets_sm_def ret_sm_def
        split: option.split)
  have "length chains \<le> o_max_bridge_paths opts \<Longrightarrow>
      fold_sm es ?f chains d = (Inr (take (o_max_bridge_paths opts) (chains @ List.map_filter ?g es)), d)" for es chains
  proof (induction es arbitrary: chains)
    case Nil
    then show ?case by (simp add: ret_sm_def List.map_filter_def)
  next
    case (Cons e es)
    define chains' where "chains' = (if o_max_bridge_paths opts \<le> length chains then chains
      else chains @ (case ?g e of Some p \<Rightarrow> [p] | None \<Rightarrow> []))"
    have "fold_sm (e # es) ?f chains d = fold_sm es ?f chains' d"
      by (simp only: fold_sm.simps bind_sm_def step chains'_def) simp
    moreover have "length chains' \<le> o_max_bridge_paths opts"
      using Cons.prems by (auto simp: chains'_def split: option.split)
    moreover have "take (o_max_bridge_paths opts) (chains' @ List.map_filter ?g es) =
        take (o_max_bridge_paths opts) (chains @ List.map_filter ?g (e # es))"
    proof (cases "o_max_bridge_paths opts = length chains")
      case False
      then obtain k where "o_max_bridge_paths opts = length chains + Suc k"
        using Cons.prems less_imp_Suc_add by fastforce
      then show ?thesis by (auto simp: chains'_def List.map_filter_def split: option.split)
    qed (simp add: chains'_def)
    ultimately show ?case using Cons.IH by simp
  qed
  from this [of "[]"] show ?thesis
    by (auto simp: find_bridges_def ret_sm_def)
qed

lemma bridge_of_correct:
  assumes "a \<noteq> b"
  shows "bridge_of d mw (a, b) = Some p \<Longrightarrow> bridge d mw a b p"
    and "bridge d mw a b p' \<Longrightarrow> \<exists>p. bridge_of d mw (a, b) = Some p"
proof -
  note bfs = bfs_path_on_correct [OF assms, of "neighbours mw d" 3]
  show "bridge_of d mw (a, b) = Some p \<Longrightarrow> bridge d mw a b p"
    using bfs by (auto simp: bridge_of_def bridge_def split: option.splits if_splits)
  assume br: "bridge d mw a b p'"
  then have w: "(a, b) \<in> edge_rel (neighbours mw d) ^^ (length p' - 1)" "length p' - 1 \<le> 3"
    using is_walk_relpow [of "neighbours mw d" p'] by (auto simp: bridge_def shortest_def)
  then obtain q where q: "bfs_path_on (neighbours mw d) a b 3 = Some q"
    using bfs by (fastforce split: option.splits)
  then have "(a, b) \<in> edge_rel (neighbours mw d) ^^ (length q - 1)"
    using bfs is_walk_relpow [of "neighbours mw d" q] by (auto simp: shortest_def)
  then have "length p' \<le> Suc (length q - 1)" using br by (simp add: bridge_def shortest_def)
  moreover have "2 < length p'" using br by (simp add: bridge_def)
  ultimately have "2 < length q" by linarith
  then show "\<exists>p. bridge_of d mw (a, b) = Some p" using q by (simp add: bridge_of_def)
qed

lemma pairs_of_subset: "(a, b) \<in> set (pairs_of xs) \<Longrightarrow> a \<in> set xs \<and> b \<in> set xs"
  by (induction xs rule: pairs_of.induct) auto

lemma pairs_of_distinct: "distinct xs \<Longrightarrow> (a, b) \<in> set (pairs_of xs) \<Longrightarrow> a \<noteq> b"
  by (induction xs rule: pairs_of.induct) (auto dest: pairs_of_subset)

text \<open>C14: Bridge discovery returns at most the configured number of paths. Each is a shortest
  path of the association graph (edges not below the minimum weight) between two of the top
  three anchors, with at least one intermediate node and at most three hops; and unless the
  cap is reached, every pair of anchors that has such a path contributes one.\<close>

theorem find_bridges_spec:
  assumes "distinct anchors" "o_bridge_discovery opts" "2 \<le> length anchors"
  shows "\<exists>chains. find_bridges anchors opts d = (Inr chains, d)
    \<and> length chains \<le> o_max_bridge_paths opts
    \<and> (\<forall>p \<in> set chains. \<exists>a b. (a, b) \<in> set (pairs_of (take 3 anchors))
         \<and> bridge d (o_min_bridge_edge_weight opts) a b p)
    \<and> (length chains < o_max_bridge_paths opts \<longrightarrow>
         (\<forall>a b p'. (a, b) \<in> set (pairs_of (take 3 anchors))
            \<and> bridge d (o_min_bridge_edge_weight opts) a b p' \<longrightarrow>
            (\<exists>p \<in> set chains. bridge d (o_min_bridge_edge_weight opts) a b p)))"
proof -
  let ?mw = "o_min_bridge_edge_weight opts"
  define all where "all = List.map_filter (bridge_of d ?mw) (pairs_of (take 3 anchors))"
  have neq: "a \<noteq> b" if "(a, b) \<in> set (pairs_of (take 3 anchors))" for a b
    using pairs_of_distinct [OF _ that] assms(1) by simp
  have mem: "p \<in> set all \<longleftrightarrow> (\<exists>a b. (a, b) \<in> set (pairs_of (take 3 anchors)) \<and> bridge_of d ?mw (a, b) = Some p)" for p
    by (force simp: all_def List.map_filter_def)
  have run: "find_bridges anchors opts d = (Inr (take (o_max_bridge_paths opts) all), d)"
    using assms(2,3) by (simp add: find_bridges_eq all_def)
  moreover have "\<exists>a b. (a, b) \<in> set (pairs_of (take 3 anchors)) \<and> bridge d ?mw a b p"
    if "p \<in> set (take (o_max_bridge_paths opts) all)" for p
    using in_set_takeD [OF that] mem bridge_of_correct(1) neq by blast
  moreover have "\<exists>p \<in> set (take (o_max_bridge_paths opts) all). bridge d ?mw a b p"
    if few: "length (take (o_max_bridge_paths opts) all) < o_max_bridge_paths opts"
      and ab: "(a, b) \<in> set (pairs_of (take 3 anchors))" and br: "bridge d ?mw a b p'" for a b p'
  proof -
    obtain p where p: "bridge_of d ?mw (a, b) = Some p"
      using bridge_of_correct(2) [OF neq [OF ab] br] by blast
    have "take (o_max_bridge_paths opts) all = all" using few by simp
    then show ?thesis using p mem ab bridge_of_correct(1) [OF neq [OF ab] p] by auto
  qed
  ultimately show ?thesis by auto
qed

theorem find_bridges_spec_witness:
  "\<exists>chains. find_bridges [''mem_1'', ''mem_2''] ((new_search_options ''local'' ''bge'' 9)\<lparr>o_bridge_discovery := True\<rparr>)
       demo_db = (Inr chains, demo_db) \<and> length chains \<le> 3"
  using find_bridges_spec [of "[''mem_1'', ''mem_2'']"
      "(new_search_options ''local'' ''bge'' 9)\<lparr>o_bridge_discovery := True\<rparr>" demo_db]
  by (auto simp: new_search_options_def)

end
