(* ===== verification/Protocol.thy ===== *)
theory Protocol
  imports Searcher
begin

text \<open>
  The wire types of \<open>crates/protocol/src/lib.rs\<close>: requests by bucket, their arguments, the
  response data, errors and events, and the version check. A record stands for each argument
  or data struct with more than one field; a struct with a single field is the argument of its
  constructor. Serde's field defaults are the \<open>default_\<close> constants.
\<close>

section \<open>Version\<close>

definition IPC_PROTOCOL_VERSION :: nat where
  "IPC_PROTOCOL_VERSION = 1"

record protocol_mismatch =
  client_version :: nat
  daemon_version :: nat

definition validate_protocol_version :: "nat \<Rightarrow> protocol_mismatch + unit" where
  "validate_protocol_version v =
     (if v = IPC_PROTOCOL_VERSION then Inr ()
      else Inl \<lparr>client_version = v, daemon_version = IPC_PROTOCOL_VERSION\<rparr>)"

section \<open>Arguments of the lifecycle bucket\<close>

record tick_args =
  tk_synchronous :: bool

record find_fading_args =
  ff_user_id :: string
  ff_max_retention :: real
  ff_limit :: int

record find_stable_args =
  fs_user_id :: string
  fs_min_stability :: real
  fs_min_access_count :: int
  fs_limit :: int

definition default_find_limit :: int where
  "default_find_limit = 100"

record mark_superseded_args =
  ms_user_id :: string
  ms_ids :: "string list"
  ms_summary_id :: string

record migrate_to_cold_args =
  mc_user_id :: string
  mc_id :: string
  mc_cold_since :: int

record migrate_to_hot_args =
  mh_user_id :: string
  mh_id :: string

record convert_to_stub_args =
  cs_user_id :: string
  cs_id :: string
  cs_stub_content :: string

record update_retention_args =
  ur_user_id :: string
  ur_id :: string
  ur_retention_floor :: real

record clear_args =
  cl_user_id :: string
  cl_confirm :: bool

datatype lifecycle_request =
    Tick tick_args
  | FindFading find_fading_args
  | FindStable find_stable_args
  | MarkSuperseded mark_superseded_args
  | MigrateToCold migrate_to_cold_args
  | MigrateToHot migrate_to_hot_args
  | ConvertToStub convert_to_stub_args
  | UpdateRetention update_retention_args
  | Clear clear_args

section \<open>Arguments of the diagnostics bucket\<close>

datatype bridge_scope = Read | Write | Admin

text \<open>The scopes in the order of what they allow.\<close>

fun scope_rank :: "bridge_scope \<Rightarrow> nat" where
  "scope_rank Read = 0"
| "scope_rank Write = 1"
| "scope_rank Admin = 2"

instantiation bridge_scope :: linorder
begin

definition less_eq_bridge_scope :: "bridge_scope \<Rightarrow> bridge_scope \<Rightarrow> bool" where
  "less_eq_bridge_scope a b \<longleftrightarrow> scope_rank a \<le> scope_rank b"

definition less_bridge_scope :: "bridge_scope \<Rightarrow> bridge_scope \<Rightarrow> bool" where
  "less_bridge_scope a b \<longleftrightarrow> scope_rank a < scope_rank b"

instance
proof
  fix x y z :: bridge_scope
  show "x < y \<longleftrightarrow> x \<le> y \<and> \<not> y \<le> x"
    by (auto simp: less_eq_bridge_scope_def less_bridge_scope_def)
  show "x \<le> x" "x \<le> y \<or> y \<le> x"
    by (auto simp: less_eq_bridge_scope_def)
  show "x \<le> y \<Longrightarrow> y \<le> z \<Longrightarrow> x \<le> z"
    by (simp add: less_eq_bridge_scope_def)
  show "x \<le> y \<Longrightarrow> y \<le> x \<Longrightarrow> x = y"
    by (cases x; cases y) (simp_all add: less_eq_bridge_scope_def)
qed

end

definition default_trace_limit :: nat where
  "default_trace_limit = 20"

record mint_bridge_token_args =
  mt_user_id :: string
  mt_scope :: bridge_scope
  mt_ttl_seconds :: nat

record validate_bridge_token_args =
  vt_token :: string
  vt_required_scope :: bridge_scope

definition default_ttl :: nat where
  "default_ttl = 2592000"

datatype diagnostics_request =
    Status
  | Doctor
  | RecentTraces nat
  | Shutdown
  | MintBridgeToken mint_bridge_token_args
  | ValidateBridgeToken validate_bridge_token_args
  | Counts string

section \<open>Arguments of the memory bucket\<close>

record batch_memory_entry =
  be_content :: string
  be_category :: string
  be_memory_type :: string
  be_metadata :: string

record store_batch_args =
  sb_user_id :: string
  sb_memories :: "batch_memory_entry list"
  sb_initial_link_weight :: real

definition default_category :: string where
  "default_category = ''semantic''"

definition default_memory_type :: string where
  "default_memory_type = ''fact''"

definition default_batch_link_weight :: real where
  "default_batch_link_weight = 1 / 2"

definition default_metadata :: string where
  "default_metadata = ''{}''"

record get_memory_args =
  gm_user_id :: string
  gm_id :: string

record get_many_memory_args =
  gn_user_id :: string
  gn_ids :: "string list"

record list_memory_args =
  li_user_id :: string
  li_categories :: "string list option"
  li_memory_types :: "string list option"
  li_min_retention_floor :: "real option"
  li_min_importance :: "real option"
  li_created_after :: "int option"
  li_created_before :: "int option"
  li_limit :: "int option"
  li_offset :: "int option"
  li_include_superseded :: bool
  li_include_cold :: bool
  li_include_stubs :: bool

record update_memory_args =
  up_user_id :: string
  up_id :: string
  up_content :: "string option"
  up_category :: "string option"
  up_memory_type :: "string option"
  up_metadata :: "string option"
  up_retention_floor :: "real option"
  up_importance :: "real option"
  up_stability :: "real option"
  up_valid_until :: "int option"

record delete_memory_args =
  dm_user_id :: string
  dm_id :: string

record delete_many_memory_args =
  dn_user_id :: string
  dn_ids :: "string list"

record link_memory_args =
  lk_user_id :: string
  lk_source_id :: string
  lk_target_id :: string
  lk_strength :: real
  lk_bidirectional :: bool
  lk_kind :: string

definition default_link_strength :: real where
  "default_link_strength = 1 / 10"

definition default_link_kind :: string where
  "default_link_kind = ''explicit''"

record unlink_memory_args =
  ul_user_id :: string
  ul_source_id :: string
  ul_target_id :: string
  ul_bidirectional :: bool

record get_linked_args =
  gl_user_id :: string
  gl_source_id :: string
  gl_min_strength :: real

record get_linked_many_args =
  gk_user_id :: string
  gk_source_ids :: "string list"
  gk_min_strength :: real

definition default_min_link_strength :: real where
  "default_min_link_strength = 0"

record vector_search_args =
  vs_user_id :: string
  vs_embedding :: "f32 list"
  vs_embedding_provider :: string
  vs_embedding_model :: string
  vs_limit :: nat
  vs_deep_recall :: bool

record search_lexical_args =
  sl_user_id :: string
  sl_query :: string
  sl_limit :: nat

record retention_update =
  ru_id :: string
  ru_retention_floor :: real

record batch_update_args =
  bu_user_id :: string
  bu_updates :: "retention_update list"

record store_memory_args =
  sm_user_id :: string
  sm_content :: string
  sm_category :: string
  sm_memory_type :: string
  sm_metadata :: string
  sm_importance :: "real option"

record search_memory_args =
  sa_user_id :: string
  sa_query :: string
  sa_limit :: nat
  sa_deep_recall :: bool
  sa_hybrid :: bool
  sa_graph_expansion_hops :: nat
  sa_bridge_discovery :: bool

definition default_limit :: nat where
  "default_limit = 10"

datatype memory_request =
    Subscribe bool
  | Store store_memory_args
  | StoreBatch store_batch_args
  | Search search_memory_args
  | Get get_memory_args
  | GetMany get_many_memory_args
  | ListMem list_memory_args
  | Update update_memory_args
  | Delete delete_memory_args
  | DeleteMany delete_many_memory_args
  | Link link_memory_args
  | Unlink unlink_memory_args
  | GetLinked get_linked_args
  | GetLinkedMany get_linked_many_args
  | VectorSearch vector_search_args
  | SearchLexical search_lexical_args
  | BatchUpdate batch_update_args

datatype request =
    Diagnostics diagnostics_request
  | Memory memory_request
  | Lifecycle lifecycle_request
  | UnknownBucket

section \<open>Responses\<close>

datatype doctor_check_level = Check_ok | Check_warn | Check_error

record doctor_check_data =
  dc_name :: string
  dc_level :: doctor_check_level
  dc_message :: string

record trace_data =
  td_trace_id :: string
  td_request_id :: nat
  td_bucket :: string
  td_op :: string
  td_embed_ms :: "real option"
  td_vector_ms :: "real option"
  td_fusion_ms :: "real option"
  td_format_ms :: "real option"
  td_elapsed_ms :: real

record bridge_token_validated_data =
  bv_user_id :: string
  bv_scope :: bridge_scope
  bv_expires_at_unix :: int

record counts_data =
  cd_hot :: int
  cd_cold :: int
  cd_stub :: int
  cd_total :: int

record memory_data =
  md_id :: string
  md_user_id :: string
  md_content :: string
  md_category :: string
  md_memory_type :: string
  md_created_at :: int
  md_last_accessed_at :: int
  md_valid_from :: "int option"
  md_valid_until :: "int option"
  md_retention_floor :: real
  md_retrieval_count :: int
  md_importance :: real
  md_stability :: real
  md_is_cold :: bool
  md_cold_since :: "int option"
  md_is_superseded :: bool
  md_superseded_by :: "string option"
  md_is_stub :: bool
  md_stub_content :: "string option"
  md_metadata :: string
  md_current_retention :: fl
  md_days_at_floor :: int

record search_hit =
  sh_memory_id :: string
  sh_content :: string
  sh_category :: string
  sh_memory_type :: string
  sh_score :: fl

record status_data =
  sd_daemon_version :: string
  sd_protocol_version :: nat
  sd_build_id :: string
  sd_instance :: string
  sd_daemon_pid :: nat
  sd_socket_path :: string
  sd_pid_path :: string
  sd_db_path :: string
  sd_log_path :: string
  sd_uptime_seconds :: nat
  sd_memory_count :: nat

datatype response_data =
    StatusR status_data
  | DoctorR int "doctor_check_data list"
  | RecentTracesR "trace_data list"
  | ShutdownR bool
  | SubscribedR bool
  | BridgeTokenValidatedR bridge_token_validated_data
  | MemoryStoredR string
  | MemoryStoredBatchR "string list" nat
  | MemorySearchResultsR "search_hit list" "string list list"
  | BridgeTokenR string int
  | CountsR counts_data
  | MemoryR memory_data
  | MemoriesR "memory_data list"
  | AffectedR nat
  | LinkedMemoriesR "(memory_data \<times> real) list"
  | LinkStrengthR real
  | LexicalIdsR "string list"
  | TickR bool nat

datatype response_error_kind =
    ProtocolMismatch_kind | InvalidPayload_kind | InvalidQuery_kind | NotFound_kind | Conflict_kind
  | ProviderError_kind | NoLlmConfigured_kind | StorageError_kind | RateLimited_kind
  | ShuttingDown_kind | Internal_kind

record response_error =
  re_kind :: response_error_kind
  re_message :: string
  re_retriable :: bool

record response =
  rp_ok :: bool
  rp_data :: "response_data option"
  rp_error :: "response_error option"

definition response_ok :: "response_data \<Rightarrow> response" where
  "response_ok data = \<lparr>rp_ok = True, rp_data = Some data, rp_error = None\<rparr>"

definition response_err :: "response_error \<Rightarrow> response" where
  "response_err error = \<lparr>rp_ok = False, rp_data = None, rp_error = Some error\<rparr>"

text \<open>Events carry their time as text (\<open>to_rfc3339\<close> of the clock).\<close>

datatype event =
    CurrentState nat string
  | TickCompleted nat nat string
  | EventStreamLagged nat string

datatype ipc_payload = RequestP request | ResponseP response | EventP event

record ipc_message =
  im_id :: nat
  im_payload :: ipc_payload

section \<open>Frames on the wire\<close>

text \<open>\<open>LengthDelimitedCodec\<close> as \<open>IpcCodec\<close> configures it (\<open>codec.rs\<close>): a 4-byte big-endian
  length, at most 16 MiB. A frame that is too long is an error on either side; an incomplete
  frame waits for more bytes.\<close>

definition MAX_FRAME :: nat where
  "MAX_FRAME = 16 * 1024 * 1024"

definition be_bytes :: "nat \<Rightarrow> byte list" where
  "be_bytes n = [of_nat (n div 2 ^ 24), of_nat (n div 2 ^ 16), of_nat (n div 2 ^ 8), of_nat n]"

definition be_value :: "byte \<Rightarrow> byte \<Rightarrow> byte \<Rightarrow> byte \<Rightarrow> nat" where
  "be_value a b c d = ((unat a * 256 + unat b) * 256 + unat c) * 256 + unat d"

definition encode_frame :: "byte list \<Rightarrow> byte list option" where
  "encode_frame payload =
     (if MAX_FRAME < length payload then None else Some (be_bytes (length payload) @ payload))"

datatype frame_result = Need_more | Frame_too_big | Frame "byte list" "byte list"

definition decode_frame :: "byte list \<Rightarrow> frame_result" where
  "decode_frame buf = (case buf of
      a # b # c # d # rest \<Rightarrow>
        (let n = be_value a b c d in
         if MAX_FRAME < n then Frame_too_big
         else if length rest < n then Need_more
         else Frame (take n rest) (drop n rest))
    | _ \<Rightarrow> Need_more)"

lemma be_bytes_length [simp]: "length (be_bytes n) = 4"
  by (simp add: be_bytes_def)

lemma be_value_bytes:
  assumes "n < 2 ^ 32"
  shows "be_value (of_nat (n div 2 ^ 24)) (of_nat (n div 2 ^ 16)) (of_nat (n div 2 ^ 8)) (of_nat n) = n"
proof -
  have "n div 2 ^ 24 < 256" using assms by (simp add: less_mult_imp_div_less)
  then have u: "unat (of_nat (n div 2 ^ 24) :: byte) = n div 2 ^ 24"
    "unat (of_nat (n div 2 ^ 16) :: byte) = n div 2 ^ 16 mod 256"
    "unat (of_nat (n div 2 ^ 8) :: byte) = n div 2 ^ 8 mod 256"
    "unat (of_nat n :: byte) = n mod 256"
    by (simp_all add: unat_of_nat)
  have s: "n div 2 ^ 24 = n div 2 ^ 16 div 256" "n div 2 ^ 16 = n div 2 ^ 8 div 256" "n div 2 ^ 8 = n div 256"
    by (simp_all add: div_mult2_eq [symmetric])
  have "(n div 2 ^ 24) * 256 + n div 2 ^ 16 mod 256 = n div 2 ^ 16"
    unfolding s(1) by (metis div_mult_mod_eq)
  moreover have "n div 2 ^ 16 * 256 + n div 2 ^ 8 mod 256 = n div 2 ^ 8"
    unfolding s(2) by (metis div_mult_mod_eq)
  moreover have "n div 2 ^ 8 * 256 + n mod 256 = n"
    unfolding s(3) by (metis div_mult_mod_eq)
  ultimately show ?thesis unfolding be_value_def u by simp
qed

lemma encode_frame_Some: "encode_frame payload = Some bytes \<longleftrightarrow>
   length payload \<le> MAX_FRAME \<and> bytes = be_bytes (length payload) @ payload"
  by (auto simp: encode_frame_def)

lemma be_value_length:
  "length payload \<le> MAX_FRAME \<Longrightarrow> be_value (of_nat (length payload div 2 ^ 24)) (of_nat (length payload div 2 ^ 16))
     (of_nat (length payload div 2 ^ 8)) (of_nat (length payload)) = length payload"
  by (rule be_value_bytes) (simp add: MAX_FRAME_def)

lemma decode_encoded_frame:
  "encode_frame payload = Some bytes \<Longrightarrow> decode_frame (bytes @ rest) = Frame payload rest"
  using be_value_length [of payload]
  by (auto simp: encode_frame_Some decode_frame_def be_bytes_def Let_def)

lemma decode_frame_prefix:
  assumes "encode_frame payload = Some bytes" "k < length bytes"
  shows "decode_frame (take k bytes) = Need_more"
proof (cases "k < 4")
  case True
  then consider "k = 0" | "k = 1" | "k = 2" | "k = 3" by linarith
  then show ?thesis
    using assms(1) by cases (simp_all add: encode_frame_Some decode_frame_def be_bytes_def take_Suc_Cons
        numeral_2_eq_2 numeral_3_eq_3)
next
  case False
  then obtain j where j: "k = 4 + j" using le_Suc_ex not_less by blast
  then have "take k bytes = be_bytes (length payload) @ take j payload" "j < length payload"
    using assms by (auto simp: encode_frame_Some)
  then show ?thesis
    using assms(1) be_value_length [of payload]
    by (simp add: encode_frame_Some decode_frame_def be_bytes_def Let_def)
qed

text \<open>Framing round trip: what the codec encodes it decodes, leaving the bytes that follow;
  a prefix of a frame asks for more bytes; a payload over 16 MiB is refused, and so is a header
  that announces one.\<close>

theorem frame_round_trip:
  "(case encode_frame payload of
      Some bytes \<Rightarrow> length payload \<le> MAX_FRAME \<and> decode_frame (bytes @ rest) = Frame payload rest
        \<and> (\<forall>k. k < length bytes \<longrightarrow> decode_frame (take k bytes) = Need_more)
    | None \<Rightarrow> MAX_FRAME < length payload)
   \<and> (MAX_FRAME < be_value a b c d \<longrightarrow> decode_frame (a # b # c # d # rest) = Frame_too_big)"
proof (cases "encode_frame payload")
  case None
  then show ?thesis by (auto simp: encode_frame_def decode_frame_def split: if_splits)
next
  case (Some bytes)
  then show ?thesis
    by (simp add: decode_encoded_frame decode_frame_prefix) (simp add: encode_frame_Some decode_frame_def)
qed

theorem frame_round_trip_witness:
  "decode_frame [0, 0, 0, 2, 104, 105, 7] = Frame [104, 105] [7] \<and> decode_frame [255, 0, 0, 0] = Frame_too_big"
  using frame_round_trip [of "[104, 105]" "[7]" 255 0 0 0] frame_round_trip [of "[104, 105]" "[]" 255 0 0 0]
  by (simp add: encode_frame_def be_bytes_def MAX_FRAME_def be_value_def)

end
