(* ===== verification/Trace_Ring.thy ===== *)
theory Trace_Ring
  imports Protocol
begin

text \<open>
  The ring of recent request traces (\<open>crates/daemon/src/trace.rs\<close>). The \<open>VecDeque\<close> behind the
  mutex is the list of its entries, oldest first. The last theorem is the refinement: after any
  sequence of pushes the ring answers like the list of everything ever pushed, cut to the
  capacity.
\<close>

record trace =
  t_trace_id :: string
  t_request_id :: nat
  t_bucket :: string
  t_op :: string
  t_embed_ms :: "real option"
  t_vector_ms :: "real option"
  t_fusion_ms :: "real option"
  t_format_ms :: "real option"
  t_elapsed_ms :: real

record trace_ring =
  tr_inner :: "trace list"
  tr_capacity :: nat

definition new_ring :: "nat \<Rightarrow> trace_ring" where
  "new_ring capacity = \<lparr>tr_inner = [], tr_capacity = max capacity 1\<rparr>"

definition push_trace :: "trace \<Rightarrow> trace_ring \<Rightarrow> trace_ring" where
  "push_trace t r =
     (let kept = (if tr_capacity r \<le> length (tr_inner r) then tl (tr_inner r) else tr_inner r)
      in r\<lparr>tr_inner := kept @ [t]\<rparr>)"

definition get_trace :: "trace_ring \<Rightarrow> string \<Rightarrow> trace option" where
  "get_trace r trace_id = find (\<lambda>t. t_trace_id t = trace_id) (rev (tr_inner r))"

definition recent_traces :: "trace_ring \<Rightarrow> nat \<Rightarrow> trace list" where
  "recent_traces r limit = take limit (rev (tr_inner r))"

definition ring_len :: "trace_ring \<Rightarrow> nat" where
  "ring_len r = length (tr_inner r)"

definition ring_is_empty :: "trace_ring \<Rightarrow> bool" where
  "ring_is_empty r \<longleftrightarrow> ring_len r = 0"

section \<open>The ring holds the last entries\<close>

text \<open>The abstraction: the ring \<open>r\<close> represents the history \<open>ts\<close>.\<close>

definition ring_of :: "trace list \<Rightarrow> trace_ring \<Rightarrow> bool" where
  "ring_of ts r \<longleftrightarrow> 0 < tr_capacity r \<and> rev (tr_inner r) = take (tr_capacity r) (rev ts)"

lemma ring_of_new: "ring_of [] (new_ring c)"
  by (simp add: ring_of_def new_ring_def)

lemma ring_of_push:
  assumes "ring_of ts r"
  shows "ring_of (ts @ [t]) (push_trace t r)"
proof -
  have c: "0 < tr_capacity r" and i: "rev (tr_inner r) = take (tr_capacity r) (rev ts)"
    using assms by (auto simp: ring_of_def)
  obtain k where k: "tr_capacity r = Suc k" using c gr0_conv_Suc by blast
  have len: "length (tr_inner r) = min (length ts) (Suc k)"
    using arg_cong [OF i, of length] k by simp
  have "rev (tl (tr_inner r)) = take k (rev ts)" if "Suc k \<le> length ts"
    using i k that len by (simp add: butlast_rev [symmetric] butlast_take min_absorb2)
  moreover have "take k (rev ts) = rev (tr_inner r)" if "\<not> Suc k \<le> length ts"
    using i k that by simp
  ultimately show ?thesis
    using c k len by (auto simp: ring_of_def push_trace_def Let_def)
qed

lemma push_trace_capacity [simp]: "tr_capacity (push_trace t r) = tr_capacity r"
  by (simp add: push_trace_def Let_def)

lemma fold_push:
  "ring_of ts (fold push_trace ts (new_ring c)) \<and> tr_capacity (fold push_trace ts (new_ring c)) = max c 1"
proof (induction ts rule: rev_induct)
  case Nil
  then show ?case by (simp add: ring_of_new) (simp add: new_ring_def)
next
  case (snoc t ts)
  then show ?case by (simp add: ring_of_push)
qed

text \<open>C33: The trace ring of capacity \<open>c\<close> (at least one) behaves like the full history cut to its
  last \<open>max c 1\<close> entries, whatever was pushed: \<open>recent\<close> lists the newest first, \<open>get\<close> finds
  the newest entry with that id and misses the evicted ones, and the length never exceeds the
  capacity.\<close>

theorem trace_ring_spec:
  "let r = fold push_trace ts (new_ring c); window = take (max c 1) (rev ts) in
     recent_traces r limit = take limit window
     \<and> get_trace r i = find (\<lambda>t. t_trace_id t = i) window
     \<and> ring_len r = min (length ts) (max c 1)
     \<and> (ring_is_empty r \<longleftrightarrow> ts = [])"
proof -
  let ?r = "fold push_trace ts (new_ring c)"
  have w: "rev (tr_inner ?r) = take (max c 1) (rev ts)"
    using fold_push [of ts c] by (simp add: ring_of_def)
  have len: "length (tr_inner ?r) = min (length ts) (max c 1)"
    using arg_cong [OF w, of length] by simp
  show ?thesis
    unfolding Let_def recent_traces_def get_trace_def ring_len_def ring_is_empty_def w len
    by (auto simp: min_def split: if_splits)
qed

end
