(* ===== verification/Store_Frames.thy ===== *)
theory Store_Frames
  imports Searcher
begin

text \<open>
  A third frame of the store beside \<open>inv_step\<close> and \<open>others_step\<close>: entries of the \<open>kv\<close> table, once
  written, are never changed or removed. No repository writes that table, so the frame holds for
  every operation of \<open>Memory_Repo\<close>, \<open>Association_Repo\<close>, \<open>Embeddings\<close> and \<open>Searcher\<close>. The frames
  are then combined: \<open>sys_step\<close> for what the daemon does on its own account, \<open>user_step u\<close> for
  what it does for user \<open>u\<close>.
\<close>

definition kv_step :: "db \<Rightarrow> db \<Rightarrow> bool" where
  "kv_step d d' \<longleftrightarrow> (\<forall>k r. tbl_get kv_key (kv d) k = Some r \<longrightarrow> tbl_get kv_key (kv d') k = Some r)"

interpretation kvf: frame_rel kv_step
  by unfold_locales (auto simp: kv_step_def)

lemma statements_kv:
  "keeps kv_step (insert_memory r)"
  "keeps kv_step (update_memories P f)"
  "keeps kv_step (update_memories_content P f)"
  "keeps kv_step (delete_memories P)"
  "keeps kv_step (select_memories P)"
  "keeps kv_step (upsert_association a upd)"
  "keeps kv_step (delete_associations Pa)"
  "keeps kv_step (insert_conflict w n e sim now)"
  "keeps kv_step (delete_conflicts Pq)"
  "keeps kv_step (select_kv ns k)"
  by (auto intro!: keepsI simp: kv_step_def insert_memory_def update_memories_def
      update_memories_content_def delete_memories_def select_memories_def gets_sm_def
      upsert_association_def delete_associations_def insert_conflict_def delete_conflicts_def
      select_kv_def Let_def split: option.split)

lemma insert_kv_kv: "keeps kv_step (insert_kv ns k v)"
  by (rule keepsI)
    (auto simp: kv_step_def insert_kv_def tbl_insert_def tbl_get_append split: option.split)

lemma repo_reads_kv:
  "keeps kv_step (get_for_user u i)"
  "keeps kv_step (get_many_for_user u ids)"
  "keeps kv_step (query u f)"
  "keeps kv_step (find_fading_candidates u)"
  "keeps kv_step (find_stable u ms ma k)"
  "keeps kv_step (counts_for_user null_i64 u)"
  "keeps kv_step (bm25_search fts u q nmax)"
  "keeps kv_step (candidates_for_search u p mo now e)"
  by (auto simp: get_for_user_def get_many_for_user_def query_def find_fading_candidates_def
      find_stable_def counts_for_user_def bm25_search_def candidates_for_search_def Let_def
      split: option.split intro!: kvf.keeps_rules statements_kv)

lemma repo_writes_kv:
  "keeps kv_step (insert_row r)"
  "keeps kv_step (update_row u i upd)"
  "keeps kv_step (delete_row u i)"
  "keeps kv_step (delete_many u ids)"
  "keeps kv_step (reinforce_stability u i amount)"
  "keeps kv_step (apply_direct_boosts u boosts now sid)"
  "keeps kv_step (promote_to_core u ids)"
  "keeps kv_step (update_retention_scores u upds)"
  "keeps kv_step (mark_superseded u ids s)"
  "keeps kv_step (migrate_to_cold u i c)"
  "keeps kv_step (migrate_to_hot u i)"
  "keeps kv_step (migrate_to_hot_many u ids)"
  "keeps kv_step (convert_to_stub u i stub)"
  "keeps kv_step (clear_user u)"
  "keeps kv_step (record_access u i accessed_at)"
  by (auto simp: insert_row_def update_row_def delete_row_def delete_many_def reinforce_stability_def
      apply_direct_boosts_def boost_row_def promote_to_core_def update_retention_scores_def
      mark_superseded_def migrate_to_cold_def migrate_to_hot_def migrate_to_hot_many_def
      convert_to_stub_def clear_user_def record_access_def update_each_def
      split: option.split prod.split intro!: kvf.keeps_rules statements_kv)

lemma attach_edges_kv: "keeps kv_step (attach_edges u es)"
  by (auto simp: attach_edges_def intro!: kvf.keeps_rules repo_reads_kv)

lemma assoc_kv:
  "keeps kv_step (linked_for u src mw)"
  "keeps kv_step (linked_for_many u srcs mw)"
  "keeps kv_step (neighbor_edges src mw)"
  "keeps kv_step (create_or_strengthen src tgt bump now kind)"
  "keeps kv_step (strengthen_pairs pairs amount now kind)"
  "keeps kv_step (link_bidirectional a b bump now kind)"
  "keeps kv_step (delete_link src tgt)"
  "keeps kv_step (delete_bidirectional a b)"
  by (auto simp: linked_for_def linked_for_many_def neighbor_edges_def create_or_strengthen_def
      strengthen_pairs_def strengthen_edge_def link_bidirectional_def delete_link_def
      delete_bidirectional_def Let_def split: prod.split
      intro!: kvf.keeps_rules statements_kv attach_edges_kv)

lemma cache_kv: "keeps kv_step (cached_embed sha256 P now inp)"
proof -
  have "keeps kv_step (cache_get p m h)" "keeps kv_step (cache_insert p m h v now)" for p m h v
    by (auto intro!: keepsI simp: cache_get_def cache_insert_def gets_sm_def kv_step_def split: option.split)
  then show ?thesis
    by (auto simp: cached_embed_def Let_def split: option.split intro!: kvf.keeps_rules)
qed

lemma unchanged_kv: "keeps unchanged m \<Longrightarrow> keeps kv_step m"
  by (simp add: keeps_def unchanged_def kv_step_def)

section \<open>The frames combined\<close>

definition sys_step :: "db \<Rightarrow> db \<Rightarrow> bool" where
  "sys_step d d' \<longleftrightarrow> inv_step d d' \<and> kv_step d d'"

definition user_step :: "string \<Rightarrow> db \<Rightarrow> db \<Rightarrow> bool" where
  "user_step u d d' \<longleftrightarrow> sys_step d d' \<and> others_step u d d'"

interpretation sysf: frame_rel sys_step
  by unfold_locales (auto simp: sys_step_def intro: inv.R_refl inv.R_trans kvf.R_refl kvf.R_trans)

interpretation usr: frame_rel "user_step u" for u
  by unfold_locales (auto simp: user_step_def intro: sysf.R_refl sysf.R_trans iso.R_refl iso.R_trans)

lemma keeps_sys: "keeps inv_step m \<Longrightarrow> keeps kv_step m \<Longrightarrow> keeps sys_step m"
  by (simp add: keeps_def sys_step_def)

lemma keeps_user:
  "keeps inv_step m \<Longrightarrow> keeps kv_step m \<Longrightarrow> keeps (others_step u) m \<Longrightarrow> keeps (user_step u) m"
  by (simp add: keeps_def user_step_def sys_step_def)

lemma keeps_user_sys: "keeps (user_step u) m \<Longrightarrow> keeps sys_step m"
  by (simp add: keeps_def user_step_def)

lemma unchanged_user: "keeps unchanged m \<Longrightarrow> keeps (user_step u) m"
  by (intro keeps_user unchanged_keeps unchanged_kv)

lemma repo_reads_user:
  "keeps (user_step w) (get_for_user u i)"
  "keeps (user_step w) (get_many_for_user u ids)"
  "keeps (user_step w) (query u f)"
  "keeps (user_step w) (find_fading_candidates u)"
  "keeps (user_step w) (find_stable u ms ma k)"
  "keeps (user_step w) (counts_for_user null_i64 u)"
  "keeps (user_step w) (bm25_search fts u q nmax)"
  "keeps (user_step w) (linked_for u src mw)"
  "keeps (user_step w) (linked_for_many u srcs mw)"
  "keeps (user_step w) (search fts iter cfg u v opts)"
  "keeps (user_step w) (find_bridges anchors opts)"
  "keeps (user_step w) (select_memories P)"
  "keeps (user_step w) (select_kv ns key)"
  by (intro keeps_user repo_reads_inv reads_iso repo_reads_kv assoc_reads_keep assoc_kv search_keeps
      unchanged_kv search_ro find_bridges_ro select_memories_keeps statements_kv select_kv_keeps)+

lemma repo_writes_user:
  "wf_memory r \<Longrightarrow> m_user_id r = u \<Longrightarrow> keeps (user_step u) (insert_row r)"
  "keeps (user_step u) (update_row u i upd)"
  "keeps (user_step u) (delete_row u i)"
  "keeps (user_step u) (delete_many u ids)"
  "keeps (user_step u) (apply_direct_boosts u boosts now sid)"
  "keeps (user_step u) (promote_to_core u ids)"
  "keeps (user_step u) (update_retention_scores u upds)"
  "keeps (user_step u) (mark_superseded u ids s)"
  "keeps (user_step u) (migrate_to_cold u i c)"
  "keeps (user_step u) (migrate_to_hot u i)"
  "keeps (user_step u) (migrate_to_hot_many u ids)"
  "keeps (user_step u) (convert_to_stub u i stub)"
  "keeps (user_step u) (clear_user u)"
  by (intro keeps_user writes_inv writes_iso repo_writes_kv; assumption)+

lemma assoc_writes_user:
  "keeps (user_step u) (create_or_strengthen src tgt bump now kind)"
  "0 \<le> amount \<Longrightarrow> keeps (user_step u) (strengthen_pairs pairs amount now kind)"
  "keeps (user_step u) (link_bidirectional a b bump now kind)"
  "keeps (user_step u) (delete_link src tgt)"
  "keeps (user_step u) (delete_bidirectional a b)"
  "keeps (user_step u) (insert_conflict w n e sim now)"
  "keeps (user_step u) (insert_kv ns k v)"
  "keeps (user_step u) (cached_embed sha256 P now inp)"
  by (intro keeps_user create_or_strengthen_inv strengthen_pairs_inv link_bidirectional_inv delete_links_inv
      insert_conflict_inv insert_kv_inv cached_embed_keeps assoc_writes_iso other_tables_iso
      assoc_kv statements_kv insert_kv_kv cache_kv; assumption)+

end
