(* ===== verification/App_State.thy ===== *)
theory App_State
  imports Trace_Ring Store_Frames
begin

text \<open>
  What every request handler shares (\<open>crates/daemon/src/handlers.rs\<close>): the application state,
  the errors, the helpers at the end of the file, and the two ways a handler reaches the store
  (\<open>sql\<close> for a repository call, \<open>on_store\<close> with another error conversion).

  The record \<open>env\<close> holds what a handler reads and never writes: the configuration, and the code
  outside the repository (embedding provider, language model, SHA-256, ULIDs and UUIDs, the JSON
  library, the FTS5 engine, hash map iteration, the clock). One \<open>env\<close> is one request: its clock
  reading is the value of \<open>unix_now()\<close> during that request.
\<close>

section \<open>Environment and state\<close>

datatype json =
    JNull
  | JBool bool
  | JInt int
  | JReal real
  | JNegZero
  | JStr string
  | JArr "json list"
  | JObj "(string \<times> json) list"

fun json_get :: "string \<Rightarrow> json \<Rightarrow> json option" where
  "json_get k (JObj kvs) = map_of kvs k"
| "json_get k _ = None"

fun json_as_str :: "json \<Rightarrow> string option" where
  "json_as_str (JStr s) = Some s"
| "json_as_str _ = None"

fun json_as_i64 :: "json \<Rightarrow> int option" where
  "json_as_i64 (JInt n) = (if - (2 ^ 63) \<le> n \<and> n < 2 ^ 63 then Some n else None)"
| "json_as_i64 _ = None"

fun json_as_u64 :: "json \<Rightarrow> nat option" where
  "json_as_u64 (JInt n) = (if 0 \<le> n \<and> n < 2 ^ 64 then Some (nat n) else None)"
| "json_as_u64 _ = None"

record daemon_runtime =
  rt_instance :: string
  rt_socket_path :: string
  rt_pid_path :: string
  rt_db_path :: string
  rt_log_path :: string
  rt_build_id :: string

text \<open>What the operating system answers to the probes of the doctor.\<close>

record os_probe =
  os_connect :: "string + unit"
  os_socket_exists :: bool
  os_pid_file :: "string + string"
  os_db_exists :: bool
  os_log_exists :: bool
  os_migrations :: "string + nat"

record env =
  e_embedder :: embedder
  e_sha256 :: "string \<Rightarrow> byte list"
  e_ulid :: "nat \<Rightarrow> string"
  e_uuid :: "nat \<Rightarrow> string"
  e_now :: int
  e_rfc3339 :: string
  e_elapsed_ms :: real
  e_llm :: "(string \<Rightarrow> nat \<Rightarrow> string + string) option"
  e_lifecycle :: lifecycle_config
  e_fts_match :: "string \<Rightarrow> (string \<times> string) list \<Rightarrow> string list"
  e_rrf_iter :: "(string \<times> real) list \<Rightarrow> (string \<times> real) list"
  e_cat_iter :: "string list \<Rightarrow> string list"
  e_null_i64 :: "sqlx_error + int"
  e_to_string :: "json \<Rightarrow> string"
  e_from_str :: "string \<Rightarrow> string + json"
  e_version :: string
  e_pid :: nat
  e_uptime :: nat
  e_runtime :: daemon_runtime
  e_probe :: os_probe

record app =
  app_store :: db
  app_drawn :: nat
  app_traces :: trace_ring
  app_events :: "event list"
  app_shutdown :: bool

datatype handler_error =
    Storage sqlx_error
  | Embedding embedding_error
  | Search_failed search_error
  | InvalidPayload string
  | Unknown_bucket
  | NotFound

type_synonym 'a handler = "(app, handler_error, 'a) sm"

section \<open>Reaching the store\<close>

definition on_store :: "('e \<Rightarrow> handler_error) \<Rightarrow> (db, 'e, 'a) sm \<Rightarrow> 'a handler" where
  "on_store f m = map_err f (zoom app_store (\<lambda>d s. s\<lparr>app_store := d\<rparr>) m)"

definition sql :: "'a sql \<Rightarrow> 'a handler" where
  "sql m = on_store Storage m"

text \<open>\<open>ulid::Ulid::new()\<close> and \<open>uuid::Uuid::new_v4()\<close>: the next value of the generator.\<close>

definition draw :: "(nat \<Rightarrow> string) \<Rightarrow> string handler" where
  "draw gen s = (Inr (gen (app_drawn s)), s\<lparr>app_drawn := Suc (app_drawn s)\<rparr>)"

definition send_event :: "event \<Rightarrow> unit handler" where
  "send_event ev = modify_sm (\<lambda>s. s\<lparr>app_events := app_events s @ [ev]\<rparr>)"

definition embed_text :: "env \<Rightarrow> string \<Rightarrow> (f32 list) handler" where
  "embed_text E inp = on_store Embedding (cached_embed (e_sha256 E) (e_embedder E) (e_now E) inp)"

definition run_search :: "env \<Rightarrow> string \<Rightarrow> f32 list \<Rightarrow> search_options \<Rightarrow> (search_result list) handler" where
  "run_search E u v opts =
     on_store Search_failed (search (e_fts_match E) (e_rrf_iter E) (e_lifecycle E) u v opts)"

section \<open>Helpers\<close>

text \<open>Text formatting of the standard library: digits, \<open>{:02x}\<close> and \<open>{:?}\<close> of a string.\<close>

definition digit_char :: "nat \<Rightarrow> char" where
  "digit_char n = ''0123456789abcdef'' ! (n mod 16)"

fun radix_str :: "nat \<Rightarrow> nat \<Rightarrow> string" where
  "radix_str b n = (if n < b \<or> b < 2 then [digit_char n] else radix_str b (n div b) @ [digit_char (n mod b)])"

declare radix_str.simps [simp del]

definition hex_lower :: "byte list \<Rightarrow> string" where
  "hex_lower bytes = concat (map (\<lambda>b. [digit_char (unat b div 16), digit_char (unat b)]) bytes)"

definition debug_char :: "char \<Rightarrow> string" where
  "debug_char c = (let n = of_char c :: nat; bs = CHR 0x5C in
     if n = 0 then [bs, CHR ''0'']
     else if n = 9 then [bs, CHR ''t'']
     else if n = 10 then [bs, CHR ''n'']
     else if n = 13 then [bs, CHR ''r'']
     else if c = CHR 0x22 \<or> c = bs then [bs, c]
     else if n < 32 \<or> (127 \<le> n \<and> n \<le> 160) \<or> n = 173 then [bs] @ ''u{'' @ radix_str 16 n @ ''}''
     else [c])"

definition debug_str :: "string \<Rightarrow> string" where
  "debug_str s = [CHR 0x22] @ concat (map debug_char s) @ [CHR 0x22]"

definition require_user_match :: "string \<Rightarrow> string \<Rightarrow> unit handler" where
  "require_user_match arg_user connection_user =
     (if arg_user \<noteq> connection_user
      then throw_sm (InvalidPayload (''request user_id '' @ debug_str arg_user
             @ '' != connection user_id '' @ debug_str connection_user))
      else ret_sm ())"

definition compute_current_retention :: "memory_row \<Rightarrow> int \<Rightarrow> lifecycle_config \<Rightarrow> fl" where
  "compute_current_retention row now cfg = compute_retention (row_state row cfg) now cfg"

definition memory_row_to_data :: "env \<Rightarrow> memory_row \<Rightarrow> memory_data" where
  "memory_row_to_data E row = \<lparr>
     md_id = m_id row, md_user_id = m_user_id row, md_content = m_content row,
     md_category = m_category row, md_memory_type = m_memory_type row,
     md_created_at = m_created_at row, md_last_accessed_at = m_last_accessed_at row,
     md_valid_from = m_valid_from row, md_valid_until = m_valid_until row,
     md_retention_floor = m_retention_floor row, md_retrieval_count = m_retrieval_count row,
     md_importance = m_importance row, md_stability = m_stability row,
     md_is_cold = m_is_cold row, md_cold_since = m_cold_since row,
     md_is_superseded = m_is_superseded row, md_superseded_by = m_superseded_by row,
     md_is_stub = m_is_stub row, md_stub_content = m_stub_content row,
     md_metadata = m_metadata row,
     md_current_retention = compute_current_retention row (e_now E) (e_lifecycle E),
     md_days_at_floor = m_days_at_floor row\<rparr>"

definition paper_faithful_lifecycle_config :: lifecycle_config where
  "paper_faithful_lifecycle_config = default_lifecycle_config\<lparr>decay_model := Power\<rparr>"

definition CORE_RETENTION_FLOOR :: real where
  "CORE_RETENTION_FLOOR = 6 / 10"

section \<open>Evaluation\<close>

lemma on_store_eq:
  "on_store f m s = (case m (app_store s) of
     (Inl e, d) \<Rightarrow> (Inl (f e), s\<lparr>app_store := d\<rparr>) | (Inr x, d) \<Rightarrow> (Inr x, s\<lparr>app_store := d\<rparr>))"
  by (simp add: on_store_def map_err_def zoom_def split: prod.split sum.split)

lemma sql_Inr: "m (app_store s) = (Inr x, d) \<Longrightarrow> sql m s = (Inr x, s\<lparr>app_store := d\<rparr>)"
  by (simp add: sql_def on_store_eq)

lemma sql_Inl: "m (app_store s) = (Inl e, d) \<Longrightarrow> sql m s = (Inl (Storage e), s\<lparr>app_store := d\<rparr>)"
  by (simp add: sql_def on_store_eq)

lemma app_store_same [simp]: "s\<lparr>app_store := app_store s\<rparr> = (s :: app)"
  by simp

lemma sql_gets [simp]: "sql (gets_sm f) s = (Inr (f (app_store s)), s)"
  by (simp add: sql_def on_store_eq gets_sm_def)

lemma bind_sql_gets [simp]: "bind_sm (sql (gets_sm f)) g s = g (f (app_store s)) s"
  by (simp add: bind_sm_def)

lemma bind_draw [simp]:
  "bind_sm (draw gen) g s = g (gen (app_drawn s)) (s\<lparr>app_drawn := Suc (app_drawn s)\<rparr>)"
  by (simp add: bind_sm_def draw_def)

section \<open>Frames\<close>

text \<open>\<open>store_frame\<close> reads a frame of the store as one of the application.\<close>

definition store_frame :: "(db \<Rightarrow> db \<Rightarrow> bool) \<Rightarrow> app \<Rightarrow> app \<Rightarrow> bool" where
  "store_frame R s s' \<longleftrightarrow> R (app_store s) (app_store s')"

interpretation app_sys: frame_rel "store_frame sys_step"
  by unfold_locales (auto simp: store_frame_def intro: sysf.R_refl sysf.R_trans)

interpretation app_usr: frame_rel "store_frame (user_step u)" for u
  by unfold_locales (auto simp: store_frame_def intro: usr.R_refl usr.R_trans)

lemma keeps_on_store: "keeps R m \<Longrightarrow> keeps (store_frame R) (on_store f m)"
  by (rule keepsI)
    (auto simp: on_store_def map_err_def zoom_def store_frame_def split: prod.split sum.split dest: keepsD)

lemma keeps_sql: "keeps R m \<Longrightarrow> keeps (store_frame R) (sql m)"
  unfolding sql_def by (rule keeps_on_store)

lemma store_frame_sys: "keeps (store_frame (user_step u)) m \<Longrightarrow> keeps (store_frame sys_step) m"
  by (simp add: keeps_def store_frame_def user_step_def)

lemma app_ops_user:
  "keeps (store_frame (user_step u)) (draw gen)"
  "keeps (store_frame (user_step u)) (send_event ev)"
  "keeps (store_frame (user_step u)) (embed_text E inp)"
  "keeps (store_frame (user_step u)) (run_search E w v opts)"
proof -
  show "keeps (store_frame (user_step u)) (draw gen)"
    by (rule keepsI) (simp add: draw_def store_frame_def usr.R_refl)
  show "keeps (store_frame (user_step u)) (send_event ev)"
    by (rule keepsI) (simp add: send_event_def modify_sm_def store_frame_def usr.R_refl)
qed (simp_all add: embed_text_def run_search_def keeps_on_store assoc_writes_user repo_reads_user)

lemma user_match_bind:
  "bind_sm (require_user_match a u) f = (if a = u then f () else
     throw_sm (InvalidPayload (''request user_id '' @ debug_str a @ '' != connection user_id '' @ debug_str u)))"
  by (simp add: require_user_match_def)

lemma keeps_user_match:
  "(a = u \<Longrightarrow> keeps (store_frame (user_step u)) (f ())) \<Longrightarrow>
   keeps (store_frame (user_step u)) (bind_sm (require_user_match a u) f)"
  by (simp add: user_match_bind app_usr.keeps_throw)

lemmas user_frame_rules =
  keeps_user_match keeps_sql app_ops_user repo_reads_user repo_writes_user assoc_writes_user

end
