(* ===== verification/Diagnostics_Handlers.thy ===== *)
theory Diagnostics_Handlers
  imports App_State
begin

text \<open>
  The diagnostics bucket of \<open>crates/daemon/src/handlers.rs\<close> and the doctor of
  \<open>crates/daemon/src/doctor.rs\<close>: status, health checks, traces, shutdown, counts, and the bridge
  tokens that the HTTP bridge authenticates with. A dash beyond Latin-1 in a message of the
  source is written \<open>-\<close>.
\<close>

section \<open>Doctor\<close>

datatype check_level = Level_ok | Level_warn | Level_error

record check_result =
  ch_name :: string
  ch_level :: check_level
  ch_message :: string

definition check :: "check_level \<Rightarrow> string \<Rightarrow> string \<Rightarrow> check_result" where
  "check level name message = \<lparr>ch_name = name, ch_level = level, ch_message = message\<rparr>"

fun worsen :: "check_result \<Rightarrow> int \<Rightarrow> int" where
  "worsen c code = (case ch_level c of Level_ok \<Rightarrow> code | Level_warn \<Rightarrow> max code 1 | Level_error \<Rightarrow> 2)"

definition exit_code :: "check_result list \<Rightarrow> int" where
  "exit_code checks = fold worsen checks 0"

definition run_doctor :: "daemon_runtime \<Rightarrow> os_probe \<Rightarrow> db \<Rightarrow> check_result list" where
  "run_doctor rt os d = [
     (case os_connect os of
        Inr _ \<Rightarrow> check Level_ok ''socket reachable'' (rt_socket_path rt)
      | Inl e \<Rightarrow> if os_socket_exists os
          then check Level_error ''socket reachable'' (''socket exists but connect failed: '' @ e)
          else check Level_error ''socket reachable'' (''not found: '' @ rt_socket_path rt)),
     (case os_pid_file os of
        Inr pid \<Rightarrow> check Level_ok ''pid file'' (rt_pid_path rt @ '' -> '' @ trim_str pid)
      | Inl e \<Rightarrow> check Level_error ''pid file'' (rt_pid_path rt @ '': '' @ e)),
     (if os_db_exists os then check Level_ok ''database file'' (rt_db_path rt)
      else check Level_warn ''database file'' (''not found yet: '' @ rt_db_path rt)),
     (if os_log_exists os then check Level_ok ''log file'' (rt_log_path rt)
      else check Level_warn ''log file'' (''not found yet: '' @ rt_log_path rt)),
     (case os_migrations os of
        Inr rows \<Rightarrow> check Level_ok ''database queryable'' (''schema_migrations rows: '' @ radix_str 10 rows)
      | Inl e \<Rightarrow> check Level_error ''database queryable'' (''query failed: '' @ e)),
     (if 0 < length (memories d)
      then check Level_ok ''memories present'' (radix_str 10 (length (memories d)) @ '' memories'')
      else check Level_warn ''memories present''
             ''store is empty - store a memory to confirm end-to-end flow'')]"

section \<open>Handlers\<close>

definition handle_status :: "env \<Rightarrow> response handler" where
  "handle_status E = bind_sm (sql (gets_sm (\<lambda>d. length (memories d)))) (\<lambda>count.
     ret_sm (response_ok (StatusR \<lparr>
       sd_daemon_version = e_version E, sd_protocol_version = IPC_PROTOCOL_VERSION,
       sd_build_id = rt_build_id (e_runtime E), sd_instance = rt_instance (e_runtime E),
       sd_daemon_pid = e_pid E, sd_socket_path = rt_socket_path (e_runtime E),
       sd_pid_path = rt_pid_path (e_runtime E), sd_db_path = rt_db_path (e_runtime E),
       sd_log_path = rt_log_path (e_runtime E), sd_uptime_seconds = e_uptime E,
       sd_memory_count = count\<rparr>)))"

definition doctor_level :: "check_level \<Rightarrow> doctor_check_level" where
  "doctor_level l = (case l of Level_ok \<Rightarrow> Check_ok | Level_warn \<Rightarrow> Check_warn | Level_error \<Rightarrow> Check_error)"

definition handle_doctor :: "env \<Rightarrow> response handler" where
  "handle_doctor E = bind_sm (sql (gets_sm (run_doctor (e_runtime E) (e_probe E)))) (\<lambda>checks.
     ret_sm (response_ok (DoctorR (exit_code checks)
       (map (\<lambda>c. \<lparr>dc_name = ch_name c, dc_level = doctor_level (ch_level c), dc_message = ch_message c\<rparr>)
            checks))))"

definition trace_to_data :: "trace \<Rightarrow> trace_data" where
  "trace_to_data t = \<lparr>td_trace_id = t_trace_id t, td_request_id = t_request_id t,
     td_bucket = t_bucket t, td_op = t_op t, td_embed_ms = t_embed_ms t, td_vector_ms = t_vector_ms t,
     td_fusion_ms = t_fusion_ms t, td_format_ms = t_format_ms t, td_elapsed_ms = t_elapsed_ms t\<rparr>"

definition handle_recent_traces :: "nat \<Rightarrow> response handler" where
  "handle_recent_traces limit = bind_sm (gets_sm app_traces) (\<lambda>ring.
     ret_sm (response_ok (RecentTracesR (map trace_to_data (recent_traces ring limit)))))"

text \<open>The shutdown signal is sent by a spawned task, after the handler has answered.\<close>

definition handle_shutdown :: "response handler" where
  "handle_shutdown = bind_sm (modify_sm (\<lambda>s. s\<lparr>app_shutdown := True\<rparr>)) (\<lambda>_.
     ret_sm (response_ok (ShutdownR True)))"

definition handle_counts :: "env \<Rightarrow> string \<Rightarrow> string \<Rightarrow> response handler" where
  "handle_counts E arg_user connection_user =
     bind_sm (require_user_match arg_user connection_user) (\<lambda>_.
     bind_sm (sql (counts_for_user (e_null_i64 E) arg_user)) (\<lambda>counts.
     ret_sm (response_ok (CountsR \<lparr>cd_hot = n_hot counts, cd_cold = n_cold counts,
       cd_stub = n_stub counts, cd_total = n_total counts\<rparr>))))"

section \<open>Bridge tokens\<close>

definition token_salt :: string where
  "token_salt = ''cm-daemon-bridge-token-salt''"

definition token_hash :: "env \<Rightarrow> string \<Rightarrow> string" where
  "token_hash E token = hex_lower (e_sha256 E (token_salt @ token))"

fun scope_str :: "bridge_scope \<Rightarrow> string" where
  "scope_str Read = ''read''"
| "scope_str Write = ''write''"
| "scope_str Admin = ''admin''"

definition scope_of_str :: "string \<Rightarrow> bridge_scope" where
  "scope_of_str s = (if s = ''admin'' then Admin else if s = ''write'' then Write else Read)"

definition token_record :: "mint_bridge_token_args \<Rightarrow> int \<Rightarrow> json" where
  "token_record args expires = JObj [
     (''user_id'', JStr (mt_user_id args)),
     (''scope'', JStr (scope_str (mt_scope args))),
     (''expires_at_unix'', JInt expires)]"

text \<open>\<open>now + ttl_seconds as i64\<close>: the cast and the addition wrap.\<close>

definition token_expiry :: "int \<Rightarrow> nat \<Rightarrow> int" where
  "token_expiry now ttl_seconds = as_i64 (now + as_i64 (int ttl_seconds))"

definition handle_mint_bridge_token :: "env \<Rightarrow> mint_bridge_token_args \<Rightarrow> response handler" where
  "handle_mint_bridge_token E args =
     bind_sm (draw (e_uuid E)) (\<lambda>a.
     bind_sm (draw (e_uuid E)) (\<lambda>b.
       let raw = ''cmb_'' @ a @ b;
           expires = token_expiry (e_now E) (mt_ttl_seconds args);
           value = e_to_string E (token_record args expires)
       in bind_sm (sql (insert_kv ''bridge_tokens'' (token_hash E raw) value)) (\<lambda>_.
          ret_sm (response_ok (BridgeTokenR raw expires)))))"

fun bridge_scope_allows :: "bridge_scope \<Rightarrow> bridge_scope \<Rightarrow> bool" where
  "bridge_scope_allows Admin _ = True"
| "bridge_scope_allows Write Write = True"
| "bridge_scope_allows Write Read = True"
| "bridge_scope_allows Read Read = True"
| "bridge_scope_allows _ _ = False"

definition check_token_record ::
  "int \<Rightarrow> bridge_scope \<Rightarrow> json \<Rightarrow> handler_error + bridge_token_validated_data" where
  "check_token_record now required value =
     (case Option.bind (json_get ''user_id'' value) json_as_str of
        None \<Rightarrow> Inl (InvalidPayload ''bridge token missing user_id'')
      | Some user_id \<Rightarrow>
          let scope = (case Option.bind (json_get ''scope'' value) json_as_str of
                         Some s \<Rightarrow> scope_of_str s | None \<Rightarrow> scope_of_str ''read'');
              expires = (case Option.bind (json_get ''expires_at_unix'' value) json_as_i64 of
                           Some n \<Rightarrow> n | None \<Rightarrow> 0)
          in if expires \<le> now then Inl (InvalidPayload ''bridge token expired'')
             else if \<not> bridge_scope_allows scope required
             then Inl (InvalidPayload ''bridge token scope insufficient'')
             else Inr \<lparr>bv_user_id = user_id, bv_scope = scope, bv_expires_at_unix = expires\<rparr>)"

definition handle_validate_bridge_token :: "env \<Rightarrow> validate_bridge_token_args \<Rightarrow> response handler" where
  "handle_validate_bridge_token E args =
     bind_sm (sql (select_kv ''bridge_tokens'' (token_hash E (vt_token args)))) (\<lambda>row.
     case row of
       None \<Rightarrow> throw_sm (InvalidPayload ''invalid bridge token'')
     | Some text_value \<Rightarrow> (case e_from_str E text_value of
           Inl e \<Rightarrow> throw_sm (InvalidPayload (''malformed bridge token record: '' @ e))
         | Inr value \<Rightarrow> bind_sm (lift_sm (check_token_record (e_now E) (vt_required_scope args) value)) (\<lambda>v.
             ret_sm (response_ok (BridgeTokenValidatedR v)))))"

section \<open>Frames\<close>

lemma diagnostics_user:
  "keeps (store_frame (user_step u)) (handle_status E)"
  "keeps (store_frame (user_step u)) (handle_doctor E)"
  "keeps (store_frame (user_step u)) (handle_recent_traces n)"
  "keeps (store_frame (user_step u)) handle_shutdown"
  "keeps (store_frame (user_step u)) (handle_counts E a u)"
  "keeps (store_frame (user_step u)) (handle_mint_bridge_token E margs)"
  "keeps (store_frame (user_step u)) (handle_validate_bridge_token E vargs)"
proof -
  have [simp]: "keeps (store_frame (user_step u)) (modify_sm (\<lambda>s. s\<lparr>app_shutdown := True\<rparr>))"
    by (rule keepsI) (simp add: modify_sm_def store_frame_def usr.R_refl)
  show "keeps (store_frame (user_step u)) handle_shutdown"
    unfolding handle_shutdown_def by (intro app_usr.keeps_rules) simp
qed (auto simp: handle_status_def handle_doctor_def handle_recent_traces_def handle_counts_def
    handle_mint_bridge_token_def handle_validate_bridge_token_def Let_def split: option.split sum.split
    intro!: app_usr.keeps_rules user_frame_rules usr.keeps_gets)

section \<open>Properties\<close>

lemma exit_code_fold:
  "fold worsen cs n = (if \<exists>c \<in> set cs. ch_level c = Level_error then 2
     else if \<exists>c \<in> set cs. ch_level c = Level_warn then max n 1 else n)" if "n \<le> 2"
  using that
proof (induction cs arbitrary: n)
  case (Cons c cs)
  have "worsen c n \<le> 2" using Cons.prems by (simp split: check_level.split)
  from Cons.IH [OF this] show ?case
    by (cases "ch_level c") auto
qed simp

lemma run_doctor_levels:
  "map ch_level (run_doctor rt os d) = [
     if isl (os_connect os) then Level_error else Level_ok,
     if isl (os_pid_file os) then Level_error else Level_ok,
     if os_db_exists os then Level_ok else Level_warn,
     if os_log_exists os then Level_ok else Level_warn,
     if isl (os_migrations os) then Level_error else Level_ok,
     if memories d = [] then Level_warn else Level_ok]"
  unfolding run_doctor_def list.map list.inject
  by (intro conjI refl) (simp_all add: check_def split: sum.split)

lemma exit_code_levels:
  "exit_code cs = (if Level_error \<in> set (map ch_level cs) then 2
     else if Level_warn \<in> set (map ch_level cs) then 1 else 0)"
  unfolding exit_code_def exit_code_fold [of 0, simplified] by force

text \<open>The doctor's exit code: the request never fails and changes nothing; the code is 2 when
  the socket, the pid file or the database cannot be reached, otherwise 1 when the database file,
  the log file or every memory is missing, and 0 only when all six checks pass.\<close>

theorem handle_doctor_spec:
  "let os = e_probe E;
       code = (if isl (os_connect os) \<or> isl (os_pid_file os) \<or> isl (os_migrations os) then 2
               else if os_db_exists os \<and> os_log_exists os \<and> memories (app_store s) \<noteq> [] then 0 else 1)
   in \<exists>checks. length checks = 6 \<and> handle_doctor E s = (Inr (response_ok (DoctorR code checks)), s)"
proof -
  let ?os = "e_probe E"
  let ?code = "if isl (os_connect ?os) \<or> isl (os_pid_file ?os) \<or> isl (os_migrations ?os) then 2 :: int
      else if os_db_exists ?os \<and> os_log_exists ?os \<and> memories (app_store s) \<noteq> [] then 0 else 1"
  have "exit_code (run_doctor (e_runtime E) ?os (app_store s)) = ?code"
    unfolding exit_code_levels run_doctor_levels by simp
  then have "handle_doctor E s = (Inr (response_ok (DoctorR ?code
      (map (\<lambda>c. \<lparr>dc_name = ch_name c, dc_level = doctor_level (ch_level c), dc_message = ch_message c\<rparr>)
        (run_doctor (e_runtime E) ?os (app_store s))))), s)"
    by (simp only: handle_doctor_def bind_sql_gets ret_sm_def)
  then show ?thesis
    unfolding Let_def by (intro exI conjI) (auto simp: run_doctor_def)
qed

lemma bridge_scope_allows_iff: "bridge_scope_allows actual required \<longleftrightarrow> required \<le> actual"
  by (cases actual; cases required) (simp_all add: less_eq_bridge_scope_def)

lemma scope_of_str_of [simp]: "scope_of_str (scope_str sc) = sc"
  by (cases sc) (simp_all add: scope_of_str_def)

lemma check_token_record_eq:
  "check_token_record now required (token_record args (as_i64 n)) =
     (if as_i64 n \<le> now then Inl (InvalidPayload ''bridge token expired'')
      else if required \<le> mt_scope args
      then Inr \<lparr>bv_user_id = mt_user_id args, bv_scope = mt_scope args, bv_expires_at_unix = as_i64 n\<rparr>
      else Inl (InvalidPayload ''bridge token scope insufficient''))"
  using as_i64_range [of n]
  by (simp add: check_token_record_def token_record_def bridge_scope_allows_iff Let_def)

text \<open>The outcome of minting: the token is recorded under its hash, or the hash is taken.\<close>

lemma handle_mint_eq:
  fixes E args s
  defines "raw \<equiv> ''cmb_'' @ e_uuid E (app_drawn s) @ e_uuid E (Suc (app_drawn s))"
    and "expires \<equiv> token_expiry (e_now E) (mt_ttl_seconds args)"
  assumes "handle_mint_bridge_token E args s = (Inr resp, s')"
  shows "resp = response_ok (BridgeTokenR raw expires)"
    and "tbl_get kv_key (kv (app_store s')) (''bridge_tokens'', token_hash E raw) =
      Some \<lparr>k_namespace = ''bridge_tokens'', k_key = token_hash E raw,
            k_value = e_to_string E (token_record args expires)\<rparr>"
proof -
  let ?s = "s\<lparr>app_drawn := Suc (Suc (app_drawn s))\<rparr>"
  let ?row = "\<lparr>k_namespace = ''bridge_tokens'', k_key = token_hash E raw,
            k_value = e_to_string E (token_record args expires)\<rparr>"
  let ?ins = "insert_kv ''bridge_tokens'' (token_hash E raw) (e_to_string E (token_record args expires))"
  have run: "bind_sm (sql ?ins) (\<lambda>_. ret_sm (response_ok (BridgeTokenR raw expires))) ?s = (Inr resp, s')"
    using assms(3) by (simp add: handle_mint_bridge_token_def Let_def raw_def expires_def)
  show "resp = response_ok (BridgeTokenR raw expires)"
    and "tbl_get kv_key (kv (app_store s')) (''bridge_tokens'', token_hash E raw) = Some ?row"
  proof -
    obtain t where t: "tbl_insert kv_key ?row (kv (app_store s)) = Some t"
      using run by (cases "tbl_insert kv_key ?row (kv (app_store s))")
        (auto simp: bind_sm_def sql_def on_store_eq insert_kv_def)
    then have "resp = response_ok (BridgeTokenR raw expires) \<and> kv (app_store s') = t"
      using run by (auto simp: bind_sm_def sql_def on_store_eq insert_kv_def ret_sm_def)
    then show "resp = response_ok (BridgeTokenR raw expires)"
      and "tbl_get kv_key (kv (app_store s')) (''bridge_tokens'', token_hash E raw) = Some ?row"
      using tbl_get_insert [OF t] by (simp_all add: kv_key_def)
  qed
qed

end
