(* ===== verification/Memory_Handlers.thy ===== *)
theory Memory_Handlers
  imports App_State Search_Laws
begin

text \<open>
  The memory bucket of \<open>crates/daemon/src/handlers.rs\<close>: one definition per handler, in the order
  of the file, with the statements, guards and early returns of the code. Every handler first
  checks that the request speaks for the user of the connection; the last section shows that each
  keeps \<open>user_step\<close>, so that a request can change nothing but the memories of that user.
\<close>

section \<open>Storing\<close>

text \<open>The part of the row that \<open>Store\<close> and \<open>StoreBatch\<close> fill in the same way.\<close>

definition embedded_row ::
  "env \<Rightarrow> string \<Rightarrow> string \<Rightarrow> string \<Rightarrow> string \<Rightarrow> string \<Rightarrow> string \<Rightarrow> f32 list \<Rightarrow> memory_row" where
  "embedded_row E i u content category memory_type metadata vector =
     (new_minimal i u content category memory_type (e_now E))\<lparr>
       m_embedding := Some (encode_f32s vector),
       m_embedding_provider := Some (emb_name (e_embedder E)),
       m_embedding_model := Some (emb_model (e_embedder E)),
       m_metadata := metadata,
       m_retention_floor := (if category = ''core'' then CORE_RETENTION_FLOOR else 0)\<rparr>"

definition with_importance :: "real option \<Rightarrow> memory_row \<Rightarrow> memory_row" where
  "with_importance given row = (case given of
      None \<Rightarrow> row
    | Some imp \<Rightarrow> row\<lparr>m_importance := clamp01 imp, m_stability := stability_from_importance (clamp01 imp)\<rparr>)"

definition CONFLICT_SIMILARITY_THRESHOLD :: real where
  "CONFLICT_SIMILARITY_THRESHOLD = 85 / 100"

definition STABILITY_REINFORCEMENT_THRESHOLD :: real where
  "STABILITY_REINFORCEMENT_THRESHOLD = 75 / 100"

definition STABILITY_REINFORCEMENT_AMOUNT :: real where
  "STABILITY_REINFORCEMENT_AMOUNT = 5 / 100"

definition ASSOCIATION_STRENGTHEN_AMOUNT :: real where
  "ASSOCIATION_STRENGTHEN_AMOUNT = 1 / 10"

definition SYNAPTIC_TAG_THRESHOLD :: real where
  "SYNAPTIC_TAG_THRESHOLD = 4 / 10"

definition SYNAPTIC_TAG_BASE_WEIGHT :: real where
  "SYNAPTIC_TAG_BASE_WEIGHT = 2 / 10"

definition synaptic_tag_weight :: "real \<Rightarrow> real" where
  "synaptic_tag_weight sim =
     min (SYNAPTIC_TAG_BASE_WEIGHT + (sim - SYNAPTIC_TAG_THRESHOLD) * (1 / 2)) (1 / 2)"

definition synaptic_link :: "string \<Rightarrow> string \<Rightarrow> real \<Rightarrow> int \<Rightarrow> nat sql" where
  "synaptic_link src tgt weight now =
     upsert_association \<lparr>a_source = src, a_target = tgt, a_weight = weight, a_kind = ''synaptic'',
         a_updated_at = now, a_last_co_retrieval = None\<rparr>
       (\<lambda>a. a\<lparr>a_weight := weight, a_kind := ''synaptic'', a_updated_at := now\<rparr>)"

text \<open>The loop over the hits, one similarity band after the other. A similarity in the synaptic
  band is finite.\<close>

fun band_loop :: "string \<Rightarrow> string \<Rightarrow> int \<Rightarrow> search_result list \<Rightarrow> unit sql" where
  "band_loop u new_id now [] = ret_sm ()"
| "band_loop u new_id now (hit # hits) =
     (let other = r_memory_id hit; sim = r_score hit in
      if other = new_id then band_loop u new_id now hits
      else if f_le (Fin CONFLICT_SIMILARITY_THRESHOLD) sim
      then bind_sm (insert_conflict u new_id other sim now) (\<lambda>_. band_loop u new_id now hits)
      else if f_le (Fin STABILITY_REINFORCEMENT_THRESHOLD) sim
      then bind_sm (update_memories (own u other)
             (\<lambda>m. m\<lparr>m_stability := min 1 (m_stability m + STABILITY_REINFORCEMENT_AMOUNT)\<rparr>))
             (\<lambda>_. band_loop u new_id now hits)
      else if f_le (Fin SYNAPTIC_TAG_THRESHOLD) sim
      then (let weight = synaptic_tag_weight (real_of_fl sim) in
            bind_sm (synaptic_link new_id other weight now) (\<lambda>_.
            bind_sm (synaptic_link other new_id weight now) (\<lambda>_. band_loop u new_id now hits)))
      else ret_sm ())"

definition queue_conflicts_for :: "env \<Rightarrow> string \<Rightarrow> string \<Rightarrow> f32 list \<Rightarrow> unit handler" where
  "queue_conflicts_for E u new_id new_vec =
     (let opts = (new_search_options (emb_name (e_embedder E)) (emb_model (e_embedder E)) (e_now E))
                   \<lparr>o_limit := 5\<rparr>
      in bind_sm (run_search E u new_vec opts) (\<lambda>hits.
           sql (transaction (band_loop u new_id (e_now E) hits))))"

definition handle_memory_store :: "env \<Rightarrow> store_memory_args \<Rightarrow> string \<Rightarrow> response handler" where
  "handle_memory_store E args connection_user =
     bind_sm (require_user_match (sm_user_id args) connection_user) (\<lambda>_.
     bind_sm (embed_text E (sm_content args)) (\<lambda>vector.
     bind_sm (draw (e_ulid E)) (\<lambda>ulid.
       let i = ''mem_'' @ ulid;
           row = with_importance (sm_importance args)
             (embedded_row E i (sm_user_id args) (sm_content args) (sm_category args)
               (sm_memory_type args) (sm_metadata args) vector)
       in bind_sm (sql (insert_row row)) (\<lambda>_.
          bind_sm (queue_conflicts_for E (sm_user_id args) i vector) (\<lambda>_.
            ret_sm (response_ok (MemoryStoredR i)))))))"

definition store_entry :: "env \<Rightarrow> string \<Rightarrow> batch_memory_entry \<Rightarrow> string list \<Rightarrow> (string list) handler" where
  "store_entry E u entry ids =
     bind_sm (embed_text E (be_content entry)) (\<lambda>vector.
     bind_sm (draw (e_ulid E)) (\<lambda>ulid.
       let i = ''mem_'' @ ulid
       in bind_sm (sql (insert_row (embedded_row E i u (be_content entry) (be_category entry)
             (be_memory_type entry) (be_metadata entry) vector))) (\<lambda>_.
          ret_sm (ids @ [i]))))"

definition link_batch :: "env \<Rightarrow> real \<Rightarrow> string list \<Rightarrow> nat handler" where
  "link_batch E weight ids =
     fold_sm (pairs_of ids) (\<lambda>(a, b) created.
       bind_sm (sql (link_bidirectional a b weight (e_now E) ''cooccurrence'')) (\<lambda>_.
         ret_sm (created + 2))) 0"

definition handle_memory_store_batch :: "env \<Rightarrow> store_batch_args \<Rightarrow> string \<Rightarrow> response handler" where
  "handle_memory_store_batch E args connection_user =
     bind_sm (require_user_match (sb_user_id args) connection_user) (\<lambda>_.
     if sb_memories args = [] then ret_sm (response_ok (MemoryStoredBatchR [] 0))
     else bind_sm (fold_sm (sb_memories args) (store_entry E (sb_user_id args)) []) (\<lambda>ids.
          bind_sm (link_batch E (sb_initial_link_weight args) ids) (\<lambda>associations_created.
            ret_sm (response_ok (MemoryStoredBatchR ids associations_created)))))"

section \<open>Searching\<close>

text \<open>The state of a row after a retrieval at \<open>now\<close>: \<open>stability + bump * factor\<close>, capped, where
  the factor is \<open>(dt / interval).min(cap)\<close>.\<close>

definition retrieved_stability :: "lifecycle_config \<Rightarrow> int \<Rightarrow> result_source option \<Rightarrow> memory_row \<Rightarrow> real" where
  "retrieved_stability cfg now src row =
     (let factor = (case f_min (f_div (Fin (dt_days now (m_last_accessed_at row)))
                                      (Fin (spaced_rep_interval_days cfg)))
                               (Fin (max_spaced_rep_multiplier cfg)) of
                      Fin r \<Rightarrow> r | _ \<Rightarrow> max_spaced_rep_multiplier cfg);
          bump_amount = (case src of Some Graph_expanded \<Rightarrow> associative_boost cfg | _ \<Rightarrow> direct_boost cfg)
      in min (m_stability row + bump_amount * factor) 1)"

definition promotion_due :: "lifecycle_config \<Rightarrow> real \<Rightarrow> memory_row \<Rightarrow> bool" where
  "promotion_due cfg new_stability row \<longleftrightarrow>
     m_category row \<noteq> ''core''
     \<and> as_i64 (int (core_access_threshold cfg)) \<le> m_retrieval_count row + 1
     \<and> core_stability_threshold cfg \<le> new_stability
     \<and> core_session_threshold cfg
         \<le> (if ''__pending__'' \<in> set (m_session_ids row) then length (m_session_ids row)
            else length (m_session_ids row) + 1)"

definition apply_post_retrieval_strengthening ::
  "env \<Rightarrow> string \<Rightarrow> (string \<times> result_source) list \<Rightarrow> unit handler" where
  "apply_post_retrieval_strengthening E u retrieved =
     bind_sm (sql (get_many_for_user u (map fst retrieved))) (\<lambda>rows.
       let cfg = e_lifecycle E;
           source_by_id = map_of (rev retrieved);
           live = filter (\<lambda>row. \<not> m_is_stub row) rows;
           boosted = (\<lambda>row. retrieved_stability cfg (e_now E) (source_by_id (m_id row)) row);
           boosts = map (\<lambda>row. (m_id row, boosted row)) live;
           promotions = map m_id (filter (\<lambda>row. promotion_due cfg (boosted row) row) live)
       in bind_sm (draw (e_ulid E)) (\<lambda>ulid.
          bind_sm (sql (apply_direct_boosts u boosts (e_now E) (Some (''s_'' @ ulid)))) (\<lambda>_.
          if promotions \<noteq> [] then bind_sm (sql (promote_to_core u promotions)) (\<lambda>_. ret_sm ())
          else ret_sm ())))"

definition restore_cold :: "string \<Rightarrow> string list \<Rightarrow> unit handler" where
  "restore_cold u anchor_ids =
     bind_sm (sql (get_many_for_user u anchor_ids)) (\<lambda>rows.
       let cold_ids = map m_id (filter m_is_cold rows)
       in if cold_ids \<noteq> [] then bind_sm (sql (migrate_to_hot_many u cold_ids)) (\<lambda>_. ret_sm ())
          else ret_sm ())"

definition strengthen_results :: "env \<Rightarrow> string \<Rightarrow> search_result list \<Rightarrow> unit handler" where
  "strengthen_results E u results =
     bind_sm (apply_post_retrieval_strengthening E u (map (\<lambda>r. (r_memory_id r, r_source r)) results)) (\<lambda>_.
       let pairs = pairs_of (take 10 (map r_memory_id results))
       in if pairs \<noteq> []
          then bind_sm (sql (strengthen_pairs pairs ASSOCIATION_STRENGTHEN_AMOUNT (e_now E) ''co-retrieval''))
                 (\<lambda>_. ret_sm ())
          else ret_sm ())"

definition to_hit :: "search_result \<Rightarrow> search_hit" where
  "to_hit r = \<lparr>sh_memory_id = r_memory_id r, sh_content = r_content r, sh_category = r_category r,
     sh_memory_type = r_memory_type r, sh_score = r_score r\<rparr>"

definition request_options :: "env \<Rightarrow> search_memory_args \<Rightarrow> search_options" where
  "request_options E args = \<lparr>
     o_limit = sa_limit args, o_deep_recall = sa_deep_recall args,
     o_provider = emb_name (e_embedder E), o_model = emb_model (e_embedder E), o_now = e_now E,
     o_hybrid = sa_hybrid args, o_query_text = Some (sa_query args),
     o_graph_expansion_hops = sa_graph_expansion_hops args, o_min_bridge_edge_weight = 3 / 10,
     o_bridge_discovery = sa_bridge_discovery args, o_max_bridge_paths = 3\<rparr>"

definition handle_memory_search :: "env \<Rightarrow> search_memory_args \<Rightarrow> string \<Rightarrow> response handler" where
  "handle_memory_search E args connection_user =
     bind_sm (require_user_match (sa_user_id args) connection_user) (\<lambda>_.
     bind_sm (embed_text E (sa_query args)) (\<lambda>query_vec.
     bind_sm (run_search E (sa_user_id args) query_vec (request_options E args)) (\<lambda>results.
       let anchor_ids = map r_memory_id results in
       bind_sm (on_store Search_failed (find_bridges anchor_ids (request_options E args))) (\<lambda>bridge_paths.
       bind_sm (if sa_deep_recall args \<and> anchor_ids \<noteq> [] then restore_cold (sa_user_id args) anchor_ids
                else ret_sm ()) (\<lambda>_.
       bind_sm (if anchor_ids \<noteq> [] then strengthen_results E (sa_user_id args) results
                else ret_sm ()) (\<lambda>_.
         ret_sm (response_ok (MemorySearchResultsR (map to_hit results) bridge_paths))))))))"

section \<open>Reading and updating\<close>

definition handle_memory_get :: "env \<Rightarrow> get_memory_args \<Rightarrow> string \<Rightarrow> response handler" where
  "handle_memory_get E args connection_user =
     bind_sm (require_user_match (gm_user_id args) connection_user) (\<lambda>_.
     bind_sm (sql (get_for_user (gm_user_id args) (gm_id args))) (\<lambda>found.
     case found of
       None \<Rightarrow> throw_sm NotFound
     | Some row \<Rightarrow>
         if m_is_cold row
         then bind_sm (sql (migrate_to_hot_many (gm_user_id args) [m_id row])) (\<lambda>_.
                ret_sm (response_ok (MemoryR (memory_row_to_data E (to_hot row)))))
         else ret_sm (response_ok (MemoryR (memory_row_to_data E row)))))"

definition handle_memory_get_many :: "env \<Rightarrow> get_many_memory_args \<Rightarrow> string \<Rightarrow> response handler" where
  "handle_memory_get_many E args connection_user =
     bind_sm (require_user_match (gn_user_id args) connection_user) (\<lambda>_.
     bind_sm (sql (get_many_for_user (gn_user_id args) (gn_ids args))) (\<lambda>rows.
       let cold_ids = map m_id (filter m_is_cold rows) in
       if cold_ids \<noteq> []
       then bind_sm (sql (migrate_to_hot_many (gn_user_id args) cold_ids)) (\<lambda>_.
              ret_sm (response_ok (MemoriesR (map (memory_row_to_data E)
                (map (\<lambda>r. if m_is_cold r then to_hot r else r) rows)))))
       else ret_sm (response_ok (MemoriesR (map (memory_row_to_data E) rows)))))"

definition list_filters :: "list_memory_args \<Rightarrow> memory_filters" where
  "list_filters args = \<lparr>
     f_categories = li_categories args, f_memory_types = li_memory_types args,
     f_min_retention_floor = li_min_retention_floor args, f_min_importance = li_min_importance args,
     f_created_after = li_created_after args, f_created_before = li_created_before args,
     f_limit = li_limit args, f_offset = li_offset args,
     f_include_superseded = li_include_superseded args, f_include_cold = li_include_cold args,
     f_include_stubs = li_include_stubs args\<rparr>"

definition handle_memory_list :: "env \<Rightarrow> list_memory_args \<Rightarrow> string \<Rightarrow> response handler" where
  "handle_memory_list E args connection_user =
     bind_sm (require_user_match (li_user_id args) connection_user) (\<lambda>_.
     bind_sm (sql (query (li_user_id args) (list_filters args))) (\<lambda>rows.
       ret_sm (response_ok (MemoriesR (map (memory_row_to_data E) rows)))))"

definition affected_bool :: "bool \<Rightarrow> response" where
  "affected_bool b = response_ok (AffectedR (if b then 1 else 0))"

definition handle_memory_update :: "update_memory_args \<Rightarrow> string \<Rightarrow> response handler" where
  "handle_memory_update args connection_user =
     bind_sm (require_user_match (up_user_id args) connection_user) (\<lambda>_.
       let upd = \<lparr>u_content = up_content args, u_category = up_category args,
             u_memory_type = up_memory_type args, u_metadata = up_metadata args,
             u_retention_floor = up_retention_floor args, u_importance = up_importance args,
             u_stability = up_stability args, u_valid_until = up_valid_until args\<rparr>
       in bind_sm (sql (update_row (up_user_id args) (up_id args) upd)) (\<lambda>updated.
          ret_sm (affected_bool updated)))"

definition handle_memory_delete :: "delete_memory_args \<Rightarrow> string \<Rightarrow> response handler" where
  "handle_memory_delete args connection_user =
     bind_sm (require_user_match (dm_user_id args) connection_user) (\<lambda>_.
     bind_sm (sql (delete_row (dm_user_id args) (dm_id args))) (\<lambda>deleted.
       ret_sm (affected_bool deleted)))"

definition handle_memory_delete_many :: "delete_many_memory_args \<Rightarrow> string \<Rightarrow> response handler" where
  "handle_memory_delete_many args connection_user =
     bind_sm (require_user_match (dn_user_id args) connection_user) (\<lambda>_.
     bind_sm (sql (delete_many (dn_user_id args) (dn_ids args))) (\<lambda>n.
       ret_sm (response_ok (AffectedR n))))"

section \<open>Links\<close>

definition handle_memory_link :: "env \<Rightarrow> link_memory_args \<Rightarrow> string \<Rightarrow> response handler" where
  "handle_memory_link E args connection_user =
     bind_sm (require_user_match (lk_user_id args) connection_user) (\<lambda>_.
     bind_sm (sql (if lk_bidirectional args
                   then link_bidirectional (lk_source_id args) (lk_target_id args) (lk_strength args)
                          (e_now E) (lk_kind args)
                   else create_or_strengthen (lk_source_id args) (lk_target_id args) (lk_strength args)
                          (e_now E) (lk_kind args))) (\<lambda>strength.
       ret_sm (response_ok (LinkStrengthR strength))))"

definition handle_memory_unlink :: "unlink_memory_args \<Rightarrow> string \<Rightarrow> response handler" where
  "handle_memory_unlink args connection_user =
     bind_sm (require_user_match (ul_user_id args) connection_user) (\<lambda>_.
     if ul_bidirectional args
     then bind_sm (sql (delete_bidirectional (ul_source_id args) (ul_target_id args))) (\<lambda>n.
            ret_sm (response_ok (AffectedR n)))
     else bind_sm (sql (delete_link (ul_source_id args) (ul_target_id args))) (\<lambda>gone.
            ret_sm (affected_bool gone)))"

definition linked_response :: "env \<Rightarrow> linked_memory list \<Rightarrow> response" where
  "linked_response E linked =
     response_ok (LinkedMemoriesR (map (\<lambda>lm. (memory_row_to_data E (lm_memory lm), lm_link_strength lm)) linked))"

definition handle_memory_get_linked :: "env \<Rightarrow> get_linked_args \<Rightarrow> string \<Rightarrow> response handler" where
  "handle_memory_get_linked E args connection_user =
     bind_sm (require_user_match (gl_user_id args) connection_user) (\<lambda>_.
     bind_sm (sql (linked_for (gl_user_id args) (gl_source_id args) (gl_min_strength args))) (\<lambda>linked.
       ret_sm (linked_response E linked)))"

definition handle_memory_get_linked_many :: "env \<Rightarrow> get_linked_many_args \<Rightarrow> string \<Rightarrow> response handler" where
  "handle_memory_get_linked_many E args connection_user =
     bind_sm (require_user_match (gk_user_id args) connection_user) (\<lambda>_.
     bind_sm (sql (linked_for_many (gk_user_id args) (gk_source_ids args) (gk_min_strength args))) (\<lambda>linked.
       ret_sm (linked_response E linked)))"

section \<open>Searches without side effects, bulk update\<close>

definition handle_vector_search :: "env \<Rightarrow> vector_search_args \<Rightarrow> string \<Rightarrow> response handler" where
  "handle_vector_search E args connection_user =
     bind_sm (require_user_match (vs_user_id args) connection_user) (\<lambda>_.
       let opts = (new_search_options (vs_embedding_provider args) (vs_embedding_model args) (e_now E))
                    \<lparr>o_limit := vs_limit args, o_deep_recall := vs_deep_recall args\<rparr>
       in bind_sm (run_search E (vs_user_id args) (vs_embedding args) opts) (\<lambda>results.
          ret_sm (response_ok (MemorySearchResultsR (map to_hit results) []))))"

definition handle_search_lexical :: "env \<Rightarrow> search_lexical_args \<Rightarrow> string \<Rightarrow> response handler" where
  "handle_search_lexical E args connection_user =
     bind_sm (require_user_match (sl_user_id args) connection_user) (\<lambda>_.
     bind_sm (sql (bm25_search (e_fts_match E) (sl_user_id args) (sl_query args) (sl_limit args))) (\<lambda>ids.
       ret_sm (response_ok (LexicalIdsR ids))))"

definition handle_batch_update :: "batch_update_args \<Rightarrow> string \<Rightarrow> response handler" where
  "handle_batch_update args connection_user =
     bind_sm (require_user_match (bu_user_id args) connection_user) (\<lambda>_.
       let updates = map (\<lambda>u. (ru_id u, ru_retention_floor u)) (bu_updates args)
       in bind_sm (sql (update_retention_scores (bu_user_id args) updates)) (\<lambda>n.
          ret_sm (response_ok (AffectedR n))))"

definition handle_memory_request :: "env \<Rightarrow> memory_request \<Rightarrow> string \<Rightarrow> response handler" where
  "handle_memory_request E req connection_user = (case req of
      Subscribe _ \<Rightarrow> throw_sm (InvalidPayload
        ''Subscribe is connection-scoped and must be handled by the server'')
    | Store args \<Rightarrow> handle_memory_store E args connection_user
    | StoreBatch args \<Rightarrow> handle_memory_store_batch E args connection_user
    | Search args \<Rightarrow> handle_memory_search E args connection_user
    | Get args \<Rightarrow> handle_memory_get E args connection_user
    | GetMany args \<Rightarrow> handle_memory_get_many E args connection_user
    | ListMem args \<Rightarrow> handle_memory_list E args connection_user
    | Update args \<Rightarrow> handle_memory_update args connection_user
    | Delete args \<Rightarrow> handle_memory_delete args connection_user
    | DeleteMany args \<Rightarrow> handle_memory_delete_many args connection_user
    | Link args \<Rightarrow> handle_memory_link E args connection_user
    | Unlink args \<Rightarrow> handle_memory_unlink args connection_user
    | GetLinked args \<Rightarrow> handle_memory_get_linked E args connection_user
    | GetLinkedMany args \<Rightarrow> handle_memory_get_linked_many E args connection_user
    | VectorSearch args \<Rightarrow> handle_vector_search E args connection_user
    | SearchLexical args \<Rightarrow> handle_search_lexical E args connection_user
    | BatchUpdate args \<Rightarrow> handle_batch_update args connection_user)"

section \<open>Frames\<close>

lemma embedded_row_simps [simp]:
  "wf_memory (embedded_row E i u c cat ty md v)"
  "m_id (embedded_row E i u c cat ty md v) = i"
  "m_user_id (embedded_row E i u c cat ty md v) = u"
  by (simp_all add: embedded_row_def wf_memory_def) (simp_all add: new_minimal_def)

lemma with_importance_simps [simp]:
  "wf_memory (with_importance imp r) = wf_memory r"
  "m_id (with_importance imp r) = m_id r"
  "m_user_id (with_importance imp r) = m_user_id r"
  by (simp_all add: with_importance_def wf_memory_def split: option.split)

lemma synaptic_tag_weight_range:
  assumes "f_le (Fin SYNAPTIC_TAG_THRESHOLD) sim" "\<not> f_le (Fin STABILITY_REINFORCEMENT_THRESHOLD) sim"
  shows "2 / 10 \<le> synaptic_tag_weight (real_of_fl sim) \<and> synaptic_tag_weight (real_of_fl sim) < 1 / 2"
  using assms
  by (cases sim) (auto simp: synaptic_tag_weight_def SYNAPTIC_TAG_THRESHOLD_def min_def
      SYNAPTIC_TAG_BASE_WEIGHT_def STABILITY_REINFORCEMENT_THRESHOLD_def f_le_def field_simps)

lemma synaptic_link_user:
  "0 \<le> w \<Longrightarrow> w \<le> 1 \<Longrightarrow> keeps (user_step u) (synaptic_link src tgt w now)"
  unfolding synaptic_link_def
  by (intro keeps_user upsert_association_inv other_tables_iso statements_kv) (auto simp: edge_key_def)

lemma reinforce_user:
  "keeps (user_step u) (update_memories (own u i) (\<lambda>m. m\<lparr>m_stability := g (m_stability m)\<rparr>))"
  by (intro keeps_user update_memories_inv update_memories_iso statements_kv)
    (auto simp: wf_memory_def dest: own_user)

lemma band_loop_user: "keeps (user_step u) (band_loop u new_id now hits)"
proof (induction hits)
  case (Cons hit hits)
  have "keeps (user_step u) (synaptic_link a b (synaptic_tag_weight (real_of_fl sim)) now)"
    if "f_le (Fin SYNAPTIC_TAG_THRESHOLD) sim" "\<not> f_le (Fin STABILITY_REINFORCEMENT_THRESHOLD) sim" for a b sim
    using synaptic_tag_weight_range [OF that] by (intro synaptic_link_user) auto
  with Cons.IH show ?case
    by (auto simp: Let_def intro!: usr.keeps_bind usr.keeps_ret assoc_writes_user
        reinforce_user [where g = "\<lambda>x. min 1 (x + STABILITY_REINFORCEMENT_AMOUNT)"])
qed (simp add: usr.keeps_ret)

lemma queue_conflicts_for_user:
  "keeps (store_frame (user_step u)) (queue_conflicts_for E u i v)"
  unfolding queue_conflicts_for_def Let_def
  by (intro app_usr.keeps_bind app_ops_user keeps_sql usr.keeps_transaction band_loop_user)

lemma store_entry_user: "keeps (store_frame (user_step u)) (store_entry E u entry ids)"
  unfolding store_entry_def Let_def
  by (intro app_usr.keeps_rules app_ops_user keeps_sql repo_writes_user) simp_all

lemma link_batch_user: "keeps (store_frame (user_step u)) (link_batch E w ids)"
  unfolding link_batch_def
  by (auto intro!: app_usr.keeps_rules keeps_sql assoc_writes_user)

lemma store_handlers_user:
  "keeps (store_frame (user_step u)) (handle_memory_store E sargs u)"
  "keeps (store_frame (user_step u)) (handle_memory_store_batch E bargs u)"
  unfolding handle_memory_store_def handle_memory_store_batch_def Let_def
  by (auto intro!: keeps_user_match app_usr.keeps_rules app_ops_user keeps_sql repo_writes_user
      queue_conflicts_for_user store_entry_user link_batch_user)

lemma strengthening_user:
  "keeps (store_frame (user_step u)) (apply_post_retrieval_strengthening E u retrieved)"
  "keeps (store_frame (user_step u)) (restore_cold u ids)"
  unfolding apply_post_retrieval_strengthening_def restore_cold_def Let_def
  by (auto intro!: app_usr.keeps_rules app_ops_user keeps_sql repo_writes_user repo_reads_user)

lemma strengthen_results_user: "keeps (store_frame (user_step u)) (strengthen_results E u results)"
  unfolding strengthen_results_def Let_def
  by (auto intro!: app_usr.keeps_rules strengthening_user keeps_sql assoc_writes_user
      simp: ASSOCIATION_STRENGTHEN_AMOUNT_def)

lemma search_handlers_user:
  "keeps (store_frame (user_step u)) (handle_memory_search E sargs u)"
  "keeps (store_frame (user_step u)) (handle_vector_search E vargs u)"
  "keeps (store_frame (user_step u)) (handle_search_lexical E largs u)"
  unfolding handle_memory_search_def handle_vector_search_def handle_search_lexical_def Let_def
  by (auto intro!: keeps_user_match app_usr.keeps_rules app_ops_user keeps_sql keeps_on_store
      repo_reads_user strengthening_user strengthen_results_user)

lemma read_handlers_user:
  "keeps (store_frame (user_step u)) (handle_memory_get E gargs u)"
  "keeps (store_frame (user_step u)) (handle_memory_get_many E nargs u)"
  "keeps (store_frame (user_step u)) (handle_memory_list E largs u)"
  "keeps (store_frame (user_step u)) (handle_memory_get_linked E kargs u)"
  "keeps (store_frame (user_step u)) (handle_memory_get_linked_many E margs u)"
  unfolding handle_memory_get_def handle_memory_get_many_def handle_memory_list_def
    handle_memory_get_linked_def handle_memory_get_linked_many_def Let_def
  by (auto split: option.split intro!: keeps_user_match app_usr.keeps_rules keeps_sql
      repo_reads_user repo_writes_user)

lemma write_handlers_user:
  "keeps (store_frame (user_step u)) (handle_memory_update uargs u)"
  "keeps (store_frame (user_step u)) (handle_memory_delete dargs u)"
  "keeps (store_frame (user_step u)) (handle_memory_delete_many nargs u)"
  "keeps (store_frame (user_step u)) (handle_memory_link E largs u)"
  "keeps (store_frame (user_step u)) (handle_memory_unlink kargs u)"
  "keeps (store_frame (user_step u)) (handle_batch_update bargs u)"
  unfolding handle_memory_update_def handle_memory_delete_def handle_memory_delete_many_def
    handle_memory_link_def handle_memory_unlink_def handle_batch_update_def Let_def
  by (auto intro!: keeps_user_match app_usr.keeps_rules keeps_sql repo_writes_user assoc_writes_user)

lemma memory_request_user: "keeps (store_frame (user_step u)) (handle_memory_request E req u)"
  unfolding handle_memory_request_def
  by (cases req) (simp_all add: app_usr.keeps_throw store_handlers_user search_handlers_user
      read_handlers_user write_handlers_user)

end
