(* ===== verification/Lifecycle_Handlers.thy ===== *)
theory Lifecycle_Handlers
  imports Memory_Handlers
begin

text \<open>
  The lifecycle bucket of \<open>crates/daemon/src/handlers.rs\<close>: the maintenance tick with its four
  passes (floor counter and cold migration, expiry of cold memories to stubs, conflict resolution,
  consolidation), and the handlers for single lifecycle operations.
\<close>

section \<open>Pass 1: floor counter and cold migration\<close>

definition COLD_MIGRATION_DAYS :: int where
  "COLD_MIGRATION_DAYS = 7"

definition COLD_TTL_DAYS :: int where
  "COLD_TTL_DAYS = 180"

definition CONFLICT_RESOLUTION_BATCH :: int where
  "CONFLICT_RESOLUTION_BATCH = 50"

text \<open>\<open>(retention - floor).abs() < 1e-9 && floor > 0.0\<close>: false for an infinite or NaN retention.\<close>

definition at_floor :: "fl \<Rightarrow> real \<Rightarrow> bool" where
  "at_floor retention fl_or \<longleftrightarrow>
     (case retention of Fin r \<Rightarrow> \<bar>r - fl_or\<bar> < 1 / 10 ^ 9 | _ \<Rightarrow> False) \<and> 0 < fl_or"

definition by_id :: "string \<Rightarrow> memory_row \<Rightarrow> bool" where
  "by_id i m \<longleftrightarrow> m_id m = i"

definition is_hot :: "memory_row \<Rightarrow> bool" where
  "is_hot m \<longleftrightarrow> \<not> m_is_cold m \<and> \<not> m_is_stub m \<and> \<not> m_is_superseded m"

definition decay_row :: "env \<Rightarrow> memory_row \<Rightarrow> nat \<Rightarrow> nat sql" where
  "decay_row E row decayed =
     bind_sm (if at_floor (compute_current_retention row (e_now E) (e_lifecycle E)) (m_retention_floor row)
              then bind_sm (update_memories (by_id (m_id row)) (\<lambda>m. m\<lparr>m_days_at_floor := m_days_at_floor m + 1\<rparr>))
                     (\<lambda>_. ret_sm (decayed + 1, m_days_at_floor row + 1))
              else bind_sm (if 0 < m_days_at_floor row
                            then update_memories (by_id (m_id row)) (\<lambda>m. m\<lparr>m_days_at_floor := 0\<rparr>)
                            else ret_sm 0) (\<lambda>_. ret_sm (decayed, 0))) (\<lambda>(decayed', new_days_at_floor).
     bind_sm (if m_category row \<noteq> ''core'' \<and> COLD_MIGRATION_DAYS \<le> new_days_at_floor
              then update_memories (by_id (m_id row)) (to_cold (e_now E))
              else ret_sm 0) (\<lambda>_.
       ret_sm decayed'))"

definition decay_pass :: "env \<Rightarrow> nat handler" where
  "decay_pass E =
     bind_sm (sql (select_memories is_hot)) (\<lambda>hot_rows.
       sql (transaction (fold_sm hot_rows (decay_row E) 0)))"

section \<open>Pass 2: expiry of cold memories\<close>

definition stale_cold :: "int \<Rightarrow> memory_row \<Rightarrow> bool" where
  "stale_cold now m \<longleftrightarrow> m_is_cold m \<and> \<not> m_is_stub m
     \<and> (case m_cold_since m of None \<Rightarrow> False | Some since \<Rightarrow> since < now - COLD_TTL_DAYS * 86400)"

definition archive :: "string \<Rightarrow> memory_row \<Rightarrow> memory_row" where
  "archive stub m = m\<lparr>m_is_stub := True, m_stub_content := Some stub, m_embedding := None\<rparr>"

definition expire_row :: "memory_row \<Rightarrow> unit sql" where
  "expire_row row =
     (if m_category row = ''core'' then ret_sm ()
      else bind_sm (update_memories (by_id (m_id row)) (archive (''[archived] '' @ take 200 (m_content row))))
             (\<lambda>_. ret_sm ()))"

definition expiry_pass :: "env \<Rightarrow> unit handler" where
  "expiry_pass E =
     bind_sm (sql (select_memories (stale_cold (e_now E)))) (\<lambda>rows.
       sql (transaction (for_sm rows expire_row)))"

section \<open>Pass 3: conflict resolution\<close>

text \<open>\<open>str::replace\<close> and \<open>str::to_uppercase\<close> of the standard library. The upper cases of U+00B5 and
  U+00FF lie beyond Latin-1; they are left alone, which no label can tell.\<close>

function replace_str :: "string \<Rightarrow> string \<Rightarrow> string \<Rightarrow> string" where
  "replace_str p r [] = []"
| "replace_str p r (c # s) =
     (if p \<noteq> [] \<and> starts_with (c # s) p then r @ replace_str p r (drop (length p - 1) s)
      else c # replace_str p r s)"
  by pat_completeness auto
termination by (relation "measure (\<lambda>(p, r, s). length s)") auto

definition upper_char :: "char \<Rightarrow> string" where
  "upper_char c = (let n = of_char c :: nat in
     if (97 \<le> n \<and> n \<le> 122) \<or> (224 \<le> n \<and> n \<le> 254 \<and> n \<noteq> 247) then [char_of (n - 32)]
     else if n = 223 then ''SS'' else [c])"

definition to_uppercase :: "string \<Rightarrow> string" where
  "to_uppercase s = concat (map upper_char s)"

definition nl :: string where
  "nl = [CHR 0x0A]"

definition dq :: string where
  "dq = [CHR 0x22]"

definition CONFLICT_JUDGE_PROMPT :: string where
  "CONFLICT_JUDGE_PROMPT =
     ''Does the new memory contradict or update an existing memory?'' @ nl @ nl
     @ ''Existing memory: '' @ dq @ ''{existing}'' @ dq @ nl
     @ ''New memory: '' @ dq @ ''{new}'' @ dq @ nl @ nl
     @ ''Respond with exactly one word: CONTRADICTION, UPDATE, OVERLAP, or NONE.'' @ nl
     @ ''- CONTRADICTION: the new memory directly negates the existing one'' @ nl
     @ ''- UPDATE: the new memory is a newer version of the same fact'' @ nl
     @ ''- OVERLAP: they cover similar ground but don'' @ [CHR 0x27] @ ''t conflict'' @ nl
     @ ''- NONE: they are unrelated''"

datatype conflict_label = Contradiction_label | Update_label | Overlap_label | None_label

definition parse_conflict_label :: "string \<Rightarrow> conflict_label" where
  "parse_conflict_label raw =
     (let upper = to_uppercase (trim_str raw) in
      if contains_str upper ''CONTRADICTION'' then Contradiction_label
      else if contains_str upper ''UPDATE'' then Update_label
      else if contains_str upper ''OVERLAP'' then Overlap_label
      else None_label)"

definition judge :: "env \<Rightarrow> memory_row \<Rightarrow> memory_row \<Rightarrow> conflict_label" where
  "judge E n e = (case e_llm E of
      Some llm \<Rightarrow>
        (case llm (replace_str ''{new}'' (m_content n)
                 (replace_str ''{existing}'' (m_content e) CONFLICT_JUDGE_PROMPT)) 20 of
           Inr raw \<Rightarrow> parse_conflict_label raw
         | Inl err \<Rightarrow> None_label)
    | None \<Rightarrow> Contradiction_label)"

text \<open>Which of the two memories wins, as \<open>(winner, loser)\<close>.\<close>

definition pick_winner :: "bool \<Rightarrow> memory_row \<Rightarrow> memory_row \<Rightarrow> memory_row \<times> memory_row" where
  "pick_winner has_llm n e =
     (if has_llm then (n, e)
      else if m_importance e < m_importance n
              \<or> (m_importance n = m_importance e \<and> m_created_at e < m_created_at n)
      then (n, e) else (e, n))"

definition bump_importance :: "memory_row \<Rightarrow> memory_row \<Rightarrow> unit sql" where
  "bump_importance n e =
     (let new_importance = max (m_importance n) (m_importance e) in
      if 1 / 2 ^ 52 < \<bar>new_importance - m_importance n\<bar>
      then bind_sm (update_memories (by_id (m_id n)) (\<lambda>m. m\<lparr>m_importance := new_importance\<rparr>)) (\<lambda>_. ret_sm ())
      else ret_sm ())"

definition supersede_by :: "string \<Rightarrow> memory_row \<Rightarrow> memory_row" where
  "supersede_by w m = m\<lparr>m_is_superseded := True, m_superseded_by := Some w, m_contradicted_by := Some w\<rparr>"

definition demote :: "memory_row \<Rightarrow> memory_row" where
  "demote m = m\<lparr>m_category := ''semantic'', m_retention_floor := 0\<rparr>"

definition settle :: "env \<Rightarrow> memory_row \<Rightarrow> memory_row \<Rightarrow> conflict_label \<Rightarrow> unit sql" where
  "settle E n e outcome =
     bind_sm (if e_llm E \<noteq> None \<and> outcome = Update_label then bump_importance n e else ret_sm ()) (\<lambda>_.
       case pick_winner (e_llm E \<noteq> None) n e of (winner, loser) \<Rightarrow>
         bind_sm (update_memories (by_id (m_id loser)) (supersede_by (m_id winner))) (\<lambda>_.
         bind_sm (if m_category loser = ''core'' then update_memories (by_id (m_id loser)) demote
                  else ret_sm 0) (\<lambda>_. ret_sm ())))"

definition resolve_pair :: "env \<Rightarrow> conflict_row \<Rightarrow> nat \<Rightarrow> nat sql" where
  "resolve_pair E q resolved =
     bind_sm (get_for_user (q_user_id q) (q_new q)) (\<lambda>new_row.
     bind_sm (get_for_user (q_user_id q) (q_existing q)) (\<lambda>existing_row.
     bind_sm (case (new_row, existing_row) of
         (Some n, Some e) \<Rightarrow>
           if \<not> m_is_superseded n \<and> \<not> m_is_superseded e
           then (let outcome = judge E n e in
                 if outcome = Contradiction_label \<or> outcome = Update_label
                 then bind_sm (settle E n e outcome) (\<lambda>_. ret_sm (resolved + 1))
                 else ret_sm resolved)
           else ret_sm resolved
       | _ \<Rightarrow> ret_sm resolved) (\<lambda>resolved'.
     bind_sm (delete_conflicts (\<lambda>r. q_id r = q_id q)) (\<lambda>_.
       ret_sm resolved'))))"

definition next_conflicts :: "db \<Rightarrow> conflict_row list" where
  "next_conflicts d = sql_limit CONFLICT_RESOLUTION_BATCH (sort_by (cmp_desc q_similarity) (conflict_queue d))"

definition resolve_conflicts :: "env \<Rightarrow> nat handler" where
  "resolve_conflicts E =
     bind_sm (sql (gets_sm next_conflicts)) (\<lambda>pairs.
       if pairs = [] then ret_sm 0
       else sql (transaction (fold_sm pairs (resolve_pair E) 0)))"

section \<open>Pass 4: consolidation\<close>

definition CONSOLIDATION_RETENTION_THRESHOLD :: real where
  "CONSOLIDATION_RETENTION_THRESHOLD = 20 / 100"

definition CONSOLIDATION_GROUP_SIZE :: nat where
  "CONSOLIDATION_GROUP_SIZE = 5"

definition CONSOLIDATION_SIM_THRESHOLD :: real where
  "CONSOLIDATION_SIM_THRESHOLD = 70 / 100"

definition CONSOLIDATION_MAX_PER_TICK :: nat where
  "CONSOLIDATION_MAX_PER_TICK = 5"

definition CONSOLIDATION_PROMPT :: string where
  "CONSOLIDATION_PROMPT =
     ''Compress these related memories into a single concise summary that preserves all key facts.'' @ nl @ nl
     @ ''Memories:'' @ nl @ ''{memories}'' @ nl @ nl
     @ ''Write one clear paragraph. Preserve specific names, dates, numbers, and preferences. ''
     @ ''Do not add information that isn'' @ [CHR 0x27] @ ''t in the originals.''"

definition decode_embedding :: "byte list option \<Rightarrow> f32 list" where
  "decode_embedding bytes = (case bytes of Some b \<Rightarrow> decode_f32s b | None \<Rightarrow> [])"

text \<open>The maximum over the group starts at \<open>NEG_INFINITY\<close> and is then raised to zero.\<close>

definition summary_row_of :: "env \<Rightarrow> string \<Rightarrow> string \<Rightarrow> memory_row list \<Rightarrow> string \<Rightarrow> f32 list \<Rightarrow> memory_row" where
  "summary_row_of E summary_id u grp summary_text summary_vec =
     (let category = m_category (hd grp) in
      (new_minimal summary_id u summary_text category ''summary'' (e_now E))\<lparr>
        m_embedding := Some (encode_f32s summary_vec),
        m_embedding_provider := Some (emb_name (e_embedder E)),
        m_embedding_model := Some (emb_model (e_embedder E)),
        m_importance := foldr max (map m_importance grp) 0,
        m_stability := sum_list (map m_stability grp) / real (length grp),
        m_retention_floor := (if category = ''core'' then CORE_RETENTION_FLOOR else 0)\<rparr>)"

definition fold_into :: "string \<Rightarrow> int \<Rightarrow> memory_row \<Rightarrow> memory_row" where
  "fold_into summary_id now m =
     m\<lparr>m_is_superseded := True, m_superseded_by := Some summary_id, m_is_cold := True, m_cold_since := Some now\<rparr>"

definition compress_cluster ::
  "env \<Rightarrow> string \<Rightarrow> memory_row list \<Rightarrow> (string \<Rightarrow> nat \<Rightarrow> string + string) \<Rightarrow> string handler" where
  "compress_cluster E u grp llm =
     (let bullet_list = join_str nl (map (\<lambda>m. ''- '' @ m_content m) grp);
          prompt = replace_str ''{memories}'' bullet_list CONSOLIDATION_PROMPT
      in bind_sm (lift_sm (map_sum (\<lambda>e. InvalidPayload (''LLM compress: '' @ e)) id (llm prompt 200)))
           (\<lambda>summary_text.
         bind_sm (embed_text E summary_text) (\<lambda>summary_vec.
         bind_sm (draw (e_ulid E)) (\<lambda>ulid.
           let summary_id = ''mem_'' @ ulid in
           bind_sm (sql (insert_row (summary_row_of E summary_id u grp summary_text summary_vec))) (\<lambda>_.
           bind_sm (sql (transaction (for_sm grp (\<lambda>m.
               bind_sm (update_memories (own u (m_id m)) (fold_into summary_id (e_now E))) (\<lambda>_. ret_sm ())))))
             (\<lambda>_. ret_sm summary_id))))))"

text \<open>The candidates that join a head: not yet used, the same dimension, similar enough; the search
  stops at the group size.\<close>

fun gather :: "f32 list \<Rightarrow> string list \<Rightarrow> memory_row list \<Rightarrow> memory_row list \<Rightarrow> memory_row list" where
  "gather head_vec used [] grp = grp"
| "gather head_vec used (cand # cands) grp =
     (if m_id cand \<in> set used then gather head_vec used cands grp
      else let cand_vec = decode_embedding (m_embedding cand) in
        if length cand_vec \<noteq> length head_vec then gather head_vec used cands grp
        else if f_le (Fin CONSOLIDATION_SIM_THRESHOLD) (cosine_similarity_f32 head_vec cand_vec)
        then (if CONSOLIDATION_GROUP_SIZE \<le> length (grp @ [cand]) then grp @ [cand]
              else gather head_vec used cands (grp @ [cand]))
        else gather head_vec used cands grp)"

text \<open>The loop over the heads of one category; \<open>break 'outer\<close> is the return at the cap.\<close>

fun cluster_loop ::
  "env \<Rightarrow> string \<Rightarrow> (string \<Rightarrow> nat \<Rightarrow> string + string) \<Rightarrow> memory_row list \<Rightarrow> string list \<Rightarrow> nat \<Rightarrow> nat handler" where
  "cluster_loop E u llm [] used created = ret_sm created"
| "cluster_loop E u llm (h # rest) used created =
     (if m_id h \<in> set used then cluster_loop E u llm rest used created
      else let head_vec = decode_embedding (m_embedding h) in
        if head_vec = [] then cluster_loop E u llm rest used created
        else let grp = gather head_vec used rest [h] in
          if CONSOLIDATION_GROUP_SIZE \<le> length grp
          then bind_sm (compress_cluster E u grp llm) (\<lambda>_.
                 if CONSOLIDATION_MAX_PER_TICK \<le> created + 1 then ret_sm (created + 1)
                 else cluster_loop E u llm rest (map m_id grp @ used) (created + 1))
          else cluster_loop E u llm rest used created)"

definition consolidate_category ::
  "env \<Rightarrow> string \<Rightarrow> (string \<Rightarrow> nat \<Rightarrow> string + string) \<Rightarrow> memory_row list \<Rightarrow> string \<Rightarrow> nat \<Rightarrow> nat handler" where
  "consolidate_category E u llm fading category created =
     (let mems = filter (\<lambda>m. m_category m = category) fading in
      if CONSOLIDATION_MAX_PER_TICK \<le> created \<or> length mems < CONSOLIDATION_GROUP_SIZE then ret_sm created
      else cluster_loop E u llm mems [] created)"

definition consolidate_user ::
  "env \<Rightarrow> (string \<Rightarrow> nat \<Rightarrow> string + string) \<Rightarrow> string \<Rightarrow> nat \<Rightarrow> nat handler" where
  "consolidate_user E llm u created =
     (if CONSOLIDATION_MAX_PER_TICK \<le> created then ret_sm created
      else bind_sm (sql (select_memories (\<lambda>m. m_user_id m = u \<and> is_hot m \<and> m_embedding m \<noteq> None))) (\<lambda>rows.
        let fading = filter (\<lambda>r. f_lt (compute_current_retention r (e_now E) (e_lifecycle E))
                                      (Fin CONSOLIDATION_RETENTION_THRESHOLD)) rows
        in fold_sm (e_cat_iter E (remdups (map m_category fading))) (consolidate_category E u llm fading) created))"

definition consolidate_at_tick :: "env \<Rightarrow> nat handler" where
  "consolidate_at_tick E = (case e_llm E of
      None \<Rightarrow> ret_sm 0
    | Some llm \<Rightarrow>
        bind_sm (sql (gets_sm (\<lambda>d. remdups (map m_user_id (filter is_hot (memories d)))))) (\<lambda>users.
          fold_sm users (consolidate_user E llm) 0))"

definition handle_tick :: "env \<Rightarrow> tick_args \<Rightarrow> response handler" where
  "handle_tick E args =
     bind_sm (decay_pass E) (\<lambda>decayed.
     bind_sm (expiry_pass E) (\<lambda>_.
     bind_sm (resolve_conflicts E) (\<lambda>resolved.
     bind_sm (consolidate_at_tick E) (\<lambda>consolidated.
     bind_sm (send_event (TickCompleted decayed consolidated (e_rfc3339 E))) (\<lambda>_.
       ret_sm (response_ok (TickR True decayed)))))))"

section \<open>Single operations\<close>

definition handle_find_fading :: "env \<Rightarrow> find_fading_args \<Rightarrow> string \<Rightarrow> response handler" where
  "handle_find_fading E args connection_user =
     bind_sm (require_user_match (ff_user_id args) connection_user) (\<lambda>_.
     bind_sm (sql (find_fading_candidates (ff_user_id args))) (\<lambda>rows.
       let scored = filter (\<lambda>(row, r). f_le r (Fin (ff_max_retention args)))
             (map (\<lambda>row. (row, compute_current_retention row (e_now E) (e_lifecycle E))) rows);
           kept = take (wrap_u64 (ff_limit args)) (sort_by (cmp_asc snd) scored)
       in ret_sm (response_ok (MemoriesR (map (\<lambda>(row, r). memory_row_to_data E row) kept)))))"

definition handle_find_stable :: "env \<Rightarrow> find_stable_args \<Rightarrow> string \<Rightarrow> response handler" where
  "handle_find_stable E args connection_user =
     bind_sm (require_user_match (fs_user_id args) connection_user) (\<lambda>_.
     bind_sm (sql (find_stable (fs_user_id args) (fs_min_stability args) (fs_min_access_count args)
                    (fs_limit args))) (\<lambda>rows.
       ret_sm (response_ok (MemoriesR (map (memory_row_to_data E) rows)))))"

definition handle_mark_superseded :: "mark_superseded_args \<Rightarrow> string \<Rightarrow> response handler" where
  "handle_mark_superseded args connection_user =
     bind_sm (require_user_match (ms_user_id args) connection_user) (\<lambda>_.
     bind_sm (sql (mark_superseded (ms_user_id args) (ms_ids args) (ms_summary_id args))) (\<lambda>n.
       ret_sm (response_ok (AffectedR n))))"

definition handle_migrate_to_cold :: "migrate_to_cold_args \<Rightarrow> string \<Rightarrow> response handler" where
  "handle_migrate_to_cold args connection_user =
     bind_sm (require_user_match (mc_user_id args) connection_user) (\<lambda>_.
     bind_sm (sql (migrate_to_cold (mc_user_id args) (mc_id args) (mc_cold_since args))) (\<lambda>ok.
       ret_sm (affected_bool ok)))"

definition handle_migrate_to_hot :: "migrate_to_hot_args \<Rightarrow> string \<Rightarrow> response handler" where
  "handle_migrate_to_hot args connection_user =
     bind_sm (require_user_match (mh_user_id args) connection_user) (\<lambda>_.
     bind_sm (sql (migrate_to_hot (mh_user_id args) (mh_id args))) (\<lambda>ok.
       ret_sm (affected_bool ok)))"

definition handle_convert_to_stub :: "convert_to_stub_args \<Rightarrow> string \<Rightarrow> response handler" where
  "handle_convert_to_stub args connection_user =
     bind_sm (require_user_match (cs_user_id args) connection_user) (\<lambda>_.
     bind_sm (sql (convert_to_stub (cs_user_id args) (cs_id args) (cs_stub_content args))) (\<lambda>ok.
       ret_sm (affected_bool ok)))"

definition no_update :: memory_update where
  "no_update = \<lparr>u_content = None, u_category = None, u_memory_type = None, u_metadata = None,
     u_retention_floor = None, u_importance = None, u_stability = None, u_valid_until = None\<rparr>"

definition handle_update_retention :: "update_retention_args \<Rightarrow> string \<Rightarrow> response handler" where
  "handle_update_retention args connection_user =
     bind_sm (require_user_match (ur_user_id args) connection_user) (\<lambda>_.
     bind_sm (sql (update_row (ur_user_id args) (ur_id args)
                (no_update\<lparr>u_retention_floor := Some (ur_retention_floor args)\<rparr>))) (\<lambda>updated.
       ret_sm (affected_bool updated)))"

definition handle_clear :: "clear_args \<Rightarrow> string \<Rightarrow> response handler" where
  "handle_clear args connection_user =
     bind_sm (require_user_match (cl_user_id args) connection_user) (\<lambda>_.
     if \<not> cl_confirm args
     then throw_sm (InvalidPayload ''Lifecycle::Clear requires confirm=true - destructive'')
     else bind_sm (sql (clear_user (cl_user_id args))) (\<lambda>n.
       ret_sm (response_ok (AffectedR n))))"

definition handle_lifecycle_request :: "env \<Rightarrow> lifecycle_request \<Rightarrow> string \<Rightarrow> response handler" where
  "handle_lifecycle_request E req connection_user = (case req of
      Tick args \<Rightarrow> handle_tick E args
    | FindFading args \<Rightarrow> handle_find_fading E args connection_user
    | FindStable args \<Rightarrow> handle_find_stable E args connection_user
    | MarkSuperseded args \<Rightarrow> handle_mark_superseded args connection_user
    | MigrateToCold args \<Rightarrow> handle_migrate_to_cold args connection_user
    | MigrateToHot args \<Rightarrow> handle_migrate_to_hot args connection_user
    | ConvertToStub args \<Rightarrow> handle_convert_to_stub args connection_user
    | UpdateRetention args \<Rightarrow> handle_update_retention args connection_user
    | Clear args \<Rightarrow> handle_clear args connection_user)"

section \<open>Frames\<close>

lemma lifecycle_ops_user:
  "keeps (store_frame (user_step u)) (handle_find_fading E fargs u)"
  "keeps (store_frame (user_step u)) (handle_find_stable E sargs u)"
  "keeps (store_frame (user_step u)) (handle_mark_superseded margs u)"
  "keeps (store_frame (user_step u)) (handle_migrate_to_cold cargs u)"
  "keeps (store_frame (user_step u)) (handle_migrate_to_hot hargs u)"
  "keeps (store_frame (user_step u)) (handle_convert_to_stub bargs u)"
  "keeps (store_frame (user_step u)) (handle_update_retention rargs u)"
  "keeps (store_frame (user_step u)) (handle_clear largs u)"
  unfolding handle_find_fading_def handle_find_stable_def handle_mark_superseded_def
    handle_migrate_to_cold_def handle_migrate_to_hot_def handle_convert_to_stub_def
    handle_update_retention_def handle_clear_def Let_def
  by (auto intro!: keeps_user_match app_usr.keeps_rules keeps_sql repo_reads_user repo_writes_user)

lemma lifecycle_request_user:
  "\<forall>args. req \<noteq> Tick args \<Longrightarrow> keeps (store_frame (user_step u)) (handle_lifecycle_request E req u)"
  unfolding handle_lifecycle_request_def by (cases req) (simp_all add: lifecycle_ops_user)

text \<open>The tick changes memories of every user, by id; it keeps the invariant and the \<open>kv\<close> table.\<close>

lemma update_sys:
  "(\<And>m. m_id (f m) = m_id m) \<Longrightarrow> (\<And>m. m_content (f m) = m_content m) \<Longrightarrow>
   (\<And>m. wf_memory m \<Longrightarrow> wf_memory (f m)) \<Longrightarrow> keeps sys_step (update_memories P f)"
  by (intro keeps_sys update_memories_inv statements_kv)

lemma row_changes_sys:
  "keeps sys_step (update_memories P (\<lambda>m. m\<lparr>m_days_at_floor := m_days_at_floor m + 1\<rparr>))"
  "keeps sys_step (update_memories P (\<lambda>m. m\<lparr>m_days_at_floor := 0\<rparr>))"
  "keeps sys_step (update_memories P (\<lambda>m. m\<lparr>m_importance := imp\<rparr>))"
  "keeps sys_step (update_memories P (to_cold t))"
  "keeps sys_step (update_memories P (archive stub))"
  "keeps sys_step (update_memories P (supersede_by w))"
  "keeps sys_step (update_memories P demote)"
  by (intro update_sys; simp add: to_cold_def archive_def supersede_by_def demote_def wf_memory_def)+

lemma select_sys: "keeps sys_step (select_memories P)"
  by (intro keeps_sys select_memories_keeps statements_kv)

lemma decay_row_sys: "keeps sys_step (decay_row E row n)"
  unfolding decay_row_def
  by (intro sysf.keeps_bind sysf.keeps_if) (simp_all add: row_changes_sys sysf.keeps_rules split: prod.split)

lemma decay_pass_sys: "keeps (store_frame sys_step) (decay_pass E)"
  unfolding decay_pass_def
  by (intro app_sys.keeps_bind keeps_sql select_sys sysf.keeps_transaction sysf.keeps_fold decay_row_sys)

lemma expiry_pass_sys: "keeps (store_frame sys_step) (expiry_pass E)"
  unfolding expiry_pass_def expire_row_def
  by (intro app_sys.keeps_bind keeps_sql select_sys sysf.keeps_rules row_changes_sys)

lemma settle_sys: "keeps sys_step (settle E n e outcome)"
  unfolding settle_def bump_importance_def Let_def
  by (cases "pick_winner (e_llm E \<noteq> None) n e")
    (simp add: sysf.keeps_bind sysf.keeps_ret row_changes_sys)

lemma resolve_pair_sys: "keeps sys_step (resolve_pair E q n)"
proof -
  have "keeps sys_step (get_for_user u i)" for u i
    by (intro keeps_sys repo_reads_inv repo_reads_kv)
  moreover have "keeps sys_step (delete_conflicts P)" for P
    by (intro keeps_sys delete_conflicts_inv statements_kv)
  ultimately show ?thesis
    unfolding resolve_pair_def Let_def
    by (simp add: sysf.keeps_bind sysf.keeps_ret settle_sys split: option.split)
qed

lemma resolve_conflicts_sys: "keeps (store_frame sys_step) (resolve_conflicts E)"
  unfolding resolve_conflicts_def
  by (intro app_sys.keeps_rules keeps_sql sysf.keeps_rules resolve_pair_sys)

lemma wf_summary_row [simp]:
  "wf_memory (summary_row_of E i u g t v)" "m_user_id (summary_row_of E i u g t v) = u"
  "m_id (summary_row_of E i u g t v) = i"
  by (simp_all add: summary_row_of_def Let_def wf_memory_def) (simp_all add: new_minimal_def)

lemma compress_cluster_user: "keeps (store_frame (user_step u)) (compress_cluster E u grp llm)"
proof -
  have "keeps (user_step u) (update_memories (own u i) (fold_into s now))" for i s now
    by (intro keeps_user update_memories_inv update_memories_iso statements_kv)
      (auto simp: fold_into_def wf_memory_def dest: own_user)
  then show ?thesis
    unfolding compress_cluster_def Let_def
    by (intro app_usr.keeps_rules usr.keeps_rules app_ops_user keeps_sql repo_writes_user) simp_all
qed

lemma cluster_loop_user:
  "keeps (store_frame (user_step u)) (cluster_loop E u llm mems used created)"
  by (induction mems arbitrary: used created)
    (auto simp: Let_def intro!: app_usr.keeps_ret app_usr.keeps_bind compress_cluster_user)

lemma consolidate_user_sys: "keeps (store_frame sys_step) (consolidate_user E llm u created)"
  unfolding consolidate_user_def consolidate_category_def Let_def
  by (intro app_sys.keeps_if app_sys.keeps_ret app_sys.keeps_bind app_sys.keeps_fold keeps_sql select_sys
      store_frame_sys [OF cluster_loop_user])

lemma consolidate_sys: "keeps (store_frame sys_step) (consolidate_at_tick E)"
  unfolding consolidate_at_tick_def
  by (simp add: app_sys.keeps_ret app_sys.keeps_bind app_sys.keeps_fold keeps_sql sysf.keeps_gets
      consolidate_user_sys split: option.split)

lemma handle_tick_sys: "keeps (store_frame sys_step) (handle_tick E args)"
  unfolding handle_tick_def
  by (intro app_sys.keeps_rules decay_pass_sys expiry_pass_sys resolve_conflicts_sys consolidate_sys
      store_frame_sys [OF app_ops_user(2)])

end
