(* ===== verification/Requests.thy ===== *)
theory Requests
  imports Diagnostics_Handlers Lifecycle_Handlers
begin

text \<open>
  \<open>handle_request\<close> of \<open>crates/daemon/src/handlers.rs\<close>, and what holds of every request: the
  database invariant, isolation of users, the check of the user, and the life of a bridge token
  across any requests in between. A run of the daemon is a sequence of requests, each with its own
  environment and user (\<open>serves\<close>); \<open>reachable\<close> is what a run can reach from a fresh store.
\<close>

definition handle_request :: "env \<Rightarrow> request \<Rightarrow> string \<Rightarrow> response handler" where
  "handle_request E req u = (case req of
      Diagnostics d \<Rightarrow> (case d of
          Status \<Rightarrow> handle_status E
        | Doctor \<Rightarrow> handle_doctor E
        | RecentTraces limit \<Rightarrow> handle_recent_traces limit
        | Shutdown \<Rightarrow> handle_shutdown
        | MintBridgeToken args \<Rightarrow> handle_mint_bridge_token E args
        | ValidateBridgeToken args \<Rightarrow> handle_validate_bridge_token E args
        | Counts arg_user \<Rightarrow> handle_counts E arg_user u)
    | Memory mem \<Rightarrow> handle_memory_request E mem u
    | Lifecycle life \<Rightarrow> handle_lifecycle_request E life u
    | UnknownBucket \<Rightarrow> throw_sm Unknown_bucket)"

section \<open>Frames of a request\<close>

fun is_tick :: "request \<Rightarrow> bool" where
  "is_tick (Lifecycle (Tick _)) = True"
| "is_tick _ = False"

lemma request_user_frame:
  assumes "\<not> is_tick req"
  shows "keeps (store_frame (user_step u)) (handle_request E req u)"
proof (cases req)
  case (Diagnostics d)
  then show ?thesis by (cases d) (simp_all add: handle_request_def diagnostics_user)
next
  case (Memory mem)
  then show ?thesis by (simp add: handle_request_def memory_request_user)
next
  case (Lifecycle life)
  then have "\<forall>args. life \<noteq> Tick args" using assms by auto
  then show ?thesis using Lifecycle by (simp add: handle_request_def lifecycle_request_user)
next
  case UnknownBucket
  then show ?thesis by (simp add: handle_request_def app_usr.keeps_throw)
qed

lemma is_tick_cases: "is_tick req \<Longrightarrow> \<exists>args. req = Lifecycle (Tick args)"
  by (cases req rule: is_tick.cases) auto

lemma request_sys_frame: "keeps (store_frame sys_step) (handle_request E req u)"
proof (cases "is_tick req")
  case True
  then obtain args where "req = Lifecycle (Tick args)" using is_tick_cases by blast
  then show ?thesis by (simp add: handle_request_def handle_lifecycle_request_def handle_tick_sys)
next
  case False
  then show ?thesis by (rule store_frame_sys [OF request_user_frame])
qed

section \<open>Runs\<close>

inductive serves :: "app \<Rightarrow> app \<Rightarrow> bool" where
  idle: "serves s s"
| serve: "serves s t \<Longrightarrow> handle_request E req u t = (res, t') \<Longrightarrow> serves s t'"

inductive_cases servesE: "serves s t"

definition fresh_app :: "nat \<Rightarrow> app" where
  "fresh_app capacity = \<lparr>app_store = empty_db, app_drawn = 0, app_traces = new_ring capacity,
     app_events = [], app_shutdown = False\<rparr>"

definition reachable :: "app \<Rightarrow> bool" where
  "reachable s \<longleftrightarrow> (\<exists>capacity. serves (fresh_app capacity) s)"

lemma serves_sys: "serves s t \<Longrightarrow> sys_step (app_store s) (app_store t)"
proof (induction rule: serves.induct)
  case (idle s)
  then show ?case by (rule sysf.R_refl)
next
  case (serve s t E req u res t')
  have "store_frame sys_step t t'"
    using request_sys_frame serve.hyps(2) by (rule keepsD)
  with serve.IH show ?case by (auto simp: store_frame_def intro: sysf.R_trans)
qed

text \<open>A small environment and a run, for the witnesses.\<close>

definition demo_env :: env where
  "demo_env = \<lparr>
     e_embedder = \<lparr>emb_name = ''fake'', emb_model = ''m'', emb_dimension = 1, emb_embed = (\<lambda>_. Inr [1065353216])\<rparr>,
     e_sha256 = (\<lambda>s. map (\<lambda>c. of_nat (of_char c)) s), e_ulid = (\<lambda>n. replicate n (CHR ''0'')),
     e_uuid = (\<lambda>n. replicate n (CHR ''f'')), e_now = 1000, e_rfc3339 = '''', e_elapsed_ms = 0,
     e_llm = None, e_lifecycle = paper_faithful_lifecycle_config,
     e_fts_match = (\<lambda>q fts. map fst fts), e_rrf_iter = id, e_cat_iter = id,
     e_null_i64 = Inr 0, e_to_string = (\<lambda>_. ''token''),
     e_from_str = (\<lambda>_. Inr (JObj [(''user_id'', JStr ''alice''), (''scope'', JStr ''write''), (''expires_at_unix'', JInt 1060)])),
     e_version = ''0.1.0'', e_pid = 7, e_uptime = 0,
     e_runtime = \<lparr>rt_instance = ''default'', rt_socket_path = ''s'', rt_pid_path = ''p'', rt_db_path = ''d'',
       rt_log_path = ''l'', rt_build_id = ''b''\<rparr>,
     e_probe = \<lparr>os_connect = Inr (), os_socket_exists = True, os_pid_file = Inr ''7'', os_db_exists = True,
       os_log_exists = True, os_migrations = Inr 5\<rparr>\<rparr>"

section \<open>The invariant and isolation\<close>

text \<open>C1: Every reachable state of the daemon satisfies the invariants of the database: primary
  keys are unique, association edges and queued conflicts point to memories that exist, weights
  lie in the unit interval, the full-text index mirrors the memories, and the flags of each memory
  agree with the columns that go with them. So whatever sequence of requests by whatever users the
  daemon has served, failed ones and ticks included, the store is consistent.\<close>

theorem reachable_wf_db:
  assumes "reachable s"
  shows "wf_db (app_store s)"
proof -
  obtain c where "serves (fresh_app c) s" using assms by (auto simp: reachable_def)
  then have "sys_step (app_store (fresh_app c)) (app_store s)" by (rule serves_sys)
  then show ?thesis by (simp add: sys_step_def inv_step_def fresh_app_def wf_empty_db)
qed

theorem reachable_wf_db_witness:
  "wf_db (app_store (snd (handle_request demo_env (Diagnostics (MintBridgeToken
     \<lparr>mt_user_id = ''alice'', mt_scope = Write, mt_ttl_seconds = 60\<rparr>)) ''alice'' (fresh_app 1000))))"
proof (rule reachable_wf_db)
  let ?run = "handle_request demo_env (Diagnostics (MintBridgeToken
     \<lparr>mt_user_id = ''alice'', mt_scope = Write, mt_ttl_seconds = 60\<rparr>)) ''alice'' (fresh_app 1000)"
  have "serves (fresh_app 1000) (snd ?run)"
    by (rule serves.serve [OF serves.idle, where res = "fst ?run"]) simp
  then show "reachable (snd ?run)" unfolding reachable_def by blast
qed



section \<open>The user of a request\<close>

text \<open>The user a request speaks for; some diagnostics and the tick name none.\<close>

fun memory_request_user_id :: "memory_request \<Rightarrow> string option" where
  "memory_request_user_id (Subscribe _) = None"
| "memory_request_user_id (Store a) = Some (sm_user_id a)"
| "memory_request_user_id (StoreBatch a) = Some (sb_user_id a)"
| "memory_request_user_id (Search a) = Some (sa_user_id a)"
| "memory_request_user_id (Get a) = Some (gm_user_id a)"
| "memory_request_user_id (GetMany a) = Some (gn_user_id a)"
| "memory_request_user_id (ListMem a) = Some (li_user_id a)"
| "memory_request_user_id (Update a) = Some (up_user_id a)"
| "memory_request_user_id (Delete a) = Some (dm_user_id a)"
| "memory_request_user_id (DeleteMany a) = Some (dn_user_id a)"
| "memory_request_user_id (Link a) = Some (lk_user_id a)"
| "memory_request_user_id (Unlink a) = Some (ul_user_id a)"
| "memory_request_user_id (GetLinked a) = Some (gl_user_id a)"
| "memory_request_user_id (GetLinkedMany a) = Some (gk_user_id a)"
| "memory_request_user_id (VectorSearch a) = Some (vs_user_id a)"
| "memory_request_user_id (SearchLexical a) = Some (sl_user_id a)"
| "memory_request_user_id (BatchUpdate a) = Some (bu_user_id a)"

fun lifecycle_request_user_id :: "lifecycle_request \<Rightarrow> string option" where
  "lifecycle_request_user_id (Tick _) = None"
| "lifecycle_request_user_id (FindFading a) = Some (ff_user_id a)"
| "lifecycle_request_user_id (FindStable a) = Some (fs_user_id a)"
| "lifecycle_request_user_id (MarkSuperseded a) = Some (ms_user_id a)"
| "lifecycle_request_user_id (MigrateToCold a) = Some (mc_user_id a)"
| "lifecycle_request_user_id (MigrateToHot a) = Some (mh_user_id a)"
| "lifecycle_request_user_id (ConvertToStub a) = Some (cs_user_id a)"
| "lifecycle_request_user_id (UpdateRetention a) = Some (ur_user_id a)"
| "lifecycle_request_user_id (Clear a) = Some (cl_user_id a)"

fun request_user_id :: "request \<Rightarrow> string option" where
  "request_user_id (Diagnostics (Counts a)) = Some a"
| "request_user_id (Memory m) = memory_request_user_id m"
| "request_user_id (Lifecycle l) = lifecycle_request_user_id l"
| "request_user_id _ = None"

lemma memory_wrong_user:
  assumes "memory_request_user_id m = Some a" "a \<noteq> u"
  shows "handle_memory_request E m u = throw_sm (InvalidPayload
     (''request user_id '' @ debug_str a @ '' != connection user_id '' @ debug_str u))"
  using assms
  by (cases m) (simp_all add: handle_memory_request_def handle_memory_store_def handle_memory_store_batch_def
      handle_memory_search_def handle_memory_get_def handle_memory_get_many_def handle_memory_list_def
      handle_memory_update_def handle_memory_delete_def handle_memory_delete_many_def handle_memory_link_def
      handle_memory_unlink_def handle_memory_get_linked_def handle_memory_get_linked_many_def
      handle_vector_search_def handle_search_lexical_def handle_batch_update_def user_match_bind)

lemma lifecycle_wrong_user:
  assumes "lifecycle_request_user_id l = Some a" "a \<noteq> u"
  shows "handle_lifecycle_request E l u = throw_sm (InvalidPayload
     (''request user_id '' @ debug_str a @ '' != connection user_id '' @ debug_str u))"
  using assms
  by (cases l) (simp_all add: handle_lifecycle_request_def handle_find_fading_def handle_find_stable_def
      handle_mark_superseded_def handle_migrate_to_cold_def handle_migrate_to_hot_def
      handle_convert_to_stub_def handle_update_retention_def handle_clear_def user_match_bind)



section \<open>Bridge tokens over time\<close>

lemma handle_validate_eq:
  assumes "tbl_get kv_key (kv (app_store s)) (''bridge_tokens'', token_hash E token) = Some r"
    and "e_from_str E (k_value r) = Inr v"
  shows "handle_validate_bridge_token E \<lparr>vt_token = token, vt_required_scope = required\<rparr> s =
     (map_sum id (\<lambda>x. response_ok (BridgeTokenValidatedR x)) (check_token_record (e_now E) required v), s)"
  using assms
  by (simp add: handle_validate_bridge_token_def select_kv_def bind_sm_def lift_sm_def ret_sm_def split: sum.split)

text \<open>C11: The life of a bridge token. When minting succeeds, the token it returns is accepted by
  every later validation, after any requests in between, exactly while it has not expired and its
  scope covers the required one (read below write below admin), and validation then answers the
  user, scope and expiry it was minted with; afterwards it is refused as expired, or as
  insufficient. Relied on: the JSON library parses what it printed.\<close>

theorem bridge_token_life:
  fixes args :: mint_bridge_token_args
  defines "expires E \<equiv> token_expiry (e_now E) (mt_ttl_seconds args)"
  assumes mint: "handle_request E (Diagnostics (MintBridgeToken args)) u s = (Inr resp, s1)"
    and later: "serves s1 s2"
    and same: "e_sha256 E' = e_sha256 E" "e_from_str E' = e_from_str E"
    and json: "e_from_str E (e_to_string E (token_record args (expires E))) = Inr (token_record args (expires E))"
  shows "\<exists>token. resp = response_ok (BridgeTokenR token (expires E))
    \<and> handle_request E' (Diagnostics (ValidateBridgeToken \<lparr>vt_token = token, vt_required_scope = required\<rparr>)) w s2
      = (if expires E \<le> e_now E' then Inl (InvalidPayload ''bridge token expired'')
         else if required \<le> mt_scope args
         then Inr (response_ok (BridgeTokenValidatedR \<lparr>bv_user_id = mt_user_id args, bv_scope = mt_scope args,
                 bv_expires_at_unix = expires E\<rparr>))
         else Inl (InvalidPayload ''bridge token scope insufficient''), s2)"
proof -
  let ?raw = "''cmb_'' @ e_uuid E (app_drawn s) @ e_uuid E (Suc (app_drawn s))"
  have m: "handle_mint_bridge_token E args s = (Inr resp, s1)"
    using mint by (simp add: handle_request_def)
  let ?row = "\<lparr>k_namespace = ''bridge_tokens'', k_key = token_hash E ?raw,
      k_value = e_to_string E (token_record args (expires E))\<rparr>"
  have "tbl_get kv_key (kv (app_store s1)) (''bridge_tokens'', token_hash E ?raw) = Some ?row"
    using handle_mint_eq(2) [OF m] by (simp add: expires_def)
  then have "tbl_get kv_key (kv (app_store s2)) (''bridge_tokens'', token_hash E ?raw) = Some ?row"
    using serves_sys [OF later] by (simp add: sys_step_def kv_step_def)
  moreover have "token_hash E' t = token_hash E t" for t
    by (simp add: token_hash_def same)
  ultimately have v: "handle_validate_bridge_token E' \<lparr>vt_token = ?raw, vt_required_scope = required\<rparr> s2 =
      (map_sum id (\<lambda>x. response_ok (BridgeTokenValidatedR x))
        (check_token_record (e_now E') required (token_record args (expires E))), s2)"
    using handle_validate_eq [of s2 E' ?raw ?row] json same by simp
  show ?thesis
    using handle_mint_eq(1) [OF m] v
    by (intro exI [of _ ?raw])
      (simp add: expires_def token_expiry_def check_token_record_eq handle_request_def)
qed

theorem bridge_token_life_witness:
  "\<exists>token s1. handle_request demo_env (Diagnostics (MintBridgeToken
       \<lparr>mt_user_id = ''alice'', mt_scope = Write, mt_ttl_seconds = 60\<rparr>)) ''alice'' (fresh_app 10)
       = (Inr (response_ok (BridgeTokenR token 1060)), s1)
   \<and> handle_request demo_env (Diagnostics (ValidateBridgeToken \<lparr>vt_token = token, vt_required_scope = Read\<rparr>)) ''x'' s1
       = (Inr (response_ok (BridgeTokenValidatedR \<lparr>bv_user_id = ''alice'', bv_scope = Write,
            bv_expires_at_unix = 1060\<rparr>)), s1)"
proof -
  let ?args = "\<lparr>mt_user_id = ''alice'', mt_scope = Write, mt_ttl_seconds = 60\<rparr>"
  let ?run = "handle_request demo_env (Diagnostics (MintBridgeToken ?args)) ''alice'' (fresh_app 10)"
  have expiry: "token_expiry (e_now demo_env) (mt_ttl_seconds ?args) = 1060"
    by (simp add: token_expiry_def demo_env_def as_i64_def)
  obtain resp s1 where run: "?run = (Inr resp, s1)"
    by (simp add: handle_request_def handle_mint_bridge_token_def Let_def)
      (simp add: bind_sm_def sql_def on_store_eq insert_kv_def
        tbl_insert_def fresh_app_def empty_db_def ret_sm_def)
  have json: "e_from_str demo_env (e_to_string demo_env (token_record ?args 1060)) = Inr (token_record ?args 1060)"
    by (simp add: demo_env_def token_record_def)
  obtain token where t: "resp = response_ok (BridgeTokenR token 1060)"
    "handle_request demo_env (Diagnostics (ValidateBridgeToken \<lparr>vt_token = token, vt_required_scope = Read\<rparr>)) ''x'' s1
     = (if 1060 \<le> e_now demo_env then Inl (InvalidPayload ''bridge token expired'')
         else if Read \<le> Write
         then Inr (response_ok (BridgeTokenValidatedR \<lparr>bv_user_id = ''alice'', bv_scope = Write,
                 bv_expires_at_unix = 1060\<rparr>))
         else Inl (InvalidPayload ''bridge token scope insufficient''), s1)"
    using bridge_token_life [OF run serves.idle refl refl, of Read "''x''"] json expiry by auto
  then show ?thesis using run by (auto simp: demo_env_def less_eq_bridge_scope_def)
qed

end
