(* ===== verification/Server.thy ===== *)
theory Server
  imports Requests
begin

text \<open>
  The IPC server (\<open>crates/daemon/src/server.rs\<close>): dispatch of one message, the handshake, and the
  per-connection loop over a shared application state. The loop is a step relation: which branch of
  the \<open>select!\<close> runs, in which order the spawned request tasks finish, and whether a send succeeds
  are choices of the relation. A request task runs its handler in one step; the two semaphores bound
  how many tasks are in flight over all connections.

  Three texts are parameters (\<open>texts\<close>): how \<open>sqlx\<close> prints its errors, the derived \<open>Debug\<close> text of
  a payload, and the version string of the build.
\<close>

section \<open>Dispatch\<close>

record texts =
  tx_sqlx :: "sqlx_error \<Rightarrow> string"
  tx_debug_payload :: "ipc_payload \<Rightarrow> string"

fun embedding_error_text :: "texts \<Rightarrow> embedding_error \<Rightarrow> string" where
  "embedding_error_text T (Provider_error e) = ''provider error: '' @ e"
| "embedding_error_text T (Embedding_storage e) = ''storage error: '' @ tx_sqlx T e"

fun search_error_text :: "texts \<Rightarrow> search_error \<Rightarrow> string" where
  "search_error_text T (Search_storage e) = ''storage: '' @ tx_sqlx T e"
| "search_error_text T (Dimension_mismatch q m) =
     ''embedding dimension mismatch: query='' @ radix_str 10 q @ '', memory='' @ radix_str 10 m"
| "search_error_text T (Invalid_query e) = ''invalid query: '' @ e"

fun handler_error_text :: "texts \<Rightarrow> handler_error \<Rightarrow> string" where
  "handler_error_text T (Storage e) = ''storage: '' @ tx_sqlx T e"
| "handler_error_text T (Embedding e) = ''embedding: '' @ embedding_error_text T e"
| "handler_error_text T (Search_failed e) = ''search: '' @ search_error_text T e"
| "handler_error_text T (InvalidPayload m) = ''invalid payload: '' @ m"
| "handler_error_text T Unknown_bucket = ''unknown bucket''"
| "handler_error_text T NotFound = ''not found''"

fun error_kind_for :: "handler_error \<Rightarrow> response_error_kind" where
  "error_kind_for (Storage _) = StorageError_kind"
| "error_kind_for (Embedding _) = ProviderError_kind"
| "error_kind_for (Search_failed _) = Internal_kind"
| "error_kind_for (InvalidPayload _) = InvalidPayload_kind"
| "error_kind_for Unknown_bucket = InvalidPayload_kind"
| "error_kind_for NotFound = NotFound_kind"

fun diagnostics_op_name :: "diagnostics_request \<Rightarrow> string" where
  "diagnostics_op_name Status = ''Status''"
| "diagnostics_op_name Doctor = ''Doctor''"
| "diagnostics_op_name (RecentTraces _) = ''RecentTraces''"
| "diagnostics_op_name Shutdown = ''Shutdown''"
| "diagnostics_op_name (MintBridgeToken _) = ''MintBridgeToken''"
| "diagnostics_op_name (ValidateBridgeToken _) = ''ValidateBridgeToken''"
| "diagnostics_op_name (Counts _) = ''Counts''"

fun memory_op_name :: "memory_request \<Rightarrow> string" where
  "memory_op_name (Subscribe _) = ''Subscribe''"
| "memory_op_name (Store _) = ''Store''"
| "memory_op_name (StoreBatch _) = ''StoreBatch''"
| "memory_op_name (Search _) = ''Search''"
| "memory_op_name (Get _) = ''Get''"
| "memory_op_name (GetMany _) = ''GetMany''"
| "memory_op_name (ListMem _) = ''List''"
| "memory_op_name (Update _) = ''Update''"
| "memory_op_name (Delete _) = ''Delete''"
| "memory_op_name (DeleteMany _) = ''DeleteMany''"
| "memory_op_name (Link _) = ''Link''"
| "memory_op_name (Unlink _) = ''Unlink''"
| "memory_op_name (GetLinked _) = ''GetLinked''"
| "memory_op_name (GetLinkedMany _) = ''GetLinkedMany''"
| "memory_op_name (VectorSearch _) = ''VectorSearch''"
| "memory_op_name (SearchLexical _) = ''SearchLexical''"
| "memory_op_name (BatchUpdate _) = ''BatchUpdate''"

fun lifecycle_op_name :: "lifecycle_request \<Rightarrow> string" where
  "lifecycle_op_name (Tick _) = ''Tick''"
| "lifecycle_op_name (FindFading _) = ''FindFading''"
| "lifecycle_op_name (FindStable _) = ''FindStable''"
| "lifecycle_op_name (MarkSuperseded _) = ''MarkSuperseded''"
| "lifecycle_op_name (MigrateToCold _) = ''MigrateToCold''"
| "lifecycle_op_name (MigrateToHot _) = ''MigrateToHot''"
| "lifecycle_op_name (ConvertToStub _) = ''ConvertToStub''"
| "lifecycle_op_name (UpdateRetention _) = ''UpdateRetention''"
| "lifecycle_op_name (Clear _) = ''Clear''"

fun describe_payload :: "ipc_payload \<Rightarrow> string \<times> string" where
  "describe_payload (RequestP (Diagnostics d)) = (''Diagnostics'', diagnostics_op_name d)"
| "describe_payload (RequestP (Memory m)) = (''Memory'', memory_op_name m)"
| "describe_payload (RequestP (Lifecycle l)) = (''Lifecycle'', lifecycle_op_name l)"
| "describe_payload (RequestP UnknownBucket) = (''Unknown'', ''UnknownBucket'')"
| "describe_payload (ResponseP _) = (''Response'', ''Unexpected'')"
| "describe_payload (EventP _) = (''Event'', ''Unexpected'')"

fun is_bulk_payload :: "ipc_payload \<Rightarrow> bool" where
  "is_bulk_payload (RequestP (Lifecycle _)) = True"
| "is_bulk_payload (RequestP (Diagnostics Doctor)) = True"
| "is_bulk_payload (RequestP (Diagnostics (RecentTraces _))) = True"
| "is_bulk_payload (RequestP (Memory (StoreBatch _))) = True"
| "is_bulk_payload (RequestP (Memory (DeleteMany _))) = True"
| "is_bulk_payload (RequestP (Memory (BatchUpdate _))) = True"
| "is_bulk_payload _ = False"

definition answer :: "texts \<Rightarrow> env \<Rightarrow> ipc_payload \<Rightarrow> string \<Rightarrow> app \<Rightarrow> response \<times> app" where
  "answer T E payload u s = (case payload of
      RequestP req \<Rightarrow> (case handle_request E req u s of
          (Inr resp, s') \<Rightarrow> (resp, s')
        | (Inl e, s') \<Rightarrow> (response_err \<lparr>re_kind = error_kind_for e, re_message = handler_error_text T e,
                                       re_retriable = False\<rparr>, s'))
    | other \<Rightarrow> (response_err \<lparr>re_kind = InvalidPayload_kind,
          re_message = ''unexpected payload kind: '' @ tx_debug_payload T other, re_retriable = False\<rparr>, s))"

definition dispatch :: "texts \<Rightarrow> env \<Rightarrow> ipc_message \<Rightarrow> string \<Rightarrow> app \<Rightarrow> ipc_message \<times> app" where
  "dispatch T E message u s =
     (let (bucket, op) = describe_payload (im_payload message);
          (response, s') = answer T E (im_payload message) u s;
          trace = \<lparr>t_trace_id = ''tr_'' @ e_ulid E (app_drawn s'), t_request_id = im_id message,
            t_bucket = bucket, t_op = op, t_embed_ms = None, t_vector_ms = None, t_fusion_ms = None,
            t_format_ms = None, t_elapsed_ms = e_elapsed_ms E\<rparr>
      in (\<lparr>im_id = im_id message, im_payload = ResponseP response\<rparr>,
          s'\<lparr>app_traces := push_trace trace (app_traces s'), app_drawn := Suc (app_drawn s')\<rparr>))"

text \<open>\<open>catch_unwind\<close>: a task that panicked answers with an internal error under the same id.\<close>

definition guard_dispatch :: "ipc_message \<Rightarrow> ipc_message option \<Rightarrow> ipc_message" where
  "guard_dispatch message outcome = (case outcome of
      Some response \<Rightarrow> response
    | None \<Rightarrow> \<lparr>im_id = im_id message, im_payload = ResponseP (response_err
        \<lparr>re_kind = Internal_kind, re_message = ''request handler panicked'', re_retriable = False\<rparr>)\<rparr>)"

definition current_state_event :: "env \<Rightarrow> app \<Rightarrow> event" where
  "current_state_event E s = CurrentState (length (memories (app_store s))) (e_rfc3339 E)"

section \<open>Handshake\<close>

text \<open>The version of the client is \<open>as_u64\<close> and then cast to \<open>u32\<close>.\<close>

definition client_proto :: "json \<Rightarrow> nat" where
  "client_proto hello = (case Option.bind (json_get ''protocol_version'' hello) json_as_u64 of
      Some v \<Rightarrow> v mod 2 ^ 32 | None \<Rightarrow> 0)"

datatype handshake_outcome = Refused json | Welcomed string json

definition handshake :: "env \<Rightarrow> string \<Rightarrow> json \<Rightarrow> handshake_outcome" where
  "handshake E session_id hello =
     (if client_proto hello \<noteq> IPC_PROTOCOL_VERSION
      then Refused (JObj [(''kind'', JStr ''Error''), (''error'', JObj [
             (''kind'', JStr ''ProtocolMismatch''), (''client_version'', JInt (int (client_proto hello))),
             (''daemon_version'', JInt (int IPC_PROTOCOL_VERSION))])])
      else Welcomed
        (case Option.bind (json_get ''user_id'' hello) json_as_str of Some u \<Rightarrow> u | None \<Rightarrow> ''default'')
        (JObj [(''kind'', JStr ''Welcome''), (''daemon_version'', JStr (e_version E)),
               (''protocol_version'', JInt (int IPC_PROTOCOL_VERSION)), (''session_id'', JStr session_id)]))"

section \<open>The connection loop\<close>

definition REQUEST_CONCURRENCY_LIMIT :: nat where
  "REQUEST_CONCURRENCY_LIMIT = 64"

definition BULK_CONCURRENCY_LIMIT :: nat where
  "BULK_CONCURRENCY_LIMIT = 8"

text \<open>The local variables of \<open>handle_connection\<close>, what it has sent, and (for the theorems) the ids it
  has read, the ids whose answer could not be sent, and whether the peer hung up.\<close>

record conn =
  cn_user :: string
  cn_tasks :: "ipc_message list"
  cn_subscribed :: bool
  cn_accept_requests :: bool
  cn_can_send :: bool
  cn_shutdown_requested :: bool
  cn_open :: bool
  cn_sent :: "ipc_message list"
  cn_read :: "nat list"
  cn_lost :: "nat list"
  cn_cut :: bool

record server =
  sv_app :: app
  sv_conns :: "conn list"

definition new_conn :: "string \<Rightarrow> conn" where
  "new_conn u = \<lparr>cn_user = u, cn_tasks = [], cn_subscribed = False, cn_accept_requests = True,
     cn_can_send = True, cn_shutdown_requested = False, cn_open = True, cn_sent = [], cn_read = [],
     cn_lost = [], cn_cut = False\<rparr>"

text \<open>\<open>if !accept_requests && request_tasks.is_empty() { break; }\<close> at the end of the loop body.\<close>

definition loop_end :: "conn \<Rightarrow> conn" where
  "loop_end c = (if \<not> cn_accept_requests c \<and> cn_tasks c = [] then c\<lparr>cn_open := False\<rparr> else c)"

text \<open>Leaving the loop: the tasks still running are dropped with the \<open>JoinSet\<close>.\<close>

definition break_loop :: "conn \<Rightarrow> conn" where
  "break_loop c = c\<lparr>cn_open := False, cn_tasks := [], cn_lost := cn_lost c @ map im_id (cn_tasks c), cn_cut := True\<rparr>"

text \<open>A finished task: its response is sent if the sink still works; a failed send stops both
  directions.\<close>

definition task_done :: "ipc_message list \<Rightarrow> ipc_message \<Rightarrow> bool \<Rightarrow> conn \<Rightarrow> conn" where
  "task_done rest response sent_ok c =
     (let c' = c\<lparr>cn_tasks := rest\<rparr> in
      if cn_can_send c
      then if sent_ok then c'\<lparr>cn_sent := cn_sent c @ [response]\<rparr>
           else c'\<lparr>cn_can_send := False, cn_accept_requests := False, cn_lost := cn_lost c @ [im_id response]\<rparr>
      else c'\<lparr>cn_lost := cn_lost c @ [im_id response]\<rparr>)"

text \<open>\<open>Subscribe\<close> is answered by the loop itself. The snapshot follows when it was asked for and could
  be read and sent; its failure is ignored, a failure of the answer leaves the loop.\<close>

definition subscribe :: "nat \<Rightarrow> bool \<Rightarrow> event option \<Rightarrow> conn \<Rightarrow> conn" where
  "subscribe i replay_snapshot snapshot c =
     c\<lparr>cn_subscribed := True, cn_read := cn_read c @ [i],
       cn_sent := cn_sent c @ [\<lparr>im_id = i, im_payload = ResponseP (response_ok (SubscribedR replay_snapshot))\<rparr>]
         @ (case snapshot of Some ev \<Rightarrow> if replay_snapshot then [\<lparr>im_id = 0, im_payload = EventP ev\<rparr>] else []
                           | None \<Rightarrow> [])\<rparr>"

fun is_subscribe :: "ipc_payload \<Rightarrow> bool" where
  "is_subscribe (RequestP (Memory (Subscribe _))) = True"
| "is_subscribe _ = False"

definition in_flight :: "(ipc_message \<Rightarrow> bool) \<Rightarrow> server \<Rightarrow> nat" where
  "in_flight P sv = length (filter P (concat (map cn_tasks (sv_conns sv))))"

definition is_bulk :: "ipc_message \<Rightarrow> bool" where
  "is_bulk m \<longleftrightarrow> is_bulk_payload (im_payload m)"

text \<open>\<open>semaphore.acquire_owned()\<close> returns when a permit is free.\<close>

definition permit_free :: "ipc_message \<Rightarrow> server \<Rightarrow> bool" where
  "permit_free m sv \<longleftrightarrow>
     (if is_bulk m then in_flight is_bulk sv < BULK_CONCURRENCY_LIMIT
      else in_flight (\<lambda>x. \<not> is_bulk x) sv < REQUEST_CONCURRENCY_LIMIT)"

text \<open>One turn of the loop of connection \<open>c\<close>, given the whole server for the shared state and the
  permits: the connection and the application state after it.\<close>

inductive conn_step :: "server \<Rightarrow> conn \<Rightarrow> conn \<Rightarrow> app \<Rightarrow> bool" for sv where
  finish: "cn_open c \<Longrightarrow> cn_tasks c = before @ m # after \<Longrightarrow>
     dispatch T E m (cn_user c) (sv_app sv) = (response, s') \<Longrightarrow>
     conn_step sv c (loop_end (task_done (before @ after) response sent_ok c)) s'"
| finish_panicked: "cn_open c \<Longrightarrow> cn_tasks c = before @ m # after \<Longrightarrow>
     conn_step sv c (loop_end (task_done (before @ after) (guard_dispatch m None) sent_ok c)) (sv_app sv)"
| read_subscribe: "cn_open c \<Longrightarrow> cn_accept_requests c \<Longrightarrow>
     snapshot = None \<or> snapshot = Some (current_state_event E (sv_app sv)) \<Longrightarrow>
     conn_step sv c (subscribe i replay snapshot c) (sv_app sv)"
| subscribe_failed: "cn_open c \<Longrightarrow> cn_accept_requests c \<Longrightarrow>
     conn_step sv c (break_loop (c\<lparr>cn_subscribed := True, cn_read := cn_read c @ [i],
       cn_lost := cn_lost c @ [i]\<rparr>)) (sv_app sv)"
| read_request: "cn_open c \<Longrightarrow> cn_accept_requests c \<Longrightarrow> \<not> is_subscribe (im_payload m) \<Longrightarrow>
     permit_free m sv \<Longrightarrow>
     conn_step sv c (c\<lparr>cn_tasks := cn_tasks c @ [m], cn_read := cn_read c @ [im_id m]\<rparr>) (sv_app sv)"
| hang_up: "cn_open c \<Longrightarrow> cn_accept_requests c \<Longrightarrow> conn_step sv c (break_loop c) (sv_app sv)"
| deliver: "cn_open c \<Longrightarrow> cn_subscribed c \<Longrightarrow>
     conn_step sv c (loop_end (c\<lparr>cn_sent := cn_sent c @ [\<lparr>im_id = 0, im_payload = EventP ev\<rparr>]\<rparr>)) (sv_app sv)"
| deliver_failed: "cn_open c \<Longrightarrow> cn_subscribed c \<Longrightarrow> conn_step sv c (break_loop c) (sv_app sv)"
| shutdown: "cn_open c \<Longrightarrow> \<not> cn_shutdown_requested c \<Longrightarrow>
     conn_step sv c (loop_end (c\<lparr>cn_shutdown_requested := True, cn_accept_requests := False\<rparr>)) (sv_app sv)"

inductive server_step :: "server \<Rightarrow> server \<Rightarrow> bool" where
  accept: "handshake E sid hello = Welcomed u greeting \<Longrightarrow>
     server_step sv (sv\<lparr>sv_conns := sv_conns sv @ [new_conn u]\<rparr>)"
| turn: "sv_conns sv = cs @ c # cs' \<Longrightarrow> conn_step sv c c' s' \<Longrightarrow>
     server_step sv (sv\<lparr>sv_conns := cs @ c' # cs', sv_app := s'\<rparr>)"

inductive runs :: "server \<Rightarrow> bool" where
  boot: "runs \<lparr>sv_app = fresh_app 1000, sv_conns = []\<rparr>"
| step: "runs sv \<Longrightarrow> server_step sv sv' \<Longrightarrow> runs sv'"

inductive_cases conn_stepE: "conn_step sv c c' s'"
inductive_cases server_stepE: "server_step sv sv'"

section \<open>One message\<close>

text \<open>Dispatch answers every message, under the id of the request, and records one trace for it
  with the same id: what the handler returned, or for a handler error a response that is not ok and
  carries the kind of that error (storage, provider, internal, not found or invalid payload), never
  marked retriable; a message that is not a request is refused as an invalid payload without
  touching the store.\<close>

theorem dispatch_spec:
  "let (reply, s') = dispatch T E message u s in
     im_id reply = im_id message
     \<and> map t_request_id (recent_traces (app_traces s') 1) = [im_id message]
     \<and> (case im_payload message of
          RequestP req \<Rightarrow> (case handle_request E req u s of
              (Inr resp, t) \<Rightarrow> im_payload reply = ResponseP resp \<and> app_store s' = app_store t
            | (Inl e, t) \<Rightarrow> (\<exists>msg. im_payload reply = ResponseP (response_err
                  \<lparr>re_kind = error_kind_for e, re_message = msg, re_retriable = False\<rparr>))
                \<and> app_store s' = app_store t)
        | _ \<Rightarrow> (\<exists>msg. im_payload reply = ResponseP (response_err
              \<lparr>re_kind = InvalidPayload_kind, re_message = msg, re_retriable = False\<rparr>))
            \<and> app_store s' = app_store s)"
proof -
  have recent: "map t_request_id (recent_traces (push_trace t r) (Suc 0)) = [t_request_id t]" for t r
    by (simp add: recent_traces_def push_trace_def Let_def)
  show ?thesis
    by (cases "describe_payload (im_payload message)"; cases "answer T E (im_payload message) u s")
      (auto simp: dispatch_def recent answer_def split: ipc_payload.splits prod.splits sum.splits)
qed

lemma dispatch_reply:
  "dispatch T E m u s = (reply, s') \<Longrightarrow> im_id reply = im_id m \<and> (\<exists>r. im_payload reply = ResponseP r)"
  by (auto simp: dispatch_def Let_def split: prod.splits)

lemma answer_inv:
  assumes "answer T E payload u s = (r, s')" "wf_db (app_store s)"
  shows "wf_db (app_store s')"
proof -
  have "wf_db (app_store t)" if "handle_request E req u s = (res, t)" for req res t
    using keepsD [OF request_sys_frame that] assms(2) by (simp add: store_frame_def sys_step_def inv_step_def)
  then show ?thesis
    using assms by (auto simp: answer_def split: ipc_payload.splits prod.splits sum.splits)
qed

lemma dispatch_inv:
  assumes "dispatch T E m u s = (reply, s')" "wf_db (app_store s)"
  shows "wf_db (app_store s')"
  using assms answer_inv [of T E "im_payload m" u s] by (auto simp: dispatch_def Let_def split: prod.splits)

section \<open>The loop\<close>

fun is_response :: "ipc_message \<Rightarrow> bool" where
  "is_response m = (case im_payload m of ResponseP _ \<Rightarrow> True | _ \<Rightarrow> False)"

declare is_response.simps [simp del]

definition answered :: "conn \<Rightarrow> nat list" where
  "answered c = map im_id (filter is_response (cn_sent c))"

text \<open>Every id read is answered, lost or still in flight; nothing is lost while the sink works and
  the loop was not left early; a closed loop has no tasks.\<close>

definition conn_inv :: "conn \<Rightarrow> bool" where
  "conn_inv c \<longleftrightarrow> mset (answered c) + mset (cn_lost c) + mset (map im_id (cn_tasks c)) = mset (cn_read c)
     \<and> (cn_can_send c \<and> \<not> cn_cut c \<longrightarrow> cn_lost c = [])
     \<and> (\<not> cn_open c \<longrightarrow> cn_tasks c = [])"

lemma loop_end_simps [simp]:
  "answered (loop_end c) = answered c" "cn_lost (loop_end c) = cn_lost c"
  "cn_tasks (loop_end c) = cn_tasks c" "cn_read (loop_end c) = cn_read c"
  "cn_can_send (loop_end c) = cn_can_send c" "cn_cut (loop_end c) = cn_cut c"
  by (simp_all add: loop_end_def answered_def)

lemma loop_end_inv: "cn_open c \<Longrightarrow> conn_inv c \<Longrightarrow> conn_inv (loop_end c)"
  unfolding conn_inv_def loop_end_simps by (auto simp: loop_end_def)

lemma break_loop_inv: "conn_inv c \<Longrightarrow> conn_inv (break_loop c)"
  by (simp add: conn_inv_def break_loop_def answered_def ac_simps)

lemma task_done_inv:
  assumes c: "conn_inv c" "cn_open c" "cn_tasks c = before @ m # after"
    and r: "im_id response = im_id m" "is_response response"
  shows "conn_inv (loop_end (task_done (before @ after) response sent_ok c))"
proof (rule loop_end_inv)
  show "cn_open (task_done (before @ after) response sent_ok c)"
    using c(2) by (simp add: task_done_def Let_def)
  show "conn_inv (task_done (before @ after) response sent_ok c)"
    using c r by (auto simp: conn_inv_def task_done_def Let_def answered_def)
qed

lemma conn_step_inv:
  assumes "conn_step sv c c' s'" "conn_inv c"
  shows "conn_inv c'"
  using assms
proof (induction rule: conn_step.induct)
  case (finish c before m after T E response s' sent_ok)
  then have "im_id response = im_id m \<and> is_response response"
    using dispatch_reply [OF finish(3)] by (auto simp: is_response.simps)
  with finish show ?case by (auto intro: task_done_inv)
next
  case (finish_panicked c before m after sent_ok)
  have "im_id (guard_dispatch m None) = im_id m \<and> is_response (guard_dispatch m None)"
    by (simp add: guard_dispatch_def is_response.simps)
  with finish_panicked show ?case by (auto intro: task_done_inv)
next
  case (read_subscribe c snapshot E i replay)
  then show ?case
    by (auto simp: conn_inv_def subscribe_def answered_def is_response.simps split: option.split)
next
  case (subscribe_failed c i)
  then show ?case by (auto simp: conn_inv_def break_loop_def answered_def ac_simps)
next
  case (read_request c m)
  then show ?case by (auto simp: conn_inv_def answered_def)
next
  case (hang_up c)
  then show ?case by (simp add: break_loop_inv)
next
  case (deliver c ev)
  then have "conn_inv (c\<lparr>cn_sent := cn_sent c @ [\<lparr>im_id = 0, im_payload = EventP ev\<rparr>]\<rparr>)"
    by (simp add: conn_inv_def answered_def is_response.simps)
  then show ?case using deliver(1) by (simp add: loop_end_inv)
next
  case (deliver_failed c)
  then show ?case by (simp add: break_loop_inv)
next
  case (shutdown c)
  then have "conn_inv (c\<lparr>cn_shutdown_requested := True, cn_accept_requests := False\<rparr>)"
    by (simp add: conn_inv_def answered_def)
  then show ?case using shutdown(1) by (simp add: loop_end_inv)
qed

text \<open>The effect of a turn on the tasks in flight: none, fewer, or one more under a free permit.\<close>

lemma conn_step_tasks:
  assumes "conn_step sv c c' s'"
  shows "length (filter P (cn_tasks c')) \<le> length (filter P (cn_tasks c))
    \<or> (\<exists>m. cn_tasks c' = cn_tasks c @ [m] \<and> permit_free m sv)"
  using assms
  by (induction rule: conn_step.induct) (auto simp: break_loop_def task_done_def Let_def subscribe_def)

lemma conn_step_db:
  assumes "conn_step sv c c' s'" "wf_db (app_store (sv_app sv))"
  shows "wf_db (app_store s')"
  using assms by (induction rule: conn_step.induct) (auto intro: dispatch_inv)

definition server_inv :: "server \<Rightarrow> bool" where
  "server_inv sv \<longleftrightarrow> wf_db (app_store (sv_app sv)) \<and> (\<forall>c \<in> set (sv_conns sv). conn_inv c)
     \<and> in_flight is_bulk sv \<le> BULK_CONCURRENCY_LIMIT
     \<and> in_flight (\<lambda>m. \<not> is_bulk m) sv \<le> REQUEST_CONCURRENCY_LIMIT"

lemma in_flight_turn:
  assumes "sv_conns sv = cs @ c # cs'" "conn_step sv c c' s'"
    and "in_flight P sv \<le> k" and "\<And>m. P m \<Longrightarrow> permit_free m sv \<Longrightarrow> in_flight P sv < k"
  shows "in_flight P (sv\<lparr>sv_conns := cs @ c' # cs', sv_app := s'\<rparr>) \<le> k"
  using conn_step_tasks [OF assms(2), of P] assms(1,3,4) by (fastforce simp: in_flight_def)

lemma server_step_inv:
  assumes "server_step sv sv'" "server_inv sv"
  shows "server_inv sv'"
  using assms
proof (induction rule: server_step.induct)
  case (accept E sid hello u greeting sv)
  moreover have "conn_inv (new_conn u)" by (simp add: conn_inv_def new_conn_def answered_def)
  ultimately show ?case by (auto simp: server_inv_def in_flight_def) (simp_all add: new_conn_def)
next
  case (turn sv cs c cs' c' s')
  then have "wf_db (app_store s')" "conn_inv c'"
    using conn_step_db conn_step_inv by (auto simp: server_inv_def)
  moreover have "in_flight is_bulk (sv\<lparr>sv_conns := cs @ c' # cs', sv_app := s'\<rparr>) \<le> BULK_CONCURRENCY_LIMIT"
    using turn by (intro in_flight_turn [of sv cs c cs' c' s']) (auto simp: server_inv_def permit_free_def)
  moreover have "in_flight (\<lambda>m. \<not> is_bulk m) (sv\<lparr>sv_conns := cs @ c' # cs', sv_app := s'\<rparr>) \<le> REQUEST_CONCURRENCY_LIMIT"
    using turn by (intro in_flight_turn [of sv cs c cs' c' s']) (auto simp: server_inv_def permit_free_def)
  ultimately show ?case using turn by (auto simp: server_inv_def)
qed

lemma runs_inv: "runs sv \<Longrightarrow> server_inv sv"
proof (induction rule: runs.induct)
  case boot
  then show ?case by (simp add: server_inv_def in_flight_def fresh_app_def wf_empty_db)
next
  case (step sv sv')
  then show ?case by (blast intro: server_step_inv)
qed

section \<open>What a run guarantees\<close>

text \<open>C7: Whatever the interleaving of connections, finishing tasks, subscriptions, failed sends,
  hang-ups and shutdown, in every state the server can reach: the database is consistent, at most 8
  bulk and 64 other requests are in flight over all connections, and on each connection every
  response carries the id of a request that was read there, no request being answered twice.\<close>

theorem server_safety:
  assumes "runs sv"
  shows "wf_db (app_store (sv_app sv)) \<and> in_flight is_bulk sv \<le> 8 \<and> in_flight (\<lambda>m. \<not> is_bulk m) sv \<le> 64
    \<and> (\<forall>c. c \<in> set (sv_conns sv) \<longrightarrow> mset (answered c) \<subseteq># mset (cn_read c))"
proof -
  have inv: "server_inv sv" using assms by (rule runs_inv)
  have "mset (answered c) \<subseteq># mset (cn_read c)" if "c \<in> set (sv_conns sv)" for c
  proof -
    have "mset (answered c) + (mset (cn_lost c) + mset (map im_id (cn_tasks c))) = mset (cn_read c)"
      using inv that by (simp add: server_inv_def conn_inv_def add.assoc)
    then show ?thesis by (metis mset_subset_eq_add_left)
  qed
  with inv show ?thesis
    by (simp add: server_inv_def BULK_CONCURRENCY_LIMIT_def REQUEST_CONCURRENCY_LIMIT_def)
qed

text \<open>A run with one connection that reads one request, answers it and shuts down.\<close>

definition demo_texts :: texts where
  "demo_texts = \<lparr>tx_sqlx = (\<lambda>_. ''sqlx''), tx_debug_payload = (\<lambda>_. ''payload'')\<rparr>"

definition demo_message :: ipc_message where
  "demo_message = \<lparr>im_id = 5, im_payload = RequestP (Diagnostics Status)\<rparr>"

definition demo_busy :: conn where
  "demo_busy = (new_conn ''default'')\<lparr>cn_tasks := [demo_message], cn_read := [5]\<rparr>"

definition demo_reply :: "ipc_message \<times> app" where
  "demo_reply = dispatch demo_texts demo_env demo_message ''default'' (fresh_app 1000)"

definition demo_answered :: conn where
  "demo_answered = demo_busy\<lparr>cn_tasks := [], cn_sent := [fst demo_reply]\<rparr>"

definition demo_closed :: conn where
  "demo_closed = demo_answered\<lparr>cn_shutdown_requested := True, cn_accept_requests := False, cn_open := False\<rparr>"

lemma demo_run: "runs \<lparr>sv_app = snd demo_reply, sv_conns = [demo_closed]\<rparr>"
proof -
  let ?b = "\<lparr>sv_app = fresh_app 1000, sv_conns = []\<rparr>"
  let ?c = "new_conn ''default''"
  let ?sv1 = "\<lparr>sv_app = fresh_app 1000, sv_conns = [?c]\<rparr>"
  let ?sv2 = "\<lparr>sv_app = fresh_app 1000, sv_conns = [demo_busy]\<rparr>"
  let ?sv3 = "\<lparr>sv_app = snd demo_reply, sv_conns = [demo_answered]\<rparr>"
  obtain g where h: "handshake demo_env [] (JObj [(''protocol_version'', JInt 1)]) = Welcomed ''default'' g"
    by (simp add: handshake_def client_proto_def IPC_PROTOCOL_VERSION_def)
  have 1: "runs ?sv1"
    using server_step.accept [OF h, of ?b] runs.step [OF runs.boot] by simp
  have "conn_step ?sv1 ?c demo_busy (fresh_app 1000)"
    using conn_step.read_request [of ?c demo_message ?sv1]
    by (simp add: new_conn_def demo_message_def demo_busy_def permit_free_def in_flight_def is_bulk_def
        REQUEST_CONCURRENCY_LIMIT_def)
  then have 2: "runs ?sv2"
    using server_step.turn [of ?sv1 "[]" ?c "[]" demo_busy "fresh_app 1000"] runs.step [OF 1] by simp
  have "conn_step ?sv2 demo_busy demo_answered (snd demo_reply)"
    using conn_step.finish [of demo_busy "[]" demo_message "[]" demo_texts demo_env ?sv2 "fst demo_reply"
        "snd demo_reply" True]
    by (simp add: demo_busy_def new_conn_def demo_answered_def demo_reply_def task_done_def loop_end_def)
  then have 3: "runs ?sv3"
    using server_step.turn [of ?sv2 "[]" demo_busy "[]" demo_answered "snd demo_reply"] runs.step [OF 2] by simp
  have "conn_step ?sv3 demo_answered demo_closed (snd demo_reply)"
    using conn_step.shutdown [of demo_answered ?sv3]
    by (simp add: demo_answered_def demo_busy_def new_conn_def demo_closed_def loop_end_def)
  then show ?thesis
    using server_step.turn [of ?sv3 "[]" demo_answered "[]" demo_closed "snd demo_reply"] runs.step [OF 3] by simp
qed

theorem server_safety_witness:
  "wf_db (app_store (snd demo_reply)) \<and> mset (answered demo_closed) \<subseteq># {#5#}"
  using server_safety [OF demo_run] by (simp add: demo_closed_def demo_answered_def demo_busy_def)

text \<open>C8: Draining on shutdown: a connection whose loop ended because of the shutdown signal (the
  peer did not hang up and no send failed) has answered every request it had read, each exactly
  once; in particular the requests that were in flight when the signal came.\<close>

theorem shutdown_drains:
  assumes "runs sv" and "c \<in> set (sv_conns sv)"
    and "\<not> cn_open c" and "\<not> cn_cut c" and "cn_can_send c"
  shows "mset (answered c) = mset (cn_read c)"
proof -
  have "conn_inv c" using runs_inv [OF assms(1)] assms(2) by (simp add: server_inv_def)
  then show ?thesis using assms(3-5) by (auto simp: conn_inv_def)
qed

theorem shutdown_drains_witness: "mset (answered demo_closed) = {#5#}"
  using shutdown_drains [OF demo_run, of demo_closed]
  by (simp add: demo_closed_def demo_answered_def demo_busy_def new_conn_def)

text \<open>The handshake: a client is welcomed exactly when its hello carries a 64-bit unsigned
  \<open>protocol_version\<close> that is 1 modulo \<open>2^32\<close> (the cast to \<open>u32\<close> drops the upper half), under the
  user the hello names or \<open>default\<close>; every other client is told the daemon's version.\<close>

theorem handshake_spec:
  "(\<exists>u g. handshake E sid hello = Welcomed u g) =
     (\<exists>v. Option.bind (json_get ''protocol_version'' hello) json_as_u64 = Some v \<and> v mod 2 ^ 32 = 1)
   \<and> handshake E sid (JObj [(''protocol_version'', JInt (2 ^ 32 + 1)), (''user_id'', JStr w)])
     = Welcomed w (JObj [(''kind'', JStr ''Welcome''), (''daemon_version'', JStr (e_version E)),
         (''protocol_version'', JInt 1), (''session_id'', JStr sid)])"
proof -
  have "client_proto hello = 1 \<longleftrightarrow>
     (\<exists>v. Option.bind (json_get ''protocol_version'' hello) json_as_u64 = Some v \<and> v mod 2 ^ 32 = 1)"
    by (simp add: client_proto_def split: option.split)
  then show ?thesis
    by (simp add: handshake_def IPC_PROTOCOL_VERSION_def client_proto_def)
qed

end
