(* ===== verification/Row_Loops.thy ===== *)
theory Row_Loops
  imports Lifecycle_Handlers
begin

text \<open>
  Loops of \<open>UPDATE\<close> statements as maps over the table. \<open>acts g m\<close>: the computation \<open>m\<close> on the
  database always succeeds and changes it exactly by mapping \<open>g\<close> over the memories; \<open>gives g v m\<close>
  says in addition that it returns \<open>v\<close>. A loop that updates rows by id then applies, to each row,
  the update of the one element with that id.
\<close>

named_theorems acts_intros \<open>what maps over the memories\<close>

definition map_memories :: "(memory_row \<Rightarrow> memory_row) \<Rightarrow> db \<Rightarrow> db" where
  "map_memories g d = d\<lparr>memories := map g (memories d)\<rparr>"

definition acts :: "(memory_row \<Rightarrow> memory_row) \<Rightarrow> 'a sql \<Rightarrow> bool" where
  "acts g m \<longleftrightarrow> (\<forall>d. \<exists>x. m d = (Inr x, map_memories g d))"

definition gives :: "(memory_row \<Rightarrow> memory_row) \<Rightarrow> 'a \<Rightarrow> 'a sql \<Rightarrow> bool" where
  "gives g v m \<longleftrightarrow> (\<forall>d. m d = (Inr v, map_memories g d))"

definition where_id :: "string \<Rightarrow> (memory_row \<Rightarrow> memory_row) \<Rightarrow> memory_row \<Rightarrow> memory_row" where
  "where_id i f m = (if m_id m = i then f m else m)"

lemma map_memories_id [simp]: "map_memories (\<lambda>m. m) d = d" "map_memories id d = d"
  by (simp_all add: map_memories_def)

lemma map_memories_comp [simp]: "map_memories h (map_memories g d) = map_memories (h \<circ> g) d"
  by (simp add: map_memories_def)

lemma memories_map_memories [simp]: "memories (map_memories g d) = map g (memories d)"
  by (simp add: map_memories_def)

lemma gives_acts: "gives g v m \<Longrightarrow> acts g m"
  by (auto simp: gives_def acts_def)

lemma acts_update: "acts (\<lambda>m. if P m then f m else m) (update_memories P f)"
  by (simp add: acts_def update_memories_def map_memories_def tbl_update_def)

lemma acts_update_id [acts_intros]: "acts (where_id i f) (update_memories (by_id i) f)"
  using acts_update [of "by_id i" f] by (simp add: where_id_def [abs_def] by_id_def)

lemma gives_ret [acts_intros]: "gives id v (ret_sm v)" "gives (\<lambda>m. m) v (ret_sm v)"
  by (simp_all add: gives_def ret_sm_def)

lemma acts_ret [acts_intros]: "acts id (ret_sm v)" "acts (\<lambda>m. m) (ret_sm v)"
  by (simp_all add: acts_def ret_sm_def)

lemma gives_bind [acts_intros]:
  assumes "acts g m" "\<And>x. gives h v (f x)"
  shows "gives (h \<circ> g) v (bind_sm m f)"
proof -
  have "bind_sm m f d = (Inr v, map_memories (h \<circ> g) d)" for d
  proof -
    obtain x where "m d = (Inr x, map_memories g d)" using assms(1) by (auto simp: acts_def)
    then show ?thesis using assms(2) by (simp add: bind_sm_Inr gives_def)
  qed
  then show ?thesis by (simp add: gives_def)
qed

lemma gives_bind_value:
  "gives g v m \<Longrightarrow> gives h w (f v) \<Longrightarrow> gives (h \<circ> g) w (bind_sm m f)"
  by (simp add: gives_def bind_sm_def)

lemma acts_bind: "acts g m \<Longrightarrow> (\<And>x. acts h (f x)) \<Longrightarrow> acts (h \<circ> g) (bind_sm m f)"
proof -
  assume m: "acts g m" and f: "\<And>x. acts h (f x)"
  have "\<exists>y. bind_sm m f d = (Inr y, map_memories (h \<circ> g) d)" for d
  proof -
    obtain x where "m d = (Inr x, map_memories g d)" using m by (auto simp: acts_def)
    moreover obtain y where "f x (map_memories g d) = (Inr y, map_memories h (map_memories g d))"
      using f [of x] unfolding acts_def by blast
    ultimately show ?thesis by (simp add: bind_sm_Inr)
  qed
  then show ?thesis by (simp add: acts_def)
qed

lemma gives_transaction: "gives g v m \<Longrightarrow> gives g v (transaction m)"
  by (simp add: gives_def transaction_def)

lemma acts_transaction: "acts g m \<Longrightarrow> acts g (transaction m)"
proof -
  assume m: "acts g m"
  have "\<exists>x. transaction m d = (Inr x, map_memories g d)" for d
  proof -
    obtain x where "m d = (Inr x, map_memories g d)" using m by (auto simp: acts_def)
    then show ?thesis by (simp add: transaction_def)
  qed
  then show ?thesis by (simp add: acts_def)
qed

lemma gives_fold:
  "(\<And>x b. gives (g x) (k x b) (f x b)) \<Longrightarrow> gives (fold g xs) (fold k xs b) (fold_sm xs f b)"
proof (induction xs arbitrary: b)
  case Nil
  then show ?case using gives_ret(2) [of b] by simp
next
  case (Cons x xs)
  have "gives (fold g xs \<circ> g x) (fold k xs (k x b)) (bind_sm (f x b) (fold_sm xs f))"
    by (rule gives_bind_value) (rule Cons.prems, rule Cons.IH, rule Cons.prems)
  then show ?case by (simp add: comp_def)
qed

lemma acts_fold: "(\<And>x b. acts (g x) (f x b)) \<Longrightarrow> acts (fold g xs) (fold_sm xs f b)"
proof (induction xs arbitrary: b)
  case Nil
  then show ?case using acts_ret(2) [of b] by simp
next
  case (Cons x xs)
  then have "acts (fold g xs \<circ> g x) (bind_sm (f x b) (fold_sm xs f))" by (intro acts_bind) auto
  then show ?case by (simp add: comp_def)
qed

lemma gives_for: "(\<And>x. gives (g x) () (f x)) \<Longrightarrow> gives (fold g xs) () (for_sm xs f)"
proof (induction xs)
  case Nil
  then show ?case using gives_ret(2) [of "()"] by simp
next
  case (Cons x xs)
  then have "gives (fold g xs \<circ> g x) () (bind_sm (f x) (\<lambda>_. for_sm xs f))"
    by (intro gives_bind gives_acts) auto
  then show ?case by (simp add: comp_def)
qed

section \<open>Updates by id\<close>

lemma where_id_simps:
  "m_id m = i \<Longrightarrow> where_id i f m = f m" "m_id m \<noteq> i \<Longrightarrow> where_id i f m = m"
  by (simp_all add: where_id_def)

lemma where_id_comp:
  "(\<And>m. m_id (f m) = m_id m) \<Longrightarrow> where_id i h \<circ> where_id i f = where_id i (h \<circ> f)"
  by (auto simp: where_id_def)

lemma where_id_id [simp]: "where_id i id = id" "where_id i (\<lambda>m. m) = id"
  by (auto simp: where_id_def)

text \<open>Under distinct ids only the element with the id of the row acts on it.\<close>

lemma fold_where_id:
  assumes "distinct (map key xs)" and "\<And>x m. m_id (h x m) = m_id m"
  shows "fold (\<lambda>x. where_id (key x) (h x)) xs m =
    (case find (\<lambda>x. key x = m_id m) xs of Some x \<Rightarrow> h x m | None \<Rightarrow> m)"
  using assms(1)
proof (induction xs arbitrary: m)
  case (Cons x xs)
  show ?case
  proof (cases "key x = m_id m")
    case True
    then have "find (\<lambda>y. key y = m_id (h x m)) xs = None"
      using Cons.prems by (simp add: find_None_iff assms(2) image_iff) metis
    then show ?thesis using Cons True by (simp add: where_id_simps)
  next
    case False
    then show ?thesis using Cons by (simp add: where_id_simps)
  qed
qed simp

lemma find_own_row:
  assumes "keyed m_id ms" "m \<in> set ms"
  shows "find (\<lambda>x. m_id x = m_id m) (filter P ms) = (if P m then Some m else None)"
proof -
  have "keyed m_id (filter P ms)" using assms(1) by (simp add: keyed_def distinct_map_filter)
  then have "tbl_get m_id (filter P ms) (m_id m) = Some m" if "P m"
    using assms(2) that by (simp add: tbl_get_eq_Some)
  moreover have "tbl_get m_id (filter P ms) (m_id m) = None" if "\<not> P m"
    using assms that by (auto simp: tbl_get_None keyed_def distinct_map inj_on_def)
  ultimately show ?thesis by (simp add: tbl_get_def)
qed

lemma map_fold_rows:
  assumes "keyed m_id ms" and "\<And>x m. m_id (h x m) = m_id m"
  shows "map (fold (\<lambda>x. where_id (m_id x) (h x)) (filter P ms)) ms = map (\<lambda>m. if P m then h m m else m) ms"
proof (rule map_cong [OF refl])
  fix m assume m: "m \<in> set ms"
  have "distinct (map m_id (filter P ms))"
    using assms(1) by (simp add: keyed_def distinct_map_filter)
  then show "fold (\<lambda>x. where_id (m_id x) (h x)) (filter P ms) m = (if P m then h m m else m)"
    by (simp add: fold_where_id assms(2) find_own_row [OF assms(1) m])
qed

end
