(* ===== verification/Tick_Laws.thy ===== *)
theory Tick_Laws
  imports Row_Loops Requests
begin

text \<open>
  What the passes of the maintenance tick do, as maps over the table of memories: the floor counter
  and cold migration, and the expiry of cold memories.
\<close>

section \<open>Pass 1\<close>

definition hits_floor :: "env \<Rightarrow> memory_row \<Rightarrow> bool" where
  "hits_floor E m \<longleftrightarrow> at_floor (compute_current_retention m (e_now E) (e_lifecycle E)) (m_retention_floor m)"

definition after_decay :: "env \<Rightarrow> memory_row \<Rightarrow> memory_row" where
  "after_decay E m =
     (let days = (if hits_floor E m then m_days_at_floor m + 1 else 0);
          m' = m\<lparr>m_days_at_floor := days\<rparr>
      in if m_category m \<noteq> ''core'' \<and> 7 \<le> days then to_cold (e_now E) m' else m')"

text \<open>What the statements for \<open>row\<close> do to a row \<open>m\<close> with its id.\<close>

definition decay_change :: "env \<Rightarrow> memory_row \<Rightarrow> memory_row \<Rightarrow> memory_row" where
  "decay_change E row m =
     (let m' = (if hits_floor E row then m\<lparr>m_days_at_floor := m_days_at_floor m + 1\<rparr>
                else if 0 < m_days_at_floor row then m\<lparr>m_days_at_floor := 0\<rparr> else m)
      in if m_category row \<noteq> ''core''
            \<and> COLD_MIGRATION_DAYS \<le> (if hits_floor E row then m_days_at_floor row + 1 else 0)
         then to_cold (e_now E) m' else m')"

lemma decay_row_gives:
  "gives (where_id (m_id row) (decay_change E row)) (if hits_floor E row then Suc n else n) (decay_row E row n)"
proof -
  let ?i = "m_id row"
  let ?cold = "\<lambda>days. m_category row \<noteq> ''core'' \<and> COLD_MIGRATION_DAYS \<le> days"
  have cold: "gives (if ?cold days then where_id ?i (to_cold (e_now E)) else id) v
      (bind_sm (if ?cold days then update_memories (by_id ?i) (to_cold (e_now E)) else ret_sm 0) (\<lambda>_. ret_sm v))"
    for days and v :: nat
  proof (cases "?cold days")
    case True
    have "gives (id \<circ> where_id ?i (to_cold (e_now E))) v
        (bind_sm (update_memories (by_id ?i) (to_cold (e_now E))) (\<lambda>_. ret_sm v))"
      by (intro acts_intros)
    with True show ?thesis by simp
  next
    case False
    then show ?thesis by (auto simp: gives_ret)
  qed
  have comp: "(if b then where_id ?i (to_cold t) else id) \<circ> where_id ?i f
      = where_id ?i (\<lambda>m. if b then to_cold t (f m) else f m)" if "\<And>m. m_id (f m) = m_id m" for b t f
    using that by (auto simp: where_id_def)
  consider (floor) "hits_floor E row" | (reset) "\<not> hits_floor E row" "0 < m_days_at_floor row"
    | (keep) "\<not> hits_floor E row" "\<not> 0 < m_days_at_floor row" by blast
  then show ?thesis
  proof cases
    case floor
    let ?f = "\<lambda>m. m\<lparr>m_days_at_floor := m_days_at_floor m + 1\<rparr>"
    have "gives ((if ?cold (m_days_at_floor row + 1) then where_id ?i (to_cold (e_now E)) else id)
        \<circ> (id \<circ> where_id ?i ?f)) (Suc n) (decay_row E row n)"
      unfolding decay_row_def
      by (rule gives_bind_value [where v = "(Suc n, m_days_at_floor row + 1)"])
        (use floor cold in \<open>simp_all add: hits_floor_def gives_bind [OF acts_update_id gives_ret(1), simplified]\<close>)
    moreover have "decay_change E row = (\<lambda>m. if ?cold (m_days_at_floor row + 1) then to_cold (e_now E) (?f m) else ?f m)"
      using floor by (simp add: decay_change_def fun_eq_iff Let_def)
    ultimately show ?thesis using floor by (simp add: comp)
  next
    case reset
    let ?f = "\<lambda>m. m\<lparr>m_days_at_floor := 0\<rparr>"
    have "gives ((if ?cold 0 then where_id ?i (to_cold (e_now E)) else id)
        \<circ> (id \<circ> where_id ?i ?f)) n (decay_row E row n)"
      unfolding decay_row_def
      by (rule gives_bind_value [where v = "(n, 0)"])
        (use reset cold in \<open>simp_all add: hits_floor_def gives_bind [OF acts_update_id gives_ret(1), simplified]\<close>)
    moreover have "decay_change E row = (\<lambda>m. if ?cold 0 then to_cold (e_now E) (?f m) else ?f m)"
      using reset by (simp add: decay_change_def fun_eq_iff Let_def)
    ultimately show ?thesis using reset by (simp add: comp)
  next
    case keep
    have "gives ((if ?cold 0 then where_id ?i (to_cold (e_now E)) else id) \<circ> id) n (decay_row E row n)"
      unfolding decay_row_def
      by (rule gives_bind_value [where v = "(n, 0)"])
        (use keep cold in \<open>simp_all add: hits_floor_def gives_ret\<close>)
    with keep show ?thesis by (simp add: decay_change_def [abs_def] Let_def COLD_MIGRATION_DAYS_def)
  qed
qed

lemma decay_change_id [simp]: "m_id (decay_change E row m) = m_id m"
  by (simp add: decay_change_def Let_def to_cold_def)

lemma decay_change_own: "0 \<le> m_days_at_floor m \<Longrightarrow> decay_change E m m = after_decay E m"
  by (simp add: decay_change_def after_decay_def Let_def COLD_MIGRATION_DAYS_def)

lemma fold_count: "fold (\<lambda>x n. if P x then Suc n else n) xs n = length (filter P xs) + n"
  by (induction xs arbitrary: n) auto

text \<open>C16: Pass 1 of the tick, as one map over the table: on every hot memory (not cold, not a stub,
  not superseded) the counter of days at the floor goes up by one when its retention is at its
  floor and otherwise back to zero, and a memory that is not core and reaches seven days becomes
  cold as of now; no other memory and nothing else changes, a core memory never becomes cold, and
  the count that the tick reports is the number of hot memories at their floor.\<close>

theorem decay_pass_spec:
  assumes "wf_db (app_store s)"
  shows "decay_pass E s =
     (Inr (length (filter (\<lambda>m. is_hot m \<and> hits_floor E m) (memories (app_store s)))),
      s\<lparr>app_store := map_memories (\<lambda>m. if is_hot m then after_decay E m else m) (app_store s)\<rparr>)
    \<and> (\<forall>m. m_category m = ''core'' \<longrightarrow> m_is_cold (after_decay E m) = m_is_cold m)"
proof -
  let ?d = "app_store s" and ?ms = "memories (app_store s)"
  let ?loop = "fold_sm (filter is_hot ?ms) (decay_row E) 0"
  have "gives (fold (\<lambda>row. where_id (m_id row) (decay_change E row)) (filter is_hot ?ms))
      (fold (\<lambda>row n. if hits_floor E row then Suc n else n) (filter is_hot ?ms) 0) (transaction ?loop)"
    by (intro gives_transaction gives_fold) (rule decay_row_gives)
  moreover have "map (fold (\<lambda>row. where_id (m_id row) (decay_change E row)) (filter is_hot ?ms)) ?ms
      = map (\<lambda>m. if is_hot m then after_decay E m else m) ?ms"
  proof -
    have "map (fold (\<lambda>row. where_id (m_id row) (decay_change E row)) (filter is_hot ?ms)) ?ms
        = map (\<lambda>m. if is_hot m then decay_change E m m else m) ?ms"
      using wf_dbD(1) [OF assms] by (rule map_fold_rows) simp
    also have "\<dots> = map (\<lambda>m. if is_hot m then after_decay E m else m) ?ms"
      using wf_dbD(10) [OF assms] by (auto intro!: map_cong simp: decay_change_own wf_memory_def)
    finally show ?thesis .
  qed
  ultimately have "transaction ?loop ?d =
      (Inr (length (filter (\<lambda>m. is_hot m \<and> hits_floor E m) ?ms)),
       map_memories (\<lambda>m. if is_hot m then after_decay E m else m) ?d)"
    by (simp add: gives_def map_memories_def fold_count conj_commute)
  then have "decay_pass E s =
     (Inr (length (filter (\<lambda>m. is_hot m \<and> hits_floor E m) ?ms)),
      s\<lparr>app_store := map_memories (\<lambda>m. if is_hot m then after_decay E m else m) ?d\<rparr>)"
    by (simp add: decay_pass_def select_memories_def sql_Inr)
  then show ?thesis by (simp add: after_decay_def Let_def)
qed

text \<open>A core memory and an ordinary one, both six days at a floor that no retention falls below.\<close>

definition old_row :: "string \<Rightarrow> string \<Rightarrow> memory_row" where
  "old_row i cat = (new_minimal i ''alice'' ''x'' cat ''fact'' 1000)\<lparr>m_retention_floor := 1, m_days_at_floor := 6\<rparr>"

definition old_app :: app where
  "old_app = (fresh_app 10)\<lparr>app_store := empty_db\<lparr>memories := [old_row ''a'' ''core'', old_row ''b'' ''semantic''],
     memories_fts := [(''a'', ''x''), (''b'', ''x'')]\<rparr>\<rparr>"

lemma old_app_wf: "wf_db (app_store old_app)"
  by (simp add: old_app_def old_row_def wf_db_def keyed_def fts_mirror_def wf_memory_def new_minimal_def empty_db_def)

lemma old_row_hits: "hits_floor demo_env (old_row i cat)"
proof -
  have "compute_retention (row_state (old_row i cat) (e_lifecycle demo_env)) 1000 (e_lifecycle demo_env) = Fin 1"
    by (rule compute_retention_fresh)
      (simp_all add: old_row_def new_minimal_def row_state_def wf_state_def beta_for_def demo_env_def
        paper_faithful_lifecycle_config_def default_lifecycle_config_def default_base_decay_rates_def)
  then show ?thesis
    by (simp add: hits_floor_def compute_current_retention_def at_floor_def demo_env_def old_row_def)
qed

theorem decay_pass_spec_witness:
  "map m_is_cold (memories (app_store (snd (decay_pass demo_env old_app)))) = [False, True]
   \<and> fst (decay_pass demo_env old_app) = Inr 2"
proof -
  have "memories (app_store old_app) = [old_row ''a'' ''core'', old_row ''b'' ''semantic'']"
    by (simp add: old_app_def)
  moreover have "is_hot (old_row i c)" "m_category (old_row i c) = c" "m_days_at_floor (old_row i c) = 6"
    "m_is_cold (old_row i c) = False" for i c
    by (simp_all add: is_hot_def old_row_def new_minimal_def)
  ultimately show ?thesis
    using decay_pass_spec [OF old_app_wf, of demo_env]
    by (simp add: old_row_hits after_decay_def to_cold_def)
qed

section \<open>Pass 2\<close>

definition after_expiry :: "env \<Rightarrow> memory_row \<Rightarrow> memory_row" where
  "after_expiry E m =
     (if stale_cold (e_now E) m \<and> m_category m \<noteq> ''core''
      then m\<lparr>m_is_stub := True, m_embedding := None,
             m_stub_content := Some (''[archived] '' @ take 200 (m_content m))\<rparr>
      else m)"

definition expire_change :: "memory_row \<Rightarrow> memory_row \<Rightarrow> memory_row" where
  "expire_change row m =
     (if m_category row = ''core'' then m else archive (''[archived] '' @ take 200 (m_content row)) m)"

lemma expire_row_gives: "gives (where_id (m_id row) (expire_change row)) () (expire_row row)"
proof (cases "m_category row = ''core''")
  case True
  then show ?thesis by (simp add: expire_row_def expire_change_def [abs_def] gives_ret)
next
  case False
  then have "gives (id \<circ> where_id (m_id row) (expire_change row)) () (expire_row row)"
    unfolding expire_row_def
    by (simp only: if_False) (intro gives_bind gives_ret, simp add: expire_change_def [abs_def] acts_update_id)
  then show ?thesis by simp
qed

lemma expire_change_id [simp]: "m_id (expire_change row m) = m_id m"
  by (simp add: expire_change_def archive_def)

text \<open>C17: Pass 2 of the tick, as one map over the table: exactly the memories that have been cold for
  more than 180 days, are not stubs yet and are not core become stubs, which drops their embedding
  and records the first 200 characters of the content after the mark; their content and every other
  memory stay. Run again at the same time the pass changes nothing.\<close>

theorem expiry_pass_spec:
  assumes "wf_db (app_store s)"
  shows "expiry_pass E s =
     (Inr (), s\<lparr>app_store := map_memories (after_expiry E) (app_store s)\<rparr>)
    \<and> expiry_pass E (snd (expiry_pass E s)) = expiry_pass E s"
proof -
  have run: "expiry_pass E t = (Inr (), t\<lparr>app_store := map_memories (after_expiry E) (app_store t)\<rparr>)"
    if "wf_db (app_store t)" for t
  proof -
    let ?ms = "memories (app_store t)" and ?P = "stale_cold (e_now E)"
    let ?g = "fold (\<lambda>row. where_id (m_id row) (expire_change row)) (filter ?P ?ms)"
    have "gives ?g () (transaction (for_sm (filter ?P ?ms) expire_row))"
      by (intro gives_transaction gives_for expire_row_gives)
    moreover have "map ?g ?ms = map (\<lambda>m. if ?P m then expire_change m m else m) ?ms"
      using wf_dbD(1) [OF that] by (rule map_fold_rows) simp
    moreover have "(\<lambda>m. if ?P m then expire_change m m else m) = after_expiry E"
      by (auto simp: after_expiry_def expire_change_def archive_def fun_eq_iff)
    ultimately have "transaction (for_sm (filter ?P ?ms) expire_row) (app_store t)
        = (Inr (), map_memories (after_expiry E) (app_store t))"
      by (simp add: gives_def map_memories_def)
    then show ?thesis by (simp add: expiry_pass_def select_memories_def sql_Inr)
  qed
  have "after_expiry E \<circ> after_expiry E = after_expiry E"
    by (auto simp: fun_eq_iff after_expiry_def stale_cold_def)
  moreover have "wf_db (app_store (snd (expiry_pass E s)))"
    using expiry_pass_sys [of E] assms
    by (simp add: keeps_def store_frame_def sys_step_def inv_step_def)
  ultimately show ?thesis
    using run [OF assms] run [of "snd (expiry_pass E s)"] by simp
qed

definition stale_app :: app where
  "stale_app = (fresh_app 10)\<lparr>app_store := empty_db\<lparr>memories :=
       [to_cold (- 20000000) (old_row ''a'' ''core''), to_cold (- 20000000) (old_row ''b'' ''semantic'')],
     memories_fts := [(''a'', ''x''), (''b'', ''x'')]\<rparr>\<rparr>"

theorem expiry_pass_spec_witness:
  "map m_stub_content (memories (app_store (snd (expiry_pass demo_env stale_app)))) =
     [None, Some ''[archived] x'']"
proof -
  have "wf_db (app_store stale_app)"
    by (simp add: stale_app_def old_row_def wf_db_def keyed_def fts_mirror_def wf_memory_def
        new_minimal_def empty_db_def to_cold_def)
  from expiry_pass_spec [OF this, of demo_env] show ?thesis
    by (simp add: stale_app_def old_row_def new_minimal_def stale_cold_def demo_env_def to_cold_def
        after_expiry_def COLD_TTL_DAYS_def)
qed

end
