(* ===== verification/Conflict_Laws.thy ===== *)
theory Conflict_Laws
  imports Row_Loops Requests
begin

text \<open>
  What the conflict pass of the tick achieves: it never fails, it takes the most similar fifty
  queued pairs off the queue, and of every pair that the judge finds in conflict one memory ends
  up superseded. The frame \<open>grows\<close> is what the passes keep of the table of memories.
\<close>

section \<open>What conflict resolution keeps\<close>

definition row_grows :: "memory_row \<Rightarrow> memory_row \<Rightarrow> bool" where
  "row_grows m m' \<longleftrightarrow> m_id m' = m_id m \<and> m_user_id m' = m_user_id m \<and> m_content m' = m_content m
     \<and> (m_is_superseded m \<longrightarrow> m_is_superseded m')"

definition grows :: "db \<Rightarrow> db \<Rightarrow> bool" where
  "grows d d' \<longleftrightarrow> list_all2 row_grows (memories d) (memories d')"

lemma row_grows_trans: "row_grows a b \<Longrightarrow> row_grows b c \<Longrightarrow> row_grows a c"
  by (simp add: row_grows_def)

interpretation grw: frame_rel grows
proof
  fix d :: db
  show "grows d d" by (simp add: grows_def list_all2_refl row_grows_def)
next
  fix d d' d'' :: db
  assume "grows d d'" "grows d' d''"
  then show "grows d d''" unfolding grows_def list_all2_conv_all_nth by (metis row_grows_trans)
qed

lemma grows_map: "(\<And>m. row_grows m (g m)) \<Longrightarrow> grows d (map_memories g d)"
  by (simp add: grows_def list_all2_conv_all_nth)

lemma grows_ids: "grows d d' \<Longrightarrow> map m_id (memories d') = map m_id (memories d)"
  unfolding grows_def by (induction rule: list_all2_induct) (simp_all add: row_grows_def)

lemma grows_row:
  assumes "grows d d'" "m \<in> set (memories d)"
  obtains m' where "m' \<in> set (memories d')" "row_grows m m'"
  using assms unfolding grows_def by (metis in_set_conv_nth list_all2_conv_all_nth)

section \<open>One pair\<close>

text \<open>The pair is contested: both memories exist, and the judge sees a contradiction or an update.\<close>

definition contested :: "env \<Rightarrow> db \<Rightarrow> conflict_row \<Rightarrow> bool" where
  "contested E d q \<longleftrightarrow> (\<exists>n \<in> set (memories d). \<exists>e \<in> set (memories d).
     own (q_user_id q) (q_new q) n \<and> own (q_user_id q) (q_existing q) e
     \<and> judge E n e \<in> {Contradiction_label, Update_label})"

definition settled :: "db \<Rightarrow> conflict_row \<Rightarrow> bool" where
  "settled d q \<longleftrightarrow> (\<exists>m \<in> set (memories d). m_id m \<in> {q_new q, q_existing q} \<and> m_is_superseded m)"

lemma judge_cong:
  "m_content n = m_content n' \<Longrightarrow> m_content e = m_content e' \<Longrightarrow> judge E n e = judge E n' e'"
  by (cases "e_llm E") (simp_all add: judge_def)

lemma contested_grows:
  assumes "grows d d'" "contested E d q"
  shows "contested E d' q"
proof -
  obtain n e where ne: "n \<in> set (memories d)" "e \<in> set (memories d)"
    "own (q_user_id q) (q_new q) n" "own (q_user_id q) (q_existing q) e"
    "judge E n e \<in> {Contradiction_label, Update_label}"
    using assms(2) by (auto simp: contested_def)
  obtain n' where n': "n' \<in> set (memories d')" "row_grows n n'" using grows_row [OF assms(1) ne(1)] .
  obtain e' where e': "e' \<in> set (memories d')" "row_grows e e'" using grows_row [OF assms(1) ne(2)] .
  have "judge E n' e' = judge E n e" using n'(2) e'(2) by (intro judge_cong) (simp_all add: row_grows_def)
  then show ?thesis
    using ne n' e' unfolding contested_def row_grows_def own_def by metis
qed

lemma settled_grows: "grows d d' \<Longrightarrow> settled d q \<Longrightarrow> settled d' q"
  unfolding settled_def by (metis grows_row row_grows_def)

definition settle_change :: "env \<Rightarrow> memory_row \<Rightarrow> memory_row \<Rightarrow> conflict_label \<Rightarrow> memory_row \<Rightarrow> memory_row" where
  "settle_change E n e outcome = (case pick_winner (e_llm E \<noteq> None) n e of (winner, loser) \<Rightarrow>
     where_id (m_id loser) (if m_category loser = ''core'' then demote else id)
     \<circ> where_id (m_id loser) (supersede_by (m_id winner))
     \<circ> (if e_llm E \<noteq> None \<and> outcome = Update_label
        then if 1 / 2 ^ 52 < \<bar>max (m_importance n) (m_importance e) - m_importance n\<bar>
             then where_id (m_id n) (\<lambda>m. m\<lparr>m_importance := max (m_importance n) (m_importance e)\<rparr>) else id
        else id))"

lemma bump_importance_gives:
  "gives (if 1 / 2 ^ 52 < \<bar>max (m_importance n) (m_importance e) - m_importance n\<bar>
          then where_id (m_id n) (\<lambda>m. m\<lparr>m_importance := max (m_importance n) (m_importance e)\<rparr>) else id) ()
     (bump_importance n e)" (is "gives (if ?c then where_id _ ?f else id) () _")
proof (cases ?c)
  case True
  have "gives (id \<circ> where_id (m_id n) ?f) () (bump_importance n e)"
    unfolding bump_importance_def Let_def if_P [OF True]
    by (intro gives_bind acts_update_id gives_ret)
  then show ?thesis unfolding if_P [OF True] by simp
next
  case False
  show ?thesis unfolding bump_importance_def Let_def if_not_P [OF False] by (rule gives_ret)
qed

lemma settle_gives: "gives (settle_change E n e outcome) () (settle E n e outcome)"
proof -
  obtain w l where wl: "pick_winner (e_llm E \<noteq> None) n e = (w, l)" by fastforce
  let ?b = "e_llm E \<noteq> None \<and> outcome = Update_label"
  have bump: "gives (if ?b then if 1 / 2 ^ 52 < \<bar>max (m_importance n) (m_importance e) - m_importance n\<bar>
          then where_id (m_id n) (\<lambda>m. m\<lparr>m_importance := max (m_importance n) (m_importance e)\<rparr>) else id else id) ()
      (if ?b then bump_importance n e else ret_sm ())"
    by (cases ?b) (simp_all only: if_True if_False simp_thms bump_importance_gives gives_ret)
  have dem: "gives (where_id (m_id l) (if m_category l = ''core'' then demote else id)) ()
      (bind_sm (if m_category l = ''core'' then update_memories (by_id (m_id l)) demote else ret_sm 0)
        (\<lambda>_. ret_sm ()))"
    using gives_bind [OF acts_update_id gives_ret(1), of "m_id l" demote "()"]
    by (simp add: gives_ret)
  show ?thesis
    unfolding settle_def settle_change_def wl prod.case
    by (rule gives_bind [OF gives_acts [OF bump]], rule gives_bind [OF acts_update_id dem])
qed

lemma settle_change_grows: "row_grows m (settle_change E n e outcome m)"
  by (cases "pick_winner (e_llm E \<noteq> None) n e")
    (simp add: settle_change_def row_grows_def where_id_def supersede_by_def demote_def)

lemma pick_winner_loser: "snd (pick_winner b n e) \<in> {n, e}"
  by (simp add: pick_winner_def)

lemma settle_change_settles:
  "m = snd (pick_winner (e_llm E \<noteq> None) n e) \<Longrightarrow> m_is_superseded (settle_change E n e outcome m)"
  by (cases "pick_winner (e_llm E \<noteq> None) n e")
    (simp add: settle_change_def where_id_def supersede_by_def demote_def)

lemma find_own_sound: "find (own u i) ms = Some m \<Longrightarrow> m \<in> set ms \<and> own u i m"
  by (auto simp: find_Some_iff)

lemma find_own_keyed:
  assumes "keyed m_id ms" "m \<in> set ms" "own u i m"
  shows "find (own u i) ms = Some m"
proof -
  have "find (own u i) ms \<noteq> None" using assms(2,3) by (auto simp: find_None_iff)
  then obtain x where "find (own u i) ms = Some x" by blast
  moreover from find_own_sound [OF this] have "x = m"
    using assms by (auto simp: own_def keyed_def distinct_map dest: inj_onD)
  ultimately show ?thesis by simp
qed

text \<open>What the statements of one iteration before the \<open>DELETE\<close> do.\<close>

definition pair_body :: "env \<Rightarrow> nat \<Rightarrow> memory_row option \<Rightarrow> memory_row option \<Rightarrow> nat sql" where
  "pair_body E resolved new_row existing_row = (case (new_row, existing_row) of
       (Some n, Some e) \<Rightarrow>
         if \<not> m_is_superseded n \<and> \<not> m_is_superseded e
         then (let outcome = judge E n e in
               if outcome = Contradiction_label \<or> outcome = Update_label
               then bind_sm (settle E n e outcome) (\<lambda>_. ret_sm (resolved + 1))
               else ret_sm resolved)
         else ret_sm resolved
     | _ \<Rightarrow> ret_sm resolved)"

lemma resolve_pair_eq:
  "resolve_pair E q k =
     bind_sm (get_for_user (q_user_id q) (q_new q)) (\<lambda>new_row.
     bind_sm (get_for_user (q_user_id q) (q_existing q)) (\<lambda>existing_row.
     bind_sm (pair_body E k new_row existing_row) (\<lambda>resolved'.
     bind_sm (delete_conflicts (\<lambda>r. q_id r = q_id q)) (\<lambda>_. ret_sm resolved'))))"
  by (simp only: resolve_pair_def pair_body_def)

lemma pair_body_gives:
  obtains g v where "gives g v (pair_body E k a b)" "k \<le> v" "v \<le> Suc k" "\<And>m. row_grows m (g m)"
    and "\<And>n e. a = Some n \<Longrightarrow> b = Some e \<Longrightarrow> judge E n e \<in> {Contradiction_label, Update_label} \<Longrightarrow>
      \<exists>m \<in> {n, e}. m_is_superseded (g m)"
proof (cases "\<exists>n e. a = Some n \<and> b = Some e \<and> \<not> m_is_superseded n \<and> \<not> m_is_superseded e
    \<and> judge E n e \<in> {Contradiction_label, Update_label}")
  case True
  then obtain n e where ne: "a = Some n" "b = Some e" "\<not> m_is_superseded n" "\<not> m_is_superseded e"
    "judge E n e \<in> {Contradiction_label, Update_label}" by blast
  let ?g = "settle_change E n e (judge E n e)"
  have "gives (id \<circ> ?g) (k + 1) (pair_body E k a b)"
    using ne gives_bind [OF gives_acts [OF settle_gives] gives_ret(1), of E n e "judge E n e" "k + 1"]
    by (auto simp: pair_body_def Let_def)
  moreover have "\<exists>m \<in> {n, e}. m_is_superseded (?g m)"
    using pick_winner_loser [of "e_llm E \<noteq> None" n e] settle_change_settles [OF refl] by blast
  ultimately show thesis
    by (intro that [of ?g "k + 1"]) (use ne in \<open>simp_all add: settle_change_grows\<close>)
next
  case False
  then have "pair_body E k a b = ret_sm k"
    by (auto simp: pair_body_def Let_def split: option.split)
  then have "gives id k (pair_body E k a b)" by (simp add: gives_ret)
  moreover have "\<exists>m \<in> {n, e}. m_is_superseded (id m)"
    if "a = Some n" "b = Some e" "judge E n e \<in> {Contradiction_label, Update_label}" for n e
    using that False by auto
  ultimately show thesis using that [of id k] by (simp add: row_grows_def)
qed

lemma resolve_pair_spec:
  assumes "keyed m_id (memories d)"
  obtains k' d' where "resolve_pair E q k d = (Inr k', d')" "k' \<le> Suc k" "grows d d'"
    "conflict_queue d' = filter (\<lambda>r. q_id r \<noteq> q_id q) (conflict_queue d)"
    "contested E d q \<Longrightarrow> settled d' q"
proof -
  let ?a = "find (own (q_user_id q) (q_new q)) (memories d)"
  let ?b = "find (own (q_user_id q) (q_existing q)) (memories d)"
  obtain g v where g: "gives g v (pair_body E k ?a ?b)" "v \<le> Suc k" "\<And>m. row_grows m (g m)"
    and won: "\<And>n e. ?a = Some n \<Longrightarrow> ?b = Some e \<Longrightarrow> judge E n e \<in> {Contradiction_label, Update_label} \<Longrightarrow>
      \<exists>m \<in> {n, e}. m_is_superseded (g m)"
    by (rule pair_body_gives [of E k ?a ?b]) blast
  let ?d = "(map_memories g d)\<lparr>conflict_queue := filter (\<lambda>r. q_id r \<noteq> q_id q) (conflict_queue d)\<rparr>"
  have "resolve_pair E q k d = (Inr v, ?d)"
    using g(1)
    by (simp add: resolve_pair_eq get_for_user_def gives_def bind_sm_Inr
        delete_conflicts_def tbl_delete_def ret_sm_def map_memories_def)
  moreover have "grows d ?d"
    using grows_map [OF g(3), of d] by (simp add: grows_def)
  moreover have "settled ?d q" if c: "contested E d q"
  proof -
    obtain n e where ne: "n \<in> set (memories d)" "e \<in> set (memories d)"
      "own (q_user_id q) (q_new q) n" "own (q_user_id q) (q_existing q) e"
      "judge E n e \<in> {Contradiction_label, Update_label}"
      using c by (auto simp: contested_def)
    have "?a = Some n" "?b = Some e" using find_own_keyed [OF assms] ne by auto
    then obtain m where m: "m \<in> {n, e}" "m_is_superseded (g m)" using won ne(5) by blast
    moreover have "m_id (g m) = m_id m" using g(3) [of m] by (simp add: row_grows_def)
    ultimately show ?thesis
      using ne by (auto simp: settled_def own_def)
  qed
  ultimately show thesis using that [of v ?d] g(2) by simp
qed


section \<open>The pass\<close>

definition resolved_all :: "env \<Rightarrow> db \<Rightarrow> conflict_row list \<Rightarrow> db \<Rightarrow> bool" where
  "resolved_all E d qs d' \<longleftrightarrow> grows d d' \<and> (\<forall>q \<in> set qs. contested E d q \<longrightarrow> settled d' q)
     \<and> conflict_queue d' = filter (\<lambda>r. q_id r \<notin> q_id ` set qs) (conflict_queue d)"

lemma fold_resolve_pair:
  assumes "keyed m_id (memories d)"
  shows "\<exists>k' d'. fold_sm qs (resolve_pair E) k d = (Inr k', d') \<and> k' \<le> length qs + k \<and> resolved_all E d qs d'"
  using assms
proof (induction qs arbitrary: k d)
  case Nil
  then show ?case by (simp add: ret_sm_def resolved_all_def grw.R_refl)
next
  case (Cons q qs)
  obtain k1 d1 where one: "resolve_pair E q k d = (Inr k1, d1)" "k1 \<le> Suc k" "grows d d1"
    "conflict_queue d1 = filter (\<lambda>r. q_id r \<noteq> q_id q) (conflict_queue d)"
    "contested E d q \<Longrightarrow> settled d1 q"
    by (rule resolve_pair_spec [OF Cons.prems, of E q k]) blast
  have "keyed m_id (memories d1)" using Cons.prems grows_ids [OF one(3)] by (simp add: keyed_def)
  from Cons.IH [OF this, of k1] obtain k2 d2 where
    two: "fold_sm qs (resolve_pair E) k1 d1 = (Inr k2, d2)" "k2 \<le> length qs + k1" "resolved_all E d1 qs d2"
    by blast
  have "grows d1 d2" using two(3) by (simp add: resolved_all_def)
  then have "grows d d2" using one(3) by (rule grw.R_trans [rotated])
  moreover have "settled d2 r" if "r \<in> set (q # qs)" "contested E d r" for r
    using that two(3) one(5) contested_grows [OF one(3)] settled_grows [OF \<open>grows d1 d2\<close>]
    by (auto simp: resolved_all_def)
  moreover have "conflict_queue d2 = filter (\<lambda>r. q_id r \<notin> q_id ` set (q # qs)) (conflict_queue d)"
    using two(3) one(4) by (auto simp: resolved_all_def intro: filter_cong)
  ultimately show ?case
    using one two by (simp add: bind_sm_Inr resolved_all_def)
qed

lemma next_conflicts_set:
  "set (next_conflicts d) \<subseteq> set (conflict_queue d)" "length (next_conflicts d) \<le> 50"
  using set_take_subset [of 50 "sort_by (cmp_desc q_similarity) (conflict_queue d)"]
  by (auto simp: next_conflicts_def sql_limit_def CONFLICT_RESOLUTION_BATCH_def)

lemma next_conflicts_by_id:
  assumes "wf_db d"
  shows "filter (\<lambda>q. q_id q \<notin> q_id ` set (next_conflicts d)) (conflict_queue d) =
    filter (\<lambda>q. q \<notin> set (next_conflicts d)) (conflict_queue d)"
proof (rule filter_cong [OF refl])
  fix q assume "q \<in> set (conflict_queue d)"
  then show "(q_id q \<notin> q_id ` set (next_conflicts d)) = (q \<notin> set (next_conflicts d))"
    using wf_dbD(6) [OF assms] next_conflicts_set(1) [of d]
    by (auto simp: keyed_def distinct_map dest: inj_onD)
qed


text \<open>Two memories of Alice, queued as a conflict.\<close>

definition torn_app :: app where
  "torn_app = (fresh_app 10)\<lparr>app_store := empty_db\<lparr>
     memories := [new_minimal ''a'' ''alice'' ''x'' ''semantic'' ''fact'' 1,
                  new_minimal ''b'' ''alice'' ''y'' ''semantic'' ''fact'' 2],
     memories_fts := [(''a'', ''x''), (''b'', ''y'')], conflict_seq := 1,
     conflict_queue := [\<lparr>q_id = 1, q_user_id = ''alice'', q_new = ''b'', q_existing = ''a'',
                         q_similarity = Fin (9 / 10), q_queued_at = 2\<rparr>]\<rparr>\<rparr>"

lemma torn_app_wf: "wf_db (app_store torn_app)"
  by (simp add: torn_app_def wf_db_def keyed_def fts_mirror_def empty_db_def wf_conflict_def memory_exists_def)


end
