(* ===== verification/Ingest_Laws.thy ===== *)
theory Ingest_Laws
  imports Requests
begin

text \<open>
  What storing guarantees: the memory that was stored can be read back under the id the response
  carries, with what was asked for, and the memories that were there before keep everything but
  their stability. The frame \<open>tuned i\<close> is what the handling of similar memories keeps of the table
  while memory \<open>i\<close> is being stored.
\<close>

section \<open>Frames\<close>

definition row_tuned :: "memory_row \<Rightarrow> memory_row \<Rightarrow> bool" where
  "row_tuned m m' \<longleftrightarrow> (\<exists>x. m' = m\<lparr>m_stability := x\<rparr>)"

definition tuned_except :: "string \<Rightarrow> memory_row \<Rightarrow> memory_row \<Rightarrow> bool" where
  "tuned_except i m m' \<longleftrightarrow> (if m_id m = i then m' = m else row_tuned m m')"

definition tuned :: "string \<Rightarrow> db \<Rightarrow> db \<Rightarrow> bool" where
  "tuned i d d' \<longleftrightarrow> list_all2 (tuned_except i) (memories d) (memories d')"

lemma row_tuned_simps [simp]: "row_tuned m m" "row_tuned m (m\<lparr>m_stability := x\<rparr>)"
proof -
  have "m = m\<lparr>m_stability := m_stability m\<rparr>" by simp
  then show "row_tuned m m" unfolding row_tuned_def by (rule exI)
qed (auto simp: row_tuned_def)

lemma row_tuned_trans: "row_tuned a b \<Longrightarrow> row_tuned b c \<Longrightarrow> row_tuned a c"
  by (auto simp: row_tuned_def)

lemma row_tuned_key: "row_tuned m m' \<Longrightarrow> m_id m' = m_id m \<and> m_user_id m' = m_user_id m"
  by (auto simp: row_tuned_def)

lemma tuned_except_id: "tuned_except i m m' \<Longrightarrow> m_id m' = m_id m"
  by (auto simp: tuned_except_def row_tuned_key split: if_splits)

lemma tuned_except_trans: "tuned_except i a b \<Longrightarrow> tuned_except i b c \<Longrightarrow> tuned_except i a c"
  using tuned_except_id [of i a b] by (auto simp: tuned_except_def row_tuned_trans split: if_splits)

interpretation tun: frame_rel "tuned i" for i
proof
  fix d :: db
  show "tuned i d d" by (simp add: tuned_def tuned_except_def list_all2_refl)
next
  fix d d' d'' :: db
  assume "tuned i d d'" "tuned i d' d''"
  then show "tuned i d d''" unfolding tuned_def list_all2_conv_all_nth by (metis tuned_except_trans)
qed

lemma tuned_same: "memories d' = memories d \<Longrightarrow> tuned i d d'"
  using tun.R_refl [of i d] by (simp add: tuned_def)

lemma tuned_get:
  "tuned i d d' \<Longrightarrow> rel_option (tuned_except i) (tbl_get m_id (memories d) k) (tbl_get m_id (memories d') k)"
  unfolding tuned_def
  by (induction rule: list_all2_induct) (auto simp: tbl_get_def tuned_except_id)

lemma keeps_same:
  assumes "\<And>d. memories (snd (m d)) = memories d"
  shows "keeps (tuned i) m"
  by (rule keepsI) (simp add: tuned_same assms)

lemma band_ops_tuned:
  "keeps (tuned i) (insert_conflict u a b sim now)"
  "keeps (tuned i) (synaptic_link a b w now)"
  "j \<noteq> i \<Longrightarrow> keeps (tuned i) (update_memories (own u j) (\<lambda>m. m\<lparr>m_stability := h m\<rparr>))"
proof -
  show "keeps (tuned i) (insert_conflict u a b sim now)"
    by (rule keeps_same) (simp add: insert_conflict_def Let_def)
  show "keeps (tuned i) (synaptic_link a b w now)"
    by (rule keeps_same) (simp add: synaptic_link_def upsert_association_def)
  show "keeps (tuned i) (update_memories (own u j) (\<lambda>m. m\<lparr>m_stability := h m\<rparr>))" if "j \<noteq> i"
  proof (rule keepsI)
    fix d :: db
    show "tuned i d (snd (update_memories (own u j) (\<lambda>m. m\<lparr>m_stability := h m\<rparr>) d))"
      using that by (simp add: tuned_def update_memories_def tbl_update_def list_all2_conv_all_nth
          tuned_except_def own_def)
  qed
qed

lemma band_loop_tuned: "keeps (tuned i) (band_loop u i now hits)"
  by (induction hits)
    (auto simp: Let_def simp del: bind_sm_ret intro!: tun.keeps_bind tun.keeps_ret band_ops_tuned)

interpretation app_tun: frame_rel "store_frame (tuned i)" for i
  by unfold_locales (auto simp: store_frame_def intro: tun.R_refl tun.R_trans)

lemma run_search_tuned: "keeps (store_frame (tuned i)) (run_search E u v opts)"
proof -
  have "keeps (tuned i) (search (e_fts_match E) (e_rrf_iter E) (e_lifecycle E) u v opts)"
    using search_ro by (intro keeps_same) (simp add: keeps_def unchanged_def)
  then show ?thesis unfolding run_search_def by (rule keeps_on_store)
qed

lemma queue_conflicts_for_tuned: "keeps (store_frame (tuned i)) (queue_conflicts_for E u i v)"
  unfolding queue_conflicts_for_def Let_def
  by (intro app_tun.keeps_bind run_search_tuned keeps_sql tun.keeps_transaction band_loop_tuned)

lemma embed_text_memories:
  assumes "embed_text E inp s = (r, s')"
  shows "memories (app_store s') = memories (app_store s)" "app_drawn s' = app_drawn s"
proof -
  have "cached_embed (e_sha256 E) (e_embedder E) (e_now E) inp d = (r', d') \<Longrightarrow> memories d' = memories d"
    for d r' d'
    by (auto simp: cached_embed_def Let_def bind_sm_def map_err_def cache_get_def cache_insert_def gets_sm_def
        ret_sm_def lift_sm_def split: option.splits sum.splits prod.splits if_splits)
  then show "memories (app_store s') = memories (app_store s)" "app_drawn s' = app_drawn s"
    using assms by (auto simp: embed_text_def on_store_eq split: prod.splits sum.splits)
qed

section \<open>The similarity bands succeed\<close>

lemma tuned_exists: "tuned i d d' \<Longrightarrow> memory_exists d' j = memory_exists d j"
proof -
  assume "tuned i d d'"
  then have "list_all2 (\<lambda>m m'. m_id m = m_id m') (memories d) (memories d')"
    unfolding tuned_def by (rule list_all2_mono) (simp add: tuned_except_id)
  then have "map m_id (memories d) = map m_id (memories d')"
    by (simp add: list_all2_conv_all_nth list_eq_iff_nth_eq)
  then show ?thesis by (simp add: memory_exists_def)
qed

lemma band_ops_total:
  assumes "memory_exists d a" "memory_exists d b"
  shows "\<exists>n d'. insert_conflict u a b sim now d = (Inr n, d')"
    "\<exists>n d'. synaptic_link a b w now d = (Inr n, d')"
    "\<exists>n d'. synaptic_link b a w now d = (Inr n, d')"
  using assms by (auto simp: insert_conflict_def synaptic_link_def upsert_association_def Let_def)

lemma band_loop_total:
  assumes "memory_exists d i" "\<forall>r \<in> set hits. memory_exists d (r_memory_id r)"
  shows "fst (band_loop u i now hits d) = Inr ()"
  using assms
proof (induction hits arbitrary: d)
  case (Cons hit hits)
  let ?j = "r_memory_id hit" and ?s = "r_score hit"
  have rest: "fst (band_loop u i now hits d') = Inr ()" if "tuned i d d'" for d'
    using Cons.prems tuned_exists [OF that] by (intro Cons.IH) auto
  have step: "fst (bind_sm m (\<lambda>_. band_loop u i now hits) d) = Inr ()"
    if "keeps (tuned i) m" "\<exists>n d'. m d = (Inr n, d')" for m :: "nat sql"
    using that(2) rest [OF keepsD [OF that(1)]] by (auto simp: bind_sm_def)
  have ex: "memory_exists d i" "memory_exists d ?j" using Cons.prems by simp_all
  consider "?j = i" | "?j \<noteq> i" "f_le (Fin CONFLICT_SIMILARITY_THRESHOLD) ?s"
    | "?j \<noteq> i" "\<not> f_le (Fin CONFLICT_SIMILARITY_THRESHOLD) ?s" "f_le (Fin STABILITY_REINFORCEMENT_THRESHOLD) ?s"
    | "?j \<noteq> i" "\<not> f_le (Fin CONFLICT_SIMILARITY_THRESHOLD) ?s" "\<not> f_le (Fin STABILITY_REINFORCEMENT_THRESHOLD) ?s"
    by blast
  then show ?case
  proof cases
    case 1
    then show ?thesis using rest [OF tun.R_refl] by (simp add: Let_def)
  next
    case 2
    then show ?thesis using step [OF band_ops_tuned(1) band_ops_total(1) [OF ex]] by (simp add: Let_def)
  next
    case 3
    then show ?thesis
      using step [OF band_ops_tuned(3), of ?j u "\<lambda>m. min 1 (m_stability m + STABILITY_REINFORCEMENT_AMOUNT)"]
      by (simp add: Let_def update_memories_def)
  next
    case 4
    let ?w = "synaptic_tag_weight (real_of_fl ?s)"
    obtain n d1 where l1: "synaptic_link i ?j ?w now d = (Inr n, d1)" using band_ops_total(2) [OF ex] by blast
    have t1: "tuned i d d1" using band_ops_tuned(2) l1 by (rule keepsD)
    then have "memory_exists d1 i" "memory_exists d1 ?j" using ex by (simp_all add: tuned_exists)
    then obtain n' d2 where l2: "synaptic_link ?j i ?w now d1 = (Inr n', d2)" using band_ops_total(3) by blast
    have "tuned i d1 d2" using band_ops_tuned(2) l2 by (rule keepsD)
    then have "fst (band_loop u i now hits d2) = Inr ()" using rest [OF tun.R_trans [OF t1]] by blast
    then show ?thesis using 4 l1 l2 by (simp add: Let_def bind_sm_def ret_sm_def)
  qed
qed (simp add: ret_sm_def)

definition store_options :: "env \<Rightarrow> search_options" where
  "store_options E = (new_search_options (emb_name (e_embedder E)) (emb_model (e_embedder E)) (e_now E))\<lparr>o_limit := 5\<rparr>"

lemma queue_conflicts_for_total:
  assumes "memory_exists (app_store s) i" "v \<noteq> []"
    and "\<forall>m \<in> set (candidates_of u (store_options E) (app_store s)). length (embedding_vec (to_candidate m)) = length v"
  shows "fst (queue_conflicts_for E u i v s) = Inr ()"
proof -
  let ?o = "store_options E" and ?d = "app_store s"
  define dense where "dense = map (score_candidate (e_lifecycle E) (o_now ?o) v) (map to_candidate (candidates_of u ?o ?d))"
  have sc: "score_candidates (e_lifecycle E) (o_now ?o) v (map to_candidate (candidates_of u ?o ?d)) = Inr dense"
    unfolding score_candidates_Inr dense_def using assms(3) by auto
  have ok: "o_limit ?o \<noteq> 0" "\<not> (o_hybrid ?o \<and> o_query_text ?o = None)"
    and dir: "\<not> o_hybrid ?o" "o_graph_expansion_hops ?o = 0"
    by (simp_all add: store_options_def new_search_options_def)
  obtain scored final where st:
    "scored = (if o_hybrid ?o then hybrid_fuse (e_rrf_iter E) (bm25_of (e_fts_match E) u ?o ?d) (sort_results dense) else sort_results dense)"
    "expansion_stage (e_lifecycle E) u v ?o scored ?d = (Inr final, ?d)"
    "search (e_fts_match E) (e_rrf_iter E) (e_lifecycle E) u v ?o ?d = (Inr (take (o_limit ?o) final), ?d)"
    using search_succeeds [OF assms(2) ok sc, of "e_rrf_iter E" "e_fts_match E"] .
  have "final = sort_results dense"
    using st(1,2) dir by (simp add: expansion_stage_def ret_sm_def)
  then have "set (take (o_limit ?o) final) \<subseteq> set dense"
    using set_take_subset [of "o_limit ?o" final] by (simp add: sort_results_def)
  then have "\<forall>r \<in> set (take (o_limit ?o) final). memory_exists ?d (r_memory_id r)"
    by (auto simp: dense_def score_candidate_def to_candidate_def memory_exists_def candidates_of_def Let_def)
  then have "fst (band_loop u i (e_now E) (take (o_limit ?o) final) ?d) = Inr ()"
    by (rule band_loop_total [OF assms(1)])
  then show ?thesis
    using st(3) by (auto simp: queue_conflicts_for_def store_options_def [symmetric] run_search_def on_store_eq
        bind_sm_def sql_def transaction_def split: prod.splits sum.splits)
qed

section \<open>Storing, then reading\<close>

definition stored_row :: "env \<Rightarrow> store_memory_args \<Rightarrow> string \<Rightarrow> f32 list \<Rightarrow> memory_row" where
  "stored_row E args i v = with_importance (sm_importance args)
     (embedded_row E i (sm_user_id args) (sm_content args) (sm_category args) (sm_memory_type args) (sm_metadata args) v)"

lemma stored_row_simps [simp]:
  "m_id (stored_row E args i v) = i" "m_user_id (stored_row E args i v) = sm_user_id args"
  "wf_memory (stored_row E args i v)" "m_is_cold (stored_row E args i v) = False"
  "m_embedding (stored_row E args i v) = Some (encode_f32s v)"
  by (simp_all add: stored_row_def)
    (simp_all add: with_importance_def embedded_row_def new_minimal_def split: option.split)

lemma store_inserts:
  assumes "wf_db (app_store s)" "embed_text E (sm_content args) s = (Inr v, t)"
    and "i = ''mem_'' @ e_ulid E (app_drawn s)" "tbl_get m_id (memories (app_store s)) i = None"
  obtains s1 where
    "handle_memory_store E args (sm_user_id args) s
       = bind_sm (queue_conflicts_for E (sm_user_id args) i v) (\<lambda>_. ret_sm (response_ok (MemoryStoredR i))) s1"
    "\<And>k. tbl_get m_id (memories (app_store s1)) k
       = (if k = i then Some (stored_row E args i v) else tbl_get m_id (memories (app_store s)) k)"
    "memories (app_store s1) = memories (app_store s) @ [stored_row E args i v]"
proof -
  have t: "memories (app_store t) = memories (app_store s)" "app_drawn t = app_drawn s"
    using embed_text_memories [OF assms(2)] by simp_all
  let ?r = "stored_row E args i v"
  let ?t1 = "t\<lparr>app_drawn := Suc (app_drawn t)\<rparr>"
  have "tbl_insert m_id ?r (memories (app_store t)) = Some (memories (app_store s) @ [?r])"
    using assms(4) t by (simp add: tbl_insert_def tbl_get_None)
  then obtain d where d: "insert_row ?r (app_store ?t1) = (Inr (), d)" "memories d = memories (app_store s) @ [?r]"
    by (simp add: insert_row_def insert_memory_def)
  have ins: "sql (insert_row ?r) ?t1 = (Inr (), ?t1\<lparr>app_store := d\<rparr>)"
    using d(1) by (rule sql_Inr)
  show thesis
  proof (rule that [of "?t1\<lparr>app_store := d\<rparr>"])
    show "handle_memory_store E args (sm_user_id args) s
       = bind_sm (queue_conflicts_for E (sm_user_id args) i v) (\<lambda>_. ret_sm (response_ok (MemoryStoredR i)))
           (?t1\<lparr>app_store := d\<rparr>)"
      using ins assms(3) t
      by (simp add: handle_memory_store_def require_user_match_def bind_sm_Inr [where m = "embed_text E (sm_content args)" and s = s, OF assms(2)] Let_def
          stored_row_def [symmetric] bind_sm_def [of "sql m" for m])
  qed (use d assms(4) in \<open>auto simp: tbl_get_append tbl_get_def [of _ "[x]" for x] split: option.split\<close>)
qed

lemma store_tuned:
  assumes "wf_db (app_store s)" "embed_text E (sm_content args) s = (Inr v, t)"
    and "i = ''mem_'' @ e_ulid E (app_drawn s)" "tbl_get m_id (memories (app_store s)) i = None"
    and run: "handle_memory_store E args (sm_user_id args) s = (res, s')"
  obtains s1 where
    "(res, s') = bind_sm (queue_conflicts_for E (sm_user_id args) i v) (\<lambda>_. ret_sm (response_ok (MemoryStoredR i))) s1"
    "\<And>k. tbl_get m_id (memories (app_store s1)) k
       = (if k = i then Some (stored_row E args i v) else tbl_get m_id (memories (app_store s)) k)"
    "memories (app_store s1) = memories (app_store s) @ [stored_row E args i v]"
    "tuned i (app_store s1) (app_store s')"
proof -
  let ?m = "bind_sm (queue_conflicts_for E (sm_user_id args) i v) (\<lambda>_. ret_sm (response_ok (MemoryStoredR i)))"
  obtain s1 where s1: "handle_memory_store E args (sm_user_id args) s = ?m s1"
    "\<And>k. tbl_get m_id (memories (app_store s1)) k
       = (if k = i then Some (stored_row E args i v) else tbl_get m_id (memories (app_store s)) k)"
    "memories (app_store s1) = memories (app_store s) @ [stored_row E args i v]"
    using store_inserts [OF assms(1-4)] by metis
  have "keeps (store_frame (tuned i)) ?m"
    by (intro app_tun.keeps_bind queue_conflicts_for_tuned app_tun.keeps_ret)
  then have "store_frame (tuned i) s1 s'" by (rule keepsD) (use run s1(1) in simp)
  then show thesis using that [of s1] s1 run by (simp add: store_frame_def)
qed


text \<open>Alice stores a first memory.\<close>

definition demo_store :: store_memory_args where
  "demo_store = \<lparr>sm_user_id = ''alice'', sm_content = ''x'', sm_category = ''semantic'', sm_memory_type = ''fact'',
     sm_metadata = ''{}'', sm_importance = None\<rparr>"

lemma demo_embeds: "\<exists>t. embed_text demo_env inp (fresh_app n) = (Inr [1065353216], t)"
  by (simp add: embed_text_def on_store_eq cached_embed_def fresh_app_def demo_env_def empty_db_def Let_def
      bind_sm_def map_err_def cache_get_def cache_insert_def gets_sm_def lift_sm_def ret_sm_def tbl_get_def
      tbl_insert_def)

lemma demo_fresh:
  "wf_db (app_store (fresh_app n))" "tbl_get m_id (memories (app_store (fresh_app n))) i = None"
  "''mem_'' = ''mem_'' @ e_ulid demo_env (app_drawn (fresh_app n))"
  "candidates_of u opts (app_store (fresh_app n)) = []"
  by (simp_all add: fresh_app_def wf_empty_db) (simp_all add: empty_db_def tbl_get_def demo_env_def candidates_of_def)

lemma demo_store_adds:
  "memories (app_store (snd (handle_memory_store demo_env demo_store ''alice'' (fresh_app n)))) \<noteq> []"
proof -
  obtain t where t: "embed_text demo_env (sm_content demo_store) (fresh_app n) = (Inr [1065353216], t)"
    using demo_embeds by blast
  obtain res s' where run: "handle_memory_store demo_env demo_store (sm_user_id demo_store) (fresh_app n) = (res, s')"
    by fastforce
  show ?thesis
  proof (rule store_tuned [OF demo_fresh(1) t demo_fresh(3,2) run])
    fix s1 :: app
    assume "memories (app_store s1) = memories (app_store (fresh_app n)) @ [stored_row demo_env demo_store ''mem_'' [1065353216]]"
      and "tuned ''mem_'' (app_store s1) (app_store s')"
    then show ?thesis using run by (auto simp: tuned_def demo_store_def)
  qed
qed


end
