(* ===== verification/Consolidation_Laws.thy ===== *)
theory Consolidation_Laws
  imports Row_Loops Ingest_Laws "HOL-Library.Sublist"
begin

text \<open>
  What consolidation (pass 4 of the tick) does to the memories. Its effect is described by the list of
  the clusters it has compressed, each with the summary row written for it: the table afterwards is
  the table before, with the members of every cluster folded into their summary, followed by the
  summaries. The invariant \<open>cons_inv\<close> says so at every point of the loops, whether they go on, stop
  at the cap or fail.
\<close>

type_synonym cluster = "memory_row list \<times> memory_row"

definition is_fading :: "env \<Rightarrow> memory_row \<Rightarrow> bool" where
  "is_fading E m \<longleftrightarrow> is_hot m \<and> m_embedding m \<noteq> None
     \<and> f_lt (compute_current_retention m (e_now E) (e_lifecycle E)) (Fin CONSOLIDATION_RETENTION_THRESHOLD)"

definition alike :: "memory_row \<Rightarrow> memory_row \<Rightarrow> bool" where
  "alike h m \<longleftrightarrow> length (decode_embedding (m_embedding m)) = length (decode_embedding (m_embedding h))
     \<and> f_le (Fin CONSOLIDATION_SIM_THRESHOLD)
         (cosine_similarity_f32 (decode_embedding (m_embedding h)) (decode_embedding (m_embedding m)))"

text \<open>A cluster that may be compressed, of one user and one category.\<close>

definition cluster_ok :: "env \<Rightarrow> db \<Rightarrow> string \<Rightarrow> string \<Rightarrow> memory_row list \<Rightarrow> bool" where
  "cluster_ok E d u cat grp \<longleftrightarrow> length grp = CONSOLIDATION_GROUP_SIZE \<and> set grp \<subseteq> set (memories d)
     \<and> (\<forall>m \<in> set grp. is_fading E m \<and> m_user_id m = u \<and> m_category m = cat)
     \<and> (\<forall>m \<in> set (tl grp). alike (hd grp) m)"

definition summary_ok :: "env \<Rightarrow> cluster \<Rightarrow> bool" where
  "summary_ok E c \<longleftrightarrow> (case c of (grp, r) \<Rightarrow>
     m_memory_type r = ''summary'' \<and> m_created_at r = e_now E
     \<and> (\<forall>m \<in> set grp. m_importance m \<le> m_importance r)
     \<and> m_stability r = sum_list (map m_stability grp) / real (length grp))"

definition members :: "cluster list \<Rightarrow> string list" where
  "members cs = map m_id (concat (map fst cs))"

definition folded :: "env \<Rightarrow> cluster list \<Rightarrow> memory_row \<Rightarrow> memory_row" where
  "folded E cs m = (case find (\<lambda>c. m_id m \<in> m_id ` set (fst c)) cs of
      Some c \<Rightarrow> fold_into (m_id (snd c)) (e_now E) m | None \<Rightarrow> m)"

definition cons_inv :: "env \<Rightarrow> db \<Rightarrow> cluster list \<Rightarrow> db \<Rightarrow> bool" where
  "cons_inv E d cs d' \<longleftrightarrow> memories d' = map (folded E cs) (memories d) @ map snd cs
     \<and> keyed m_id (memories d') \<and> distinct (members cs)
     \<and> (\<forall>(grp, r) \<in> set cs. cluster_ok E d (m_user_id r) (m_category r) grp \<and> summary_ok E (grp, r))"

section \<open>One cluster\<close>

lemma fold_into_simps [simp]:
  "m_id (fold_into sid now m) = m_id m" "m_user_id (fold_into sid now m) = m_user_id m"
  "\<not> is_hot (fold_into sid now m)" "fold_into sid now (fold_into sid now m) = fold_into sid now m"
  by (simp_all add: fold_into_def is_hot_def)

lemma folded_simps [simp]:
  "m_id (folded E cs m) = m_id m" "m_user_id (folded E cs m) = m_user_id m" "folded E [] m = m"
  by (simp_all add: folded_def split: option.split)

lemma members_simps [simp]:
  "members [] = []" "members (cs @ cs') = members cs @ members cs'" "members [(grp, r)] = map m_id grp"
  by (simp_all add: members_def)

lemma find_member: "find (\<lambda>c. i \<in> m_id ` set (fst c)) cs = None \<longleftrightarrow> i \<notin> set (members cs)"
  by (force simp: find_None_iff members_def)

lemma folded_outside: "m_id m \<notin> set (members cs) \<Longrightarrow> folded E cs m = m"
  by (simp add: folded_def find_member [THEN iffD2])

lemma folded_member: "m_id m \<in> set (members cs) \<Longrightarrow> \<not> is_hot (folded E cs m)"
  using find_member [of "m_id m" cs] by (auto simp: folded_def split: option.split)

lemma find_append: "find P (xs @ ys) = (case find P xs of Some x \<Rightarrow> Some x | None \<Rightarrow> find P ys)"
  by (induction xs) auto

lemma folded_snoc:
  assumes "m_id ` set grp \<inter> set (members cs) = {}"
  shows "folded E (cs @ [(grp, r)]) m =
    (if m_id m \<in> m_id ` set grp then fold_into (m_id r) (e_now E) m else folded E cs m)"
proof (cases "m_id m \<in> m_id ` set grp")
  case True
  with assms have "m_id m \<notin> set (members cs)" by blast
  then show ?thesis using True by (simp add: folded_def find_append find_member [THEN iffD2])
next
  case False
  then show ?thesis by (auto simp: folded_def find_append split: option.split)
qed

lemma fold_loop_gives:
  "gives (\<lambda>m. if m_user_id m = u \<and> m_id m \<in> m_id ` set grp then fold_into sid now m else m) ()
     (transaction (for_sm grp (\<lambda>m. bind_sm (update_memories (own u (m_id m)) (fold_into sid now)) (\<lambda>_. ret_sm ()))))"
proof -
  let ?g = "\<lambda>x m. if own u (m_id x) m then fold_into sid now m else m"
  have "gives (?g x) () (bind_sm (update_memories (own u (m_id x)) (fold_into sid now)) (\<lambda>_. ret_sm ()))" for x
    using gives_bind [OF acts_update gives_ret(1), of "own u (m_id x)" "fold_into sid now" "()"] by simp
  then have "gives (fold ?g grp) ()
     (transaction (for_sm grp (\<lambda>m. bind_sm (update_memories (own u (m_id m)) (fold_into sid now)) (\<lambda>_. ret_sm ()))))"
    by (intro gives_transaction gives_for)
  moreover have "fold ?g grp m =
      (if m_user_id m = u \<and> m_id m \<in> m_id ` set grp then fold_into sid now m else m)" for m
    by (induction grp arbitrary: m) (auto simp: own_def)
  then have "fold ?g grp = (\<lambda>m. if m_user_id m = u \<and> m_id m \<in> m_id ` set grp then fold_into sid now m else m)"
    by (rule ext)
  ultimately show ?thesis by simp
qed

text \<open>The summary row carries the user, the category of the first member, the largest importance and the
  mean stability.\<close>

lemma foldr_max_ge: "x \<in> set xs \<Longrightarrow> (x :: real) \<le> foldr max xs b"
  by (induction xs) (auto simp: le_max_iff_disj)

lemma summary_row_simps [simp]:
  "m_id (summary_row_of E i u grp t v) = i" "m_user_id (summary_row_of E i u grp t v) = u"
  "m_category (summary_row_of E i u grp t v) = m_category (hd grp)"
  by (simp_all add: summary_row_of_def Let_def new_minimal_def)

lemma summary_row_ok: "summary_ok E (grp, summary_row_of E i u grp t v)"
  by (simp add: summary_ok_def summary_row_of_def Let_def new_minimal_def foldr_max_ge)

lemma cons_inv_memories: "memories d2 = memories d1 \<Longrightarrow> cons_inv E d cs d2 = cons_inv E d cs d1"
  by (simp only: cons_inv_def)

text \<open>Inserting the summary and folding the members extends the list of clusters.\<close>

lemma cons_inv_extend:
  assumes inv: "cons_inv E d cs d1" and ok: "cluster_ok E d u cat grp" and key: "keyed m_id (memories d)"
    and fresh: "distinct (map m_id grp)" "m_id ` set grp \<inter> set (members cs) = {}"
    and r: "m_id r \<notin> m_id ` set (memories d1)" "m_user_id r = u" "m_category r = cat" "summary_ok E (grp, r)"
    and d2: "memories d2 = map (\<lambda>m. if m_user_id m = u \<and> m_id m \<in> m_id ` set grp
               then fold_into (m_id r) (e_now E) m else m) (memories d1 @ [r])"
  shows "cons_inv E d (cs @ [(grp, r)]) d2"
proof -
  let ?g = "\<lambda>m. if m_user_id m = u \<and> m_id m \<in> m_id ` set grp then fold_into (m_id r) (e_now E) m else m"
  have d1: "memories d1 = map (folded E cs) (memories d) @ map snd cs" and k1: "keyed m_id (memories d1)"
    using inv unfolding cons_inv_def by blast+
  have sub: "m_id ` set grp \<subseteq> m_id ` set (memories d)" using ok by (auto simp: cluster_ok_def)
  have kept: "?g (folded E cs m) = folded E (cs @ [(grp, r)]) m" if m: "m \<in> set (memories d)" for m
  proof (cases "m_id m \<in> m_id ` set grp")
    case True
    then have "m \<in> set grp" using key m ok by (auto simp: cluster_ok_def keyed_def distinct_map dest: inj_onD)
    moreover have "m_id m \<notin> set (members cs)" using True fresh(2) by blast
    ultimately show ?thesis using ok fresh(2) by (simp add: folded_snoc folded_outside cluster_ok_def)
  qed (use fresh(2) in \<open>simp add: folded_snoc\<close>)
  have same: "?g m = m" if "m \<in> snd ` set cs \<or> m = r" for m
  proof -
    have "m_id ` set (memories d) \<inter> m_id ` (snd ` set cs) = {}" "m_id r \<notin> m_id ` set (memories d)"
      using k1 r(1) by (auto simp: d1 keyed_def image_image image_Un)
    then have "m_id m \<notin> m_id ` set (memories d)" using that by blast
    then show ?thesis using sub by auto
  qed
  have old: "map ?g (map (folded E cs) (memories d)) = map (folded E (cs @ [(grp, r)])) (memories d)"
    unfolding map_map comp_def by (rule map_cong [OF refl]) (rule kept)
  have new: "map ?g (map snd cs @ [r]) = map snd cs @ [r]"
    by (rule map_idI, rule same) auto
  have "memories d2 = map ?g (map (folded E cs) (memories d)) @ map ?g (map snd cs @ [r])"
    unfolding d2 d1 by simp
  then have "memories d2 = map (folded E (cs @ [(grp, r)])) (memories d) @ map snd (cs @ [(grp, r)])"
    unfolding old new by simp
  moreover have "map m_id (memories d2) = map m_id (memories d1) @ [m_id r]" by (simp add: d2 comp_def)
  then have "keyed m_id (memories d2)" using k1 r(1) by (simp add: keyed_def)
  ultimately show ?thesis using inv ok r fresh by (auto simp: cons_inv_def)
qed

lemma compress_cluster_inv:
  assumes inv: "cons_inv E d cs (app_store s)" and ok: "cluster_ok E d u cat grp" and key: "keyed m_id (memories d)"
    and fresh: "distinct (map m_id grp)" "m_id ` set grp \<inter> set (members cs) = {}"
    and run: "compress_cluster E u grp llm s = (res, s')"
  shows "(\<exists>e. res = Inl e) \<and> cons_inv E d cs (app_store s')
    \<or> (\<exists>i r. res = Inr i \<and> m_user_id r = u \<and> m_category r = cat \<and> cons_inv E d (cs @ [(grp, r)]) (app_store s'))"
proof -
  obtain prompt where run2: "compress_cluster E u grp llm s =
      bind_sm (lift_sm (map_sum (\<lambda>e. InvalidPayload (''LLM compress: '' @ e)) id (llm prompt 200))) (\<lambda>t.
      bind_sm (embed_text E t) (\<lambda>v. bind_sm (draw (e_ulid E)) (\<lambda>ulid.
        bind_sm (sql (insert_row (summary_row_of E (''mem_'' @ ulid) u grp t v))) (\<lambda>_.
        bind_sm (sql (transaction (for_sm grp (\<lambda>m.
           bind_sm (update_memories (own u (m_id m)) (fold_into (''mem_'' @ ulid) (e_now E))) (\<lambda>_. ret_sm ())))))
          (\<lambda>_. ret_sm (''mem_'' @ ulid)))))) s"
    by (simp add: compress_cluster_def Let_def)
  show ?thesis
  proof (cases "llm prompt 200")
    case (Inl e)
    then show ?thesis using run inv by (auto simp: run2 lift_sm_def bind_sm_def)
  next
    case (Inr t)
    obtain rv s1 where emb: "embed_text E t s = (rv, s1)" by fastforce
    have inv1: "cons_inv E d cs (app_store s1)"
      using cons_inv_memories [OF embed_text_memories(1) [OF emb]] inv by simp
    show ?thesis
    proof (cases rv)
      case (Inl e)
      then show ?thesis using run inv1 by (auto simp: run2 Inr emb lift_sm_def bind_sm_def)
    next
      case (Inr v)
      let ?i = "''mem_'' @ e_ulid E (app_drawn s1)" and ?s2 = "s1\<lparr>app_drawn := Suc (app_drawn s1)\<rparr>"
      let ?r = "summary_row_of E ?i u grp t v"
      have rest: "(res, s') = bind_sm (sql (insert_row ?r)) (\<lambda>_. bind_sm (sql (transaction (for_sm grp (\<lambda>m.
           bind_sm (update_memories (own u (m_id m)) (fold_into ?i (e_now E))) (\<lambda>_. ret_sm ())))))
          (\<lambda>_. ret_sm ?i)) ?s2"
        using run emb by (simp add: run2 \<open>llm prompt 200 = Inr t\<close> Inr lift_sm_def bind_sm_def [of "lift_sm _"]
              bind_sm_def [of "embed_text _ _"])
      show ?thesis
      proof (cases "?i \<in> m_id ` set (memories (app_store s1))")
        case True
        then have "insert_row ?r (app_store ?s2) = (Inl Unique_violation, app_store ?s2)"
          by (simp add: insert_row_def insert_memory_def tbl_insert_def)
        then have "(res, s') = (Inl (Storage Unique_violation), ?s2)"
          using rest by (simp add: bind_sm_Inl [OF sql_Inl])
        then show ?thesis using inv1 by simp
      next
        case False
        then obtain d1 where ins: "insert_row ?r (app_store ?s2) = (Inr (), d1)"
          and d1: "memories d1 = memories (app_store s1) @ [?r]"
          by (simp add: insert_row_def insert_memory_def tbl_insert_def)
        let ?g = "\<lambda>m. if m_user_id m = u \<and> m_id m \<in> m_id ` set grp then fold_into ?i (e_now E) m else m"
        have "transaction (for_sm grp (\<lambda>m. bind_sm (update_memories (own u (m_id m)) (fold_into ?i (e_now E)))
            (\<lambda>_. ret_sm ()))) d1 = (Inr (), map_memories ?g d1)"
          using fold_loop_gives [of u grp ?i "e_now E"] by (simp add: gives_def)
        then have eq: "(res, s') = (Inr ?i, ?s2\<lparr>app_store := map_memories ?g d1\<rparr>)"
          using rest sql_Inr [of "insert_row ?r" ?s2, OF ins]
          by (simp add: sql_Inr bind_sm_def [of "sql (insert_row _)"] bind_sm_def [of "sql (transaction _)"] ret_sm_def)
        have "m_category ?r = cat" using ok by (cases grp) (auto simp: cluster_ok_def CONSOLIDATION_GROUP_SIZE_def)
        moreover from this have "cons_inv E d (cs @ [(grp, ?r)]) (map_memories ?g d1)"
          using False d1 by (intro cons_inv_extend [OF inv1 ok key fresh]) (simp_all add: summary_row_ok)
        ultimately have "m_user_id ?r = u \<and> m_category ?r = cat \<and> cons_inv E d (cs @ [(grp, ?r)]) (app_store s')"
          using eq by simp
        then show ?thesis using eq by blast
      qed
    qed
  qed
qed

section \<open>Gathering and the loops\<close>

lemma subseq_set_subset: "subseq xs ys \<Longrightarrow> set xs \<subseteq> set ys"
  by (auto simp: subseq_conv_nths dest: in_set_nthsD)

lemma subseq_distinct_map: "subseq xs ys \<Longrightarrow> distinct (map f ys) \<Longrightarrow> distinct (map f xs)"
  by (auto simp: subseq_conv_nths nths_map [symmetric] intro: distinct_nthsI)

lemma gather_spec:
  "\<exists>xs. gather (decode_embedding (m_embedding h)) used cands grp = grp @ xs \<and> subseq xs cands
     \<and> (\<forall>m \<in> set xs. m_id m \<notin> set used \<and> alike h m)
     \<and> (length grp < CONSOLIDATION_GROUP_SIZE \<longrightarrow> length (grp @ xs) \<le> CONSOLIDATION_GROUP_SIZE)"
proof (induction cands arbitrary: grp)
  case Nil
  then show ?case by simp
next
  case (Cons c cands)
  let ?hv = "decode_embedding (m_embedding h)"
  have skip: ?case if "gather ?hv used (c # cands) grp = gather ?hv used cands grp"
    using Cons [of grp] that by (metis list_emb_Cons)
  show ?case
  proof (cases "m_id c \<notin> set used \<and> alike h c")
    case False
    then show ?thesis by (intro skip) (auto simp: alike_def Let_def)
  next
    case True
    then have g: "gather ?hv used (c # cands) grp =
        (if CONSOLIDATION_GROUP_SIZE \<le> length (grp @ [c]) then grp @ [c] else gather ?hv used cands (grp @ [c]))"
      by (simp add: alike_def Let_def)
    show ?thesis
    proof (cases "CONSOLIDATION_GROUP_SIZE \<le> length (grp @ [c])")
      case full: True
      then have "gather ?hv used (c # cands) grp = grp @ [c]" using g by simp
      then show ?thesis using True by (intro exI [of _ "[c]"]) auto
    next
      case more: False
      obtain xs where "gather ?hv used cands (grp @ [c]) = (grp @ [c]) @ xs" "subseq xs cands"
        "\<forall>m \<in> set xs. m_id m \<notin> set used \<and> alike h m" "length ((grp @ [c]) @ xs) \<le> CONSOLIDATION_GROUP_SIZE"
        using Cons [of "grp @ [c]"] more by auto
      then show ?thesis using True more g by (intro exI [of _ "c # xs"]) auto
    qed
  qed
qed

text \<open>What holds of the rows that are still to be looked at: they are fading rows of one user and one
  category, and those already in a cluster are marked as used.\<close>

definition pending :: "env \<Rightarrow> db \<Rightarrow> string \<Rightarrow> string \<Rightarrow> cluster list \<Rightarrow> string list \<Rightarrow> memory_row list \<Rightarrow> bool" where
  "pending E d u cat cs used ms \<longleftrightarrow> set ms \<subseteq> set (memories d) \<and> distinct (map m_id ms)
     \<and> (\<forall>m \<in> set ms. is_fading E m \<and> m_user_id m = u \<and> m_category m = cat)
     \<and> (\<forall>m \<in> set ms. m_id m \<in> set (members cs) \<longrightarrow> m_id m \<in> set used)"

lemma gathered_cluster:
  assumes p: "pending E d u cat cs used (h # rest)" and h: "m_id h \<notin> set used"
    and g: "grp = gather (decode_embedding (m_embedding h)) used rest [h]" "CONSOLIDATION_GROUP_SIZE \<le> length grp"
  shows "cluster_ok E d u cat grp \<and> distinct (map m_id grp) \<and> m_id ` set grp \<inter> set (members cs) = {}"
proof -
  obtain xs where xs: "grp = h # xs" "subseq xs rest" "\<forall>m \<in> set xs. m_id m \<notin> set used \<and> alike h m"
      "length (h # xs) \<le> CONSOLIDATION_GROUP_SIZE"
    using gather_spec [of h used rest "[h]"] g(1) by (auto simp: CONSOLIDATION_GROUP_SIZE_def)
  have sub: "set xs \<subseteq> set rest" using xs(2) by (rule subseq_set_subset)
  have "subseq grp (h # rest)" using xs(1,2) by simp
  then have "distinct (map m_id grp)" using p by (auto simp: pending_def dest: subseq_distinct_map)
  moreover have "cluster_ok E d u cat grp"
    using p xs sub g(2) by (auto simp: cluster_ok_def pending_def)
  moreover have "m_id ` set grp \<inter> set (members cs) = {}"
    using p xs h sub by (auto simp: pending_def)
  ultimately show ?thesis by blast
qed

text \<open>The outcome of a part of the pass: the list of clusters grows by clusters whose summaries satisfy
  \<open>P\<close>, stays within the cap, and its length is what the part returns.\<close>

definition extends :: "env \<Rightarrow> db \<Rightarrow> (memory_row \<Rightarrow> bool) \<Rightarrow> cluster list \<Rightarrow> (handler_error + nat) \<times> app \<Rightarrow> bool" where
  "extends E d P cs out \<longleftrightarrow> (\<exists>cs'. cons_inv E d (cs @ cs') (app_store (snd out))
     \<and> (\<forall>c \<in> set cs'. P (snd c)) \<and> length (cs @ cs') \<le> CONSOLIDATION_MAX_PER_TICK
     \<and> (\<forall>n. fst out = Inr n \<longrightarrow> n = length (cs @ cs')))"

lemma extends_ret:
  "cons_inv E d cs (app_store s) \<Longrightarrow> length cs \<le> CONSOLIDATION_MAX_PER_TICK \<Longrightarrow>
     extends E d P cs (ret_sm (length cs) s)"
  by (auto simp: extends_def ret_sm_def intro!: exI [of _ "[]"])

lemma extends_later:
  assumes "extends E d P (cs @ cs1) out" "\<forall>c \<in> set cs1. P (snd c)"
  shows "extends E d P cs out"
proof -
  obtain cs' where "cons_inv E d ((cs @ cs1) @ cs') (app_store (snd out))" "\<forall>c \<in> set cs'. P (snd c)"
      "length ((cs @ cs1) @ cs') \<le> CONSOLIDATION_MAX_PER_TICK" "\<forall>n. fst out = Inr n \<longrightarrow> n = length ((cs @ cs1) @ cs')"
    using assms(1) unfolding extends_def by blast
  then show ?thesis using assms(2) unfolding extends_def by (intro exI [of _ "cs1 @ cs'"]) auto
qed

lemma extends_mono: "extends E d P cs out \<Longrightarrow> (\<And>r. P r \<Longrightarrow> Q r) \<Longrightarrow> extends E d Q cs out"
  unfolding extends_def by blast

lemma extends_bind:
  assumes "extends E d P cs (m s)"
    and "\<And>cs1 t. m s = (Inr (length (cs @ cs1)), t) \<Longrightarrow> cons_inv E d (cs @ cs1) (app_store t) \<Longrightarrow>
      \<forall>c \<in> set cs1. P (snd c) \<Longrightarrow> length (cs @ cs1) \<le> CONSOLIDATION_MAX_PER_TICK \<Longrightarrow>
      extends E d P (cs @ cs1) (f (length (cs @ cs1)) t)"
  shows "extends E d P cs (bind_sm m f s)"
proof (cases "m s")
  case (Pair res t)
  obtain cs1 where cs1: "cons_inv E d (cs @ cs1) (app_store t)" "\<forall>c \<in> set cs1. P (snd c)"
      "length (cs @ cs1) \<le> CONSOLIDATION_MAX_PER_TICK" "\<forall>n. res = Inr n \<longrightarrow> n = length (cs @ cs1)"
    using assms(1) Pair by (auto simp: extends_def)
  show ?thesis
  proof (cases res)
    case (Inl e)
    then show ?thesis using assms(1) Pair by (simp add: bind_sm_def extends_def)
  next
    case (Inr n)
    then have "extends E d P (cs @ cs1) (f (length (cs @ cs1)) t)" using assms(2) cs1 Pair by simp
    then have "extends E d P cs (f (length (cs @ cs1)) t)" using cs1(2) by (rule extends_later)
    then show ?thesis using Inr cs1(4) Pair by (simp add: bind_sm_def)
  qed
qed

lemma pending_tail: "pending E d u cat cs used (h # rest) \<Longrightarrow> pending E d u cat cs used rest"
  by (simp add: pending_def)

lemma pending_grow:
  "pending E d u cat cs used ms \<Longrightarrow> pending E d u cat (cs @ [(grp, r)]) (map m_id grp @ used) ms"
  by (auto simp: pending_def)

lemma cluster_loop_inv:
  assumes key: "keyed m_id (memories d)"
  shows "cons_inv E d cs (app_store s) \<Longrightarrow> pending E d u cat cs used ms \<Longrightarrow> length cs < CONSOLIDATION_MAX_PER_TICK \<Longrightarrow>
    extends E d (\<lambda>r. m_user_id r = u \<and> m_category r = cat) cs (cluster_loop E u llm ms used (length cs) s)"
proof (induction ms arbitrary: cs used s)
  case Nil
  then show ?case using extends_ret by simp
next
  case (Cons h rest)
  let ?P = "\<lambda>r. m_user_id r = u \<and> m_category r = cat"
  let ?hv = "decode_embedding (m_embedding h)"
  let ?grp = "gather ?hv used rest [h]"
  have skip: "extends E d ?P cs (cluster_loop E u llm rest used (length cs) s)"
    using Cons.prems pending_tail by (intro Cons.IH) auto
  show ?case
  proof (cases "m_id h \<notin> set used \<and> ?hv \<noteq> [] \<and> CONSOLIDATION_GROUP_SIZE \<le> length ?grp")
    case False
    then show ?thesis using skip by (auto simp: Let_def)
  next
    case True
    then have run: "cluster_loop E u llm (h # rest) used (length cs) s = bind_sm (compress_cluster E u ?grp llm) (\<lambda>_.
        if CONSOLIDATION_MAX_PER_TICK \<le> length cs + 1 then ret_sm (length cs + 1)
        else cluster_loop E u llm rest (map m_id ?grp @ used) (length cs + 1)) s"
      by (simp add: Let_def)
    have grp: "cluster_ok E d u cat ?grp" "distinct (map m_id ?grp)" "m_id ` set ?grp \<inter> set (members cs) = {}"
      using gathered_cluster [OF Cons.prems(2)] True by auto
    obtain res t where t: "compress_cluster E u ?grp llm s = (res, t)" by fastforce
    from compress_cluster_inv [OF Cons.prems(1) grp(1) key grp(2,3) t]
    consider (failed) e where "res = Inl e" "cons_inv E d cs (app_store t)"
      | (made) i r where "res = Inr i" "?P r" "cons_inv E d (cs @ [(?grp, r)]) (app_store t)" by blast
    then show ?thesis
    proof cases
      case failed
      then have "extends E d ?P cs (Inl e, t)"
        using Cons.prems(3) by (auto simp: extends_def intro!: exI [of _ "[]"])
      then show ?thesis unfolding run using failed(1) by (simp add: t bind_sm_def)
    next
      case made
      let ?cs = "cs @ [(?grp, r)]"
      have "extends E d ?P ?cs ((if CONSOLIDATION_MAX_PER_TICK \<le> length ?cs then ret_sm (length ?cs)
          else cluster_loop E u llm rest (map m_id ?grp @ used) (length ?cs)) t)"
      proof (cases "CONSOLIDATION_MAX_PER_TICK \<le> length ?cs")
        case True
        then have "length ?cs \<le> CONSOLIDATION_MAX_PER_TICK" using Cons.prems(3) by simp
        from extends_ret [OF made(3) this] True show ?thesis by simp
      next
        case False
        then have "extends E d ?P ?cs (cluster_loop E u llm rest (map m_id ?grp @ used) (length ?cs) t)"
          using made(3) pending_grow [OF pending_tail [OF Cons.prems(2)]] by (intro Cons.IH) auto
        with False show ?thesis by simp
      qed
      then have "extends E d ?P cs ((if CONSOLIDATION_MAX_PER_TICK \<le> length ?cs then ret_sm (length ?cs)
          else cluster_loop E u llm rest (map m_id ?grp @ used) (length ?cs)) t)"
        using made(2) by (intro extends_later [of E d ?P cs "[(?grp, r)]"]) auto
      then show ?thesis unfolding run using made(1) by (simp add: t bind_sm_def split: if_splits)
    qed
  qed
qed

section \<open>Categories and users\<close>

text \<open>A row of the table before that belongs to a cluster is one of its members: ids are unique.\<close>

lemma member_row:
  assumes "\<forall>(grp, r) \<in> set cs. cluster_ok E d (m_user_id r) (m_category r) grp" "keyed m_id (memories d)"
    and "m \<in> set (memories d)" "m_id m \<in> set (members cs)"
  shows "\<exists>c \<in> set cs. m_user_id (snd c) = m_user_id m \<and> m_category (snd c) = m_category m"
proof -
  obtain grp r x where x: "(grp, r) \<in> set cs" "x \<in> set grp" "m_id x = m_id m"
    using assms(4) by (auto simp: members_def)
  with assms(1) have ok: "cluster_ok E d (m_user_id r) (m_category r) grp" by blast
  then have "x \<in> set (memories d)" using x(2) by (auto simp: cluster_ok_def)
  then have "x = m" using assms(2,3) x(3) by (auto simp: keyed_def distinct_map dest: inj_onD)
  then show ?thesis using ok x by (auto simp: cluster_ok_def intro!: bexI [of _ "(grp, r)"])
qed

definition fading_rows :: "env \<Rightarrow> db \<Rightarrow> string \<Rightarrow> memory_row list \<Rightarrow> bool" where
  "fading_rows E d u ms \<longleftrightarrow> set ms \<subseteq> set (memories d) \<and> distinct (map m_id ms)
     \<and> (\<forall>m \<in> set ms. is_fading E m \<and> m_user_id m = u)"

lemma consolidate_category_inv:
  assumes key: "keyed m_id (memories d)" and inv: "cons_inv E d cs (app_store s)" and ms: "fading_rows E d u ms"
    and free: "\<forall>m \<in> set ms. m_category m = cat \<longrightarrow> m_id m \<notin> set (members cs)"
    and cap: "length cs \<le> CONSOLIDATION_MAX_PER_TICK"
  shows "extends E d (\<lambda>r. m_user_id r = u \<and> m_category r = cat) cs
    (consolidate_category E u llm ms cat (length cs) s)"
proof -
  have "pending E d u cat cs [] (filter (\<lambda>m. m_category m = cat) ms)"
    using ms free by (auto simp: fading_rows_def pending_def distinct_map_filter)
  then show ?thesis
    using cluster_loop_inv [OF key inv] extends_ret [OF inv cap]
    by (auto simp: consolidate_category_def Let_def not_le)
qed

lemma consolidate_categories_inv:
  assumes key: "keyed m_id (memories d)" and ms: "fading_rows E d u ms"
  shows "cons_inv E d cs (app_store s) \<Longrightarrow> distinct cats \<Longrightarrow>
    \<forall>m \<in> set ms. m_category m \<in> set cats \<longrightarrow> m_id m \<notin> set (members cs) \<Longrightarrow>
    length cs \<le> CONSOLIDATION_MAX_PER_TICK \<Longrightarrow>
    extends E d (\<lambda>r. m_user_id r = u) cs (fold_sm cats (consolidate_category E u llm ms) (length cs) s)"
proof (induction cats arbitrary: cs s)
  case Nil
  then show ?case by (simp add: extends_ret)
next
  case (Cons cat cats)
  have one: "extends E d (\<lambda>r. m_user_id r = u \<and> m_category r = cat) cs
      (consolidate_category E u llm ms cat (length cs) s)"
    using Cons.prems by (intro consolidate_category_inv [OF key _ ms]) auto
  obtain res t where t: "consolidate_category E u llm ms cat (length cs) s = (res, t)" by fastforce
  obtain cs1 where cs1: "cons_inv E d (cs @ cs1) (app_store t)"
      "\<forall>c \<in> set cs1. m_user_id (snd c) = u \<and> m_category (snd c) = cat"
      "length (cs @ cs1) \<le> CONSOLIDATION_MAX_PER_TICK" "\<forall>n. res = Inr n \<longrightarrow> n = length (cs @ cs1)"
    using one by (auto simp: extends_def t)
  show ?case
  proof (cases res)
    case (Inl e)
    then have "extends E d (\<lambda>r. m_user_id r = u) cs (res, t)" using one by (auto simp: t intro: extends_mono)
    then show ?thesis by (simp add: t Inl bind_sm_def)
  next
    case (Inr n)
    have "m_id m \<notin> set (members (cs @ cs1))" if m: "m \<in> set ms" "m_category m \<in> set cats" for m
    proof
      assume "m_id m \<in> set (members (cs @ cs1))"
      then have "m_id m \<in> set (members cs1)" using Cons.prems(3) m by auto
      moreover have "\<forall>(grp, r) \<in> set cs1. cluster_ok E d (m_user_id r) (m_category r) grp"
        using cs1(1) by (auto simp: cons_inv_def)
      moreover have "m \<in> set (memories d)" using m(1) ms by (auto simp: fading_rows_def)
      ultimately have "\<exists>c \<in> set cs1. m_category (snd c) = m_category m" using member_row key by blast
      then show False using cs1(2) m(2) Cons.prems(2) by auto
    qed
    then have "extends E d (\<lambda>r. m_user_id r = u) (cs @ cs1)
        (fold_sm cats (consolidate_category E u llm ms) (length (cs @ cs1)) t)"
      using Cons.prems(2) cs1 by (intro Cons.IH) auto
    then have "extends E d (\<lambda>r. m_user_id r = u) cs (fold_sm cats (consolidate_category E u llm ms) (length (cs @ cs1)) t)"
      by (rule extends_later) (use cs1(2) in blast)
    then show ?thesis using cs1(4) by (simp add: t Inr bind_sm_def)
  qed
qed

text \<open>At the turn of a user none of its rows has been folded yet, so that the rows it selects are rows of
  the table before.\<close>

lemma selected_rows:
  assumes inv: "cons_inv E d cs d'" and u: "\<forall>c \<in> set cs. m_user_id (snd c) \<noteq> u"
    and m: "m \<in> set (memories d')" "m_user_id m = u" "is_hot m"
  shows "m \<in> set (memories d) \<and> m_id m \<notin> set (members cs)"
proof -
  have mem: "memories d' = map (folded E cs) (memories d) @ map snd cs"
    using inv unfolding cons_inv_def by blast
  have "m \<notin> snd ` set cs" using u m(2) by auto
  then obtain x where x: "x \<in> set (memories d)" "m = folded E cs x" using m(1) mem by auto
  then have "m_id x \<notin> set (members cs)" using folded_member m(3) by blast
  then show ?thesis using x by (simp add: folded_outside)
qed

lemma consolidate_user_inv:
  assumes key: "keyed m_id (memories d)" and inv: "cons_inv E d cs (app_store s)"
    and u: "\<forall>c \<in> set cs. m_user_id (snd c) \<noteq> u" and cap: "length cs \<le> CONSOLIDATION_MAX_PER_TICK"
    and iter: "\<And>xs. mset (e_cat_iter E xs) = mset xs"
  shows "extends E d (\<lambda>r. m_user_id r = u) cs (consolidate_user E llm u (length cs) s)"
proof (cases "CONSOLIDATION_MAX_PER_TICK \<le> length cs")
  case True
  then show ?thesis using extends_ret [OF inv cap] by (simp add: consolidate_user_def)
next
  case False
  let ?rows = "filter (\<lambda>m. m_user_id m = u \<and> is_hot m \<and> m_embedding m \<noteq> None) (memories (app_store s))"
  let ?fading = "filter (\<lambda>r. f_lt (compute_current_retention r (e_now E) (e_lifecycle E))
      (Fin CONSOLIDATION_RETENTION_THRESHOLD)) ?rows"
  let ?cats = "e_cat_iter E (remdups (map m_category ?fading))"
  have run: "consolidate_user E llm u (length cs) s = fold_sm ?cats (consolidate_category E u llm ?fading) (length cs) s"
    using False by (simp add: consolidate_user_def select_memories_def Let_def)
  have old: "m \<in> set (memories d) \<and> m_id m \<notin> set (members cs)" if "m \<in> set ?fading" for m
    using selected_rows [OF inv u] that by simp
  have "keyed m_id (memories (app_store s))" using inv unfolding cons_inv_def by blast
  then have "fading_rows E d u ?fading"
    using old by (auto simp: fading_rows_def is_fading_def keyed_def distinct_map_filter)
  moreover have "distinct ?cats"
    by (simp only: mset_eq_imp_distinct_iff [OF iter] distinct_remdups)
  ultimately show ?thesis
    unfolding run using old by (intro consolidate_categories_inv [OF key _ inv _ _ cap]) auto
qed

lemma consolidate_users_inv:
  assumes key: "keyed m_id (memories d)" and iter: "\<And>xs. mset (e_cat_iter E xs) = mset xs"
  shows "cons_inv E d cs (app_store s) \<Longrightarrow> distinct us \<Longrightarrow> \<forall>c \<in> set cs. m_user_id (snd c) \<notin> set us \<Longrightarrow>
    length cs \<le> CONSOLIDATION_MAX_PER_TICK \<Longrightarrow>
    extends E d (\<lambda>_. True) cs (fold_sm us (consolidate_user E llm) (length cs) s)"
proof (induction us arbitrary: cs s)
  case Nil
  then show ?case by (simp add: extends_ret)
next
  case (Cons u us)
  have one: "extends E d (\<lambda>r. m_user_id r = u) cs (consolidate_user E llm u (length cs) s)"
    using Cons.prems by (intro consolidate_user_inv [OF key _ _ _ iter]) auto
  obtain res t where t: "consolidate_user E llm u (length cs) s = (res, t)" by fastforce
  obtain cs1 where cs1: "cons_inv E d (cs @ cs1) (app_store t)" "\<forall>c \<in> set cs1. m_user_id (snd c) = u"
      "length (cs @ cs1) \<le> CONSOLIDATION_MAX_PER_TICK" "\<forall>n. res = Inr n \<longrightarrow> n = length (cs @ cs1)"
    using one by (auto simp: extends_def t)
  show ?case
  proof (cases res)
    case (Inl e)
    then have "extends E d (\<lambda>_. True) cs (res, t)" using one by (auto simp: t intro: extends_mono)
    then show ?thesis by (simp add: t Inl bind_sm_def)
  next
    case (Inr n)
    have "\<forall>c \<in> set (cs @ cs1). m_user_id (snd c) \<notin> set us" using Cons.prems(2,3) cs1(2) by auto
    then have "extends E d (\<lambda>_. True) (cs @ cs1) (fold_sm us (consolidate_user E llm) (length (cs @ cs1)) t)"
      using Cons.prems(2) cs1 by (intro Cons.IH) auto
    then have "extends E d (\<lambda>_. True) cs (fold_sm us (consolidate_user E llm) (length (cs @ cs1)) t)"
      by (rule extends_later) simp
    then show ?thesis using cs1(4) by (simp add: t Inr bind_sm_def)
  qed
qed

lemma consolidate_extends:
  assumes key: "keyed m_id (memories (app_store s))" and iter: "\<And>xs. mset (e_cat_iter E xs) = mset xs"
  shows "extends E (app_store s) (\<lambda>_. True) [] (consolidate_at_tick E s)"
proof -
  have start: "cons_inv E (app_store s) [] (app_store s)"
    using key by (simp add: cons_inv_def map_idI)
  show ?thesis
  proof (cases "e_llm E")
    case None
    then show ?thesis using extends_ret [OF start] by (simp add: consolidate_at_tick_def)
  next
    case (Some llm)
    then show ?thesis
      using consolidate_users_inv [OF key iter start, of _ llm] by (simp add: consolidate_at_tick_def)
  qed
qed


text \<open>Five memories of one user, last accessed long ago.\<close>

definition faded_row :: "string \<Rightarrow> memory_row" where
  "faded_row i = (new_minimal i ''alice'' ''x'' ''episodic'' ''fact'' 0)\<lparr>m_embedding := Some (encode_f32s [1065353216])\<rparr>"

definition faded_app :: app where
  "faded_app = (fresh_app 10)\<lparr>app_store := empty_db\<lparr>memories := map faded_row [''a'', ''b'', ''c'', ''d'', ''e''],
     memories_fts := map (\<lambda>i. (i, ''x'')) [''a'', ''b'', ''c'', ''d'', ''e'']\<rparr>\<rparr>"

definition judge_env :: env where
  "judge_env = demo_env\<lparr>e_now := 86400000, e_lifecycle := default_lifecycle_config, e_llm := Some (\<lambda>_ _. Inr ''y'')\<rparr>"

lemma faded_app_wf: "wf_db (app_store faded_app)"
  by (simp add: faded_app_def faded_row_def wf_db_def keyed_def fts_mirror_def wf_memory_def new_minimal_def empty_db_def)

lemma faded_row_fades:
  "f_lt (compute_current_retention (faded_row i) (e_now judge_env) (e_lifecycle judge_env)) (Fin CONSOLIDATION_RETENTION_THRESHOLD)"
proof -
  have "exp (- x) < 1 / 5" if "4 < x" for x :: real
  proof -
    have "5 < exp x" using exp_ge_add_one_self [of x] that by linarith
    then show ?thesis by (simp add: exp_minus field_simps)
  qed
  then show ?thesis
    by (simp add: compute_current_retention_def compute_retention_def row_state_def faded_row_def new_minimal_def
        judge_env_def default_lifecycle_config_def default_base_decay_rates_def beta_for_def effective_rate_def
        raw_retention_def dt_days_def CONSOLIDATION_RETENTION_THRESHOLD_def)
qed

lemma faded_row_simps [simp]:
  "m_id (faded_row i) = i" "m_user_id (faded_row i) = ''alice''" "m_category (faded_row i) = ''episodic''"
  "is_hot (faded_row i)" "m_embedding (faded_row i) \<noteq> None"
  "decode_embedding (m_embedding (faded_row i)) = [1065353216]"
  by (simp_all add: faded_row_def new_minimal_def is_hot_def decode_embedding_def decode_encode_f32s)

lemma faded_rows_alike: "f_le (Fin CONSOLIDATION_SIM_THRESHOLD) (cosine_similarity_f32 [1065353216] [1065353216])"
  by (simp add: cosine_similarity_f32_def f32_val_one f_sum_def CONSOLIDATION_SIM_THRESHOLD_def)

lemma faded_compressed:
  "\<exists>t. compress_cluster judge_env ''alice'' (map faded_row [''a'', ''b'', ''c'', ''d'', ''e'']) (\<lambda>_ _. Inr ''y'') faded_app
     = (Inr ''mem_'', t)"
  by (simp add: compress_cluster_def embed_text_def on_store_eq cached_embed_def judge_env_def demo_env_def faded_app_def
      fresh_app_def empty_db_def cache_get_def cache_insert_def bind_sm_def lift_sm_def gets_sm_def map_err_def
      insert_row_def insert_memory_def tbl_insert_def sql_def Let_def tbl_get_def ret_sm_def
      transaction_def update_memories_def draw_def)

lemma faded_consolidates: "fst (consolidate_at_tick judge_env faded_app) = Inr 1"
proof -
  let ?rows = "map faded_row [''a'', ''b'', ''c'', ''d'', ''e'']"
  have mem: "memories (app_store faded_app) = ?rows" by (simp add: faded_app_def)
  have env: "e_llm judge_env = Some (\<lambda>_ _. Inr ''y'')" "e_cat_iter judge_env = id" by (simp_all add: judge_env_def demo_env_def)
  obtain t where t: "compress_cluster judge_env ''alice'' ?rows (\<lambda>_ _. Inr ''y'') faded_app = (Inr ''mem_'', t)"
    using faded_compressed by blast
  have "cluster_loop judge_env ''alice'' (\<lambda>_ _. Inr ''y'') ?rows [] 0 faded_app = (Inr 1, t)"
    using t by (simp add: faded_rows_alike CONSOLIDATION_GROUP_SIZE_def CONSOLIDATION_MAX_PER_TICK_def bind_sm_def ret_sm_def)
  then show ?thesis
    by (simp add: consolidate_at_tick_def env mem consolidate_user_def select_memories_def faded_row_fades
        consolidate_category_def CONSOLIDATION_GROUP_SIZE_def CONSOLIDATION_MAX_PER_TICK_def bind_sm_def ret_sm_def)
qed


end
