(* ===== verification/Response_Laws.thy ===== *)
theory Response_Laws
  imports Requests Ingest_Laws
begin

text \<open>
  What a client may rely on in a response: a handler that succeeds answers with the data that belong
  to the request (\<open>response_fits\<close>), and every memory in it, whole or as a search hit, is one of
  the user of the connection. The type of \<open>handle_request\<close> alone allows every answer to every
  request; the clients (\<open>crates/cli/src/main.rs\<close>, the SDKs) match on the data they expect.
\<close>

section \<open>Searches return memories of the user\<close>

lemma own_fused:
  "\<forall>r \<in> set rs. result_of u d r \<Longrightarrow> \<forall>r \<in> set (hybrid_fuse iter ids rs). result_of u d r"
  unfolding hybrid_fuse_def
  by (fastforce dest!: take_fused_subset map_of_SomeD simp: result_of_def)

lemma own_expand_linked:
  assumes "expand_linked cfg opts q lms have_ids scored next = (have_ids', scored', next')"
    and "\<forall>r \<in> set scored. result_of u d r"
    and "\<forall>lm \<in> set lms. lm_memory lm \<in> set (memories d) \<and> m_user_id (lm_memory lm) = u"
  shows "\<forall>r \<in> set scored'. result_of u d r"
  using assms
proof (induction lms arbitrary: have_ids scored "next")
  case (Cons lm lms)
  have "result_of u d (expand_result cfg (o_now opts) q lm v)" for v
    using Cons.prems(3) by (auto simp: expand_result_def result_of_def)
  then have "\<forall>r \<in> set (scored @ [expand_result cfg (o_now opts) q lm v]). result_of u d r" for v
    using Cons.prems(2) by simp
  then show ?case
    using Cons.IH Cons.prems by (auto split: if_splits option.splits simp del: set_append)
qed simp

lemma own_expand_hops:
  assumes "expand_hops n cfg opts u q have_ids scored fr d = (Inr rs, d')" "\<forall>r \<in> set scored. result_of u d r"
  shows "\<forall>r \<in> set rs. result_of u d r"
  using assms
proof (induction n arbitrary: have_ids scored fr)
  case (Suc n)
  show ?case
  proof (cases "fr = []")
    case False
    obtain res t where t: "linked_for_many u fr (o_min_bridge_edge_weight opts) d = (res, t)" by fastforce
    then have "t = d" using keepsD [OF linked_for_many_ro t] by (simp add: unchanged_def)
    obtain lms where lms: "res = Inr lms" using Suc.prems(1) False t by (cases res) (auto simp: bind_sm_def)
    obtain h' s' f' where e: "expand_linked cfg opts q lms have_ids scored [] = (h', s', f')" by (rule prod_cases3)
    have "\<forall>r \<in> set s'. result_of u d r"
      using own_expand_linked [OF e Suc.prems(2)] linked_for_many_own t lms by blast
    then show ?thesis
      using Suc.IH [of h' s' f'] Suc.prems(1) False t lms e \<open>t = d\<close> by (simp add: bind_sm_def)
  qed (use Suc.prems in \<open>simp add: ret_sm_def\<close>)
qed (simp add: ret_sm_def)

lemma own_search:
  assumes "search fts iter cfg u q opts d = (Inr rs, d')"
  shows "(\<forall>r \<in> set rs. result_of u d r) \<and> length rs \<le> o_limit opts"
proof (cases "o_limit opts = 0")
  case True
  then show ?thesis using assms by (auto simp: search_def ret_sm_def throw_sm_def split: if_splits)
next
  case False
  obtain dense where dense: "score_candidates cfg (o_now opts) q (map to_candidate (candidates_of u opts d)) = Inr dense"
    and ok: "q \<noteq> []" "\<not> (o_hybrid opts \<and> o_query_text opts = None)"
    using search_success_inv [OF assms False] .
  obtain scored final where st:
      "scored = (if o_hybrid opts then hybrid_fuse iter (bm25_of fts u opts d) (sort_results dense) else sort_results dense)"
      "expansion_stage cfg u q opts scored d = (Inr final, d)"
      "search fts iter cfg u q opts d = (Inr (take (o_limit opts) final), d)"
    using search_succeeds [OF ok(1) False ok(2) dense, of iter fts] .
  have "\<forall>r \<in> set (sort_results dense). result_of u d r"
    using dense by (auto simp: score_candidates_Inr candidates_of_def searchable_def sort_results_def result_of_def
        score_candidate_def to_candidate_def)
  then have own: "\<forall>r \<in> set scored. result_of u d r" using own_fused by (simp add: st(1))
  have "\<forall>r \<in> set final. result_of u d r"
  proof (cases "o_graph_expansion_hops opts > 0 \<and> scored \<noteq> []")
    case True
    then obtain rs' where "expand_via_graph cfg opts u q scored d = (Inr rs', d)" "final = sort_results rs'"
      using st(2) by (auto simp: expansion_stage_def bind_sm_Inr_iff map_err_Inr ret_sm_def)
    then show ?thesis
      using own own_expand_hops by (fastforce simp: expand_via_graph_def sort_results_def)
  qed (use st(2) own in \<open>auto simp: expansion_stage_def ret_sm_def\<close>)
  then show ?thesis using st(3) assms by (auto dest: in_set_takeD)
qed

section \<open>The data of each request\<close>

definition own_data :: "string \<Rightarrow> memory_data \<Rightarrow> bool" where
  "own_data u m \<longleftrightarrow> md_user_id m = u"

definition own_hit :: "string \<Rightarrow> db \<Rightarrow> search_hit \<Rightarrow> bool" where
  "own_hit u d h \<longleftrightarrow> (\<exists>m \<in> set (memories d). m_user_id m = u \<and> m_id m = sh_memory_id h
     \<and> m_content m = sh_content h \<and> m_category m = sh_category h \<and> m_memory_type m = sh_memory_type h)"

definition own_id :: "string \<Rightarrow> db \<Rightarrow> string \<Rightarrow> bool" where
  "own_id u d i \<longleftrightarrow> (\<exists>m \<in> set (memories d). m_user_id m = u \<and> m_id m = i)"

definition memory_fits :: "string \<Rightarrow> db \<Rightarrow> memory_request \<Rightarrow> response_data \<Rightarrow> bool" where
  "memory_fits u d req data = (case req of
      Subscribe _ \<Rightarrow> False
    | Store _ \<Rightarrow> (\<exists>i. data = MemoryStoredR i)
    | StoreBatch a \<Rightarrow> (\<exists>ids. data = MemoryStoredBatchR ids (length ids * (length ids - 1))
        \<and> length ids = length (sb_memories a))
    | Search a \<Rightarrow> (\<exists>hits paths. data = MemorySearchResultsR hits paths
        \<and> length hits \<le> sa_limit a \<and> (\<forall>h \<in> set hits. own_hit u d h))
    | Get a \<Rightarrow> (\<exists>m. data = MemoryR m \<and> own_data u m \<and> md_id m = gm_id a \<and> \<not> md_is_cold m)
    | GetMany a \<Rightarrow> (\<exists>ms. data = MemoriesR ms
        \<and> (\<forall>m \<in> set ms. own_data u m \<and> md_id m \<in> set (gn_ids a) \<and> \<not> md_is_cold m))
    | ListMem _ \<Rightarrow> (\<exists>ms. data = MemoriesR ms \<and> (\<forall>m \<in> set ms. own_data u m))
    | Update _ \<Rightarrow> data \<in> {AffectedR 0, AffectedR 1}
    | Delete _ \<Rightarrow> data \<in> {AffectedR 0, AffectedR 1}
    | DeleteMany _ \<Rightarrow> (\<exists>n. data = AffectedR n)
    | Link _ \<Rightarrow> (\<exists>w. data = LinkStrengthR w \<and> 0 \<le> w \<and> w \<le> 1)
    | Unlink _ \<Rightarrow> (\<exists>n. data = AffectedR n)
    | GetLinked _ \<Rightarrow> (\<exists>lms. data = LinkedMemoriesR lms \<and> (\<forall>lm \<in> set lms. own_data u (fst lm)))
    | GetLinkedMany _ \<Rightarrow> (\<exists>lms. data = LinkedMemoriesR lms \<and> (\<forall>lm \<in> set lms. own_data u (fst lm)))
    | VectorSearch a \<Rightarrow> (\<exists>hits. data = MemorySearchResultsR hits []
        \<and> length hits \<le> vs_limit a \<and> (\<forall>h \<in> set hits. own_hit u d h))
    | SearchLexical _ \<Rightarrow> (\<exists>ids. data = LexicalIdsR ids \<and> (\<forall>i \<in> set ids. own_id u d i))
    | BatchUpdate _ \<Rightarrow> (\<exists>n. data = AffectedR n))"

definition lifecycle_fits :: "string \<Rightarrow> lifecycle_request \<Rightarrow> response_data \<Rightarrow> bool" where
  "lifecycle_fits u req data = (case req of
      Tick _ \<Rightarrow> (\<exists>n. data = TickR True n)
    | FindFading _ \<Rightarrow> (\<exists>ms. data = MemoriesR ms \<and> (\<forall>m \<in> set ms. own_data u m))
    | FindStable _ \<Rightarrow> (\<exists>ms. data = MemoriesR ms \<and> (\<forall>m \<in> set ms. own_data u m))
    | MarkSuperseded _ \<Rightarrow> (\<exists>n. data = AffectedR n)
    | MigrateToCold _ \<Rightarrow> data \<in> {AffectedR 0, AffectedR 1}
    | MigrateToHot _ \<Rightarrow> data \<in> {AffectedR 0, AffectedR 1}
    | ConvertToStub _ \<Rightarrow> data \<in> {AffectedR 0, AffectedR 1}
    | UpdateRetention _ \<Rightarrow> data \<in> {AffectedR 0, AffectedR 1}
    | Clear a \<Rightarrow> cl_confirm a \<and> (\<exists>n. data = AffectedR n))"

definition diagnostics_fits :: "string \<Rightarrow> db \<Rightarrow> diagnostics_request \<Rightarrow> response_data \<Rightarrow> bool" where
  "diagnostics_fits u d req data = (case req of
      Status \<Rightarrow> (\<exists>sd. data = StatusR sd \<and> sd_memory_count sd = length (memories d))
    | Doctor \<Rightarrow> (\<exists>code checks. data = DoctorR code checks)
    | RecentTraces n \<Rightarrow> (\<exists>ts. data = RecentTracesR ts \<and> length ts \<le> n)
    | Shutdown \<Rightarrow> data = ShutdownR True
    | MintBridgeToken _ \<Rightarrow> (\<exists>t expires. data = BridgeTokenR t expires)
    | ValidateBridgeToken a \<Rightarrow> (\<exists>v. data = BridgeTokenValidatedR v
        \<and> bridge_scope_allows (bv_scope v) (vt_required_scope a))
    | Counts w \<Rightarrow> w = u \<and> (\<exists>c. data = CountsR c))"

definition response_fits :: "string \<Rightarrow> db \<Rightarrow> request \<Rightarrow> response_data \<Rightarrow> bool" where
  "response_fits u d req data = (case req of
      Diagnostics r \<Rightarrow> diagnostics_fits u d r data
    | Memory r \<Rightarrow> memory_fits u d r data
    | Lifecycle r \<Rightarrow> lifecycle_fits u r data
    | UnknownBucket \<Rightarrow> False)"

section \<open>Handlers\<close>

text \<open>\<open>answers Q m\<close>: whenever \<open>m\<close> succeeds, it answers with data that satisfy \<open>Q\<close> of the store it
  started from.\<close>

definition answers :: "(db \<Rightarrow> response_data \<Rightarrow> bool) \<Rightarrow> response handler \<Rightarrow> bool" where
  "answers Q m \<longleftrightarrow> (\<forall>s resp s'. m s = (Inr resp, s') \<longrightarrow> (\<exists>data. resp = response_ok data \<and> Q (app_store s) data))"

lemma user_match_Inr: "require_user_match a b s = (Inr x, t) \<longleftrightarrow> a = b \<and> t = s"
  by (auto simp: require_user_match_def throw_sm_def ret_sm_def)

lemma sql_Inr_iff: "sql m s = (Inr x, t) \<longleftrightarrow> (\<exists>d. m (app_store s) = (Inr x, d) \<and> t = s\<lparr>app_store := d\<rparr>)"
  by (auto simp: sql_def on_store_eq split: prod.splits sum.splits)

lemma on_store_Inr_iff:
  "on_store f m s = (Inr x, t) \<longleftrightarrow> (\<exists>d. m (app_store s) = (Inr x, d) \<and> t = s\<lparr>app_store := d\<rparr>)"
  by (auto simp: on_store_eq split: prod.splits sum.splits)

lemma row_data_simps [simp]:
  "own_data u (memory_row_to_data E m) \<longleftrightarrow> m_user_id m = u" "md_id (memory_row_to_data E m) = m_id m"
  "md_is_cold (memory_row_to_data E m) = m_is_cold m"
  by (simp_all add: own_data_def memory_row_to_data_def)

lemma to_hot_data [simp]: "m_user_id (to_hot m) = m_user_id m" "m_id (to_hot m) = m_id m" "\<not> m_is_cold (to_hot m)"
  by (simp_all add: to_hot_def)

lemmas run_simps = bind_sm_Inr_iff user_match_Inr sql_Inr_iff ret_sm_def throw_sm_def answers_def

text \<open>What the repositories return belongs to the user.\<close>

lemma get_for_user_own: "get_for_user u i d = (Inr (Some m), d') \<Longrightarrow> m_user_id m = u \<and> m_id m = i"
  by (auto simp: get_for_user_def gets_sm_def find_Some_iff own_def)

lemma get_many_own:
  "get_many_for_user u ids d = (Inr ms, d') \<Longrightarrow> \<forall>m \<in> set ms. m_user_id m = u \<and> m_id m \<in> set ids"
  by (auto simp: get_many_for_user_def select_memories_def gets_sm_def ret_sm_def split: if_splits)

lemma in_sql_limit: "x \<in> set (sql_limit n xs) \<Longrightarrow> x \<in> set xs"
  by (auto simp: sql_limit_def split: if_splits dest: in_set_takeD)

lemma in_sql_offset: "x \<in> set (sql_offset n xs) \<Longrightarrow> x \<in> set xs"
  by (auto simp: sql_offset_def dest: in_set_dropD)

lemma query_own: "query u f d = (Inr ms, d') \<Longrightarrow> \<forall>m \<in> set ms. m_user_id m = u"
  by (auto simp: query_def select_memories_def gets_sm_def ret_sm_def throw_sm_def Let_def matches_filters_def
      split: if_splits option.splits dest!: in_sql_limit in_sql_offset)

lemma find_own_reads:
  "find_fading_candidates u d = (Inr ms, d') \<Longrightarrow> \<forall>m \<in> set ms. m_user_id m = u"
  "find_stable u x y z d = (Inr ms, d') \<Longrightarrow> \<forall>m \<in> set ms. m_user_id m = u"
  by (auto simp: find_fading_candidates_def find_stable_def select_memories_def gets_sm_def ret_sm_def
      dest!: in_sql_limit)

lemma linked_for_own: "linked_for u src mw d = (Inr lms, d') \<Longrightarrow> \<forall>lm \<in> set lms. m_user_id (lm_memory lm) = u"
  using attach_edges_own [of u _ d lms d'] by (auto simp: linked_for_def)

lemma linked_response_fits:
  "\<forall>lm \<in> set lms. m_user_id (lm_memory lm) = u \<Longrightarrow>
   \<exists>out. linked_response E lms = response_ok (LinkedMemoriesR out) \<and> (\<forall>x \<in> set out. own_data u (fst x))"
  unfolding linked_response_def by (rule exI, rule conjI, rule refl) auto

lemma affected_bool_fits: "\<exists>data. affected_bool b = response_ok data \<and> data \<in> {AffectedR 0, AffectedR 1}"
  by (auto simp: affected_bool_def)

lemma run_search_own:
  assumes "run_search E u v opts s = (Inr rs, t)"
  shows "memories (app_store t) = memories (app_store s) \<and> length rs \<le> o_limit opts
    \<and> (\<forall>h \<in> set (map to_hit rs). own_hit u (app_store s) h)"
proof -
  obtain d where d: "search (e_fts_match E) (e_rrf_iter E) (e_lifecycle E) u v opts (app_store s) = (Inr rs, d)"
      "t = s\<lparr>app_store := d\<rparr>"
    using assms by (auto simp: run_search_def on_store_Inr_iff)
  then have "d = app_store s" using search_state by blast
  then show ?thesis
    using d own_search [OF d(1)] by (fastforce simp: own_hit_def to_hit_def result_of_def)
qed

lemma own_hit_memories: "memories d = memories d' \<Longrightarrow> own_hit u d = own_hit u d'"
  by (rule ext) (simp add: own_hit_def)

text \<open>The rules that follow the structure of a handler.\<close>

lemma answers_ret: "(\<And>d. Q d data) \<Longrightarrow> answers Q (ret_sm (response_ok data))"
  by (auto simp: answers_def ret_sm_def)

lemma answers_throw: "answers Q (throw_sm e)"
  by (simp add: answers_def throw_sm_def)

lemma answers_bind:
  assumes "\<And>s x t. m s = (Inr x, t) \<Longrightarrow> answers (\<lambda>_. Q (app_store s)) (f x)"
  shows "answers Q (bind_sm m f)"
  unfolding answers_def bind_sm_Inr_iff using assms unfolding answers_def by blast

lemma answers_user:
  "(a = b \<Longrightarrow> answers Q m) \<Longrightarrow> answers Q (bind_sm (require_user_match a b) (\<lambda>_. m))"
  by (simp add: require_user_match_def answers_throw)

lemma answers_sql:
  assumes "\<And>d x d'. m d = (Inr x, d') \<Longrightarrow> answers (\<lambda>_. Q d) (f x)"
  shows "answers Q (bind_sm (sql m) f)"
  using assms by (intro answers_bind) (auto simp: sql_Inr_iff)

lemma answers_if: "(c \<Longrightarrow> answers Q m) \<Longrightarrow> (\<not> c \<Longrightarrow> answers Q n) \<Longrightarrow> answers Q (if c then m else n)"
  by simp

lemma answers_affected: "(\<And>d n. n \<le> 1 \<Longrightarrow> Q d (AffectedR n)) \<Longrightarrow> answers Q (ret_sm (affected_bool b))"
  by (simp add: affected_bool_def answers_ret)

lemma answers_linked:
  assumes "\<forall>lm \<in> set lms. m_user_id (lm_memory lm) = u"
    and "\<And>d out. \<forall>x \<in> set out. own_data u (fst x) \<Longrightarrow> Q d (LinkedMemoriesR out)"
  shows "answers Q (ret_sm (linked_response E lms))"
  unfolding linked_response_def by (rule answers_ret, rule assms(2)) (use assms(1) in auto)

lemmas answers_rules = answers_user answers_sql answers_if answers_throw answers_affected

lemma get_answers: "answers (\<lambda>d. memory_fits u d (Get a)) (handle_memory_get E a u)"
  unfolding handle_memory_get_def
proof (intro answers_user answers_sql)
  fix d found d'
  assume u: "gm_user_id a = u" and found: "get_for_user (gm_user_id a) (gm_id a) d = (Inr found, d')"
  show "answers (\<lambda>_. memory_fits u d (Get a)) (case found of None \<Rightarrow> throw_sm NotFound
     | Some row \<Rightarrow>
         if m_is_cold row
         then bind_sm (sql (migrate_to_hot_many (gm_user_id a) [m_id row])) (\<lambda>_.
                ret_sm (response_ok (MemoryR (memory_row_to_data E (to_hot row)))))
         else ret_sm (response_ok (MemoryR (memory_row_to_data E row))))"
    using found u by (cases found)
      (auto intro!: answers_throw answers_sql answers_ret simp: memory_fits_def dest: get_for_user_own)
qed

lemma get_many_answers: "answers (\<lambda>d. memory_fits u d (GetMany a)) (handle_memory_get_many E a u)"
  unfolding handle_memory_get_many_def Let_def
  by (intro answers_user answers_sql answers_if answers_ret) (auto simp: memory_fits_def filter_empty_conv dest!: get_many_own)

lemma list_answers: "answers (\<lambda>d. memory_fits u d (ListMem a)) (handle_memory_list E a u)"
  unfolding handle_memory_list_def
  by (intro answers_user answers_sql answers_ret) (auto simp: memory_fits_def dest!: query_own)

lemma linked_answers:
  "answers (\<lambda>d. memory_fits u d (GetLinked a)) (handle_memory_get_linked E a u)"
  "answers (\<lambda>d. memory_fits u d (GetLinkedMany b)) (handle_memory_get_linked_many E b u)"
  unfolding handle_memory_get_linked_def handle_memory_get_linked_many_def
  by (intro answers_user answers_sql answers_linked [where u = u]; auto simp: memory_fits_def dest!: linked_for_own linked_for_many_own)+

lemma write_answers:
  "answers (\<lambda>d. memory_fits u d (Update ua)) (handle_memory_update ua u)"
  "answers (\<lambda>d. memory_fits u d (Delete da)) (handle_memory_delete da u)"
  "answers (\<lambda>d. memory_fits u d (DeleteMany na)) (handle_memory_delete_many na u)"
  "answers (\<lambda>d. memory_fits u d (Unlink la)) (handle_memory_unlink la u)"
  "answers (\<lambda>d. memory_fits u d (BatchUpdate ba)) (handle_batch_update ba u)"
  unfolding handle_memory_update_def handle_memory_delete_def handle_memory_delete_many_def
    handle_memory_unlink_def handle_batch_update_def Let_def
  by (intro answers_user answers_sql answers_if answers_affected answers_ret; auto simp: memory_fits_def le_Suc_eq)+

lemma strength_range:
  "create_or_strengthen a b w now k d = (Inr x, d') \<Longrightarrow> 0 \<le> x \<and> x \<le> 1"
  "link_bidirectional a b w now k d = (Inr x, d') \<Longrightarrow> 0 \<le> x \<and> x \<le> 1"
proof -
  show one: "0 \<le> x \<and> x \<le> 1" if "create_or_strengthen a b w now k d = (Inr x, d')" for a b w now k d x d'
    using that by (auto simp: create_or_strengthen_def Let_def bind_sm_Inr_iff ret_sm_def clamp01_range split: option.splits)
  show "link_bidirectional a b w now k d = (Inr x, d') \<Longrightarrow> 0 \<le> x \<and> x \<le> 1"
    using one by (auto simp: link_bidirectional_def bind_sm_Inr_iff ret_sm_def)
qed

lemma link_answers: "answers (\<lambda>d. memory_fits u d (Link a)) (handle_memory_link E a u)"
  unfolding handle_memory_link_def
  by (intro answers_user answers_sql answers_ret) (auto simp: memory_fits_def dest!: strength_range split: if_splits)

lemma lexical_answers: "answers (\<lambda>d. memory_fits u d (SearchLexical a)) (handle_search_lexical E a u)"
  unfolding handle_search_lexical_def
  by (intro answers_user answers_sql answers_ret)
    (auto simp: memory_fits_def bm25_search_def gets_sm_def own_id_def dest!: in_sql_limit)

lemma vector_answers: "answers (\<lambda>d. memory_fits u d (VectorSearch a)) (handle_vector_search E a u)"
  unfolding handle_vector_search_def Let_def
proof (intro answers_user answers_bind answers_ret)
  fix s rs t d
  assume u: "vs_user_id a = u" and run: "run_search E (vs_user_id a) (vs_embedding a)
    (new_search_options (vs_embedding_provider a) (vs_embedding_model a) (e_now E)
      \<lparr>o_limit := vs_limit a, o_deep_recall := vs_deep_recall a\<rparr>) s = (Inr rs, t)"
  show "memory_fits u (app_store s) (VectorSearch a) (MemorySearchResultsR (map to_hit rs) [])"
    using run_search_own [OF run] u by (simp add: memory_fits_def)
qed

lemma search_answers: "answers (\<lambda>d. memory_fits u d (Search a)) (handle_memory_search E a u)"
  unfolding handle_memory_search_def Let_def
proof (intro answers_user)
  assume u: "sa_user_id a = u"
  show "answers (\<lambda>d. memory_fits u d (Search a))
    (bind_sm (embed_text E (sa_query a)) (\<lambda>query_vec.
     bind_sm (run_search E (sa_user_id a) query_vec (request_options E a)) (\<lambda>results.
     bind_sm (on_store Search_failed (find_bridges (map r_memory_id results) (request_options E a))) (\<lambda>bridge_paths.
     bind_sm (if sa_deep_recall a \<and> map r_memory_id results \<noteq> []
              then restore_cold (sa_user_id a) (map r_memory_id results) else ret_sm ()) (\<lambda>_.
     bind_sm (if map r_memory_id results \<noteq> [] then strengthen_results E (sa_user_id a) results else ret_sm ()) (\<lambda>_.
       ret_sm (response_ok (MemorySearchResultsR (map to_hit results) bridge_paths))))))))"
    unfolding answers_def bind_sm_Inr_iff
  proof (clarify)
    fix s s' v t rs t2 paths t3 x y t4 t5 resp
    assume emb: "embed_text E (sa_query a) s = (Inr v, t)"
      and run: "run_search E (sa_user_id a) v (request_options E a) t = (Inr rs, t2)"
      and out: "ret_sm (response_ok (MemorySearchResultsR (map to_hit rs) paths)) t5 = (Inr resp, s')"
    have "own_hit u (app_store t) = own_hit u (app_store s)"
      using embed_text_memories(1) [OF emb] by (rule own_hit_memories)
    then have "memory_fits u (app_store s) (Search a) (MemorySearchResultsR (map to_hit rs) paths)"
      using run_search_own [OF run] u by (simp add: memory_fits_def request_options_def)
    then show "\<exists>data. resp = response_ok data \<and> memory_fits u (app_store s) (Search a) data"
      using out by (auto simp: ret_sm_def)
  qed
qed

lemma store_answers: "answers (\<lambda>d. memory_fits u d (Store a)) (handle_memory_store E a u)"
  unfolding handle_memory_store_def Let_def
  by (intro answers_user answers_bind answers_ret) (simp add: memory_fits_def)

lemma length_pairs_of: "2 * length (pairs_of xs) = length xs * (length xs - 1)"
proof (induction xs)
  case (Cons x xs)
  then show ?case by (cases "length xs") (auto simp: algebra_simps)
qed simp

lemma store_entries_length:
  "fold_sm es (store_entry E u) ids s = (Inr out, t) \<Longrightarrow> length out = length ids + length es"
proof (induction es arbitrary: ids s)
  case (Cons e es)
  then obtain ids' s' where one: "store_entry E u e ids s = (Inr ids', s')"
    and rest: "fold_sm es (store_entry E u) ids' s' = (Inr out, t)"
    by (auto simp: bind_sm_Inr_iff)
  have "length ids' = Suc (length ids)"
    using one by (auto simp: store_entry_def bind_sm_Inr_iff Let_def ret_sm_def)
  with Cons.IH [OF rest] show ?case by simp
qed (simp add: ret_sm_def)

lemma link_batch_count:
  assumes "link_batch E w ids s = (Inr n, t)"
  shows "n = length ids * (length ids - 1)"
proof -
  let ?f = "\<lambda>(a, b) created. bind_sm (sql (link_bidirectional a b w (e_now E) ''cooccurrence''))
      (\<lambda>_. ret_sm (created + 2))"
  have "n = m + 2 * length ps" if "fold_sm ps ?f m s = (Inr n, t)" for ps m s
    using that
  proof (induction ps arbitrary: m s)
    case (Cons p ps)
    then obtain s1 where "fold_sm ps ?f (m + 2) s1 = (Inr n, t)"
      by (cases p) (auto simp: bind_sm_Inr_iff ret_sm_Inr)
    from Cons.IH [OF this] show ?case by simp
  qed (simp add: ret_sm_def)
  then show ?thesis using assms length_pairs_of [of ids] by (fastforce simp: link_batch_def)
qed

lemma store_batch_answers: "answers (\<lambda>d. memory_fits u d (StoreBatch a)) (handle_memory_store_batch E a u)"
  unfolding handle_memory_store_batch_def
  by (intro answers_user answers_if answers_bind answers_ret)
    (auto simp: memory_fits_def dest!: store_entries_length link_batch_count)

lemma memory_answers: "answers (\<lambda>d. memory_fits u d r) (handle_memory_request E r u)"
  unfolding handle_memory_request_def
  by (cases r) (simp_all add: answers_throw store_answers store_batch_answers search_answers get_answers get_many_answers
      list_answers write_answers link_answers linked_answers vector_answers lexical_answers)

lemma lifecycle_answers: "answers (\<lambda>_. lifecycle_fits u r) (handle_lifecycle_request E r u)"
proof (cases r)
  case (Tick a)
  then show ?thesis
    by (simp add: handle_lifecycle_request_def handle_tick_def)
      (intro answers_bind answers_ret, simp add: lifecycle_fits_def)
next
  case (FindFading a)
  have "answers (\<lambda>_. lifecycle_fits u (FindFading a)) (handle_find_fading E a u)"
    unfolding handle_find_fading_def Let_def
    by (intro answers_user answers_sql answers_ret)
      (auto simp: lifecycle_fits_def dest!: find_own_reads in_set_takeD)
  with FindFading show ?thesis by (simp add: handle_lifecycle_request_def)
next
  case (FindStable a)
  have "answers (\<lambda>_. lifecycle_fits u (FindStable a)) (handle_find_stable E a u)"
    unfolding handle_find_stable_def
    by (intro answers_user answers_sql answers_ret) (auto simp: lifecycle_fits_def dest!: find_own_reads)
  with FindStable show ?thesis by (simp add: handle_lifecycle_request_def)
next
  case (Clear a)
  have "answers (\<lambda>_. lifecycle_fits u (Clear a)) (handle_clear a u)"
    unfolding handle_clear_def
    by (intro answers_user answers_if answers_throw answers_sql answers_ret) (simp add: lifecycle_fits_def)
  with Clear show ?thesis by (simp add: handle_lifecycle_request_def)
qed (simp_all add: handle_lifecycle_request_def handle_mark_superseded_def handle_migrate_to_cold_def
    handle_migrate_to_hot_def handle_convert_to_stub_def handle_update_retention_def,
    (intro answers_user answers_sql answers_affected answers_ret;
      auto simp: lifecycle_fits_def le_Suc_eq)+)

lemma diagnostics_answers:
  "answers (\<lambda>d. diagnostics_fits u d r) (handle_request E (Diagnostics r) u)"
proof (cases r)
  case (ValidateBridgeToken a)
  have "bridge_scope_allows (bv_scope v) (vt_required_scope a)"
    if "check_token_record now (vt_required_scope a) value = Inr v" for now "value" v
    using that by (auto simp: check_token_record_def Let_def split: option.splits if_splits)
  then have "answers (\<lambda>d. diagnostics_fits u d (ValidateBridgeToken a)) (handle_validate_bridge_token E a)"
    unfolding handle_validate_bridge_token_def
    by (intro answers_sql)
      (auto split: option.split sum.split intro!: answers_throw answers_bind answers_ret simp: lift_sm_def diagnostics_fits_def)
  with ValidateBridgeToken show ?thesis by (simp add: handle_request_def)
qed (simp_all add: handle_request_def handle_status_def handle_doctor_def handle_recent_traces_def handle_shutdown_def
    handle_mint_bridge_token_def handle_counts_def Let_def,
    (intro answers_user answers_bind answers_ret;
      auto simp: diagnostics_fits_def sql_Inr_iff gets_sm_def recent_traces_def)+)

text \<open>C3: A request that succeeds is answered with the data that belong to it, and with nothing of
  another user: \<open>Get\<close> returns the memory that was asked for, hot; lists, linked memories and search hits
  are memories of the user of the connection, the hits with their content as it was in the store when
  the request came, and at most as many as asked for; a batch returns one id per memory and the number
  of links between all pairs; a link strength lies in the unit interval; a validated token has at
  least the required scope; and \<open>Clear\<close> succeeds only when it was confirmed. The texts of errors and the
  ids inside bridge paths are not covered.\<close>

theorem response_typed:
  assumes "handle_request E req u s = (Inr resp, s')"
  shows "\<exists>data. resp = response_ok data \<and> response_fits u (app_store s) req data"
proof -
  have "answers (\<lambda>d. response_fits u d req) (handle_request E req u)"
  proof (cases req)
    case (Diagnostics r)
    then show ?thesis using diagnostics_answers by (simp add: response_fits_def [abs_def])
  next
    case (Memory r)
    then show ?thesis using memory_answers by (simp add: response_fits_def [abs_def] handle_request_def)
  next
    case (Lifecycle r)
    then show ?thesis using lifecycle_answers by (simp add: response_fits_def [abs_def] handle_request_def)
  next
    case UnknownBucket
    then show ?thesis by (simp add: response_fits_def [abs_def] handle_request_def answers_throw)
  qed
  then show ?thesis using assms unfolding answers_def by blast
qed

theorem response_typed_witness:
  "\<exists>m s'. handle_request demo_env (Memory (Get \<lparr>gm_user_id = ''alice'', gm_id = ''mem_1''\<rparr>)) ''alice''
       ((fresh_app 10)\<lparr>app_store := demo_db\<rparr>) = (Inr (response_ok (MemoryR m)), s')
     \<and> md_user_id m = ''alice'' \<and> md_id m = ''mem_1''"
proof -
  let ?req = "Memory (Get \<lparr>gm_user_id = ''alice'', gm_id = ''mem_1''\<rparr>)" and ?s = "(fresh_app 10)\<lparr>app_store := demo_db\<rparr>"
  obtain res s' where run: "handle_request demo_env ?req ''alice'' ?s = (res, s')" by fastforce
  then obtain resp where resp: "res = Inr resp"
    by (auto simp: handle_request_def handle_memory_request_def handle_memory_get_def get_for_user_def own_def
        require_user_match_def demo_row_def new_minimal_def ret_sm_def)
  show ?thesis
    using response_typed [OF run [unfolded resp]] run resp by (auto simp: response_fits_def memory_fits_def own_data_def)
qed

end
