(* ===== verification/Client.thy ===== *)
theory Client
  imports Server
begin

text \<open>
  The Rust client (\<open>crates/client/src/lib.rs\<close>): the handshake on the raw stream, and a request that
  waits for the response under its id. Parameters of the model: what the operating system answers to
  connecting, writing and reading (\<open>stream\<close>), serde's conversion between JSON values and bytes, and
  what \<open>Framed\<close> yields from the socket after the handshake (the inbox). A deadline is the number of
  messages that arrive before it.
\<close>

section \<open>State and errors\<close>

datatype client_error =
    Io string
  | Handshake_json string
  | ProtocolMismatch protocol_mismatch
  | HandshakeShortRead
  | UnexpectedClose
  | IdMismatch nat nat
  | UnexpectedPayload ipc_payload
  | Timeout nat

text \<open>The connected client: the counter, what \<open>framed.next()\<close> will yield (the end of the list is the
  end of the stream), and, for the theorems, what was sent.\<close>

record client =
  ct_next_id :: nat
  ct_inbox :: "(string + ipc_message) list"
  ct_sent :: "ipc_message list"

text \<open>The raw stream: the outcome of \<open>connect\<close>, of \<open>write_all\<close> and \<open>flush\<close>, and of each read; an empty
  read, like the end of the list, is the end of the stream.\<close>

record stream =
  st_connect :: "string + unit"
  st_write :: "byte list \<Rightarrow> string + unit"
  st_reads :: "(string + byte list) list"

record json_codec =
  js_to_vec :: "json \<Rightarrow> string + byte list"
  js_from_slice :: "byte list \<Rightarrow> string + json"

section \<open>Handshake\<close>

definition client_hello :: "string \<Rightarrow> string \<Rightarrow> json" where
  "client_hello label u = JObj [(''kind'', JStr ''Hello''), (''client'', JStr label),
     (''protocol_version'', JInt (int IPC_PROTOCOL_VERSION)), (''user_id'', JStr u)]"

definition write_length_prefixed_json :: "json_codec \<Rightarrow> stream \<Rightarrow> json \<Rightarrow> client_error + unit" where
  "write_length_prefixed_json J sk v = (case js_to_vec J v of
      Inl e \<Rightarrow> Inl (Handshake_json e)
    | Inr bytes \<Rightarrow> (case encode_frame bytes of
        None \<Rightarrow> Inl (Io ''frame size too big'')
      | Some buf \<Rightarrow> map_sum Io id (st_write sk buf)))"

text \<open>The loop of \<open>read_length_prefixed_json\<close>, given what is in the buffer and the reads to come.\<close>

fun read_length_prefixed_json ::
  "json_codec \<Rightarrow> byte list \<Rightarrow> (string + byte list) list \<Rightarrow> client_error + json" where
  "read_length_prefixed_json J buf reads = (case decode_frame buf of
      Frame_too_big \<Rightarrow> Inl (Io ''frame size too big'')
    | Frame frame _ \<Rightarrow> (case js_from_slice J frame of Inl e \<Rightarrow> Inl (Handshake_json e) | Inr v \<Rightarrow> Inr v)
    | Need_more \<Rightarrow> (case reads of
        [] \<Rightarrow> Inl HandshakeShortRead
      | Inl e # _ \<Rightarrow> Inl (Io e)
      | Inr bytes # later \<Rightarrow> if bytes = [] then Inl HandshakeShortRead
                           else read_length_prefixed_json J (buf @ bytes) later))"

declare read_length_prefixed_json.simps [simp del]

definition welcome_proto :: "json \<Rightarrow> nat" where
  "welcome_proto w = (case Option.bind (json_get ''protocol_version'' w) json_as_u64 of
      Some v \<Rightarrow> v mod 2 ^ 32 | None \<Rightarrow> 0)"

definition connect :: "json_codec \<Rightarrow> stream \<Rightarrow> (string + ipc_message) list \<Rightarrow> string \<Rightarrow> string \<Rightarrow> client_error + client" where
  "connect J sk inbox label u = (case st_connect sk of
      Inl e \<Rightarrow> Inl (Io e)
    | Inr _ \<Rightarrow> (case write_length_prefixed_json J sk (client_hello label u) of
        Inl e \<Rightarrow> Inl e
      | Inr _ \<Rightarrow> (case read_length_prefixed_json J [] (st_reads sk) of
          Inl e \<Rightarrow> Inl e
        | Inr w \<Rightarrow> (case validate_protocol_version (welcome_proto w) of
            Inl mismatch \<Rightarrow> Inl (ProtocolMismatch mismatch)
          | Inr _ \<Rightarrow> Inr \<lparr>ct_next_id = 1, ct_inbox = inbox, ct_sent = []\<rparr>))))"

section \<open>Requests\<close>

text \<open>The loop of \<open>request_inner\<close>: events are skipped, any other message ends it. \<open>None\<close>: the deadline
  passes while the loop waits for the next message.\<close>

fun await_reply ::
  "nat \<Rightarrow> nat \<Rightarrow> (string + ipc_message) list \<Rightarrow> (client_error + response) option \<times> (string + ipc_message) list" where
  "await_reply deadline i [] = (if deadline = 0 then None else Some (Inl UnexpectedClose), [])"
| "await_reply 0 i (m # inbox) = (None, m # inbox)"
| "await_reply (Suc deadline) i (Inl e # inbox) = (Some (Inl (Io e)), inbox)"
| "await_reply (Suc deadline) i (Inr reply # inbox) =
     (case im_payload reply of
        EventP _ \<Rightarrow> await_reply deadline i inbox
      | payload \<Rightarrow>
          (if im_id reply \<noteq> i then (Some (Inl (IdMismatch i (im_id reply))), inbox)
           else case payload of
             ResponseP resp \<Rightarrow> (Some (Inr resp), inbox)
           | other \<Rightarrow> (Some (Inl (UnexpectedPayload other)), inbox)))"

text \<open>\<open>None\<close> is the panic of \<open>checked_add(1).expect(..)\<close>; \<open>send\<close> is the outcome of sending.\<close>

definition request_inner ::
  "nat \<Rightarrow> (ipc_message \<Rightarrow> string + unit) \<Rightarrow> request \<Rightarrow> client \<Rightarrow>
   ((client_error + response) option \<times> client) option" where
  "request_inner deadline send req c =
     (if 2 ^ 64 \<le> ct_next_id c + 1 then None
      else let i = ct_next_id c;
               msg = \<lparr>im_id = i, im_payload = RequestP req\<rparr>;
               c' = c\<lparr>ct_next_id := i + 1\<rparr>
           in Some (case send msg of
               Inl e \<Rightarrow> (Some (Inl (Io e)), c')
             | Inr _ \<Rightarrow> (case await_reply deadline i (ct_inbox c) of (outcome, rest) \<Rightarrow>
                 (outcome, c'\<lparr>ct_inbox := rest, ct_sent := ct_sent c @ [msg]\<rparr>))))"

definition request_with_timeout ::
  "nat \<Rightarrow> nat \<Rightarrow> (ipc_message \<Rightarrow> string + unit) \<Rightarrow> request \<Rightarrow> client \<Rightarrow>
   ((client_error + response) \<times> client) option" where
  "request_with_timeout secs deadline send req c =
     map_option (\<lambda>(outcome, c'). (case outcome of Some r \<Rightarrow> r | None \<Rightarrow> Inl (Timeout secs), c'))
       (request_inner deadline send req c)"

definition client_request ::
  "nat \<Rightarrow> (ipc_message \<Rightarrow> string + unit) \<Rightarrow> request \<Rightarrow> client \<Rightarrow> ((client_error + response) \<times> client) option" where
  "client_request deadline send req c = request_with_timeout 120 deadline send req c"

section \<open>The handshake\<close>

text \<open>However the bytes of a frame arrive, the loop returns its JSON value: a frame cut into non-empty
  reads, with anything after it.\<close>

lemma read_chunked_frame:
  assumes "encode_frame payload = Some bytes" and "[] \<notin> set chunks"
    and "js_from_slice J payload = Inr v" and "buf @ concat chunks = bytes @ rest"
  shows "read_length_prefixed_json J buf (map Inr chunks @ later) = Inr v"
  using assms(2,4)
proof (induction chunks arbitrary: buf)
  case Nil
  then have "decode_frame buf = Frame payload rest" using decode_encoded_frame [OF assms(1)] by simp
  then show ?case using assms(3) by (simp add: read_length_prefixed_json.simps)
next
  case (Cons x chunks)
  show ?case
  proof (cases "length buf < length bytes")
    case True
    have "buf = take (length buf) (buf @ concat (x # chunks))" by simp
    also have "\<dots> = take (length buf) bytes" using True Cons.prems(2) by simp
    finally have "decode_frame buf = Need_more" using decode_frame_prefix [OF assms(1) True] by simp
    then show ?thesis
      using Cons by (subst read_length_prefixed_json.simps) auto
  next
    case False
    then obtain tail where "buf = bytes @ tail"
      using Cons.prems(2) by (metis append_eq_append_conv_if append_take_drop_id not_less)
    then have "decode_frame buf = Frame payload tail" using decode_encoded_frame [OF assms(1)] by simp
    then show ?thesis using assms(3) by (simp add: read_length_prefixed_json.simps)
  qed
qed

lemma client_hello_proto: "client_proto (client_hello label u) = IPC_PROTOCOL_VERSION"
  by (simp add: client_proto_def client_hello_def IPC_PROTOCOL_VERSION_def)

text \<open>Client and daemon agree on the handshake: given a JSON library that reads back
  what it wrote, a client that connects under user \<open>u\<close> is welcomed by the daemon as \<open>u\<close>, and it
  accepts that welcome however its bytes are cut into reads and whatever follows them, with the
  first request id 1; if the stream ends before the welcome is complete it reports that.\<close>

lemma connect_handshake:
  assumes hello: "js_to_vec J (client_hello label u) = Inr hello" "length hello \<le> MAX_FRAME"
    and greet: "handshake E sid (client_hello label u) = Welcomed w greeting"
      "js_to_vec J greeting = Inr reply" "js_from_slice J reply = Inr greeting" "encode_frame reply = Some bytes"
    and sk: "st_connect sk = Inr ()" "\<And>b. st_write sk b = Inr ()"
    and reads: "st_reads sk = map Inr chunks @ later" "concat chunks = bytes @ rest" "[] \<notin> set chunks"
  shows "w = u \<and> connect J sk inbox label u = Inr \<lparr>ct_next_id = 1, ct_inbox = inbox, ct_sent = []\<rparr>
    \<and> (\<forall>k. 0 < k \<and> k < length bytes \<longrightarrow>
         connect J (sk\<lparr>st_reads := [Inr (take k bytes)]\<rparr>) inbox label u = Inl HandshakeShortRead)"
proof -
  have w: "w = u" "welcome_proto greeting = IPC_PROTOCOL_VERSION"
    using greet(1) by (auto simp: handshake_def client_hello_proto welcome_proto_def client_hello_def
        IPC_PROTOCOL_VERSION_def split: if_splits)
  have "write_length_prefixed_json J sk' (client_hello label u) = Inr ()" if "st_write sk' = st_write sk" for sk'
    using hello sk(2) that by (simp add: write_length_prefixed_json_def encode_frame_def)
  moreover have "read_length_prefixed_json J [] (st_reads sk) = Inr greeting"
    using read_chunked_frame [OF greet(4) reads(3) greet(3), of "[]" rest later] reads by simp
  moreover have "read_length_prefixed_json J [] [Inr (take k bytes)] = Inl HandshakeShortRead"
    if "0 < k" "k < length bytes" for k
    using that decode_frame_prefix [OF greet(4), of k]
    by (simp add: read_length_prefixed_json.simps decode_frame_def)
  ultimately show ?thesis
    using sk w by (simp add: connect_def validate_protocol_version_def)
qed

section \<open>Requests\<close>

fun is_event :: "string + ipc_message \<Rightarrow> bool" where
  "is_event (Inr m) = (case im_payload m of EventP _ \<Rightarrow> True | _ \<Rightarrow> False)"
| "is_event (Inl _) = False"

lemma await_reply_events:
  assumes "list_all is_event evs" "length evs \<le> deadline"
  shows "await_reply deadline i (evs @ inbox) = await_reply (deadline - length evs) i inbox"
  using assms
proof (induction evs arbitrary: deadline)
  case (Cons ev evs)
  then obtain d where d: "deadline = Suc d" "length evs \<le> d" by (cases deadline) auto
  from Cons.prems(1) obtain m e where "ev = Inr m" "im_payload m = EventP e"
    by (cases ev) (auto split: ipc_payload.splits)
  then show ?case using Cons d by simp
qed simp

lemma await_reply_response:
  assumes "await_reply deadline i inbox = (Some (Inr resp), rest)"
  shows "\<exists>evs. list_all is_event evs \<and> inbox = evs @ Inr \<lparr>im_id = i, im_payload = ResponseP resp\<rparr> # rest"
  using assms
proof (induction deadline i inbox rule: await_reply.induct)
  case (4 deadline i reply inbox)
  show ?case
  proof (cases "im_payload reply")
    case (EventP e)
    then obtain evs where "list_all is_event evs" "inbox = evs @ Inr \<lparr>im_id = i, im_payload = ResponseP resp\<rparr> # rest"
      using 4 by fastforce
    then show ?thesis using EventP by (intro exI [of _ "Inr reply # evs"]) simp
  next
    case (ResponseP r)
    then have "reply = \<lparr>im_id = i, im_payload = ResponseP resp\<rparr>" "inbox = rest"
      using 4(2) by (auto split: if_splits)
    then show ?thesis by (intro exI [of _ "[]"]) simp
  qed (use 4(2) in \<open>auto split: if_splits\<close>)
qed (auto split: if_splits)

definition client_inv :: "client \<Rightarrow> bool" where
  "client_inv c \<longleftrightarrow> sorted_wrt (<) (map im_id (ct_sent c)) \<and> (\<forall>m \<in> set (ct_sent c). im_id m < ct_next_id c)"

lemma request_inner_cases:
  assumes "request_inner deadline send req c = Some (outcome, c')"
  defines "msg \<equiv> \<lparr>im_id = ct_next_id c, im_payload = RequestP req\<rparr>"
  shows "ct_next_id c + 1 < 2 ^ 64" "ct_next_id c' = ct_next_id c + 1"
    "(\<exists>e. send msg = Inl e \<and> outcome = Some (Inl (Io e)) \<and> ct_inbox c' = ct_inbox c \<and> ct_sent c' = ct_sent c)
     \<or> send msg = Inr () \<and> await_reply deadline (ct_next_id c) (ct_inbox c) = (outcome, ct_inbox c')
       \<and> ct_sent c' = ct_sent c @ [msg]"
  using assms(1)
  by (auto simp: request_inner_def Let_def msg_def split: if_splits sum.splits prod.splits)


text \<open>An event and then the response.\<close>

definition demo_client :: client where
  "demo_client = \<lparr>ct_next_id = 1, ct_inbox = [Inr \<lparr>im_id = 0, im_payload = EventP (CurrentState 0 [])\<rparr>,
      Inr \<lparr>im_id = 1, im_payload = ResponseP (response_ok (AffectedR 3))\<rparr>], ct_sent = []\<rparr>"


section \<open>After a timeout\<close>

text \<open>A series of requests, each with its deadline.\<close>

fun client_requests ::
  "(ipc_message \<Rightarrow> string + unit) \<Rightarrow> (nat \<times> request) list \<Rightarrow> client \<Rightarrow> ((client_error + response) list \<times> client) option" where
  "client_requests send [] c = Some ([], c)"
| "client_requests send ((deadline, req) # rs) c =
     (case client_request deadline send req c of
        None \<Rightarrow> None
      | Some (res, c') \<Rightarrow> map_option (\<lambda>(out, c''). (res # out, c'')) (client_requests send rs c'))"

text \<open>The daemon's answers to the requests \<open>k\<close>, \<open>k + 1\<close>, ... in order.\<close>

definition answers_from :: "(nat \<Rightarrow> response) \<Rightarrow> nat \<Rightarrow> nat \<Rightarrow> (string + ipc_message) list" where
  "answers_from r k n = map (\<lambda>i. Inr \<lparr>im_id = i, im_payload = ResponseP (r i)\<rparr>) [k..<n]"

lemma answers_from_Cons:
  "k < n \<Longrightarrow> answers_from r k n = Inr \<lparr>im_id = k, im_payload = ResponseP (r k)\<rparr> # answers_from r (Suc k) n"
  by (simp add: answers_from_def upt_conv_Cons)

lemma lagging_request:
  assumes "ct_inbox c = answers_from r k n" "k < n" "k \<noteq> ct_next_id c" "ct_next_id c + 1 < 2 ^ 64"
    and "\<And>m. send m = Inr ()"
  shows "client_request (Suc d) send req c = Some (Inl (IdMismatch (ct_next_id c) k),
     c\<lparr>ct_next_id := ct_next_id c + 1, ct_inbox := answers_from r (Suc k) n,
       ct_sent := ct_sent c @ [\<lparr>im_id = ct_next_id c, im_payload = RequestP req\<rparr>]\<rparr>)"
  using assms
  by (simp add: client_request_def request_with_timeout_def request_inner_def answers_from_Cons Let_def)

lemma lagging_requests:
  assumes "ct_inbox c = answers_from r k n" "ct_next_id c = Suc k" "Suc k + length rs < 2 ^ 64" "k + length rs \<le> n"
    and "\<And>m. send m = Inr ()" "list_all (\<lambda>(d, req). 0 < d) rs"
  shows "map_option fst (client_requests send rs c) =
    Some (map (\<lambda>j. Inl (IdMismatch (Suc (k + j)) (k + j))) [0..<length rs])"
  using assms(1-4,6)
proof (induction rs arbitrary: c k)
  case (Cons x rs)
  obtain d req where x: "x = (Suc d, req)" using Cons.prems(5) by (cases x; cases "fst x") auto
  let ?c = "c\<lparr>ct_next_id := ct_next_id c + 1, ct_inbox := answers_from r (Suc k) n,
       ct_sent := ct_sent c @ [\<lparr>im_id = ct_next_id c, im_payload = RequestP req\<rparr>]\<rparr>"
  have step: "client_request (Suc d) send req c = Some (Inl (IdMismatch (Suc k) k), ?c)"
    using lagging_request [OF Cons.prems(1), of send d req] Cons.prems assms(5) by simp
  have "map_option fst (client_requests send rs ?c) =
      Some (map (\<lambda>j. Inl (IdMismatch (Suc (Suc k + j)) (Suc k + j))) [0..<length rs])"
    using Cons.prems by (intro Cons.IH) auto
  then obtain c'' where "client_requests send rs ?c =
      Some (map (\<lambda>j. Inl (IdMismatch (Suc (Suc k + j)) (Suc k + j))) [0..<length rs], c'')"
    by (auto simp: map_option_case split: option.splits)
  moreover have "[0..<length (x # rs)] = 0 # map Suc [0..<length rs]"
    unfolding map_Suc_upt by (simp add: upt_conv_Cons del: upt_Suc)
  ultimately show ?case by (simp add: x step comp_def del: upt_Suc)
qed simp

text \<open>C30: After a timeout the client does not recover by itself. When a request times out and the
  daemon then answers that request and every later one, in order, each later request on the same
  client fails with an id mismatch: it meets the answer to the request before it.\<close>

theorem timeout_desynchronises:
  assumes "ct_next_id c = k" "ct_inbox c = answers_from r k n" "Suc k + length rs < 2 ^ 64" "k + length rs \<le> n"
    and "\<And>m. send m = Inr ()" "list_all (\<lambda>(d, req). 0 < d) rs"
  shows "map_option fst (client_requests send ((0, req) # rs) c) =
    Some (Inl (Timeout 120) # map (\<lambda>j. Inl (IdMismatch (Suc (k + j)) (k + j))) [0..<length rs])"
proof -
  have wait: "await_reply 0 i inbox = (None, inbox)" for i inbox by (cases inbox) auto
  have "map_option fst (client_requests send rs
      (c\<lparr>ct_next_id := Suc k, ct_sent := ct_sent c @ [\<lparr>im_id = k, im_payload = RequestP req\<rparr>]\<rparr>)) =
      Some (map (\<lambda>j. Inl (IdMismatch (Suc (k + j)) (k + j))) [0..<length rs])"
    using assms by (intro lagging_requests [of _ r k n]) auto
  then show ?thesis
    using assms(1,3,5)
    by (auto simp: client_request_def request_with_timeout_def request_inner_def wait
        map_option_case split: option.splits)
qed

theorem timeout_desynchronises_witness:
  "map_option fst (client_requests (\<lambda>_. Inr ()) [(0, Diagnostics Status), (9, Diagnostics Status)]
     \<lparr>ct_next_id = 1, ct_inbox = answers_from (\<lambda>_. response_ok (AffectedR 0)) 1 3, ct_sent = []\<rparr>) =
   Some [Inl (Timeout 120), Inl (IdMismatch (Suc 1) 1)]"
  using timeout_desynchronises [of "\<lparr>ct_next_id = 1, ct_inbox = answers_from (\<lambda>_. response_ok (AffectedR 0)) 1 3,
      ct_sent = []\<rparr>" 1 "\<lambda>_. response_ok (AffectedR 0)" 3 "[(9, Diagnostics Status)]" "\<lambda>_. Inr ()" "Diagnostics Status"]
  by (simp del: client_requests.simps)

end
