(* ===== verification/Core_Paths.thy ===== *)
theory Core_Paths
  imports CM_Prelude "HOL-Library.Word"
begin

unbundle bit_operations_syntax

text \<open>
  Runtime identity and file system paths (\<open>crates/core/src/paths.rs\<close>). Paths are their text with
  \<open>/\<close> as the separator (Unix), without \<open>.\<close> components. Parameters: the environment variables,
  the directories the \<open>dirs\<close> crate reports, and whether the build has debug assertions. The file
  system is explicit state: directories with their modes, files with mode and content, the umask,
  and which paths the operating system refuses.
\<close>

section \<open>Paths\<close>

type_synonym path = string

definition path_join :: "path \<Rightarrow> path \<Rightarrow> path" where
  "path_join a b =
     (if starts_with b ''/'' then b
      else if a = [] \<or> last a = CHR ''/'' then a @ b
      else a @ ''/'' @ b)"

text \<open>The part after the last separator, and the part before it.\<close>

definition file_name :: "path \<Rightarrow> string" where
  "file_name p = rev (takeWhile (\<lambda>c. c \<noteq> CHR ''/'') (rev p))"

definition rstrip_slash :: "path \<Rightarrow> path" where
  "rstrip_slash p = rev (dropWhile (\<lambda>c. c = CHR ''/'') (rev p))"

definition dir_part :: "path \<Rightarrow> path" where
  "dir_part p = rev (dropWhile (\<lambda>c. c \<noteq> CHR ''/'') (rev p))"

definition path_parent :: "path \<Rightarrow> path option" where
  "path_parent p =
     (let q = rstrip_slash p in
      if q = [] then None
      else let d = dir_part q in
        if d = [] then Some []
        else if rstrip_slash d = [] then Some ''/'' else Some (rstrip_slash d))"

section \<open>Identity\<close>

record os_env =
  ev_vars :: "string \<rightharpoonup> string"
  ev_debug :: bool
  ev_config_dir :: "path option"
  ev_data_dir :: "path option"
  ev_data_local_dir :: "path option"
  ev_runtime_dir :: "path option"
  ev_cache_dir :: "path option"
  ev_home_dir :: "path option"

definition PROD_INSTANCE_NAME :: string where
  "PROD_INSTANCE_NAME = ''cognitive-memory''"

definition DEV_INSTANCE_NAME :: string where
  "DEV_INSTANCE_NAME = ''cognitive-memory-dev''"

definition default_instance_name :: "os_env \<Rightarrow> string" where
  "default_instance_name V = (if ev_debug V then DEV_INSTANCE_NAME else PROD_INSTANCE_NAME)"

definition app_instance_name :: "os_env \<Rightarrow> string" where
  "app_instance_name V = (case ev_vars V ''COGNITIVE_MEMORY_INSTANCE'' of
      Some s \<Rightarrow> if trim_str s \<noteq> [] then trim_str s else default_instance_name V
    | None \<Rightarrow> default_instance_name V)"

record runtime_paths =
  rp_instance :: string
  rp_config_dir :: path
  rp_data_dir :: path
  rp_runtime_dir :: path
  rp_cache_dir :: path
  rp_log_dir :: path
  rp_config_path :: path
  rp_socket_path :: path
  rp_pid_path :: path
  rp_db_path :: path
  rp_bridge_token_path :: path
  rp_bridge_port_path :: path
  rp_model_cache_dir :: path
  rp_daemon_log_path :: path

text \<open>\<open>Option::or_else\<close>.\<close>

definition or_else :: "'a option \<Rightarrow> 'a option \<Rightarrow> 'a option" where
  "or_else x y = (case x of Some v \<Rightarrow> Some v | None \<Rightarrow> y)"

definition base_config :: "os_env \<Rightarrow> path option" where
  "base_config V = or_else (ev_vars V ''COGNITIVE_MEMORY_CONFIG_DIR'') (ev_config_dir V)"

definition base_data :: "os_env \<Rightarrow> path option" where
  "base_data V = or_else (ev_vars V ''COGNITIVE_MEMORY_DATA_DIR'') (ev_data_dir V)"

definition base_runtime :: "os_env \<Rightarrow> path option" where
  "base_runtime V = or_else (or_else (or_else (ev_vars V ''COGNITIVE_MEMORY_RUNTIME_DIR'')
     (ev_runtime_dir V)) (ev_data_local_dir V)) (ev_data_dir V)"

definition base_cache :: "os_env \<Rightarrow> path option" where
  "base_cache V = or_else (ev_vars V ''COGNITIVE_MEMORY_CACHE_DIR'') (ev_cache_dir V)"

definition base_log :: "os_env \<Rightarrow> path option" where
  "base_log V = or_else (or_else (ev_vars V ''COGNITIVE_MEMORY_LOG_DIR'')
     (map_option (\<lambda>h. path_join (path_join h ''Library'') ''Logs'') (ev_home_dir V))) (ev_cache_dir V)"

definition instance_paths :: "os_env \<Rightarrow> string \<Rightarrow> path \<Rightarrow> path \<Rightarrow> path \<Rightarrow> path \<Rightarrow> path \<Rightarrow> runtime_paths" where
  "instance_paths V i config data runtime cache log_d = \<lparr>
     rp_instance = i, rp_config_dir = config, rp_data_dir = data, rp_runtime_dir = runtime,
     rp_cache_dir = cache, rp_log_dir = log_d,
     rp_config_path = path_join config ''config.toml'',
     rp_socket_path = (case ev_vars V ''COGNITIVE_MEMORY_SOCKET_PATH'' of
         Some p \<Rightarrow> p | None \<Rightarrow> path_join runtime ''cm.sock''),
     rp_pid_path = path_join runtime ''cm-daemon.pid'',
     rp_db_path = path_join data ''data.db'',
     rp_bridge_token_path = path_join config ''bridge-token.json'',
     rp_bridge_port_path = path_join config ''bridge-port'',
     rp_model_cache_dir = path_join cache ''models'',
     rp_daemon_log_path = path_join log_d ''daemon.log''\<rparr>"

text \<open>\<open>RuntimePaths::for_instance\<close>; \<open>None\<close> is the panic when a base directory cannot be resolved.\<close>

definition for_instance :: "os_env \<Rightarrow> string \<Rightarrow> runtime_paths option" where
  "for_instance V i = (case (base_config V, base_data V, base_runtime V, base_cache V, base_log V) of
      (Some bc, Some bd, Some br, Some bca, Some bl) \<Rightarrow>
        Some (instance_paths V i (path_join bc i) (path_join bd i) (path_join br i) (path_join bca i) (path_join bl i))
    | _ \<Rightarrow> None)"

definition resolve_paths :: "os_env \<Rightarrow> runtime_paths option" where
  "resolve_paths V = for_instance V (app_instance_name V)"

section \<open>The file system\<close>

type_synonym mode = "12 word"

record fs =
  fs_dirs :: "path \<rightharpoonup> mode"
  fs_files :: "path \<rightharpoonup> mode \<times> string"
  fs_umask :: mode
  fs_fault :: "path \<rightharpoonup> string"

type_synonym 'a io = "(fs, string, 'a) sm"

text \<open>An operation on a path that the operating system refuses fails with its error.\<close>

definition guarded :: "path \<Rightarrow> 'a io \<Rightarrow> 'a io" where
  "guarded p m s = (case fs_fault s p of Some e \<Rightarrow> (Inl e, s) | None \<Rightarrow> m s)"

definition set_private_umask :: "unit io" where
  "set_private_umask = modify_sm (\<lambda>s. s\<lparr>fs_umask := 63\<rparr>)"

definition path_exists :: "fs \<Rightarrow> path \<Rightarrow> bool" where
  "path_exists s p \<longleftrightarrow> fs_dirs s p \<noteq> None \<or> fs_files s p \<noteq> None"

text \<open>The directories above a path, nearest first: one for each separator that is not the first
  character.\<close>

fun ancestors :: "nat \<Rightarrow> path \<Rightarrow> path list" where
  "ancestors 0 p = []"
| "ancestors (Suc k) p = (case path_parent p of
      None \<Rightarrow> [] | Some q \<Rightarrow> if q = [] then [] else q # ancestors k q)"

definition create_dir_all :: "path \<Rightarrow> unit io" where
  "create_dir_all p = guarded p (\<lambda>s.
     let chain = p # ancestors (length p) p in
     if fs_dirs s p \<noteq> None then (Inr (), s)
     else if \<exists>q \<in> set chain. fs_files s q \<noteq> None then (Inl ''not a directory'', s)
     else (Inr (), s\<lparr>fs_dirs := (\<lambda>q. if q \<in> set chain \<and> fs_dirs s q = None
                                    then Some (511 AND NOT (fs_umask s)) else fs_dirs s q)\<rparr>))"

text \<open>\<open>fs::metadata\<close> and \<open>fs::set_permissions\<close>.\<close>

definition mode_of :: "path \<Rightarrow> mode io" where
  "mode_of p = guarded p (\<lambda>s. (case fs_dirs s p of
      Some m \<Rightarrow> Inr m
    | None \<Rightarrow> (case fs_files s p of Some (m, _) \<Rightarrow> Inr m | None \<Rightarrow> Inl ''not found''), s))"

definition set_mode :: "path \<Rightarrow> mode \<Rightarrow> unit io" where
  "set_mode p m = guarded p (\<lambda>s. (case fs_dirs s p of
      Some _ \<Rightarrow> (Inr (), s\<lparr>fs_dirs := (fs_dirs s)(p \<mapsto> m)\<rparr>)
    | None \<Rightarrow> (case fs_files s p of
        Some (_, content) \<Rightarrow> (Inr (), s\<lparr>fs_files := (fs_files s)(p \<mapsto> (m, content))\<rparr>)
      | None \<Rightarrow> (Inl ''not found'', s))))"

text \<open>\<open>fs::read_to_string\<close> tells a missing file from other errors; \<open>fs::write\<close> creates the file under
  the umask or keeps the mode it has; \<open>fs::remove_file\<close>.\<close>

datatype io_error = Not_found | Other_io string

definition read_to_string :: "path \<Rightarrow> fs \<Rightarrow> io_error + string" where
  "read_to_string p s = (case fs_fault s p of
      Some e \<Rightarrow> Inl (Other_io e)
    | None \<Rightarrow> (case fs_files s p of
        Some (_, content) \<Rightarrow> Inr content
      | None \<Rightarrow> if fs_dirs s p = None then Inl Not_found else Inl (Other_io ''is a directory'')))"

definition write_file :: "path \<Rightarrow> string \<Rightarrow> unit io" where
  "write_file p content = guarded p (\<lambda>s.
     if fs_dirs s p \<noteq> None then (Inl ''is a directory'', s)
     else (case path_parent p of
        Some q \<Rightarrow> if q \<noteq> [] \<and> fs_dirs s q = None then (Inl ''not found'', s)
          else (Inr (), s\<lparr>fs_files := (fs_files s)(p \<mapsto>
            (case fs_files s p of Some (m, _) \<Rightarrow> m | None \<Rightarrow> 438 AND NOT (fs_umask s), content))\<rparr>)
      | None \<Rightarrow> (Inl ''is a directory'', s)))"

definition remove_file :: "path \<Rightarrow> unit io" where
  "remove_file p = guarded p (\<lambda>s.
     if fs_files s p = None then (Inl ''not found'', s)
     else (Inr (), s\<lparr>fs_files := (fs_files s)(p := None)\<rparr>))"

section \<open>Private directories and files\<close>

text \<open>The three functions repair the mode the same way.\<close>

definition repair_mode :: "path \<Rightarrow> mode \<Rightarrow> unit io" where
  "repair_mode p wanted =
     bind_sm (mode_of p) (\<lambda>perms.
       if perms AND 511 \<noteq> wanted then set_mode p wanted else ret_sm ())"

definition ensure_private_dir :: "path \<Rightarrow> unit io" where
  "ensure_private_dir p = bind_sm (create_dir_all p) (\<lambda>_. repair_mode p 448)"

definition secure_private_file_if_exists :: "path \<Rightarrow> unit io" where
  "secure_private_file_if_exists p =
     bind_sm (gets_sm (\<lambda>s. path_exists s p)) (\<lambda>found.
       if \<not> found then ret_sm () else repair_mode p 384)"

definition secure_private_socket :: "path \<Rightarrow> unit io" where
  "secure_private_socket p = repair_mode p 448"

definition private_dir_list :: "runtime_paths \<Rightarrow> path list" where
  "private_dir_list P = [rp_config_dir P, rp_data_dir P, rp_runtime_dir P, rp_cache_dir P, rp_log_dir P,
     rp_model_cache_dir P]"

definition ensure_private_dirs :: "runtime_paths \<Rightarrow> unit io" where
  "ensure_private_dirs P = for_sm (private_dir_list P) ensure_private_dir"

section \<open>Names of joined paths\<close>

definition plain_name :: "string \<Rightarrow> bool" where
  "plain_name n \<longleftrightarrow> n \<noteq> [] \<and> CHR ''/'' \<notin> set n"

lemma plain_not_rooted: "plain_name n \<Longrightarrow> \<not> starts_with n ''/''"
  by (cases n) (auto simp: plain_name_def starts_with_def)

lemma file_name_after_slash: "plain_name n \<Longrightarrow> file_name (d @ CHR ''/'' # n) = n"
proof -
  assume "plain_name n"
  then have "\<And>c. c \<in> set (rev n) \<Longrightarrow> c \<noteq> CHR ''/''" by (auto simp: plain_name_def)
  then have "takeWhile (\<lambda>c. c \<noteq> CHR ''/'') (rev n @ CHR ''/'' # rev d) = rev n"
    by (subst takeWhile_append2) auto
  then show ?thesis by (simp add: file_name_def)
qed

lemma file_name_plain: "plain_name n \<Longrightarrow> file_name n = n"
proof -
  assume "plain_name n"
  then have "\<And>c. c \<in> set (rev n) \<Longrightarrow> c \<noteq> CHR ''/''" by (auto simp: plain_name_def)
  then have "takeWhile (\<lambda>c. c \<noteq> CHR ''/'') (rev n) = rev n" by (simp add: takeWhile_eq_all_conv)
  then show ?thesis by (metis file_name_def rev_rev_ident)
qed

lemma file_name_join [simp]:
  assumes "plain_name n"
  shows "file_name (path_join d n) = n"
proof (cases "d = []")
  case True
  then show ?thesis using assms by (simp add: path_join_def plain_not_rooted file_name_plain)
next
  case False
  then obtain e c where "d = e @ [c]" by (metis rev_exhaust)
  then show ?thesis
    using assms file_name_after_slash [of n e] file_name_after_slash [of n d]
    by (cases "c = CHR ''/''") (simp_all add: path_join_def plain_not_rooted)
qed

lemma path_join_last [simp]:
  assumes "plain_name n"
  shows "path_join d n \<noteq> []" "last (path_join d n) \<noteq> CHR ''/''"
proof -
  have "n \<noteq> []" "last n \<noteq> CHR ''/''" using assms last_in_set [of n] unfolding plain_name_def by metis+
  then show "path_join d n \<noteq> []" "last (path_join d n) \<noteq> CHR ''/''"
    by (auto simp: path_join_def plain_not_rooted [OF assms])
qed

lemma rstrip_slash_id: "last p \<noteq> CHR ''/'' \<Longrightarrow> rstrip_slash p = p"
  by (cases p rule: rev_cases) (simp_all add: rstrip_slash_def)

lemma path_parent_join:
  assumes "plain_name n" "d \<noteq> []" "last d \<noteq> CHR ''/''"
  shows "path_parent (path_join d n) = Some d"
proof -
  have j: "path_join d n = d @ CHR ''/'' # n" using assms by (simp add: path_join_def plain_not_rooted)
  have "dropWhile (\<lambda>c. c \<noteq> CHR ''/'') (rev n @ CHR ''/'' # rev d) = CHR ''/'' # rev d"
    using assms(1) by (subst dropWhile_append2) (auto simp: plain_name_def)
  then have "dir_part (path_join d n) = d @ ''/''" by (simp add: dir_part_def j)
  moreover have "rstrip_slash (d @ ''/'') = d" using assms(2,3) by (cases d rule: rev_cases) (simp_all add: rstrip_slash_def)
  ultimately show ?thesis
    using assms by (simp add: path_parent_def rstrip_slash_id Let_def)
qed

text \<open>The paths that hold durable state, the socket apart.\<close>

definition durable_paths :: "runtime_paths \<Rightarrow> path list" where
  "durable_paths P = [rp_config_path P, rp_pid_path P, rp_db_path P, rp_bridge_token_path P, rp_bridge_port_path P,
     rp_model_cache_dir P, rp_daemon_log_path P]"

lemma plain_names [simp]:
  "plain_name ''config.toml''" "plain_name ''cm.sock''" "plain_name ''cm-daemon.pid''" "plain_name ''data.db''"
  "plain_name ''bridge-token.json''" "plain_name ''bridge-port''" "plain_name ''models''" "plain_name ''daemon.log''"
  by (simp_all add: plain_name_def)

lemma for_instance_cases:
  assumes "for_instance V i = Some P"
  obtains bc bd br bca bl where "P = instance_paths V i (path_join bc i) (path_join bd i) (path_join br i)
     (path_join bca i) (path_join bl i)"
  using assms by (auto simp: for_instance_def split: option.splits)

lemma durable_path_instance:
  assumes "for_instance V i = Some P" "plain_name i" "p \<in> set (durable_paths P)"
  shows "\<exists>d \<in> set (private_dir_list P). path_parent p = Some d \<and> file_name d = i"
proof -
  obtain bc bd br bca bl where P: "P = instance_paths V i (path_join bc i) (path_join bd i) (path_join br i)
     (path_join bca i) (path_join bl i)" using for_instance_cases [OF assms(1)] by metis
  have "path_parent (path_join (path_join b i) n) = Some (path_join b i)" if "plain_name n" for b n
    using assms(2) that by (simp add: path_parent_join)
  then show ?thesis
    using assms(2,3) unfolding P durable_paths_def private_dir_list_def instance_paths_def by auto
qed

section \<open>What the repair achieves\<close>

text \<open>\<open>priv_step\<close>: a directory that is private stays private, and no file changes.\<close>

definition is_private_dir :: "fs \<Rightarrow> path \<Rightarrow> bool" where
  "is_private_dir s p \<longleftrightarrow> (case fs_dirs s p of Some m \<Rightarrow> m AND 511 = 448 | None \<Rightarrow> False)"

definition priv_step :: "fs \<Rightarrow> fs \<Rightarrow> bool" where
  "priv_step s s' \<longleftrightarrow> (\<forall>p. is_private_dir s p \<longrightarrow> is_private_dir s' p) \<and> fs_files s' = fs_files s"

interpretation priv: frame_rel priv_step
  by unfold_locales (auto simp: priv_step_def)

lemma create_dir_all_keeps: "keeps priv_step (create_dir_all p)"
  by (rule keepsI) (auto simp: create_dir_all_def guarded_def Let_def priv_step_def is_private_dir_def split: option.split)

lemma create_dir_all_dir:
  "create_dir_all p s = (Inr (), s') \<Longrightarrow> fs_dirs s' p \<noteq> None"
  by (auto simp: create_dir_all_def guarded_def Let_def split: option.splits if_splits)

lemma repair_mode_dir:
  assumes "fs_dirs s p \<noteq> None"
  shows "priv_step s (snd (repair_mode p 448 s))"
    and "fst (repair_mode p 448 s) = Inr () \<Longrightarrow> is_private_dir (snd (repair_mode p 448 s)) p"
  using assms
  by (auto simp: repair_mode_def bind_sm_def mode_of_def set_mode_def guarded_def ret_sm_def priv_step_def
      is_private_dir_def split: option.splits)

lemma ensure_private_dir_keeps: "keeps priv_step (ensure_private_dir p)"
proof (rule keepsI)
  fix s :: fs
  obtain r t where c: "create_dir_all p s = (r, t)" by fastforce
  then have "priv_step s t" by (rule keepsD [OF create_dir_all_keeps])
  moreover have "priv_step t (snd (repair_mode p 448 t))" if "r = Inr ()"
    using repair_mode_dir(1) create_dir_all_dir c that by blast
  ultimately show "priv_step s (snd (ensure_private_dir p s))"
    by (cases r) (auto simp: ensure_private_dir_def bind_sm_def c intro: priv.R_trans)
qed

lemma ensure_private_dir_private:
  assumes "ensure_private_dir p s = (Inr (), s')"
  shows "is_private_dir s' p"
proof -
  obtain t where "create_dir_all p s = (Inr (), t)" "repair_mode p 448 t = (Inr (), s')"
    using assms by (auto simp: ensure_private_dir_def bind_sm_def split: prod.splits sum.splits)
  then show ?thesis using repair_mode_dir(2) [of t p] create_dir_all_dir by fastforce
qed

lemma for_private_dirs:
  "for_sm ps ensure_private_dir s = (Inr (), s') \<Longrightarrow> p \<in> set ps \<Longrightarrow> is_private_dir s' p"
proof (induction ps arbitrary: s)
  case (Cons q ps)
  obtain t where t: "ensure_private_dir q s = (Inr (), t)" "for_sm ps ensure_private_dir t = (Inr (), s')"
    using Cons.prems(1) by (auto simp: bind_sm_def split: prod.splits sum.splits)
  have "priv_step t s'"
    using ensure_private_dir_keeps t(2) by (rule keepsD [OF priv.keeps_for])
  then show ?case
    using Cons t ensure_private_dir_private by (auto simp: priv_step_def)
qed simp

text \<open>C34: The instance is a data boundary. For two different instance names (non-empty, without a
  separator) under whatever environments, no durable path of one (configuration, PID file, database,
  bridge token and port, model cache, log) is one of the other; each lies directly in a directory
  named after its instance, and once the directories have been secured successfully that
  directory exists and only its owner can enter it, while no file was touched.\<close>

theorem instance_isolation:
  assumes "for_instance V i = Some P" "for_instance W j = Some Q"
    and "plain_name i" "plain_name j" "i \<noteq> j"
    and "ensure_private_dirs P s = (Inr (), s')"
  shows "set (durable_paths P) \<inter> set (durable_paths Q) = {}
    \<and> (\<forall>p \<in> set (durable_paths P). \<exists>d. path_parent p = Some d \<and> file_name d = i \<and> is_private_dir s' d)
    \<and> fs_files s' = fs_files s"
proof -
  have "file_name (the (path_parent p)) = i" if "p \<in> set (durable_paths P)" for p
    using durable_path_instance [OF assms(1,3) that] by auto
  moreover have "file_name (the (path_parent p)) = j" if "p \<in> set (durable_paths Q)" for p
    using durable_path_instance [OF assms(2,4) that] by auto
  ultimately have "set (durable_paths P) \<inter> set (durable_paths Q) = {}" using assms(5) by blast
  moreover have "is_private_dir s' d" if "d \<in> set (private_dir_list P)" for d
    using for_private_dirs [OF assms(6) [unfolded ensure_private_dirs_def] that] .
  moreover have "priv_step s s'"
    using ensure_private_dir_keeps assms(6) unfolding ensure_private_dirs_def
    by (rule keepsD [OF priv.keeps_for])
  ultimately show ?thesis
    using durable_path_instance [OF assms(1,3)] unfolding priv_step_def by metis
qed

text \<open>One base directory for everything, and directories that are open to all.\<close>

definition demo_os :: os_env where
  "demo_os = \<lparr>ev_vars = Map.empty, ev_debug = False, ev_config_dir = Some ''/b'', ev_data_dir = Some ''/b'',
     ev_data_local_dir = None, ev_runtime_dir = None, ev_cache_dir = Some ''/b'', ev_home_dir = None\<rparr>"

definition demo_fs :: fs where
  "demo_fs = \<lparr>fs_dirs = (\<lambda>_. Some 493), fs_files = Map.empty, fs_umask = 18, fs_fault = Map.empty\<rparr>"

lemma demo_paths:
  "for_instance demo_os i = Some (instance_paths demo_os i (path_join ''/b'' i) (path_join ''/b'' i) (path_join ''/b'' i)
     (path_join ''/b'' i) (path_join ''/b'' i))"
  by (simp add: for_instance_def demo_os_def base_config_def base_data_def base_runtime_def base_cache_def
      base_log_def or_else_def)

theorem instance_isolation_witness:
  "\<exists>P s'. for_instance demo_os ''x'' = Some P \<and> ensure_private_dirs P demo_fs = (Inr (), s')
     \<and> (\<exists>d. path_parent (rp_db_path P) = Some d \<and> is_private_dir s' d)"
proof -
  let ?P = "instance_paths demo_os ''x'' (path_join ''/b'' ''x'') (path_join ''/b'' ''x'') (path_join ''/b'' ''x'')
     (path_join ''/b'' ''x'') (path_join ''/b'' ''x'')"
  let ?r = "ensure_private_dirs ?P demo_fs"
  have "private_dir_list ?P = [''/b/x'', ''/b/x'', ''/b/x'', ''/b/x'', ''/b/x'', ''/b/x/models'']"
    by (simp add: instance_paths_def private_dir_list_def path_join_def starts_with_def)
  then have "fst ?r = Inr ()"
    by (simp add: ensure_private_dirs_def ensure_private_dir_def demo_fs_def create_dir_all_def guarded_def
        repair_mode_def mode_of_def set_mode_def bind_sm_def ret_sm_def Let_def)
  then have run: "?r = (Inr (), snd ?r)" by (metis prod.collapse)
  have pl: "plain_name ''x''" "plain_name ''y''" by (simp_all add: plain_name_def)
  have "rp_db_path ?P \<in> set (durable_paths ?P)" by (simp add: durable_paths_def)
  moreover have "''x'' \<noteq> ''y''" by simp
  ultimately have "\<exists>d. path_parent (rp_db_path ?P) = Some d \<and> is_private_dir (snd ?r) d"
    using instance_isolation [OF demo_paths demo_paths [of "''y''"] pl _ run] by blast
  with run demo_paths [of "''x''"] show ?thesis by (intro exI [of _ ?P] exI [of _ "snd ?r"] conjI)
qed

end
