(* ===== verification/Hash_Maps.thy ===== *)
theory Hash_Maps
  imports CM_Prelude
begin

text \<open>
  \<open>std::collections::HashMap\<close> as the code uses it: \<open>get\<close>, \<open>insert\<close> (which replaces) and
  iteration. A map is the list of its entries, one per key; the order of iteration is not specified,
  so a loop over a map takes the iteration as a parameter. The locale \<open>keyed_store\<close> is the interface
  the in-memory caches and token maps rely on.
\<close>

type_synonym ('k, 'v) hash_map = "('k \<times> 'v) list"

definition hm_get :: "('k, 'v) hash_map \<Rightarrow> 'k \<Rightarrow> 'v option" where
  "hm_get m k = map_of m k"

definition hm_insert :: "'k \<Rightarrow> 'v \<Rightarrow> ('k, 'v) hash_map \<Rightarrow> ('k, 'v) hash_map" where
  "hm_insert k v m = (k, v) # filter (\<lambda>e. fst e \<noteq> k) m"

text \<open>An iteration yields the entries in some order.\<close>

definition iterates :: "(('k, 'v) hash_map \<Rightarrow> ('k \<times> 'v) list) \<Rightarrow> bool" where
  "iterates it \<longleftrightarrow> (\<forall>m. mset (it m) = mset m)"

definition hm_wf :: "('k, 'v) hash_map \<Rightarrow> bool" where
  "hm_wf m \<longleftrightarrow> distinct (map fst m)"

lemma hm_get_insert: "hm_get (hm_insert k v m) k' = (if k' = k then Some v else hm_get m k')"
  by (induction m) (auto simp: hm_get_def hm_insert_def)

lemma hm_wf_insert: "hm_wf m \<Longrightarrow> hm_wf (hm_insert k v m)"
  by (auto simp: hm_wf_def hm_insert_def distinct_map_filter)

text \<open>A linear search by key over any iteration is the lookup.\<close>

lemma find_key_iterated:
  assumes "iterates it" "hm_wf m"
  shows "find (\<lambda>e. fst e = k) (it m) = map_option (\<lambda>v. (k, v)) (hm_get m k)"
proof -
  have set: "set (it m) = set m" using assms(1) unfolding iterates_def by (metis set_mset_mset)
  show ?thesis
  proof (cases "hm_get m k")
    case None
    then have "k \<notin> fst ` set (it m)" by (simp add: hm_get_def map_of_eq_None_iff set)
    then show ?thesis using None by (auto simp: find_None_iff image_iff)
  next
    case (Some v)
    then have v: "(k, v) \<in> set (it m)" by (simp add: hm_get_def map_of_SomeD set)
    then obtain e where e: "find (\<lambda>e. fst e = k) (it m) = Some e"
      by (cases "find (\<lambda>e. fst e = k) (it m)") (auto simp: find_None_iff)
    then have "e \<in> set m" "fst e = k" by (auto simp: find_Some_iff set [symmetric])
    moreover have "(k, v) \<in> set m" using v set by simp
    ultimately have "e = (k, v)" using assms(2) unfolding hm_wf_def distinct_map inj_on_def by (metis fst_conv)
    then show ?thesis using e Some by simp
  qed
qed

section \<open>The interface\<close>

locale keyed_store =
  fixes look :: "'s \<Rightarrow> 'k \<Rightarrow> 'v option"
    and put :: "'k \<Rightarrow> 'v \<Rightarrow> 's \<Rightarrow> 's"
  assumes look_put: "look (put k v s) k' = (if k' = k then Some v else look s k')"
begin

lemma look_put_same: "look (put k v s) k = Some v"
  by (simp add: look_put)

lemma look_put_other: "k' \<noteq> k \<Longrightarrow> look (put k v s) k' = look s k'"
  by (simp add: look_put)

text \<open>After any series of insertions a key has its last value.\<close>

lemma look_puts: "look (fold (\<lambda>(k, v). put k v) kvs s) k = (case map_of (rev kvs) k of Some v \<Rightarrow> Some v | None \<Rightarrow> look s k)"
  by (induction kvs arbitrary: s) (auto simp: look_put map_add_def split: option.split)

end

interpretation hm: keyed_store hm_get hm_insert
  by unfold_locales (rule hm_get_insert)

end
