(* ===== verification/Llm.thy ===== *)
theory Llm
  imports Hash_Maps App_State
begin

text \<open>
  The llm crate (\<open>crates/llm\<close>): the provider trait with its default \<open>complete\<close>, the extraction cache,
  the OpenAI and Anthropic providers, the scripted fake, and the token bucket. Parameters: SHA-256,
  the HTTP client and serde's parsing of the two response formats and of the extraction payload. The
  llama.cpp provider is not modelled beyond its constant answers: it is calls to that library.
  The bucket computes with real numbers; its clock is a parameter.
\<close>

section \<open>The trait\<close>

datatype llm_error =
    Llm_provider string
  | RateLimited nat
  | MissingApiKey string

fun llm_error_text :: "llm_error \<Rightarrow> string" where
  "llm_error_text (Llm_provider m) = ''provider: '' @ m"
| "llm_error_text (RateLimited n) = ''rate-limited: try again in '' @ radix_str 10 n @ ''s''"
| "llm_error_text (MissingApiKey p) = ''missing api key for provider '' @ p"

record turn =
  tn_role :: string
  tn_content :: string

record extraction_request =
  xr_transcript :: "turn list"
  xr_api_key_override :: "string option"

record extracted_memory =
  xm_content :: string
  xm_category :: string
  xm_memory_type :: string

record llm_provider =
  lp_name :: string
  lp_model :: string
  lp_extract :: "extraction_request \<Rightarrow> llm_error + extracted_memory list"
  lp_complete :: "string \<Rightarrow> nat \<Rightarrow> llm_error + string"

text \<open>The default method of the trait.\<close>

definition default_complete :: "string \<Rightarrow> nat \<Rightarrow> llm_error + string" where
  "default_complete prompt max_tokens = Inl (Llm_provider ''complete() not implemented for this provider'')"

text \<open>What the daemon sees of a provider: \<open>complete\<close> with the error as its text.\<close>

definition llm_view :: "llm_provider \<Rightarrow> string \<Rightarrow> nat \<Rightarrow> string + string" where
  "llm_view P prompt n = map_sum llm_error_text id (lp_complete P prompt n)"

section \<open>The extraction cache\<close>

text \<open>The text whose hash is the key.\<close>

definition extraction_key_text :: "string \<Rightarrow> string \<Rightarrow> turn list \<Rightarrow> string" where
  "extraction_key_text provider model transcript =
     provider @ [CHR 0x00] @ model @ [CHR 0x00]
     @ concat (map (\<lambda>t. tn_role t @ [CHR 0x01] @ tn_content t @ [CHR 0x02]) transcript)"

definition extraction_cache_key :: "(string \<Rightarrow> byte list) \<Rightarrow> string \<Rightarrow> string \<Rightarrow> turn list \<Rightarrow> byte list" where
  "extraction_cache_key sha256 provider model transcript = sha256 (extraction_key_text provider model transcript)"

type_synonym extraction_cache = "(byte list, extracted_memory list) hash_map"

text \<open>\<open>CachedExtractor::extract\<close>: the state is the cache; errors are not cached. The second component
  of the result says whether the provider was called.\<close>

definition cached_extract ::
  "(string \<Rightarrow> byte list) \<Rightarrow> llm_provider \<Rightarrow> extraction_request \<Rightarrow>
   (extraction_cache, llm_error, extracted_memory list \<times> bool) sm" where
  "cached_extract sha256 P req =
     (let key = extraction_cache_key sha256 (lp_name P) (lp_model P) (xr_transcript req) in
      bind_sm (gets_sm (\<lambda>cache. hm_get cache key)) (\<lambda>hit.
        case hit of
          Some cached \<Rightarrow> ret_sm (cached, False)
        | None \<Rightarrow> bind_sm (lift_sm (lp_extract P req)) (\<lambda>result.
            bind_sm (modify_sm (hm_insert key result)) (\<lambda>_. ret_sm (result, True)))))"

section \<open>Hosted providers\<close>

text \<open>The HTTP client and serde: a request yields a transport error, or a status code with the display
  text of the status and the body; \<open>chat\<close> and \<open>messages\<close> parse the two response formats to the texts
  of their choices or blocks, \<open>memories\<close> the extraction payload.\<close>

record http_client =
  hc_post :: "string \<Rightarrow> (string \<times> string) list \<Rightarrow> json \<Rightarrow> string + nat \<times> string \<times> string"
  hc_chat :: "string \<Rightarrow> string + string list"
  hc_messages :: "string \<Rightarrow> string + string list"
  hc_memories :: "string \<Rightarrow> string + extracted_memory list"

definition transcript_text :: "turn list \<Rightarrow> string" where
  "transcript_text transcript = join_str [CHR 0x0A] (map (\<lambda>t. tn_role t @ '': '' @ tn_content t) transcript)"

definition quoted :: "string \<Rightarrow> string" where
  "quoted s = [CHR 0x22] @ s @ [CHR 0x22]"

text \<open>The prompts; the dash in the first is beyond the model's characters and written as a hyphen.\<close>

definition OPENAI_SYSTEM_PROMPT :: string where
  "OPENAI_SYSTEM_PROMPT =
     ''You extract durable memories from conversations. ''
     @ ''Given the transcript that follows, output a single JSON object with key '' @ quoted ''memories''
     @ '' whose value is an array of objects, each with keys '' @ quoted ''content''
     @ '' (string, the memory in third-person paraphrase), '' @ quoted ''category''
     @ '' (one of: episodic, semantic, procedural, core), and '' @ quoted ''memory_type''
     @ '' (one of: fact, preference, plan, transient_state, other). ''
     @ ''Return ONLY the JSON object - no prose, no markdown.''"

definition ANTHROPIC_SYSTEM_PROMPT :: string where
  "ANTHROPIC_SYSTEM_PROMPT =
     ''You extract durable memories from conversations. ''
     @ ''Given the transcript that follows, output a single JSON object with key '' @ quoted ''memories''
     @ '' whose value is an array of objects, each with keys '' @ quoted ''content''
     @ '' (string), '' @ quoted ''category''
     @ '' (one of: episodic, semantic, procedural, core), and '' @ quoted ''memory_type''
     @ '' (one of: fact, preference, plan, transient_state, other). ''
     @ ''Return ONLY the JSON object, no prose, no markdown fences.''"

definition chat_message :: "string \<Rightarrow> string \<Rightarrow> json" where
  "chat_message role content = JObj [(''role'', JStr role), (''content'', JStr content)]"

definition build_messages :: "turn list \<Rightarrow> json" where
  "build_messages transcript = JArr [chat_message ''system'' OPENAI_SYSTEM_PROMPT,
     chat_message ''user'' (transcript_text transcript)]"

definition openai_body :: "string \<Rightarrow> turn list \<Rightarrow> json" where
  "openai_body model transcript = JObj [(''model'', JStr model), (''messages'', build_messages transcript),
     (''response_format'', JObj [(''type'', JStr ''json_object'')]), (''temperature'', JInt 0)]"

definition anthropic_body :: "string \<Rightarrow> turn list \<Rightarrow> json" where
  "anthropic_body model transcript = JObj [(''model'', JStr model), (''max_tokens'', JInt 1024),
     (''system'', JStr ANTHROPIC_SYSTEM_PROMPT),
     (''messages'', JArr [chat_message ''user'' (transcript_text transcript)])]"

definition parse_memories :: "http_client \<Rightarrow> string \<Rightarrow> string \<Rightarrow> llm_error + extracted_memory list" where
  "parse_memories H stripped raw =
     map_sum (\<lambda>e. Llm_provider (''parse extraction JSON: '' @ e @ ''; raw='' @ raw)) id (hc_memories H stripped)"

definition openai_payload :: "http_client \<Rightarrow> string \<Rightarrow> llm_error + extracted_memory list" where
  "openai_payload H content = parse_memories H (trim_str content) content"

text \<open>\<open>trim_end_matches\<close> of a pattern: every copy at the end goes.\<close>

function trim_end_matches :: "string \<Rightarrow> string \<Rightarrow> string" where
  "trim_end_matches p s =
     (if p \<noteq> [] \<and> length p \<le> length s \<and> drop (length s - length p) s = p
      then trim_end_matches p (take (length s - length p) s) else s)"
  by pat_completeness auto
termination
  by (relation "measure (\<lambda>(p, s). length s)") (auto, metis diff_less le_zero_eq length_0_conv neq0_conv)

declare trim_end_matches.simps [simp del]

definition fence :: string where
  "fence = replicate 3 (CHR 0x60)"

definition strip_fences :: "string \<Rightarrow> string" where
  "strip_fences content =
     (let trimmed = trim_str content in
      case strip_prefix (fence @ ''json'') trimmed of
        Some s \<Rightarrow> trim_str (trim_end_matches fence s)
      | None \<Rightarrow> (case strip_prefix fence trimmed of
          Some s \<Rightarrow> trim_str (trim_end_matches fence s)
        | None \<Rightarrow> trimmed))"

definition anthropic_payload :: "http_client \<Rightarrow> string \<Rightarrow> llm_error + extracted_memory list" where
  "anthropic_payload H content = parse_memories H (strip_fences content) content"

definition api_key_for :: "string \<Rightarrow> extraction_request \<Rightarrow> string" where
  "api_key_for configured req = (case xr_api_key_override req of Some k \<Rightarrow> k | None \<Rightarrow> configured)"

definition openai_extract ::
  "http_client \<Rightarrow> string \<Rightarrow> string \<Rightarrow> string \<Rightarrow> extraction_request \<Rightarrow> llm_error + extracted_memory list" where
  "openai_extract H api_key model base_url req =
     (let key = api_key_for api_key req in
      if key = [] then Inl (MissingApiKey ''openai'')
      else case hc_post H (base_url @ ''/chat/completions'') [(''authorization'', ''Bearer '' @ key)]
                  (openai_body model (xr_transcript req)) of
        Inl e \<Rightarrow> Inl (Llm_provider (''openai request: '' @ e))
      | Inr (status, shown, body) \<Rightarrow>
          if status = 429 then Inl (RateLimited 60)
          else if \<not> (200 \<le> status \<and> status < 300) then Inl (Llm_provider (''openai '' @ shown @ '': '' @ body))
          else (case hc_chat H body of
              Inl e \<Rightarrow> Inl (Llm_provider (''openai parse: '' @ e))
            | Inr [] \<Rightarrow> Inl (Llm_provider ''openai returned no choices'')
            | Inr (content # _) \<Rightarrow> openai_payload H content))"

definition anthropic_extract ::
  "http_client \<Rightarrow> string \<Rightarrow> string \<Rightarrow> string \<Rightarrow> extraction_request \<Rightarrow> llm_error + extracted_memory list" where
  "anthropic_extract H api_key model base_url req =
     (let key = api_key_for api_key req in
      if key = [] then Inl (MissingApiKey ''anthropic'')
      else case hc_post H (base_url @ ''/messages'') [(''x-api-key'', key), (''anthropic-version'', ''2023-06-01'')]
                  (anthropic_body model (xr_transcript req)) of
        Inl e \<Rightarrow> Inl (Llm_provider (''anthropic request: '' @ e))
      | Inr (status, shown, body) \<Rightarrow>
          if status = 429 then Inl (RateLimited 60)
          else if \<not> (200 \<le> status \<and> status < 300) then Inl (Llm_provider (''anthropic '' @ shown @ '': '' @ body))
          else (case hc_messages H body of
              Inl e \<Rightarrow> Inl (Llm_provider (''anthropic parse: '' @ e))
            | Inr [] \<Rightarrow> Inl (Llm_provider ''anthropic returned no text block'')
            | Inr (content # _) \<Rightarrow> anthropic_payload H content))"

text \<open>The providers; neither overrides \<open>complete\<close>.\<close>

definition openai_provider :: "http_client \<Rightarrow> string \<Rightarrow> string \<Rightarrow> llm_provider" where
  "openai_provider H api_key model = \<lparr>lp_name = ''openai'', lp_model = model,
     lp_extract = openai_extract H api_key model ''https://api.openai.com/v1'', lp_complete = default_complete\<rparr>"

definition anthropic_provider :: "http_client \<Rightarrow> string \<Rightarrow> string \<Rightarrow> llm_provider" where
  "anthropic_provider H api_key model = \<lparr>lp_name = ''anthropic'', lp_model = model,
     lp_extract = anthropic_extract H api_key model ''https://api.anthropic.com/v1'', lp_complete = default_complete\<rparr>"

text \<open>The local provider: its name, the model name from the file stem, \<open>extract\<close> refused, and decoding by
  llama.cpp as the parameter \<open>decode\<close>.\<close>

definition local_provider :: "string option \<Rightarrow> (string \<Rightarrow> nat \<Rightarrow> llm_error + string) \<Rightarrow> llm_provider" where
  "local_provider file_stem decode = \<lparr>lp_name = ''local'',
     lp_model = (case file_stem of Some s \<Rightarrow> s | None \<Rightarrow> ''local-gguf''),
     lp_extract = (\<lambda>_. Inl (Llm_provider
       ''extract() not implemented for LocalLlmProvider; use a hosted provider for extraction'')),
     lp_complete = decode\<rparr>"

section \<open>The fake\<close>

record fake_llm =
  fl_calls :: nat
  fl_completions :: "string list"

definition turn_to_extracted :: "turn \<Rightarrow> extracted_memory" where
  "turn_to_extracted t = \<lparr>xm_content = ''FAKE-EXTRACT['' @ tn_role t @ '']: '' @ tn_content t,
     xm_category = ''semantic'', xm_memory_type = ''fact''\<rparr>"

definition fake_extract :: "extraction_request \<Rightarrow> fake_llm \<Rightarrow> (llm_error + extracted_memory list) \<times> fake_llm" where
  "fake_extract req f =
     (Inr (map turn_to_extracted (filter (\<lambda>t. tn_role t = ''user'') (xr_transcript req))),
      f\<lparr>fl_calls := fl_calls f + 1\<rparr>)"

definition fake_complete :: "string \<Rightarrow> nat \<Rightarrow> fake_llm \<Rightarrow> (llm_error + string) \<times> fake_llm" where
  "fake_complete prompt max_tokens f =
     (Inr (case fl_completions f of [] \<Rightarrow> [] | c # _ \<Rightarrow> c),
      f\<lparr>fl_calls := fl_calls f + 1, fl_completions := drop 1 (fl_completions f)\<rparr>)"

definition with_responses :: "string list \<Rightarrow> fake_llm \<Rightarrow> fake_llm" where
  "with_responses rs f = f\<lparr>fl_completions := fl_completions f @ rs\<rparr>"

section \<open>The token bucket\<close>

record token_bucket =
  tb_tokens :: real
  tb_last_refill :: real

definition new_bucket :: "real \<Rightarrow> real \<Rightarrow> token_bucket" where
  "new_bucket capacity now = \<lparr>tb_tokens = capacity, tb_last_refill = now\<rparr>"

text \<open>\<open>None\<close>: a token was taken; \<open>Some wait\<close>: how long to sleep. A refill rate of zero makes the wait
  infinite, which \<open>Duration::from_secs_f64\<close> panics on; the theorems assume a positive rate.\<close>

definition try_consume_one :: "real \<Rightarrow> real \<Rightarrow> real \<Rightarrow> token_bucket \<Rightarrow> real option \<times> token_bucket" where
  "try_consume_one capacity refill now b =
     (let elapsed = max 0 (now - tb_last_refill b);
          tokens = min (tb_tokens b + elapsed * refill) capacity;
          b' = \<lparr>tb_tokens = tokens, tb_last_refill = now\<rparr>
      in if 1 \<le> tokens then (None, b'\<lparr>tb_tokens := tokens - 1\<rparr>)
         else (Some ((1 - tokens) / refill), b'))"

text \<open>\<open>acquire\<close>, as one caller sees it: \<open>late k\<close> is how much the \<open>k\<close>-th sleep overruns. The fuel bounds the
  rounds; \<open>None\<close> is fuel that ran out.\<close>

fun acquire :: "nat \<Rightarrow> real \<Rightarrow> real \<Rightarrow> (nat \<Rightarrow> real) \<Rightarrow> real \<Rightarrow> token_bucket \<Rightarrow> (real \<times> token_bucket) option" where
  "acquire 0 capacity refill late now b = None"
| "acquire (Suc k) capacity refill late now b =
     (case try_consume_one capacity refill now b of
        (None, b') \<Rightarrow> Some (now, b')
      | (Some wait, b') \<Rightarrow> acquire k capacity refill late (now + wait + late k) b')"


section \<open>What the cache promises\<close>

lemma cached_extract_hit:
  "hm_get cache (extraction_cache_key sha256 (lp_name P) (lp_model P) (xr_transcript req)) = Some r \<Longrightarrow>
   cached_extract sha256 P req cache = (Inr (r, False), cache)"
  by (simp add: cached_extract_def Let_def ret_sm_def)

lemma cached_extract_miss:
  "hm_get cache (extraction_cache_key sha256 (lp_name P) (lp_model P) (xr_transcript req)) = None \<Longrightarrow>
   cached_extract sha256 P req cache = (case lp_extract P req of
     Inl e \<Rightarrow> (Inl e, cache)
   | Inr r \<Rightarrow> (Inr (r, True),
       hm_insert (extraction_cache_key sha256 (lp_name P) (lp_model P) (xr_transcript req)) r cache))"
  by (simp add: cached_extract_def Let_def bind_sm_def lift_sm_def gets_sm_def modify_sm_def ret_sm_def split: sum.split)

definition cache_step :: "extraction_cache \<Rightarrow> extraction_cache \<Rightarrow> bool" where
  "cache_step c c' \<longleftrightarrow> (\<forall>k r. hm_get c k = Some r \<longrightarrow> hm_get c' k = Some r)"

interpretation xcache: frame_rel cache_step
  by unfold_locales (auto simp: cache_step_def)

lemma cached_extract_keeps: "keeps cache_step (cached_extract sha256 P req)"
proof (rule keepsI)
  fix c :: extraction_cache
  let ?k = "extraction_cache_key sha256 (lp_name P) (lp_model P) (xr_transcript req)"
  show "cache_step c (snd (cached_extract sha256 P req c))"
    by (cases "hm_get c ?k"; cases "lp_extract P req")
      (auto simp: cached_extract_hit cached_extract_miss cache_step_def hm.look_put)
qed

text \<open>Once an extraction has succeeded, every later one of the same transcript, after any extractions in
  between, returns the same memories without calling the provider.\<close>

lemma cached_extract_once:
  assumes "cached_extract sha256 P req c = (Inr (r, called), c')"
    and "for_sm reqs (\<lambda>q. bind_sm (cached_extract sha256 P q) (\<lambda>_. ret_sm ())) c' = (out, c'')"
    and "xr_transcript req' = xr_transcript req"
  shows "cached_extract sha256 P req' c'' = (Inr (r, False), c'')"
proof -
  let ?k = "extraction_cache_key sha256 (lp_name P) (lp_model P) (xr_transcript req)"
  have "hm_get c' ?k = Some r"
    using assms(1) by (cases "hm_get c ?k"; cases "lp_extract P req")
      (auto simp: cached_extract_hit cached_extract_miss hm.look_put)
  moreover have "keeps cache_step (for_sm reqs (\<lambda>q. bind_sm (cached_extract sha256 P q) (\<lambda>_. ret_sm ())))"
    by (intro xcache.keeps_for xcache.keeps_bind cached_extract_keeps xcache.keeps_ret)
  then have "cache_step c' c''" using assms(2) by (rule keepsD)
  ultimately show ?thesis using assms(3) by (simp add: cached_extract_hit cache_step_def)
qed

text \<open>The separators are not escaped: a turn whose content carries them has the key of two turns.\<close>

lemma extraction_key_collision:
  "extraction_cache_key sha256 provider model
     [\<lparr>tn_role = r, tn_content = c @ [CHR 0x02] @ r' @ [CHR 0x01] @ c'\<rparr>]
   = extraction_cache_key sha256 provider model
     [\<lparr>tn_role = r, tn_content = c\<rparr>, \<lparr>tn_role = r', tn_content = c'\<rparr>]"
  by (simp add: extraction_cache_key_def extraction_key_text_def)

section \<open>Rate limits\<close>

text \<open>The contract of a rate limiter with a level of credit: a step at a later time grants at most what
  the level and the time since the last step pay for. Then any series of steps grants no more than
  the level at its start and the time it spans pay for.\<close>

locale credit_limiter =
  fixes step :: "real \<Rightarrow> 's \<Rightarrow> bool \<times> 's" and level :: "'s \<Rightarrow> real" and clock :: "'s \<Rightarrow> real"
    and rate :: real and ok :: "'s \<Rightarrow> bool"
  assumes step_ok: "ok s \<Longrightarrow> clock s \<le> t \<Longrightarrow> ok (snd (step t s))"
    and step_clock: "clock (snd (step t s)) = t"
    and level_nonneg: "ok s \<Longrightarrow> 0 \<le> level s"
    and step_pays: "ok s \<Longrightarrow> clock s \<le> t \<Longrightarrow>
      level (snd (step t s)) + (if fst (step t s) then 1 else 0) \<le> level s + rate * (t - clock s)"
begin

fun granted :: "real list \<Rightarrow> 's \<Rightarrow> nat \<times> 's" where
  "granted [] s = (0, s)"
| "granted (t # ts) s = (case step t s of (g, s') \<Rightarrow> case granted ts s' of (n, s'') \<Rightarrow> (if g then Suc n else n, s''))"

lemma granted_bound:
  "ok s \<Longrightarrow> sorted (clock s # ts) \<Longrightarrow>
   real (fst (granted ts s)) \<le> level s + rate * (last (clock s # ts) - clock s)"
proof (induction ts arbitrary: s)
  case Nil
  then show ?case by (simp add: level_nonneg)
next
  case (Cons t ts)
  obtain g s' where st: "step t s = (g, s')" by fastforce
  obtain n s'' where gr: "granted ts s' = (n, s'')" by fastforce
  have t: "clock s \<le> t" "clock s' = t" "ok s'"
    using Cons.prems step_clock [of t s] step_ok [of s t] st by auto
  have "real n \<le> level s' + rate * (last (t # ts) - t)"
    using Cons.IH [OF t(3)] Cons.prems(2) t(2) gr by simp
  moreover have "level s' + (if g then 1 else 0) \<le> level s + rate * (t - clock s)"
    using step_pays [OF Cons.prems(1) t(1)] st by simp
  ultimately have "real n + (if g then 1 else 0) \<le> level s + rate * (t - clock s) + rate * (last (t # ts) - t)"
    by linarith
  then show ?case by (auto simp: st gr algebra_simps)
qed

end

text \<open>The bucket as such a limiter: its tokens are the credit.\<close>

definition bucket_step :: "real \<Rightarrow> real \<Rightarrow> real \<Rightarrow> token_bucket \<Rightarrow> bool \<times> token_bucket" where
  "bucket_step capacity refill t b = (case try_consume_one capacity refill t b of (wait, b') \<Rightarrow> (wait = None, b'))"

definition bucket_ok :: "real \<Rightarrow> real \<Rightarrow> token_bucket \<Rightarrow> bool" where
  "bucket_ok capacity refill b \<longleftrightarrow> 0 \<le> refill \<and> 0 \<le> tb_tokens b \<and> tb_tokens b \<le> capacity"

text \<open>The calls of any number of callers, in the order they get the lock.\<close>

fun bucket_grants :: "real \<Rightarrow> real \<Rightarrow> real list \<Rightarrow> token_bucket \<Rightarrow> nat" where
  "bucket_grants capacity refill [] b = 0"
| "bucket_grants capacity refill (t # ts) b =
     (case bucket_step capacity refill t b of (g, b') \<Rightarrow>
        if g then Suc (bucket_grants capacity refill ts b') else bucket_grants capacity refill ts b')"

interpretation bucket: credit_limiter "bucket_step capacity refill" tb_tokens tb_last_refill refill "bucket_ok capacity refill"
  for capacity refill
proof
  fix b :: token_bucket and t :: real
  have pos: "0 \<le> (t - tb_last_refill b) * refill" if "bucket_ok capacity refill b" "tb_last_refill b \<le> t"
    using that by (simp add: bucket_ok_def)
  show "bucket_ok capacity refill b \<Longrightarrow> tb_last_refill b \<le> t \<Longrightarrow> bucket_ok capacity refill (snd (bucket_step capacity refill t b))"
    using pos by (auto simp: bucket_ok_def bucket_step_def try_consume_one_def Let_def)
  show "tb_last_refill (snd (bucket_step capacity refill t b)) = t"
    by (simp add: bucket_step_def try_consume_one_def Let_def)
  show "bucket_ok capacity refill b \<Longrightarrow> 0 \<le> tb_tokens b" by (simp add: bucket_ok_def)
  show "bucket_ok capacity refill b \<Longrightarrow> tb_last_refill b \<le> t \<Longrightarrow>
      tb_tokens (snd (bucket_step capacity refill t b)) + (if fst (bucket_step capacity refill t b) then 1 else 0)
      \<le> tb_tokens b + refill * (t - tb_last_refill b)"
    using pos by (auto simp: bucket_step_def try_consume_one_def Let_def mult.commute)
qed

lemma bucket_grants_eq: "bucket_grants capacity refill ts b = fst (bucket.granted capacity refill ts b)"
  by (induction ts arbitrary: b) (auto split: prod.split)



text \<open>\<open>acquire\<close> ends: with room for a whole token and a positive refill rate a caller on its own gets
  its token in at most two rounds, however much the sleep overruns, and no later than the time it
  takes to refill the missing part plus that overrun.\<close>

theorem acquire_terminates:
  assumes "1 \<le> capacity" "0 < refill" "\<And>k. 0 \<le> late k" "0 \<le> tb_tokens b" "tb_last_refill b \<le> now"
  shows "\<exists>t b'. acquire (Suc (Suc n)) capacity refill late now b = Some (t, b') \<and> now \<le> t
    \<and> t \<le> now + 1 / refill + late (Suc n) \<and> tb_last_refill b' = t"
proof -
  let ?tokens = "min (tb_tokens b + (now - tb_last_refill b) * refill) capacity"
  have tok: "0 \<le> ?tokens" using assms by simp
  show ?thesis
  proof (cases "1 \<le> ?tokens")
    case True
    then show ?thesis using assms by (auto simp: try_consume_one_def Let_def max_def)
  next
    case False
    let ?wait = "(1 - ?tokens) / refill" and ?l = "late (Suc n)"
    have w: "0 < ?wait" "?wait \<le> 1 / refill" using False tok assms(2) by (auto simp: divide_right_mono)
    have "1 \<le> ?tokens + (?wait + ?l) * refill"
      using assms(2,3) by (simp add: distrib_right)
    then have "fst (try_consume_one capacity refill (now + ?wait + ?l) \<lparr>tb_tokens = ?tokens, tb_last_refill = now\<rparr>) = None"
      using w(1) assms(1) assms(3) [of "Suc n"] by (simp add: try_consume_one_def Let_def max_def)
    then obtain b' where b': "try_consume_one capacity refill (now + ?wait + ?l) \<lparr>tb_tokens = ?tokens, tb_last_refill = now\<rparr> = (None, b')"
      by (metis prod.collapse)
    then have "tb_last_refill b' = now + ?wait + ?l"
      by (auto simp: try_consume_one_def Let_def split: if_splits)
    moreover have "try_consume_one capacity refill now b = (Some ?wait, \<lparr>tb_tokens = ?tokens, tb_last_refill = now\<rparr>)"
      using False assms(5) by (simp add: try_consume_one_def Let_def max_def)
    ultimately show ?thesis using b' w assms(3) [of "Suc n"] by simp
  qed
qed

theorem acquire_terminates_witness:
  "\<exists>t b'. acquire 2 1 10 (\<lambda>_. 0) 5 \<lparr>tb_tokens = 0, tb_last_refill = 5\<rparr> = Some (t, b') \<and> t \<le> 5 + 1 / 10"
  using acquire_terminates [of 1 10 "\<lambda>_. 0" "\<lparr>tb_tokens = 0, tb_last_refill = 5\<rparr>" 5 0]
  by (auto simp: numeral_2_eq_2)

text \<open>With a capacity below one token no call ever gets through, and \<open>acquire\<close> never returns.\<close>

lemma acquire_small_capacity: "capacity < 1 \<Longrightarrow> acquire k capacity refill late now b = None"
  by (induction k arbitrary: now b) (auto simp: try_consume_one_def Let_def)

section \<open>Payloads\<close>

lemma trim_end_matches_fence:
  assumes "last s \<noteq> CHR 0x60" "s \<noteq> []"
  shows "trim_end_matches fence (s @ fence) = s"
proof -
  have "drop (length s - 3) s \<noteq> fence"
    using assms by (metis append_take_drop_id fence_def last_appendR last_replicate replicate_empty zero_neq_numeral)
  then have "trim_end_matches fence s = s"
    by (subst trim_end_matches.simps) (simp add: fence_def)
  then show ?thesis by (subst trim_end_matches.simps) (simp add: fence_def)
qed

lemma trim_str_newlines:
  assumes "trim_str p = p"
  shows "trim_str (CHR 0x0A # p @ [CHR 0x0A]) = p"
proof -
  have nl: "is_whitespace (CHR 0x0A)" by (simp add: is_whitespace_def)
  have ends: "p = [] \<or> \<not> is_whitespace (hd p) \<and> \<not> is_whitespace (last p)"
    using trim_str_ends [of p] assms by simp
  then have "dropWhile is_whitespace (p @ [CHR 0x0A]) = (if p = [] then [] else p @ [CHR 0x0A])"
    using nl by (cases p) auto
  moreover have "dropWhile is_whitespace (rev p) = rev p"
    using ends by (intro dropWhile_id) (auto simp: hd_rev)
  ultimately show ?thesis using nl by (simp add: trim_str_def trim_start_def trim_end_def)
qed

text \<open>A payload in a Markdown fence is read like the bare payload.\<close>

lemma strip_fences_fenced:
  assumes "trim_str p = p"
  shows "strip_fences (fence @ ''json'' @ [CHR 0x0A] @ p @ [CHR 0x0A] @ fence) = p"
proof -
  let ?body = "CHR 0x0A # p @ [CHR 0x0A]"
  have "trim_str (fence @ ''json'' @ ?body @ fence) = fence @ ''json'' @ ?body @ fence"
    by (rule trim_str_id) (simp add: fence_def numeral_3_eq_3 is_whitespace_def)
  moreover have "strip_prefix (fence @ ''json'') (fence @ ''json'' @ ?body @ fence) = Some (?body @ fence)"
    by (simp add: strip_prefix_def starts_with_def)
  moreover have "trim_end_matches fence (?body @ fence) = ?body" by (rule trim_end_matches_fence) simp_all
  ultimately show ?thesis using trim_str_newlines [OF assms] by (simp add: strip_fences_def)
qed

end
