(* ===== verification/Core_Config.thy ===== *)
theory Core_Config
  imports Core_Paths Hash_Maps Rust_Float
begin

text \<open>
  The daemon's configuration file (\<open>crates/core/src/config.rs\<close>). The TOML library is a parameter:
  how it parses a text to a configuration and how it prints one.
\<close>

datatype llm_config =
    Llm_none
  | Llm_local path
  | Llm_openai string string
  | Llm_anthropic string string

definition default_openai_model :: string where
  "default_openai_model = ''gpt-4o-mini''"

definition default_anthropic_model :: string where
  "default_anthropic_model = ''claude-haiku-4-5-20251001''"

record lifecycle_overrides =
  lo_base_decay_rates :: "(string, fl) hash_map option"

record daemon_config =
  cf_llm :: "llm_config option"
  cf_lifecycle :: "lifecycle_overrides option"

definition default_daemon_config :: daemon_config where
  "default_daemon_config = \<lparr>cf_llm = None, cf_lifecycle = None\<rparr>"

datatype config_error =
    Config_io string
  | Config_parse string
  | Config_serialize string

record toml =
  tm_from_str :: "string \<Rightarrow> string + daemon_config"
  tm_to_string :: "daemon_config \<Rightarrow> string + string"

definition load_from :: "toml \<Rightarrow> path \<Rightarrow> (fs, config_error, daemon_config) sm" where
  "load_from T p s = (case read_to_string p s of
      Inr content \<Rightarrow> map_sum Config_parse id (tm_from_str T content)
    | Inl Not_found \<Rightarrow> Inr default_daemon_config
    | Inl (Other_io e) \<Rightarrow> Inl (Config_io e), s)"

definition save_to :: "toml \<Rightarrow> path \<Rightarrow> daemon_config \<Rightarrow> (fs, config_error, unit) sm" where
  "save_to T p cfg =
     bind_sm (case path_parent p of
         Some parent \<Rightarrow> map_err Config_io (ensure_private_dir parent) | None \<Rightarrow> ret_sm ()) (\<lambda>_.
     bind_sm (lift_sm (map_sum Config_serialize id (tm_to_string T cfg))) (\<lambda>content.
     bind_sm (map_err Config_io (write_file p content)) (\<lambda>_.
     bind_sm (map_err Config_io (secure_private_file_if_exists p)) (\<lambda>_. ret_sm ()))))"

text \<open>At the canonical path; \<open>None\<close> is the panic of unresolvable directories.\<close>

definition config_path :: "os_env \<Rightarrow> path option" where
  "config_path V = map_option rp_config_path (resolve_paths V)"

definition load_config :: "toml \<Rightarrow> os_env \<Rightarrow> (fs, config_error, daemon_config) sm option" where
  "load_config T V = map_option (load_from T) (config_path V)"

definition save_config :: "toml \<Rightarrow> os_env \<Rightarrow> daemon_config \<Rightarrow> (fs, config_error, unit) sm option" where
  "save_config T V cfg = map_option (\<lambda>p. save_to T p cfg) (config_path V)"

section \<open>Round trip\<close>

lemma write_file_reads:
  "write_file p content s = (Inr (), s') \<Longrightarrow> read_to_string p s' = Inr content \<and> fs_dirs s' = fs_dirs s
     \<and> fs_fault s' = fs_fault s \<and> fs_dirs s p = None \<and> (\<exists>m. fs_files s' p = Some (m, content))"
  by (auto simp: write_file_def guarded_def read_to_string_def Let_def split: option.splits if_splits)

definition is_private_file :: "fs \<Rightarrow> path \<Rightarrow> bool" where
  "is_private_file s p \<longleftrightarrow> (case fs_files s p of Some (m, _) \<Rightarrow> m AND 511 = 384 | None \<Rightarrow> False)"

lemma secure_file_reads:
  assumes "secure_private_file_if_exists p s = (Inr (), s')" "fs_files s p = Some (m, content)" "fs_dirs s p = None"
  shows "read_to_string p s' = read_to_string p s \<and> is_private_file s' p"
  using assms
  by (auto simp: secure_private_file_if_exists_def path_exists_def repair_mode_def mode_of_def set_mode_def
      guarded_def read_to_string_def is_private_file_def bind_sm_def gets_sm_def ret_sm_def
      split: option.splits if_splits)

lemma save_to_loads:
  assumes "save_to T p cfg s = (Inr (), s')"
    and "\<And>content. tm_to_string T cfg = Inr content \<Longrightarrow> tm_from_str T content = Inr cfg"
  shows "load_from T p s' = (Inr cfg, s') \<and> is_private_file s' p"
proof -
  obtain content s1 s2 where "tm_to_string T cfg = Inr content" "write_file p content s1 = (Inr (), s2)"
    "secure_private_file_if_exists p s2 = (Inr (), s')"
    using assms(1) unfolding save_to_def bind_sm_Inr_iff lift_map_sum_Inr map_err_Inr by (auto simp: ret_sm_def)
  then show ?thesis
    using write_file_reads [of p content s1 s2] secure_file_reads [of p s2 s'] assms(2)
    by (auto simp: load_from_def)
qed

end
