(* ===== verification/Daemon_Main.thy ===== *)
theory Daemon_Main
  imports Core_Config Llm Conflict_Laws Server
begin

text \<open>
  Starting and stopping the daemon: the binary (\<open>crates/daemon/src/main.rs\<close>) with its paths, log file,
  providers and lifecycle configuration, and \<open>Daemon::serve\<close> around the accept loop
  (\<open>crates/daemon/src/server.rs\<close>). Parameters: the features of the build, the executable's metadata,
  and whether a process is listening on a socket path.
\<close>

section \<open>Arguments and paths\<close>

record daemon_args =
  da_instance :: "string option"
  da_socket :: "path option"
  da_db :: "path option"
  da_pid :: "path option"
  da_log :: "path option"
  da_json_logs :: bool

definition main_env :: "daemon_args \<Rightarrow> os_env \<Rightarrow> os_env" where
  "main_env args V = (case da_instance args of
      Some i \<Rightarrow> V\<lparr>ev_vars := (ev_vars V)(''COGNITIVE_MEMORY_INSTANCE'' \<mapsto> i)\<rparr> | None \<Rightarrow> V)"

definition override :: "'a option \<Rightarrow> ('a \<Rightarrow> 's \<Rightarrow> 's) \<Rightarrow> 's \<Rightarrow> 's" where
  "override given f s = (case given of Some x \<Rightarrow> f x s | None \<Rightarrow> s)"

definition main_paths :: "daemon_args \<Rightarrow> os_env \<Rightarrow> runtime_paths option" where
  "main_paths args V = map_option (\<lambda>P.
       override (da_log args) (\<lambda>p P. P\<lparr>rp_daemon_log_path := p\<rparr>)
         (override (da_pid args) (\<lambda>p P. P\<lparr>rp_pid_path := p\<rparr>)
           (override (da_db args) (\<lambda>p P. P\<lparr>rp_db_path := p\<rparr>)
             (override (da_socket args) (\<lambda>p P. P\<lparr>rp_socket_path := p\<rparr>) P))))
     (resolve_paths (main_env args V))"

definition ensure_parent :: "path \<Rightarrow> unit io" where
  "ensure_parent p = (case path_parent p of Some d \<Rightarrow> ensure_private_dir d | None \<Rightarrow> ret_sm ())"

text \<open>Opening the log file for appending creates it; what the appender then writes goes to
  \<open>log_target\<close>.\<close>

definition touch_file :: "path \<Rightarrow> unit io" where
  "touch_file p = bind_sm (gets_sm (\<lambda>s. fs_files s p)) (\<lambda>f.
     case f of Some (_, content) \<Rightarrow> write_file p content | None \<Rightarrow> write_file p [])"

definition init_logging :: "runtime_paths \<Rightarrow> unit io" where
  "init_logging P = bind_sm (touch_file (rp_daemon_log_path P)) (\<lambda>_.
     secure_private_file_if_exists (rp_daemon_log_path P))"

definition log_target :: "runtime_paths \<Rightarrow> path" where
  "log_target P = path_join (rp_log_dir P) ''daemon.log''"

definition main_prepare :: "runtime_paths \<Rightarrow> unit io" where
  "main_prepare P =
     bind_sm set_private_umask (\<lambda>_.
     bind_sm (ensure_private_dirs P) (\<lambda>_.
     bind_sm (ensure_parent (rp_socket_path P)) (\<lambda>_.
     bind_sm (ensure_parent (rp_db_path P)) (\<lambda>_.
     bind_sm (ensure_parent (rp_daemon_log_path P)) (\<lambda>_.
       init_logging P)))))"

section \<open>Providers and lifecycle\<close>

definition build_embeddings :: "bool \<Rightarrow> os_env \<Rightarrow> embedder \<Rightarrow> (string + embedder) \<Rightarrow> string + embedder" where
  "build_embeddings local_model V fake bge =
     (if \<not> local_model \<or> ev_vars V ''COGNITIVE_MEMORY_EMBEDDINGS'' = Some ''fake'' then Inr fake else bge)"

text \<open>The overrides are merged entry by entry, in whatever order the map yields them.\<close>

definition build_lifecycle_config ::
  "((string, fl) hash_map \<Rightarrow> (string \<times> fl) list) \<Rightarrow> config_error + daemon_config \<Rightarrow> lifecycle_config" where
  "build_lifecycle_config it loaded =
     (let cfg = paper_faithful_lifecycle_config in
      case loaded of
        Inl _ \<Rightarrow> cfg
      | Inr daemon_cfg \<Rightarrow> (case cf_lifecycle daemon_cfg of
          None \<Rightarrow> cfg
        | Some overrides \<Rightarrow> (case lo_base_decay_rates overrides of
            None \<Rightarrow> cfg
          | Some rates \<Rightarrow> fold (\<lambda>(k, v) c. c\<lparr>base_decay_rates := (base_decay_rates c)(k \<mapsto> v)\<rparr>) (it rates) cfg)))"

text \<open>The check behind the log line.\<close>

definition is_paper_default :: "lifecycle_config \<Rightarrow> bool" where
  "is_paper_default cfg \<longleftrightarrow> base_decay_rates cfg = base_decay_rates paper_faithful_lifecycle_config"

record build_ctx =
  bc_local_llm :: bool
  bc_exists :: "path \<Rightarrow> bool"
  bc_http :: http_client
  bc_decode :: "path \<Rightarrow> string \<Rightarrow> nat \<Rightarrow> llm_error + string"

text \<open>\<open>Path::file_stem\<close>.\<close>

definition file_stem :: "path \<Rightarrow> string option" where
  "file_stem p =
     (let n = file_name (rstrip_slash p);
          ext = takeWhile (\<lambda>c. c \<noteq> CHR ''.'') (rev n);
          stem = take (length n - length ext - 1) n
      in if n = [] \<or> n = ''..'' then None
         else if CHR ''.'' \<notin> set n \<or> stem = [] then Some n
         else Some stem)"

definition instantiate_local_llm :: "build_ctx \<Rightarrow> path \<Rightarrow> string + llm_provider option" where
  "instantiate_local_llm B model_path =
     (if \<not> bc_local_llm B
      then Inl (''this daemon was built without the `local-llm` cargo feature; either rebuild with --features local-llm, ''
        @ ''or switch the config to provider = '' @ quoted ''openai'' @ '' / '' @ quoted ''anthropic'' @ '' / '' @ quoted ''none'')
      else if \<not> bc_exists B model_path
      then Inl (''local model file not found at '' @ model_path @ ''; run `cm download-model` first'')
      else Inr (Some (local_provider (file_stem model_path) (bc_decode B model_path))))"

definition build_llm :: "build_ctx \<Rightarrow> os_env \<Rightarrow> config_error + daemon_config \<Rightarrow> string + llm_provider option" where
  "build_llm B V loaded = (case loaded of
      Inl _ \<Rightarrow> Inr None
    | Inr config \<Rightarrow> (case cf_llm config of
        None \<Rightarrow> Inr None
      | Some Llm_none \<Rightarrow> Inr None
      | Some (Llm_local model_path) \<Rightarrow> instantiate_local_llm B model_path
      | Some (Llm_openai api_key_env model) \<Rightarrow> (case ev_vars V api_key_env of
          None \<Rightarrow> Inl (''env var '' @ api_key_env @ '' not set for OpenAI provider'')
        | Some key \<Rightarrow> Inr (Some (openai_provider (bc_http B) key model)))
      | Some (Llm_anthropic api_key_env model) \<Rightarrow> (case ev_vars V api_key_env of
          None \<Rightarrow> Inl (''env var '' @ api_key_env @ '' not set for Anthropic provider'')
        | Some key \<Rightarrow> Inr (Some (anthropic_provider (bc_http B) key model)))))"

section \<open>Runtime\<close>

text \<open>The metadata of the executable: its path, length and modification time, where they can be read.\<close>

definition build_id :: "string \<Rightarrow> path option \<Rightarrow> nat option \<Rightarrow> nat option \<Rightarrow> string" where
  "build_id version exe len modified =
     version @ '':'' @ (case exe of Some p \<Rightarrow> p | None \<Rightarrow> ''<unknown>'') @ '':''
     @ radix_str 10 (case len of Some n \<Rightarrow> n | None \<Rightarrow> 0) @ '':''
     @ radix_str 10 (case modified of Some n \<Rightarrow> n | None \<Rightarrow> 0)"

definition runtime_from_paths :: "string \<Rightarrow> runtime_paths \<Rightarrow> daemon_runtime" where
  "runtime_from_paths bid P = \<lparr>rt_instance = rp_instance P, rt_socket_path = rp_socket_path P,
     rt_pid_path = rp_pid_path P, rt_db_path = rp_db_path P, rt_log_path = rp_daemon_log_path P, rt_build_id = bid\<rparr>"

definition runtime_from_socket :: "string \<Rightarrow> os_env \<Rightarrow> path \<Rightarrow> daemon_runtime option" where
  "runtime_from_socket bid V socket = map_option (\<lambda>P.
     let parent = (case path_parent socket of Some d \<Rightarrow> d | None \<Rightarrow> rp_runtime_dir P)
     in \<lparr>rt_instance = rp_instance P, rt_socket_path = socket, rt_pid_path = path_join parent ''cm-daemon.pid'',
         rt_db_path = path_join parent ''data.db'', rt_log_path = rp_daemon_log_path P, rt_build_id = bid\<rparr>)
     (resolve_paths V)"

section \<open>Serving\<close>

datatype daemon_error =
    AlreadyRunning path
  | Bind string
  | Daemon_io string

type_synonym 'a startup = "(fs, daemon_error, 'a) sm"

text \<open>\<open>UnixListener::bind\<close> creates the socket file under the umask.\<close>

definition bind_socket :: "path \<Rightarrow> unit io" where
  "bind_socket p = guarded p (\<lambda>s.
     if path_exists s p then (Inl ''address in use'', s)
     else (Inr (), s\<lparr>fs_files := (fs_files s)(p \<mapsto> (511 AND NOT (fs_umask s), []))\<rparr>))"

definition write_pid_file :: "nat \<Rightarrow> path \<Rightarrow> unit io" where
  "write_pid_file pid p =
     bind_sm (ensure_parent p) (\<lambda>_.
     bind_sm (write_file p (radix_str 10 pid @ [CHR 0x0A])) (\<lambda>_.
       secure_private_file_if_exists p))"

definition clear_stale_socket :: "(path \<Rightarrow> bool) \<Rightarrow> path \<Rightarrow> unit startup" where
  "clear_stale_socket live p =
     bind_sm (gets_sm (\<lambda>s. path_exists s p)) (\<lambda>found.
       if found
       then if live p then throw_sm (AlreadyRunning p) else map_err Daemon_io (remove_file p)
       else ret_sm ())"

text \<open>\<open>serve\<close> up to the accept loop, and after it.\<close>

definition serve_start :: "nat \<Rightarrow> (path \<Rightarrow> bool) \<Rightarrow> daemon_runtime \<Rightarrow> unit startup" where
  "serve_start pid live R =
     bind_sm (map_err Daemon_io (ensure_parent (rt_socket_path R))) (\<lambda>_.
     bind_sm (map_err Daemon_io (ensure_parent (rt_pid_path R))) (\<lambda>_.
     bind_sm (map_err Daemon_io (secure_private_file_if_exists (rt_db_path R))) (\<lambda>_.
     bind_sm (clear_stale_socket live (rt_socket_path R)) (\<lambda>_.
     bind_sm (map_err Bind (bind_socket (rt_socket_path R))) (\<lambda>_.
     bind_sm (map_err Daemon_io (secure_private_socket (rt_socket_path R))) (\<lambda>_.
       map_err Daemon_io (write_pid_file pid (rt_pid_path R))))))))"

definition ignore_error :: "unit io \<Rightarrow> unit io" where
  "ignore_error m s = (Inr (), snd (m s))"

definition serve_stop :: "daemon_runtime \<Rightarrow> unit io" where
  "serve_stop R = bind_sm (ignore_error (remove_file (rt_socket_path R))) (\<lambda>_.
     ignore_error (remove_file (rt_pid_path R)))"

text \<open>\<open>drain_connection_tasks\<close>, on the connections in the order in which they end, each with the time of
  its end: those that end by the deadline are joined, at the deadline the rest are aborted.\<close>

fun drain_connection_tasks :: "real \<Rightarrow> real \<Rightarrow> (conn \<times> real) list \<Rightarrow> conn list \<times> conn list" where
  "drain_connection_tasks deadline now [] = ([], [])"
| "drain_connection_tasks deadline now ((c, ends) # tasks) =
     (if deadline < now \<or> deadline < ends then ([], map (\<lambda>(c, _). break_loop c) ((c, ends) # tasks))
      else case drain_connection_tasks deadline (max now ends) tasks of
        (joined, aborted) \<Rightarrow> (c # joined, aborted))"

section \<open>Starting\<close>

lemma ensure_parent_keeps: "keeps priv_step (ensure_parent p)"
  by (simp add: ensure_parent_def ensure_private_dir_keeps priv.keeps_ret split: option.split)

lemma ensure_parent_files: "ensure_parent p s = (r, s') \<Longrightarrow> fs_files s' = fs_files s"
  using keepsD [OF ensure_parent_keeps] by (auto simp: priv_step_def)

lemma repair_mode_file:
  assumes "repair_mode p w s = (r, s')"
  shows "q \<noteq> p \<Longrightarrow> fs_files s' q = fs_files s q"
    and "r = Inr () \<Longrightarrow> fs_dirs s p = None \<Longrightarrow> w AND 511 = w \<Longrightarrow>
      \<exists>m content. fs_files s' p = Some (m, content) \<and> m AND 511 = w \<and> map_option snd (fs_files s p) = Some content"
  using assms
  by (auto simp: repair_mode_def bind_sm_def mode_of_def set_mode_def guarded_def ret_sm_def
      split: option.splits if_splits)

lemma secure_file_other:
  "secure_private_file_if_exists p s = (r, s') \<Longrightarrow> q \<noteq> p \<Longrightarrow> fs_files s' q = fs_files s q"
  by (auto simp: secure_private_file_if_exists_def ret_sm_def dest: repair_mode_file(1) split: if_splits)

lemma map_err_run: "map_err f m s = (r, t) \<Longrightarrow> \<exists>r'. m s = (r', t) \<and> (r = Inr x \<longrightarrow> r' = Inr x)"
  by (auto simp: map_err_def split: prod.splits sum.splits)

text \<open>The first three statements leave the files at other paths alone.\<close>

definition serve_prepare :: "daemon_runtime \<Rightarrow> unit startup" where
  "serve_prepare R =
     bind_sm (map_err Daemon_io (ensure_parent (rt_socket_path R))) (\<lambda>_.
     bind_sm (map_err Daemon_io (ensure_parent (rt_pid_path R))) (\<lambda>_.
       map_err Daemon_io (secure_private_file_if_exists (rt_db_path R))))"

definition files_step :: "path \<Rightarrow> fs \<Rightarrow> fs \<Rightarrow> bool" where
  "files_step p s s' \<longleftrightarrow> (\<forall>q. q \<noteq> p \<longrightarrow> fs_files s' q = fs_files s q)"

interpretation files: frame_rel "files_step p" for p
  by unfold_locales (auto simp: files_step_def)

lemma serve_prepare_keeps: "keeps (files_step (rt_db_path R)) (serve_prepare R)"
proof -
  have "keeps (files_step (rt_db_path R)) (ensure_parent p)" for p
    using ensure_parent_keeps [of p] by (auto simp: keeps_def priv_step_def files_step_def)
  moreover have "keeps (files_step p) (secure_private_file_if_exists p)" for p
    by (rule keepsI) (metis files_step_def prod.collapse secure_file_other)
  ultimately show ?thesis
    unfolding serve_prepare_def by (intro files.keeps_bind files.keeps_map_err)
qed

lemma serve_start_eq:
  "serve_start pid live R = bind_sm (serve_prepare R) (\<lambda>_.
     bind_sm (clear_stale_socket live (rt_socket_path R)) (\<lambda>_.
     bind_sm (map_err Bind (bind_socket (rt_socket_path R))) (\<lambda>_.
     bind_sm (map_err Daemon_io (secure_private_socket (rt_socket_path R))) (\<lambda>_.
       map_err Daemon_io (write_pid_file pid (rt_pid_path R))))))"
  by (simp add: serve_start_def serve_prepare_def bind_sm_assoc)

text \<open>What holds when a daemon has started.\<close>

definition daemon_up :: "nat \<Rightarrow> daemon_runtime \<Rightarrow> fs \<Rightarrow> bool" where
  "daemon_up pid R s \<longleftrightarrow>
     (\<exists>m c. fs_files s (rt_socket_path R) = Some (m, c) \<and> m AND 511 = 448)
     \<and> (\<exists>m. fs_files s (rt_pid_path R) = Some (m, radix_str 10 pid @ [CHR 0x0A]) \<and> m AND 511 = 384)"

lemma bound_socket:
  assumes "bind_socket p s = (Inr (), t)" "secure_private_socket p t = (Inr (), u)"
  shows "\<exists>m c. fs_files u p = Some (m, c) \<and> m AND 511 = 448"
proof -
  have "fs_dirs t p = None"
    using assms(1) by (auto simp: bind_socket_def guarded_def path_exists_def split: option.splits if_splits)
  then show ?thesis using repair_mode_file(2) [OF assms(2) [unfolded secure_private_socket_def]] by auto
qed

lemma written_pid:
  assumes "write_pid_file pid p s = (Inr (), u)"
  shows "\<exists>m. fs_files u p = Some (m, radix_str 10 pid @ [CHR 0x0A]) \<and> m AND 511 = 384"
    and "q \<noteq> p \<Longrightarrow> fs_files u q = fs_files s q"
proof -
  obtain t1 t2 where t: "ensure_parent p s = (Inr (), t1)"
    "write_file p (radix_str 10 pid @ [CHR 0x0A]) t1 = (Inr (), t2)" "secure_private_file_if_exists p t2 = (Inr (), u)"
    using assms unfolding write_pid_file_def bind_sm_Inr_iff by auto
  have w: "fs_dirs t1 p = None" "fs_dirs t2 = fs_dirs t1" "\<exists>m. fs_files t2 p = Some (m, radix_str 10 pid @ [CHR 0x0A])"
    using write_file_reads [OF t(2)] by auto
  then have "repair_mode p 384 t2 = (Inr (), u)"
    using t(3) by (auto simp: secure_private_file_if_exists_def path_exists_def)
  then show "\<exists>m. fs_files u p = Some (m, radix_str 10 pid @ [CHR 0x0A]) \<and> m AND 511 = 384"
    using repair_mode_file(2) [of p 384 t2 "Inr ()" u] w by fastforce
  show "q \<noteq> p \<Longrightarrow> fs_files u q = fs_files s q"
    using secure_file_other [OF t(3)] ensure_parent_files [OF t(1)] t(2)
    by (auto simp: write_file_def guarded_def split: option.splits if_splits)
qed

lemma serve_start_up:
  assumes "serve_start pid live R s = (Inr (), s')" "rt_socket_path R \<noteq> rt_pid_path R"
  shows "daemon_up pid R s'"
proof -
  let ?k = "rt_socket_path R" and ?p = "rt_pid_path R"
  obtain s2 s3 s4 where t: "bind_socket ?k s2 = (Inr (), s3)" "secure_private_socket ?k s3 = (Inr (), s4)"
    "write_pid_file pid ?p s4 = (Inr (), s')"
    using assms(1) unfolding serve_start_eq bind_sm_Inr_iff map_err_Inr by auto
  then show ?thesis
    using bound_socket [OF t(1,2)] written_pid(1) [OF t(3)] written_pid(2) [OF t(3) assms(2)]
    by (simp add: daemon_up_def)
qed

lemma serve_stop_removes:
  assumes "fs_fault s = Map.empty" "rt_socket_path R \<noteq> rt_pid_path R"
  shows "fs_files (snd (serve_stop R s)) (rt_socket_path R) = None"
    "fs_files (snd (serve_stop R s)) (rt_pid_path R) = None"
  using assms by (auto simp: serve_stop_def ignore_error_def remove_file_def guarded_def bind_sm_def)

text \<open>When another process is listening on the socket the daemon does not start, and neither the socket nor
  the PID file of that process is touched.\<close>

lemma serve_start_running:
  assumes "serve_start pid live R s = (res, s')" "rt_db_path R \<noteq> rt_socket_path R" "rt_db_path R \<noteq> rt_pid_path R"
    and "fs_files s (rt_socket_path R) \<noteq> None" "live (rt_socket_path R)"
  shows "(\<exists>e. res = Inl e) \<and> fs_files s' (rt_socket_path R) = fs_files s (rt_socket_path R)
    \<and> fs_files s' (rt_pid_path R) = fs_files s (rt_pid_path R)"
proof -
  let ?k = "rt_socket_path R"
  obtain r1 s1 where pre: "serve_prepare R s = (r1, s1)" by fastforce
  have same: "fs_files s1 q = fs_files s q" if "q \<noteq> rt_db_path R" for q
    using keepsD [OF serve_prepare_keeps pre] that by (simp add: files_step_def)
  have "(\<exists>e. res = Inl e) \<and> s' = s1"
  proof (cases r1)
    case (Inl e)
    then show ?thesis using assms(1) pre by (auto simp: serve_start_eq bind_sm_def)
  next
    case (Inr x)
    have "path_exists s1 ?k" using assms(2,4) same by (simp add: path_exists_def)
    then have "clear_stale_socket live ?k s1 = (Inl (AlreadyRunning ?k), s1)"
      using assms(5) by (simp add: clear_stale_socket_def throw_sm_def)
    then show ?thesis using assms(1) pre Inr by (auto simp: serve_start_eq bind_sm_def)
  qed
  then show ?thesis using same assms(2,3) by auto
qed

definition demo_rt :: daemon_runtime where
  "demo_rt = \<lparr>rt_instance = ''i'', rt_socket_path = ''/r/s'', rt_pid_path = ''/r/p'', rt_db_path = ''/r/d'',
     rt_log_path = ''/r/l'', rt_build_id = []\<rparr>"

definition demo_run_fs :: fs where
  "demo_run_fs = \<lparr>fs_dirs = [''/r'' \<mapsto> 493], fs_files = Map.empty, fs_umask = 63, fs_fault = Map.empty\<rparr>"

lemma demo_starts:
  "\<exists>t. serve_start 7 (\<lambda>_. False) demo_rt demo_run_fs = (Inr (), t) \<and> fs_fault t = Map.empty"
proof -
  have parent: "path_parent ''/r/s'' = Some ''/r''" "path_parent ''/r/p'' = Some ''/r''"
    by (simp_all add: path_parent_def rstrip_slash_def dir_part_def Let_def)
  show ?thesis
    by (simp add: serve_start_def demo_rt_def demo_run_fs_def ensure_parent_def parent ensure_private_dir_def
        create_dir_all_def repair_mode_def mode_of_def set_mode_def guarded_def path_exists_def
        secure_private_file_if_exists_def clear_stale_socket_def bind_socket_def secure_private_socket_def
        write_pid_file_def write_file_def bind_sm_def map_err_def gets_sm_def ret_sm_def Let_def)
qed

section \<open>Configuration at work\<close>

text \<open>An override of the log path moves the file that is created and reported, not the file that the
  appender writes to.\<close>

lemma log_override_not_written:
  assumes "main_paths args V = Some P" "da_log args = Some p"
  obtains P' where "main_paths (args\<lparr>da_log := None\<rparr>) V = Some P'" "log_target P = log_target P'"
    "rp_daemon_log_path P = p" "P = P'\<lparr>rp_daemon_log_path := p\<rparr>"
proof -
  obtain Q where Q: "resolve_paths (main_env args V) = Some Q"
    using assms(1) by (auto simp: main_paths_def)
  have "main_env (args\<lparr>da_log := None\<rparr>) V = main_env args V" by (simp add: main_env_def)
  then show thesis
    using assms Q that by (auto simp: main_paths_def override_def log_target_def split: option.splits)
qed

lemma fold_rates:
  "fold (\<lambda>(k, v) c. c\<lparr>base_decay_rates := (base_decay_rates c)(k \<mapsto> v)\<rparr>) kvs cfg =
     cfg\<lparr>base_decay_rates := base_decay_rates cfg ++ map_of (rev kvs)\<rparr>"
  by (induction kvs arbitrary: cfg) auto

lemma map_of_iterated:
  assumes "iterates it" "hm_wf m"
  shows "map_of (rev (it m)) = map_of m"
proof -
  have "mset (map fst (it m)) = mset (map fst m)" using assms(1) by (simp add: iterates_def)
  then have "distinct (map fst (it m))" using assms(2) unfolding hm_wf_def by (metis mset_eq_imp_distinct_iff)
  moreover have "set (it m) = set m" using assms(1) unfolding iterates_def by (metis set_mset_mset)
  ultimately show ?thesis
    using assms(2) by (subst map_of_inject_set) (simp_all add: hm_wf_def rev_map [symmetric])
qed

text \<open>The lifecycle overrides of the configuration file: in whatever order the map of overrides is
  iterated, the decay rate of a category is the override when the file has one and the default of
  the paper otherwise, and no other parameter changes; a file that does not load means defaults.\<close>

theorem lifecycle_overrides_spec:
  assumes "iterates it"
    and "loaded = Inr \<lparr>cf_llm = llm, cf_lifecycle = Some \<lparr>lo_base_decay_rates = Some rates\<rparr>\<rparr>" "hm_wf rates"
  shows "beta_for (build_lifecycle_config it loaded) category =
      (case hm_get rates category of Some b \<Rightarrow> b | None \<Rightarrow> beta_for paper_faithful_lifecycle_config category)
    \<and> (build_lifecycle_config it loaded)\<lparr>base_decay_rates := default_base_decay_rates\<rparr> = paper_faithful_lifecycle_config
    \<and> build_lifecycle_config it (Inl e) = paper_faithful_lifecycle_config"
proof -
  have "build_lifecycle_config it loaded = paper_faithful_lifecycle_config\<lparr>base_decay_rates :=
      base_decay_rates paper_faithful_lifecycle_config ++ map_of rates\<rparr>"
    by (simp add: build_lifecycle_config_def assms(2) fold_rates map_of_iterated [OF assms(1,3)])
  moreover have "base_decay_rates paper_faithful_lifecycle_config = default_base_decay_rates"
    by (simp add: paper_faithful_lifecycle_config_def default_lifecycle_config_def)
  ultimately show ?thesis
    by (auto simp: beta_for_def hm_get_def map_add_def build_lifecycle_config_def split: option.split)
qed

theorem lifecycle_overrides_spec_witness:
  "beta_for (build_lifecycle_config id (Inr \<lparr>cf_llm = None, cf_lifecycle =
     Some \<lparr>lo_base_decay_rates = Some [(''semantic'', Fin 60)]\<rparr>\<rparr>)) ''semantic'' = Fin 60"
  using lifecycle_overrides_spec [of id _ None "[(''semantic'', Fin 60)]" "''semantic''"]
  by (simp add: iterates_def hm_wf_def hm_get_def)

section \<open>Hosted providers and the tick\<close>

lemma hosted_complete:
  assumes "build_llm B V (Inr config) = Inr (Some P)"
    and "cf_llm config = Some (Llm_openai key_env model) \<or> cf_llm config = Some (Llm_anthropic key_env model)"
  shows "lp_complete P = default_complete"
  using assms by (auto simp: build_llm_def openai_provider_def anthropic_provider_def split: option.splits)

lemma judge_unimplemented:
  "e_llm E = Some (llm_view P) \<Longrightarrow> lp_complete P = default_complete \<Longrightarrow> judge E n e = None_label"
  by (simp add: judge_def llm_view_def default_complete_def)

lemma resolve_pair_unimplemented:
  assumes "\<And>n e. judge E n e = None_label"
  shows "resolve_pair E q k d = (Inr k, d\<lparr>conflict_queue := filter (\<lambda>r. q_id r \<noteq> q_id q) (conflict_queue d)\<rparr>)"
proof -
  have "pair_body E k a b = ret_sm k" for a b
    using assms by (simp add: pair_body_def split: option.split)
  then show ?thesis
    by (simp add: resolve_pair_eq get_for_user_def delete_conflicts_def tbl_delete_def bind_sm_def ret_sm_def gets_sm_def)
qed

lemma resolve_all_unimplemented:
  assumes "\<And>n e. judge E n e = None_label"
  shows "fold_sm qs (resolve_pair E) k d =
    (Inr k, d\<lparr>conflict_queue := filter (\<lambda>r. q_id r \<notin> q_id ` set qs) (conflict_queue d)\<rparr>)"
proof (induction qs arbitrary: d)
  case (Cons q qs)
  have "bind_sm (resolve_pair E q k) (\<lambda>b. fold_sm qs (resolve_pair E) b) d = fold_sm qs (resolve_pair E) k
      (d\<lparr>conflict_queue := filter (\<lambda>r. q_id r \<noteq> q_id q) (conflict_queue d)\<rparr>)"
    by (simp add: bind_sm_Inr [OF resolve_pair_unimplemented [OF assms]])
  moreover have "filter (\<lambda>r. q_id r \<notin> q_id ` set qs) (filter (\<lambda>r. q_id r \<noteq> q_id q) xs)
      = filter (\<lambda>r. q_id r \<notin> q_id ` set (q # qs)) xs" for xs :: "conflict_row list"
    by (auto intro: filter_cong)
  ultimately show ?case using Cons by simp
qed (simp add: ret_sm_def)

text \<open>With a hosted provider configured (OpenAI or Anthropic) the conflict pass of the tick settles
  nothing: neither provider implements the completion the judge asks for, the failure counts as no
  conflict, and so every queued pair is taken off the queue with both of its memories unchanged.
  Without any provider the same pairs would have been settled.\<close>

theorem hosted_llm_settles_nothing:
  assumes "build_llm B V (Inr config) = Inr (Some P)"
    and "cf_llm config = Some (Llm_openai key_env model) \<or> cf_llm config = Some (Llm_anthropic key_env model)"
    and "e_llm E = Some (llm_view P)" "wf_db (app_store s)"
  shows "\<exists>s'. resolve_conflicts E s = (Inr 0, s') \<and> memories (app_store s') = memories (app_store s)
    \<and> conflict_queue (app_store s') =
        filter (\<lambda>q. q \<notin> set (next_conflicts (app_store s))) (conflict_queue (app_store s))
    \<and> (\<forall>q \<in> set (conflict_queue (app_store s)). (\<exists>n \<in> set (memories (app_store s)). own (q_user_id q) (q_new q) n)
         \<and> (\<exists>e \<in> set (memories (app_store s)). own (q_user_id q) (q_existing q) e)
         \<longrightarrow> contested (E\<lparr>e_llm := None\<rparr>) (app_store s) q)"
proof -
  let ?d = "app_store s" and ?qs = "next_conflicts (app_store s)"
  have judge: "judge E n e = None_label" for n e
    using judge_unimplemented [OF assms(3)] hosted_complete [OF assms(1,2)] by blast
  let ?d' = "?d\<lparr>conflict_queue := filter (\<lambda>r. q_id r \<notin> q_id ` set ?qs) (conflict_queue ?d)\<rparr>"
  have fold: "fold_sm ?qs (resolve_pair E) 0 ?d = (Inr 0, ?d')" using judge by (rule resolve_all_unimplemented)
  have "resolve_conflicts E s = (Inr 0, s\<lparr>app_store := ?d'\<rparr>)"
  proof (cases "?qs = []")
    case True
    then show ?thesis by (simp add: resolve_conflicts_def ret_sm_def)
  next
    case False
    have "transaction (fold_sm ?qs (resolve_pair E) 0) ?d = (Inr 0, ?d')" by (simp add: transaction_def fold)
    then show ?thesis using False by (simp add: resolve_conflicts_def sql_Inr)
  qed
  moreover have "filter (\<lambda>r. q_id r \<notin> q_id ` set ?qs) (conflict_queue ?d) = filter (\<lambda>q. q \<notin> set ?qs) (conflict_queue ?d)"
    by (rule next_conflicts_by_id [OF assms(4)])
  moreover have "judge (E\<lparr>e_llm := None\<rparr>) n e = Contradiction_label" for n e by (simp add: judge_def)
  ultimately show ?thesis by (auto simp: contested_def)
qed

definition demo_build :: build_ctx where
  "demo_build = \<lparr>bc_local_llm = False, bc_exists = (\<lambda>_. False),
     bc_http = \<lparr>hc_post = (\<lambda>_ _ _. Inl ''offline''), hc_chat = Inl, hc_messages = Inl, hc_memories = Inl\<rparr>,
     bc_decode = (\<lambda>_ _ _. Inr [])\<rparr>"

definition openai_config :: daemon_config where
  "openai_config = \<lparr>cf_llm = Some (Llm_openai ''K'' ''m''), cf_lifecycle = None\<rparr>"

theorem hosted_llm_settles_nothing_witness:
  "\<exists>P s'. build_llm demo_build (demo_os\<lparr>ev_vars := [''K'' \<mapsto> ''secret'']\<rparr>) (Inr openai_config) = Inr (Some P)
     \<and> resolve_conflicts (demo_env\<lparr>e_llm := Some (llm_view P)\<rparr>) torn_app = (Inr 0, s')
     \<and> memories (app_store s') = memories (app_store torn_app)"
proof -
  have c: "cf_llm openai_config = Some (Llm_openai ''K'' ''m'') \<or> cf_llm openai_config = Some (Llm_anthropic ''K'' ''m'')"
    by (simp add: openai_config_def)
  obtain P where P: "build_llm demo_build (demo_os\<lparr>ev_vars := [''K'' \<mapsto> ''secret'']\<rparr>) (Inr openai_config) = Inr (Some P)"
    by (simp add: build_llm_def openai_config_def)
  show ?thesis
    using hosted_llm_settles_nothing [OF P c _ torn_app_wf, of "demo_env\<lparr>e_llm := Some (llm_view P)\<rparr>"] P by auto
qed

end
