(* ===== verification/Serve_Loop.thy ===== *)
theory Serve_Loop
  imports Daemon_Main
begin

text \<open>
  The life of a daemon (\<open>Daemon::serve\<close> of \<open>crates/daemon/src/server.rs\<close>): the accept loop, the
  connections it spawns, shutdown, draining, and the removal of the files. The state adds to the
  server of \<open>Server\<close> the file system, whether the listener is open, the connections that have been
  accepted and not yet finished their handshake, and whether the shutdown signal has been sent (by a
  \<open>Shutdown\<close> request or by Ctrl-C, both of which only send it). The handshake does not listen to
  the signal: a client that never says hello holds its connection until the drain gives up.
\<close>

record daemon =
  dm_fs :: fs
  dm_server :: server
  dm_shaking :: nat
  dm_listening :: bool
  dm_signalled :: bool
  dm_done :: bool

text \<open>\<open>abort_all\<close> on the connections that the drain could not join; a finished one is joined.\<close>

definition abort_conn :: "conn \<Rightarrow> conn" where
  "abort_conn c = (if cn_open c then break_loop c else c)"

definition abort_all :: "server \<Rightarrow> server" where
  "abort_all sv = sv\<lparr>sv_conns := map abort_conn (sv_conns sv)\<rparr>"

text \<open>When the drain ends: every connection has been joined, or the time is up.\<close>

definition drained :: "daemon \<Rightarrow> bool" where
  "drained D \<longleftrightarrow> dm_shaking D = 0 \<and> (\<forall>c \<in> set (sv_conns (dm_server D)). \<not> cn_open c)"

inductive serve_step :: "daemon_runtime \<Rightarrow> daemon \<Rightarrow> daemon \<Rightarrow> bool" for R where
  accepted: "dm_listening D \<Longrightarrow> serve_step R D (D\<lparr>dm_shaking := Suc (dm_shaking D)\<rparr>)"
| accept_failed: "dm_listening D \<Longrightarrow> serve_step R D D"
| greeted: "\<not> dm_done D \<Longrightarrow> dm_shaking D = Suc n \<Longrightarrow> handshake E sid hello = Welcomed u greeting \<Longrightarrow>
     serve_step R D (D\<lparr>dm_shaking := n,
       dm_server := (dm_server D)\<lparr>sv_conns := sv_conns (dm_server D) @ [new_conn u]\<rparr>\<rparr>)"
| turned_away: "\<not> dm_done D \<Longrightarrow> dm_shaking D = Suc n \<Longrightarrow> serve_step R D (D\<lparr>dm_shaking := n\<rparr>)"
| turn: "\<not> dm_done D \<Longrightarrow> sv_conns (dm_server D) = cs @ c # cs' \<Longrightarrow> conn_step (dm_server D) c c' s' \<Longrightarrow>
     cn_shutdown_requested c' \<longrightarrow> cn_shutdown_requested c \<or> dm_signalled D \<Longrightarrow>
     serve_step R D (D\<lparr>dm_server := (dm_server D)\<lparr>sv_conns := cs @ c' # cs', sv_app := s'\<rparr>\<rparr>)"
| signal: "\<not> dm_done D \<Longrightarrow> serve_step R D (D\<lparr>dm_signalled := True\<rparr>)"
| break_accept: "dm_listening D \<Longrightarrow> dm_signalled D \<Longrightarrow> serve_step R D (D\<lparr>dm_listening := False\<rparr>)"
| drain_joined: "\<not> dm_done D \<Longrightarrow> \<not> dm_listening D \<Longrightarrow> drained D \<Longrightarrow>
     serve_step R D (D\<lparr>dm_fs := snd (serve_stop R (dm_fs D)), dm_done := True\<rparr>)"
| drain_timed_out: "\<not> dm_done D \<Longrightarrow> \<not> dm_listening D \<Longrightarrow> \<not> drained D \<Longrightarrow>
     serve_step R D (D\<lparr>dm_shaking := 0, dm_server := abort_all (dm_server D),
       dm_fs := snd (serve_stop R (dm_fs D)), dm_done := True\<rparr>)"

text \<open>A daemon that has started on the store \<open>s\<close>, and what it can become.\<close>

inductive serving :: "nat \<Rightarrow> (path \<Rightarrow> bool) \<Rightarrow> daemon_runtime \<Rightarrow> app \<Rightarrow> fs \<Rightarrow> daemon \<Rightarrow> bool"
  for pid live R s f where
  started: "serve_start pid live R f = (Inr (), f') \<Longrightarrow>
     serving pid live R s f \<lparr>dm_fs = f', dm_server = \<lparr>sv_app = s, sv_conns = []\<rparr>, dm_shaking = 0,
       dm_listening = True, dm_signalled = False, dm_done = False\<rparr>"
| step: "serving pid live R s f D \<Longrightarrow> serve_step R D D' \<Longrightarrow> serving pid live R s f D'"

inductive_cases serve_stepE: "serve_step R D D'"

section \<open>The invariant\<close>

definition serve_inv :: "daemon_runtime \<Rightarrow> fs \<Rightarrow> daemon \<Rightarrow> bool" where
  "serve_inv R f D \<longleftrightarrow> server_inv (dm_server D)
     \<and> (if dm_done D then \<not> dm_listening D \<and> drained D \<and> dm_fs D = snd (serve_stop R f) else dm_fs D = f)
     \<and> (dm_listening D \<or> dm_signalled D)
     \<and> (\<forall>c \<in> set (sv_conns (dm_server D)). cn_shutdown_requested c \<longrightarrow> dm_signalled D)"

lemma abort_conn_simps [simp]:
  "\<not> cn_open (abort_conn c)" "cn_shutdown_requested (abort_conn c) = cn_shutdown_requested c"
  by (simp_all add: abort_conn_def break_loop_def)

lemma abort_conn_inv: "conn_inv c \<Longrightarrow> conn_inv (abort_conn c)"
  by (simp add: abort_conn_def break_loop_inv)

lemma abort_all_inv:
  assumes "server_inv sv"
  shows "server_inv (abort_all sv)"
proof -
  have conns: "\<forall>c \<in> set (map abort_conn (sv_conns sv)). conn_inv c"
    using assms abort_conn_inv by (auto simp: server_inv_def)
  then have "\<forall>c \<in> set (map abort_conn (sv_conns sv)). cn_tasks c = []"
    by (auto simp: conn_inv_def)
  then have "concat (map cn_tasks (map abort_conn (sv_conns sv))) = []" by simp
  then have "in_flight P (abort_all sv) = 0" for P by (simp add: in_flight_def abort_all_def)
  then show ?thesis using assms conns by (simp add: server_inv_def abort_all_def)
qed

lemma serve_step_inv:
  assumes "serve_step R D D'" "serve_inv R f D"
  shows "serve_inv R f D'"
  using assms
proof (induction rule: serve_step.induct)
  case (greeted D n E sid hello u greeting)
  have "server_step (dm_server D) ((dm_server D)\<lparr>sv_conns := sv_conns (dm_server D) @ [new_conn u]\<rparr>)"
    using greeted(3) by (rule server_step.accept)
  then have "server_inv ((dm_server D)\<lparr>sv_conns := sv_conns (dm_server D) @ [new_conn u]\<rparr>)"
    using greeted(4) by (auto simp: serve_inv_def intro: server_step_inv)
  then show ?case using greeted by (auto simp: serve_inv_def new_conn_def)
next
  case (turn D cs c cs' c' s')
  have "server_step (dm_server D) ((dm_server D)\<lparr>sv_conns := cs @ c' # cs', sv_app := s'\<rparr>)"
    using turn(2,3) by (rule server_step.turn)
  then have "server_inv ((dm_server D)\<lparr>sv_conns := cs @ c' # cs', sv_app := s'\<rparr>)"
    using turn(5) by (auto simp: serve_inv_def intro: server_step_inv)
  then show ?case using turn by (auto simp: serve_inv_def)
next
  case (drain_timed_out D)
  then have "server_inv (abort_all (dm_server D))" by (simp add: serve_inv_def abort_all_inv)
  then show ?case using drain_timed_out by (auto simp: serve_inv_def drained_def abort_all_def)
qed (auto simp: serve_inv_def drained_def)

lemma serving_inv:
  assumes "serving pid live R s f D" "wf_db (app_store s)"
  shows "\<exists>f'. serve_start pid live R f = (Inr (), f') \<and> serve_inv R f' D"
  using assms(1)
proof (induction rule: serving.induct)
  case (started f')
  then show ?case using assms(2) by (auto simp: serve_inv_def server_inv_def in_flight_def)
next
  case (step D D')
  then show ?case using serve_step_inv by blast
qed

text \<open>Once the signal has been sent the daemon can end from every state, whatever its clients do.\<close>

lemma serve_can_end:
  assumes "dm_signalled D" "\<not> dm_done D"
  shows "\<exists>D'. (serve_step R)\<^sup>*\<^sup>* D D' \<and> dm_done D'"
proof -
  let ?D = "D\<lparr>dm_listening := False\<rparr>"
  have "(serve_step R)\<^sup>*\<^sup>* D ?D"
  proof (cases "dm_listening D")
    case True
    then show ?thesis using serve_step.break_accept assms(1) by blast
  next
    case False
    then have "?D = D" by simp
    then show ?thesis by simp
  qed
  moreover have "\<exists>D'. serve_step R ?D D' \<and> dm_done D'"
    using serve_step.drain_joined [of ?D R] serve_step.drain_timed_out [of ?D R] assms(2)
    by (cases "drained ?D") fastforce+
  ultimately show ?thesis by (meson rtranclp.rtrancl_into_rtrancl)
qed

lemma serve_done_final: "serve_inv R f D \<Longrightarrow> dm_done D \<Longrightarrow> \<not> serve_step R D D'"
  by (auto simp: serve_inv_def elim!: serve_stepE)

lemma serve_stop_fault: "fs_fault (snd (serve_stop R f)) = fs_fault f"
  by (auto simp: serve_stop_def ignore_error_def remove_file_def guarded_def bind_sm_def split: option.split)

text \<open>C9: The life of a daemon on a consistent store, whatever its clients do and in whatever order.
  As long as it has not ended, its socket is open to its owner only and its PID file holds its process
  id; it stops listening only after a shutdown signal; the store stays consistent, and a connection
  that ended without being cut has answered every request it read, exactly once. Once the signal has
  been sent the daemon can always end, even when a client never says hello or never stops; when it
  has ended, no connection is left, it does nothing more, and its socket and PID file are gone,
  unless the operating system refused to remove them.\<close>

theorem serve_lifetime:
  assumes "serving pid live R s f D" "wf_db (app_store s)" "rt_socket_path R \<noteq> rt_pid_path R"
  shows "(if dm_done D
      then drained D \<and> (\<forall>D'. \<not> serve_step R D D')
        \<and> (fs_fault (dm_fs D) = Map.empty \<longrightarrow>
             fs_files (dm_fs D) (rt_socket_path R) = None \<and> fs_files (dm_fs D) (rt_pid_path R) = None)
      else daemon_up pid R (dm_fs D)
        \<and> (dm_signalled D \<longrightarrow> (\<exists>D'. (serve_step R)\<^sup>*\<^sup>* D D' \<and> dm_done D')))
    \<and> (dm_listening D \<or> dm_signalled D) \<and> wf_db (app_store (sv_app (dm_server D)))
    \<and> (\<forall>c \<in> set (sv_conns (dm_server D)). \<not> cn_open c \<and> \<not> cn_cut c \<and> cn_can_send c \<longrightarrow>
         mset (answered c) = mset (cn_read c))"
proof -
  obtain f' where f': "serve_start pid live R f = (Inr (), f')" and inv: "serve_inv R f' D"
    using serving_inv [OF assms(1,2)] by blast
  have "mset (answered c) = mset (cn_read c)"
    if "c \<in> set (sv_conns (dm_server D))" "\<not> cn_open c" "\<not> cn_cut c" "cn_can_send c" for c
    using inv that by (auto simp: serve_inv_def server_inv_def conn_inv_def)
  then show ?thesis
    using inv serve_start_up [OF f' assms(3)] serve_stop_removes [OF _ assms(3), of f'] serve_can_end [of D R]
      serve_done_final [OF inv]
    by (auto simp: serve_inv_def server_inv_def serve_stop_fault)
qed

text \<open>A daemon that starts, is told to stop and ends.\<close>

theorem serve_lifetime_witness:
  "\<exists>D. serving 7 (\<lambda>_. False) demo_rt (fresh_app 10) demo_run_fs D \<and> dm_done D
     \<and> fs_files (dm_fs D) ''/r/s'' = None \<and> fs_files (dm_fs D) ''/r/p'' = None"
proof -
  obtain t where t: "serve_start 7 (\<lambda>_. False) demo_rt demo_run_fs = (Inr (), t)" "fs_fault t = Map.empty"
    using demo_starts by blast
  let ?S = "serving 7 (\<lambda>_. False) demo_rt (fresh_app 10) demo_run_fs"
  let ?D = "\<lparr>dm_fs = t, dm_server = \<lparr>sv_app = fresh_app 10, sv_conns = []\<rparr>, dm_shaking = 0,
      dm_listening = True, dm_signalled = True, dm_done = False\<rparr>"
  let ?E = "?D\<lparr>dm_listening := False\<rparr>"
  let ?F = "?E\<lparr>dm_fs := snd (serve_stop demo_rt t), dm_done := True\<rparr>"
  have "?S ?D" using serving.step [OF serving.started [OF t(1)] serve_step.signal] by simp
  then have "?S ?E" using serving.step serve_step.break_accept [of ?D demo_rt] by simp
  moreover have "serve_step demo_rt ?E ?F"
    using serve_step.drain_joined [of ?E demo_rt] by (simp add: drained_def)
  ultimately have F: "?S ?F" by (rule serving.step)
  from serve_lifetime [OF F] have "fs_files (dm_fs ?F) ''/r/s'' = None \<and> fs_files (dm_fs ?F) ''/r/p'' = None"
    using t(2) by (simp add: fresh_app_def wf_empty_db demo_rt_def serve_stop_fault)
  with F show ?thesis by (intro exI [of _ ?F]) simp
qed

end
