(* ===== verification/Http_Bridge.thy ===== *)
theory Http_Bridge
  imports Client Core_Paths Hash_Maps Ingest_Laws
begin

text \<open>
  The HTTP bridge (\<open>crates/http-bridge\<close>): the loopback check, the token map, authentication, the two
  routes, and the start-up of \<open>cm-http\<close>. A bridge request runs against the daemon: its state is the
  daemon's application state, and a call goes through \<open>dispatch\<close> on a connection of the named user.
  Parameters: SHA-256 of the bridge, the iteration order of its token map, how the client's connection
  fares (\<open>link\<close>), and what the JSON extractor makes of the body.
\<close>

section \<open>Loopback\<close>

datatype ip_addr = V4 byte byte byte byte | V6 "16 word list"

record socket_addr =
  ad_ip :: ip_addr
  ad_port :: nat

fun is_loopback :: "ip_addr \<Rightarrow> bool" where
  "is_loopback (V4 a b c d) \<longleftrightarrow> a = 127"
| "is_loopback (V6 segments) \<longleftrightarrow> segments = [0, 0, 0, 0, 0, 0, 0, 1]"

datatype bridge_error = NonLoopbackBind socket_addr | Bridge_io string

definition enforce_loopback :: "socket_addr \<Rightarrow> bridge_error + socket_addr" where
  "enforce_loopback addr = (if \<not> is_loopback (ad_ip addr) then Inl (NonLoopbackBind addr) else Inr addr)"

section \<open>Tokens\<close>

datatype scope = Scope_read | Scope_write | Scope_admin

fun scope_allows :: "scope \<Rightarrow> scope \<Rightarrow> bool" where
  "scope_allows Scope_admin _ = True"
| "scope_allows Scope_write Scope_read = True"
| "scope_allows Scope_write Scope_write = True"
| "scope_allows Scope_read Scope_read = True"
| "scope_allows _ _ = False"

fun to_bridge_scope :: "scope \<Rightarrow> bridge_scope" where
  "to_bridge_scope Scope_read = Read"
| "to_bridge_scope Scope_write = Write"
| "to_bridge_scope Scope_admin = Admin"

fun scope_from_bridge :: "bridge_scope \<Rightarrow> scope" where
  "scope_from_bridge Read = Scope_read"
| "scope_from_bridge Write = Scope_write"
| "scope_from_bridge Admin = Scope_admin"

record token_info =
  ti_user_id :: string
  ti_scope :: scope

record token_store =
  ts_inner :: "(byte list, token_info) hash_map"
  ts_salt :: string

definition new_token_store :: "string \<Rightarrow> token_store" where
  "new_token_store salt = \<lparr>ts_inner = [], ts_salt = salt\<rparr>"

definition store_hash :: "(string \<Rightarrow> byte list) \<Rightarrow> token_store \<Rightarrow> string \<Rightarrow> byte list" where
  "store_hash sha256 ts raw = sha256 (ts_salt ts @ raw)"

definition mint_token :: "(string \<Rightarrow> byte list) \<Rightarrow> string \<Rightarrow> string \<Rightarrow> scope \<Rightarrow> token_store \<Rightarrow> token_store" where
  "mint_token sha256 raw u sc ts =
     ts\<lparr>ts_inner := hm_insert (store_hash sha256 ts raw) \<lparr>ti_user_id = u, ti_scope = sc\<rparr> (ts_inner ts)\<rparr>"

text \<open>The loop over the map, comparing every stored hash with the candidate's.\<close>

definition validate_token ::
  "(string \<Rightarrow> byte list) \<Rightarrow> ((byte list, token_info) hash_map \<Rightarrow> (byte list \<times> token_info) list) \<Rightarrow>
   token_store \<Rightarrow> string \<Rightarrow> (string \<times> scope) option" where
  "validate_token sha256 it ts raw =
     (let candidate = store_hash sha256 ts raw in
      map_option (\<lambda>(_, info). (ti_user_id info, ti_scope info)) (find (\<lambda>e. fst e = candidate) (it (ts_inner ts))))"

section \<open>HTTP\<close>

datatype http_body = Daemon_body response | Error_body string

record http_response =
  hr_status :: nat
  hr_body :: http_body

definition http_error :: "nat \<Rightarrow> string \<Rightarrow> http_response" where
  "http_error status message = \<lparr>hr_status = status, hr_body = Error_body message\<rparr>"

type_synonym headers = "(string \<times> string) list"

text \<open>\<open>HeaderValue::to_str\<close>: visible ASCII and tabs only.\<close>

definition header_str :: "headers \<Rightarrow> string \<Rightarrow> string option" where
  "header_str hs name = (case map_of hs name of
      Some v \<Rightarrow> if \<forall>c \<in> set v. (32 \<le> (of_char c :: nat) \<and> (of_char c :: nat) < 127) \<or> c = CHR 0x09 then Some v else None
    | None \<Rightarrow> None)"

definition is_default_loopback_host :: "string \<Rightarrow> bool" where
  "is_default_loopback_host host \<longleftrightarrow>
     host = ''localhost'' \<or> starts_with host ''localhost:''
     \<or> host = ''127.0.0.1'' \<or> starts_with host ''127.0.0.1:''
     \<or> host = ''[::1]'' \<or> starts_with host ''[::1]:''"

definition check_host :: "headers \<Rightarrow> string list \<Rightarrow> http_response + unit" where
  "check_host hs allowed_hosts = (case header_str hs ''host'' of
      None \<Rightarrow> Inl (http_error 400 ''missing Host header'')
    | Some host \<Rightarrow> if is_default_loopback_host host \<or> host \<in> set allowed_hosts then Inr ()
                   else Inl (http_error 403 ''Host header not allowed''))"

record bridge_state =
  bs_tokens :: token_store
  bs_allowed_hosts :: "string list"
  bs_allowed_origins :: "string list"

section \<open>Calls to the daemon\<close>

fun client_error_text :: "client_error \<Rightarrow> string" where
  "client_error_text (Io e) = ''io: '' @ e"
| "client_error_text (Handshake_json e) = ''hello/welcome serialise/deserialise: '' @ e"
| "client_error_text (ProtocolMismatch m) =
     ''daemon protocol version '' @ radix_str 10 (daemon_version m) @ '' != client '' @ radix_str 10 IPC_PROTOCOL_VERSION"
| "client_error_text HandshakeShortRead = ''daemon closed connection mid-handshake''"
| "client_error_text UnexpectedClose = ''daemon closed connection while awaiting response''"
| "client_error_text (IdMismatch expected got) =
     ''response id '' @ radix_str 10 got @ '' did not match request id '' @ radix_str 10 expected"
| "client_error_text (UnexpectedPayload _) = ''expected Response payload, got something else''"
| "client_error_text (Timeout secs) = ''request timed out after '' @ radix_str 10 secs @ ''s''"

text \<open>How a connection fares: it may fail to open, or the request may fail, before or after the daemon
  has served it.\<close>

datatype link = Up | No_connection client_error | Lost_request client_error | Lost_answer client_error

text \<open>What the daemon does on a fresh connection of user \<open>u\<close> with one request, id 1.\<close>

definition daemon_serves :: "texts \<Rightarrow> env \<Rightarrow> string \<Rightarrow> request \<Rightarrow> app \<Rightarrow> response \<times> app" where
  "daemon_serves T E u req s = (case dispatch T E \<lparr>im_id = 1, im_payload = RequestP req\<rparr> u s of
      (reply, s') \<Rightarrow> (case im_payload reply of ResponseP resp \<Rightarrow> (resp, s')
                    | _ \<Rightarrow> (response_err \<lparr>re_kind = Internal_kind, re_message = [], re_retriable = False\<rparr>, s')))"

definition link_request :: "texts \<Rightarrow> env \<Rightarrow> link \<Rightarrow> string \<Rightarrow> request \<Rightarrow> app \<Rightarrow> (client_error + response) \<times> app" where
  "link_request T E L u req s = (case L of
      Up \<Rightarrow> (case daemon_serves T E u req s of (resp, s') \<Rightarrow> (Inr resp, s'))
    | Lost_answer e \<Rightarrow> (Inl e, snd (daemon_serves T E u req s))
    | No_connection e \<Rightarrow> (Inl e, s)
    | Lost_request e \<Rightarrow> (Inl e, s))"

definition daemon_response_to_http :: "response \<Rightarrow> http_response" where
  "daemon_response_to_http resp = \<lparr>hr_status = (if rp_ok resp then 200 else 500), hr_body = Daemon_body resp\<rparr>"

definition daemon_call :: "texts \<Rightarrow> env \<Rightarrow> link \<Rightarrow> string \<Rightarrow> request \<Rightarrow> app \<Rightarrow> http_response \<times> app" where
  "daemon_call T E L u req s = (case link_request T E L u req s of
      (Inr resp, s') \<Rightarrow> (daemon_response_to_http resp, s')
    | (Inl e, s') \<Rightarrow> (http_error 500 (''daemon: '' @ client_error_text e), s'))"

definition validate_daemon_token ::
  "texts \<Rightarrow> env \<Rightarrow> link \<Rightarrow> (response_data option \<Rightarrow> string) \<Rightarrow> string \<Rightarrow> scope \<Rightarrow> app \<Rightarrow>
   (http_response + string \<times> scope) \<times> app" where
  "validate_daemon_token T E L debug token required s = (case L of
      No_connection e \<Rightarrow> (Inl (http_error 500 (''connect: '' @ client_error_text e)), s)
    | _ \<Rightarrow> (case link_request T E L ''default'' (Diagnostics (ValidateBridgeToken
                \<lparr>vt_token = token, vt_required_scope = to_bridge_scope required\<rparr>)) s of
        (Inl e, s') \<Rightarrow> (Inl (http_error 500 (''daemon: '' @ client_error_text e)), s')
      | (Inr resp, s') \<Rightarrow>
          if \<not> rp_ok resp then (Inl (http_error 401 ''invalid token''), s')
          else (case rp_data resp of
              Some (BridgeTokenValidatedR v) \<Rightarrow> (Inr (bv_user_id v, scope_from_bridge (bv_scope v)), s')
            | other \<Rightarrow> (Inl (http_error 500 (''unexpected daemon token response: '' @ debug other)), s'))))"

section \<open>Authentication and routes\<close>

text \<open>The parameters of a bridge: its hash, the iteration of its map, the \<open>Debug\<close> text of response
  data, and the links of the two connections a request may open.\<close>

record bridge_ctx =
  bx_sha256 :: "string \<Rightarrow> byte list"
  bx_iter :: "(byte list, token_info) hash_map \<Rightarrow> (byte list \<times> token_info) list"
  bx_debug :: "response_data option \<Rightarrow> string"
  bx_auth_link :: link
  bx_link :: link

definition authenticate ::
  "texts \<Rightarrow> env \<Rightarrow> bridge_ctx \<Rightarrow> bridge_state \<Rightarrow> headers \<Rightarrow> scope \<Rightarrow> app \<Rightarrow> (http_response + string \<times> scope) \<times> app" where
  "authenticate T E X B hs required s = (case check_host hs (bs_allowed_hosts B) of
      Inl r \<Rightarrow> (Inl r, s)
    | Inr _ \<Rightarrow> (case header_str hs ''authorization'' of
        None \<Rightarrow> (Inl (http_error 401 ''missing Authorization header''), s)
      | Some auth \<Rightarrow> (case strip_prefix ''Bearer '' auth of
          None \<Rightarrow> (Inl (http_error 401 ''expected Bearer token''), s)
        | Some token \<Rightarrow> (case validate_token (bx_sha256 X) (bx_iter X) (bs_tokens B) token of
            Some (uid, sc) \<Rightarrow> if scope_allows sc required then (Inr (uid, sc), s)
                              else (Inl (http_error 403 ''token scope insufficient''), s)
          | None \<Rightarrow> validate_daemon_token T E (bx_auth_link X) (bx_debug X) token required s))))"

record store_body =
  sy_content :: string
  sy_category :: string
  sy_memory_type :: string
  sy_metadata :: string
  sy_importance :: "real option"

record search_body =
  qy_query :: string
  qy_limit :: nat
  qy_deep_recall :: bool
  qy_hybrid :: bool

text \<open>Connecting and calling as the authenticated user.\<close>

definition call_as :: "texts \<Rightarrow> env \<Rightarrow> bridge_ctx \<Rightarrow> string \<Rightarrow> request \<Rightarrow> app \<Rightarrow> http_response \<times> app" where
  "call_as T E X u req s = (case bx_link X of
      No_connection e \<Rightarrow> (http_error 500 (''connect: '' @ client_error_text e), s)
    | _ \<Rightarrow> daemon_call T E (bx_link X) u req s)"

definition http_memory_store ::
  "texts \<Rightarrow> env \<Rightarrow> bridge_ctx \<Rightarrow> bridge_state \<Rightarrow> headers \<Rightarrow> store_body \<Rightarrow> app \<Rightarrow> http_response \<times> app" where
  "http_memory_store T E X B hs body s = (case authenticate T E X B hs Scope_write s of
      (Inl r, s') \<Rightarrow> (r, s')
    | (Inr (u, _), s') \<Rightarrow> call_as T E X u (Memory (Store \<lparr>
          sm_user_id = u, sm_content = sy_content body, sm_category = sy_category body,
          sm_memory_type = sy_memory_type body, sm_metadata = sy_metadata body,
          sm_importance = sy_importance body\<rparr>)) s')"

definition http_memory_search ::
  "texts \<Rightarrow> env \<Rightarrow> bridge_ctx \<Rightarrow> bridge_state \<Rightarrow> headers \<Rightarrow> search_body \<Rightarrow> app \<Rightarrow> http_response \<times> app" where
  "http_memory_search T E X B hs body s = (case authenticate T E X B hs Scope_read s of
      (Inl r, s') \<Rightarrow> (r, s')
    | (Inr (u, _), s') \<Rightarrow> call_as T E X u (Memory (Search \<lparr>
          sa_user_id = u, sa_query = qy_query body, sa_limit = qy_limit body,
          sa_deep_recall = qy_deep_recall body, sa_hybrid = qy_hybrid body,
          sa_graph_expansion_hops = 0, sa_bridge_discovery = False\<rparr>)) s')"

text \<open>The router: the body is extracted before the handler runs, so a malformed one is refused with
  the extractor's response; other paths are not found, other methods not allowed.\<close>

record http_request =
  rq_method :: string
  rq_path :: string
  rq_headers :: headers
  rq_store_body :: "http_response + store_body"
  rq_search_body :: "http_response + search_body"

definition route ::
  "texts \<Rightarrow> env \<Rightarrow> bridge_ctx \<Rightarrow> bridge_state \<Rightarrow> http_request \<Rightarrow> app \<Rightarrow> http_response \<times> app" where
  "route T E X B rq s =
     (if rq_path rq = ''/memory/store''
      then if rq_method rq \<noteq> ''POST'' then (http_error 405 [], s)
           else (case rq_store_body rq of Inl r \<Rightarrow> (r, s)
                 | Inr body \<Rightarrow> http_memory_store T E X B (rq_headers rq) body s)
      else if rq_path rq = ''/memory/search''
      then if rq_method rq \<noteq> ''POST'' then (http_error 405 [], s)
           else (case rq_search_body rq of Inl r \<Rightarrow> (r, s)
                 | Inr body \<Rightarrow> http_memory_search T E X B (rq_headers rq) body s)
      else (http_error 404 [], s))"

definition cors_allows_origin :: "bridge_state \<Rightarrow> string \<Rightarrow> bool" where
  "cors_allows_origin B origin \<longleftrightarrow> origin \<in> set (bs_allowed_origins B)"

section \<open>Start-up of \<open>cm-http\<close>\<close>

definition parse_scope :: "string \<Rightarrow> scope" where
  "parse_scope s = (if s = ''read'' then Scope_read else if s = ''admin'' then Scope_admin else Scope_write)"

text \<open>\<open>str::split(',')\<close>.\<close>

fun split_on :: "char \<Rightarrow> string \<Rightarrow> string list" where
  "split_on sep [] = [[]]"
| "split_on sep (c # s) = (if c = sep then [] # split_on sep s
     else case split_on sep s of [] \<Rightarrow> [[c]] | p # ps \<Rightarrow> (c # p) # ps)"

definition parse_csv_env :: "os_env \<Rightarrow> string \<Rightarrow> string list" where
  "parse_csv_env V name = (case ev_vars V name of
      Some value \<Rightarrow> filter (\<lambda>item. item \<noteq> []) (map trim_str (split_on (CHR '','') value)) | None \<Rightarrow> [])"

text \<open>\<open>HeaderValue::from_str\<close>: no control characters but the tab.\<close>

definition header_value :: "string \<Rightarrow> string option" where
  "header_value s = (if \<forall>c \<in> set s. (32 \<le> (of_char c :: nat) \<and> (of_char c :: nat) \<noteq> 127) \<or> c = CHR 0x09 then Some s else None)"

definition parse_origin_env :: "os_env \<Rightarrow> string + string list" where
  "parse_origin_env V =
     (let origins = parse_csv_env V ''COGNITIVE_MEMORY_HTTP_ALLOWED_ORIGINS'';
          origins' = (if origins = [] then parse_csv_env V ''COGNITIVE_MEMORY_HTTP_CORS_ORIGINS'' else origins)
      in case find (\<lambda>o'. header_value o' = None) origins' of
           Some o' \<Rightarrow> Inl (''invalid HTTP bridge origin: '' @ o') | None \<Rightarrow> Inr origins')"

definition env_or :: "os_env \<Rightarrow> string \<Rightarrow> string \<Rightarrow> string" where
  "env_or V name default_value = (case ev_vars V name of Some v \<Rightarrow> v | None \<Rightarrow> default_value)"

fun scope_name :: "scope \<Rightarrow> string" where
  "scope_name Scope_read = ''read''"
| "scope_name Scope_write = ''write''"
| "scope_name Scope_admin = ''admin''"

definition write_startup_token_file ::
  "(json \<Rightarrow> string) \<Rightarrow> runtime_paths \<Rightarrow> string \<Rightarrow> scope \<Rightarrow> string \<Rightarrow> int \<Rightarrow> unit io" where
  "write_startup_token_file pretty P u sc token expires =
     bind_sm (case path_parent (rp_bridge_token_path P) of Some d \<Rightarrow> ensure_private_dir d | None \<Rightarrow> ret_sm ()) (\<lambda>_.
     bind_sm (write_file (rp_bridge_token_path P) (pretty (JObj [
        (''user_id'', JStr u), (''scope'', JStr (scope_name sc)), (''token'', JStr token), (''expires_at_unix'', JInt expires)])))
       (\<lambda>_. secure_private_file_if_exists (rp_bridge_token_path P)))"

text \<open>The tokens the bridge starts with: one minted by the daemon, else one from the environment.\<close>

definition seed_tokens ::
  "(string \<Rightarrow> byte list) \<Rightarrow> texts \<Rightarrow> env \<Rightarrow> link \<Rightarrow> (json \<Rightarrow> string) \<Rightarrow> os_env \<Rightarrow> runtime_paths \<Rightarrow>
   token_store \<Rightarrow> fs \<times> app \<Rightarrow> (string + token_store) \<times> (fs \<times> app)" where
  "seed_tokens sha256 T E L pretty V P ts = (\<lambda>(fsys, s).
     case ev_vars V ''COGNITIVE_MEMORY_HTTP_MINT_USER'' of
       Some u \<Rightarrow>
         (let sc = parse_scope (env_or V ''COGNITIVE_MEMORY_HTTP_MINT_SCOPE'' ''write'') in
          case link_request T E L u (Diagnostics (MintBridgeToken
                 \<lparr>mt_user_id = u, mt_scope = to_bridge_scope sc, mt_ttl_seconds = 30 * 24 * 3600\<rparr>)) s of
            (Inl e, s') \<Rightarrow> (Inl (client_error_text e), (fsys, s'))
          | (Inr resp, s') \<Rightarrow>
              if \<not> rp_ok resp then (Inl ''daemon refused to mint bridge token'', (fsys, s'))
              else (case rp_data resp of
                  Some (BridgeTokenR token expires) \<Rightarrow>
                    (case write_startup_token_file pretty P u sc token expires fsys of
                       (Inl e, fsys') \<Rightarrow> (Inl e, (fsys', s'))
                     | (Inr _, fsys') \<Rightarrow> (Inr (mint_token sha256 token u sc ts), (fsys', s')))
                | _ \<Rightarrow> (Inl ''unexpected response data'', (fsys, s'))))
     | None \<Rightarrow> (case ev_vars V ''COGNITIVE_MEMORY_HTTP_BOOTSTRAP_TOKEN'' of
         Some bootstrap \<Rightarrow> (Inr (mint_token sha256 bootstrap
             (env_or V ''COGNITIVE_MEMORY_HTTP_BOOTSTRAP_USER'' ''default'')
             (parse_scope (env_or V ''COGNITIVE_MEMORY_HTTP_BOOTSTRAP_SCOPE'' ''write'')) ts), (fsys, s))
       | None \<Rightarrow> (Inr ts, (fsys, s))))"

section \<open>The token map\<close>

definition tokens_ok :: "token_store \<Rightarrow> bool" where
  "tokens_ok ts \<longleftrightarrow> hm_wf (ts_inner ts)"

lemma tokens_ok_simps [simp]:
  "tokens_ok (new_token_store salt)" "tokens_ok ts \<Longrightarrow> tokens_ok (mint_token sha256 raw u sc ts)"
  by (simp_all add: tokens_ok_def new_token_store_def mint_token_def hm_wf_insert) (simp add: hm_wf_def)

lemma validate_token_eq:
  "iterates it \<Longrightarrow> tokens_ok ts \<Longrightarrow> validate_token sha256 it ts raw =
     map_option (\<lambda>info. (ti_user_id info, ti_scope info)) (hm_get (ts_inner ts) (store_hash sha256 ts raw))"
  by (simp add: validate_token_def tokens_ok_def find_key_iterated option.map_comp comp_def)

lemma validate_minted:
  assumes "iterates it" "tokens_ok ts"
  shows "validate_token sha256 it (mint_token sha256 raw u sc ts) raw' =
    (if store_hash sha256 ts raw' = store_hash sha256 ts raw then Some (u, sc) else validate_token sha256 it ts raw')"
proof -
  have "store_hash sha256 (mint_token sha256 raw u sc ts) raw' = store_hash sha256 ts raw'"
    by (simp add: store_hash_def mint_token_def)
  then show ?thesis
    using assms by (simp add: validate_token_eq) (simp add: mint_token_def hm.look_put)
qed

section \<open>Authorisation\<close>

lemma scope_allows_bridge: "scope_allows (scope_from_bridge a) b \<longleftrightarrow> bridge_scope_allows a (to_bridge_scope b)"
  by (cases a; cases b) simp_all

lemma daemon_serves_store:
  "app_store (snd (daemon_serves T E u req s)) = app_store (snd (handle_request E req u s))"
  by (auto simp: daemon_serves_def dispatch_def answer_def Let_def split: prod.splits sum.splits ipc_payload.splits)

lemma daemon_serves_ok:
  assumes "daemon_serves T E u req s = (resp, s')" "rp_ok resp"
  shows "fst (handle_request E req u s) = Inr resp"
  using assms
  by (cases "handle_request E req u s")
    (auto simp: daemon_serves_def dispatch_def answer_def response_err_def Let_def split: prod.splits sum.splits)

lemma validate_keeps_state: "snd (handle_validate_bridge_token E args s) = s"
  by (simp add: handle_validate_bridge_token_def select_kv_def bind_sm_def lift_sm_def ret_sm_def throw_sm_def
      split: option.split sum.split prod.split)

lemma validated_scope:
  assumes "handle_validate_bridge_token E args s = (Inr (response_ok (BridgeTokenValidatedR v)), s')"
  shows "bridge_scope_allows (bv_scope v) (vt_required_scope args)"
  using assms
  by (auto simp: handle_validate_bridge_token_def select_kv_def bind_sm_def lift_sm_def ret_sm_def throw_sm_def
      check_token_record_def response_ok_def Let_def split: option.splits sum.splits prod.splits if_splits)

text \<open>What a bearer token is good for: the bridge has it in its map, or the daemon accepts it.\<close>

definition grants ::
  "env \<Rightarrow> bridge_ctx \<Rightarrow> bridge_state \<Rightarrow> app \<Rightarrow> string \<Rightarrow> scope \<Rightarrow> string \<Rightarrow> bool" where
  "grants E X B s token required u \<longleftrightarrow>
     (\<exists>sc. validate_token (bx_sha256 X) (bx_iter X) (bs_tokens B) token = Some (u, sc) \<and> scope_allows sc required)
     \<or> (\<exists>v. fst (handle_validate_bridge_token E \<lparr>vt_token = token, vt_required_scope = to_bridge_scope required\<rparr> s)
            = Inr (response_ok (BridgeTokenValidatedR v)) \<and> u = bv_user_id v \<and> bridge_scope_allows (bv_scope v) (to_bridge_scope required))"

lemma link_request_store:
  assumes "link_request T E L u req s = (r, s')" "snd (handle_request E req u s) = s"
  shows "app_store s' = app_store s"
  using assms daemon_serves_store [of T E u req s]
  by (auto simp: link_request_def split: link.splits prod.splits)

lemma validate_daemon_token_spec:
  assumes "validate_daemon_token T E L debug token required s = (res, s')"
  shows "app_store s' = app_store s"
    and "res = Inr (u, sc) \<Longrightarrow> \<exists>v. fst (handle_validate_bridge_token E
        \<lparr>vt_token = token, vt_required_scope = to_bridge_scope required\<rparr> s) = Inr (response_ok (BridgeTokenValidatedR v))
      \<and> u = bv_user_id v \<and> bridge_scope_allows (bv_scope v) (to_bridge_scope required)"
proof -
  let ?args = "\<lparr>vt_token = token, vt_required_scope = to_bridge_scope required\<rparr>"
  let ?req = "Diagnostics (ValidateBridgeToken ?args)"
  have h: "handle_request E ?req ''default'' s = handle_validate_bridge_token E ?args s"
    by (simp add: handle_request_def)
  have keep: "snd (handle_request E ?req ''default'' s) = s" unfolding h by (rule validate_keeps_state)
  obtain r1 s1 where call: "link_request T E L ''default'' ?req s = (r1, s1)" by fastforce
  have "app_store s1 = app_store s" using link_request_store [OF call keep] .
  then show "app_store s' = app_store s"
    using assms call by (auto simp: validate_daemon_token_def split: link.splits sum.splits if_splits option.splits response_data.splits)
  assume res: "res = Inr (u, sc)"
  then obtain resp v where r: "r1 = Inr resp" "rp_ok resp" "rp_data resp = Some (BridgeTokenValidatedR v)" "u = bv_user_id v"
    using assms call by (auto simp: validate_daemon_token_def split: link.splits sum.splits if_splits option.splits response_data.splits)
  then have serve: "daemon_serves T E ''default'' ?req s = (resp, s1)"
    using call by (auto simp: link_request_def split: link.splits prod.splits)
  have ok: "fst (handle_validate_bridge_token E ?args s) = Inr resp"
    using daemon_serves_ok [OF serve r(2)] h by simp
  moreover have "resp = response_ok (BridgeTokenValidatedR v)"
    using ok r(3) by (auto simp: handle_validate_bridge_token_def select_kv_def bind_sm_def lift_sm_def ret_sm_def
        throw_sm_def response_ok_def split: option.splits sum.splits prod.splits)
  ultimately show "\<exists>v. fst (handle_validate_bridge_token E ?args s) = Inr (response_ok (BridgeTokenValidatedR v))
      \<and> u = bv_user_id v \<and> bridge_scope_allows (bv_scope v) (to_bridge_scope required)"
    using validated_scope [of E ?args s v "snd (handle_validate_bridge_token E ?args s)"] r(4)
    by (metis prod.collapse validate_bridge_token_args.select_convs(2))
qed

lemma strip_prefix_Some: "strip_prefix p s = Some r \<longleftrightarrow> s = p @ r"
  by (auto simp: strip_prefix_def starts_with_def split: if_splits) (metis append_take_drop_id)

text \<open>Authentication gets as far as looking at a token.\<close>

lemma authenticate_cases:
  assumes "authenticate T E X B hs required s = (res, s')"
  obtains (refused) r where "res = Inl r" "s' = s"
    | (local) token u sc where "check_host hs (bs_allowed_hosts B) = Inr ()"
        "header_str hs ''authorization'' = Some (''Bearer '' @ token)" "res = Inr (u, sc)" "s' = s"
        "validate_token (bx_sha256 X) (bx_iter X) (bs_tokens B) token = Some (u, sc)" "scope_allows sc required"
    | (remote) token where "check_host hs (bs_allowed_hosts B) = Inr ()"
        "header_str hs ''authorization'' = Some (''Bearer '' @ token)"
        "validate_daemon_token T E (bx_auth_link X) (bx_debug X) token required s = (res, s')"
  using assms
  by (auto simp: authenticate_def strip_prefix_Some split: sum.splits option.splits if_splits)

lemma authenticate_spec:
  assumes "authenticate T E X B hs required s = (res, s')"
  shows "app_store s' = app_store s"
    and "res = Inr (u, sc) \<Longrightarrow> check_host hs (bs_allowed_hosts B) = Inr ()
      \<and> (\<exists>token. header_str hs ''authorization'' = Some (''Bearer '' @ token) \<and> grants E X B s token required u)"
  using assms
  by (cases rule: authenticate_cases; auto simp: grants_def dest: validate_daemon_token_spec)+

lemma call_as_others:
  assumes "call_as T E X u (Memory m) s = (resp, s')"
  shows "others u (app_store s') = others u (app_store s)"
proof -
  have "keeps (store_frame (user_step u)) (handle_request E (Memory m) u)"
    by (rule request_user_frame) simp
  then have "others u (app_store (snd (handle_request E (Memory m) u s))) = others u (app_store s)"
    by (simp add: keeps_def store_frame_def user_step_def others_step_def)
  then have "others u (app_store (snd (daemon_serves T E u (Memory m) s))) = others u (app_store s)"
    by (simp add: daemon_serves_store)
  then show ?thesis
    using assms by (auto simp: call_as_def daemon_call_def link_request_def split: link.splits prod.splits sum.splits)
qed

lemma grants_store: "app_store s' = app_store s \<Longrightarrow> grants E X B s' token required u = grants E X B s token required u"
proof -
  assume same: "app_store s' = app_store s"
  have "fst (handle_validate_bridge_token E args s') = fst (handle_validate_bridge_token E args s)" for args
    using same by (simp add: handle_validate_bridge_token_def select_kv_def bind_sm_def lift_sm_def ret_sm_def
        throw_sm_def split: option.split sum.split prod.split)
  then show ?thesis by (simp add: grants_def)
qed

text \<open>C10: Nothing is changed through the bridge without authority. Whatever HTTP request arrives, when any
  memory of the store is different afterwards, the request had an accepted \<open>Host\<close> header, a bearer
  token that the bridge or the daemon accepts for the scope of the route (write for storing, read for
  searching), and only memories of the user of that token have changed.\<close>

theorem bridge_authorised:
  assumes "route T E X B rq s = (resp, s')" "memories (app_store s') \<noteq> memories (app_store s)"
  shows "\<exists>token u. check_host (rq_headers rq) (bs_allowed_hosts B) = Inr ()
    \<and> header_str (rq_headers rq) ''authorization'' = Some (''Bearer '' @ token)
    \<and> grants E X B s token (if rq_path rq = ''/memory/store'' then Scope_write else Scope_read) u
    \<and> filter (\<lambda>m. m_user_id m \<noteq> u) (memories (app_store s')) = filter (\<lambda>m. m_user_id m \<noteq> u) (memories (app_store s))"
proof -
  define required where "required = (if rq_path rq = ''/memory/store'' then Scope_write else Scope_read)"
  obtain res t where auth: "authenticate T E X B (rq_headers rq) required s = (res, t)" by fastforce
  note A = authenticate_spec [OF auth]
  obtain u sc m where call: "res = Inr (u, sc)" "call_as T E X u (Memory m) t = (resp, s')"
    using assms auth A(1)
    by (auto simp: route_def required_def http_memory_store_def http_memory_search_def
        split: if_splits sum.splits prod.splits)
  have "others u (app_store s') = others u (app_store s)"
    using call_as_others [OF call(2)] A(1) by (simp add: others_def)
  then show ?thesis using A(2) [OF call(1)] by (auto simp: others_def required_def)
qed

text \<open>A bridge with one token for Alice, and a request that stores with it.\<close>

definition demo_bridge :: bridge_state where
  "demo_bridge = \<lparr>bs_tokens = mint_token (\<lambda>_. [1]) ''t'' ''alice'' Scope_write (new_token_store []),
     bs_allowed_hosts = [], bs_allowed_origins = []\<rparr>"

definition demo_ctx :: bridge_ctx where
  "demo_ctx = \<lparr>bx_sha256 = (\<lambda>_. [1]), bx_iter = id, bx_debug = (\<lambda>_. []), bx_auth_link = Up, bx_link = Up\<rparr>"

definition demo_post :: http_request where
  "demo_post = \<lparr>rq_method = ''POST'', rq_path = ''/memory/store'',
     rq_headers = [(''host'', ''localhost''), (''authorization'', ''Bearer t'')],
     rq_store_body = Inr \<lparr>sy_content = ''x'', sy_category = ''semantic'', sy_memory_type = ''fact'',
       sy_metadata = ''{}'', sy_importance = None\<rparr>, rq_search_body = Inl (http_error 400 [])\<rparr>"

theorem bridge_authorised_witness:
  "\<exists>token u. header_str (rq_headers demo_post) ''authorization'' = Some (''Bearer '' @ token)
    \<and> grants demo_env demo_ctx demo_bridge (fresh_app 10) token Scope_write u"
proof -
  obtain resp s' where run: "route demo_texts demo_env demo_ctx demo_bridge demo_post (fresh_app 10) = (resp, s')"
    by fastforce
  have auth: "authenticate demo_texts demo_env demo_ctx demo_bridge (rq_headers demo_post) Scope_write s
      = (Inr (''alice'', Scope_write), s)" for s
    by (simp add: authenticate_def demo_post_def demo_bridge_def demo_ctx_def check_host_def header_str_def
        is_default_loopback_host_def strip_prefix_def starts_with_def
        validate_token_def store_hash_def hm_insert_def mint_token_def new_token_store_def)
  have "app_store s' = app_store (snd (handle_memory_store demo_env demo_store ''alice'' (fresh_app 10)))"
    using run auth daemon_serves_store [of demo_texts demo_env "''alice''" "Memory (Store demo_store)" "fresh_app 10"]
    by (auto simp: route_def demo_post_def http_memory_store_def call_as_def demo_ctx_def daemon_call_def link_request_def
        demo_store_def handle_request_def handle_memory_request_def split: prod.splits)
  then have "memories (app_store s') \<noteq> memories (app_store (fresh_app 10))"
    using demo_store_adds [of 10] by (simp add: fresh_app_def empty_db_def)
  from bridge_authorised [OF run this] show ?thesis by (auto simp: demo_post_def)
qed

section \<open>What the client of the bridge sees\<close>

text \<open>Whatever went wrong in the daemon, an answer of the daemon becomes status 200 or 500; a token that
  the daemon knows but whose scope is too small is answered like an unknown one.\<close>

lemma daemon_call_status: "hr_status (fst (daemon_call T E L u req s)) \<in> {200, 500}"
  by (auto simp: daemon_call_def daemon_response_to_http_def http_error_def split: prod.splits sum.splits)

lemma daemon_refusal_is_401:
  assumes "fst (handle_validate_bridge_token E \<lparr>vt_token = token, vt_required_scope = to_bridge_scope required\<rparr> s) = Inl e"
  shows "fst (validate_daemon_token T E Up debug token required s) = Inl (http_error 401 ''invalid token'')"
proof -
  let ?req = "Diagnostics (ValidateBridgeToken \<lparr>vt_token = token, vt_required_scope = to_bridge_scope required\<rparr>)"
  have "\<not> rp_ok (fst (daemon_serves T E ''default'' ?req s))"
    using assms
    by (auto simp: daemon_serves_def dispatch_def answer_def handle_request_def response_err_def Let_def split: prod.splits)
  then show ?thesis
    by (auto simp: validate_daemon_token_def link_request_def split: prod.splits)
qed

end
