(* ===== verification/Migrations.thy ===== *)
theory Migrations
  imports CM_Prelude Complex_Main
begin

text \<open>
  The schema migrations of \<open>crates/store/src/pool.rs\<close>: the five migrations as lists of statements, the
  runner that applies the pending ones in order, and a small model of what the statements do to a
  catalog of tables and their rows. A statement commits on its own; nothing encloses a migration in a
  transaction, so a run that stops leaves the statements it has executed.
\<close>

section \<open>Catalog\<close>

datatype sql_value = VNull | VInt int | VReal real | VText string | VBlob "nat list"

record column =
  co_name :: string
  co_type :: string
  co_not_null :: bool
  co_default :: "sql_value option"
  co_references :: "(string \<times> string) option"

type_synonym sql_row = "(string \<times> sql_value) list"

record sql_table =
  tb_columns :: "column list"
  tb_primary_key :: "string list"
  tb_unique :: "string list list"
  tb_rows :: "sql_row list"

record catalog =
  ct_tables :: "(string \<times> sql_table) list"
  ct_indexes :: "string list"
  ct_triggers :: "string list"
  ct_applied :: "(nat \<times> string \<times> int) list option"

datatype statement =
    Create_table string "column list" "string list" "string list list"
  | Create_fts string "string list"
  | Create_index string string "string list"
  | Create_trigger string string
  | Add_column string column
  | Update_copy string string string

datatype migrate_error =
    Name_taken string
  | No_such_table string
  | No_such_column string
  | Duplicate_column string
  | Null_default string

type_synonym 'a migrate = "(catalog, migrate_error, 'a) sm"

definition table_of :: "catalog \<Rightarrow> string \<Rightarrow> sql_table option" where
  "table_of c t = map_of (ct_tables c) t"

definition columns_of :: "sql_table \<Rightarrow> string list" where
  "columns_of T = map co_name (tb_columns T)"

definition on_table :: "string \<Rightarrow> (sql_table \<Rightarrow> sql_table) \<Rightarrow> catalog \<Rightarrow> catalog" where
  "on_table t f c = c\<lparr>ct_tables := map (\<lambda>(n, T). (n, if n = t then f T else T)) (ct_tables c)\<rparr>"

definition add_table :: "string \<Rightarrow> sql_table \<Rightarrow> catalog \<Rightarrow> catalog" where
  "add_table t T c = c\<lparr>ct_tables := ct_tables c @ [(t, T)]\<rparr>"

definition name_taken :: "catalog \<Rightarrow> string \<Rightarrow> bool" where
  "name_taken c n \<longleftrightarrow> n \<in> set (map fst (ct_tables c)) \<or> n \<in> set (ct_indexes c)"

definition value_of :: "sql_row \<Rightarrow> string \<Rightarrow> sql_value" where
  "value_of r k = (case map_of r k of Some v \<Rightarrow> v | None \<Rightarrow> VNull)"

definition set_value :: "string \<Rightarrow> sql_value \<Rightarrow> sql_row \<Rightarrow> sql_row" where
  "set_value k v r = map (\<lambda>(n, x). (n, if n = k then v else x)) r"

definition default_value :: "column \<Rightarrow> sql_value" where
  "default_value col = (case co_default col of Some v \<Rightarrow> v | None \<Rightarrow> VNull)"

definition plain_column :: "string \<Rightarrow> string \<Rightarrow> column" where
  "plain_column n ty = \<lparr>co_name = n, co_type = ty, co_not_null = False, co_default = None, co_references = None\<rparr>"

definition required :: "column \<Rightarrow> column" where
  "required col = col\<lparr>co_not_null := True\<rparr>"

definition with_default :: "sql_value \<Rightarrow> column \<Rightarrow> column" where
  "with_default v col = col\<lparr>co_default := Some v\<rparr>"

definition references :: "string \<Rightarrow> string \<Rightarrow> column \<Rightarrow> column" where
  "references t k col = col\<lparr>co_references := Some (t, k)\<rparr>"

text \<open>One statement of SQLite. A row of a table that gets a column reads its default there.\<close>

fun exec_stmt :: "statement \<Rightarrow> unit migrate" where
  "exec_stmt (Create_table t cols pk uniq) c =
     (if name_taken c t then (Inl (Name_taken t), c)
      else (Inr (), add_table t \<lparr>tb_columns = cols, tb_primary_key = pk, tb_unique = uniq, tb_rows = []\<rparr> c))"
| "exec_stmt (Create_fts t cols) c =
     (if name_taken c t then (Inl (Name_taken t), c)
      else (Inr (), add_table t \<lparr>tb_columns = map (\<lambda>n. plain_column n '''') cols, tb_primary_key = [], tb_unique = [],
               tb_rows = []\<rparr> c))"
| "exec_stmt (Create_index i t cols) c = (case table_of c t of
      None \<Rightarrow> (Inl (No_such_table t), c)
    | Some T \<Rightarrow>
        if name_taken c i then (Inl (Name_taken i), c)
        else (case find (\<lambda>k. k \<notin> set (columns_of T)) cols of
            Some k \<Rightarrow> (Inl (No_such_column k), c)
          | None \<Rightarrow> (Inr (), c\<lparr>ct_indexes := ct_indexes c @ [i]\<rparr>)))"
| "exec_stmt (Create_trigger g t) c =
     (if table_of c t = None then (Inl (No_such_table t), c)
      else if g \<in> set (ct_triggers c) then (Inl (Name_taken g), c)
      else (Inr (), c\<lparr>ct_triggers := ct_triggers c @ [g]\<rparr>))"
| "exec_stmt (Add_column t col) c = (case table_of c t of
      None \<Rightarrow> (Inl (No_such_table t), c)
    | Some T \<Rightarrow>
        if co_name col \<in> set (columns_of T) then (Inl (Duplicate_column (co_name col)), c)
        else if co_not_null col \<and> default_value col = VNull then (Inl (Null_default (co_name col)), c)
        else (Inr (), on_table t (\<lambda>T. T\<lparr>tb_columns := tb_columns T @ [col],
               tb_rows := map (\<lambda>r. r @ [(co_name col, default_value col)]) (tb_rows T)\<rparr>) c))"
| "exec_stmt (Update_copy t dst src) c = (case table_of c t of
      None \<Rightarrow> (Inl (No_such_table t), c)
    | Some T \<Rightarrow> (case find (\<lambda>k. k \<notin> set (columns_of T)) [dst, src] of
          Some k \<Rightarrow> (Inl (No_such_column k), c)
        | None \<Rightarrow> (Inr (), on_table t (\<lambda>T. T\<lparr>tb_rows :=
                     map (\<lambda>r. set_value dst (value_of r src) r) (tb_rows T)\<rparr>) c)))"

definition raw_sql :: "statement list \<Rightarrow> unit migrate" where
  "raw_sql sts = for_sm sts exec_stmt"

section \<open>The migrations\<close>

record migration =
  mg_version :: nat
  mg_name :: string
  mg_sql :: "statement list"

definition MIGRATION_V1_INITIAL_SCHEMA :: "statement list" where
  "MIGRATION_V1_INITIAL_SCHEMA =
    [Create_table ''memories''
      [plain_column ''id'' ''TEXT'', required (plain_column ''user_id'' ''TEXT''),
       required (plain_column ''content'' ''TEXT''), required (plain_column ''category'' ''TEXT''),
       required (plain_column ''memory_type'' ''TEXT''), plain_column ''embedding'' ''BLOB'',
       plain_column ''embedding_provider'' ''TEXT'', plain_column ''embedding_model'' ''TEXT'',
       required (plain_column ''created_at'' ''INTEGER''), required (plain_column ''last_accessed_at'' ''INTEGER''),
       plain_column ''valid_from'' ''INTEGER'', plain_column ''valid_until'' ''INTEGER'',
       plain_column ''ttl_seconds'' ''INTEGER'',
       required (with_default (VReal 0) (plain_column ''retention_floor'' ''REAL'')),
       required (with_default (VInt 0) (plain_column ''retrieval_count'' ''INTEGER'')),
       required (with_default (VText ''{}'') (plain_column ''metadata'' ''TEXT''))] [''id''] [],
     Create_index ''idx_memories_user_id'' ''memories'' [''user_id''],
     Create_index ''idx_memories_user_category'' ''memories'' [''user_id'', ''category''],
     Create_index ''idx_memories_user_type'' ''memories'' [''user_id'', ''memory_type''],
     Create_table ''associations''
      [required (references ''memories'' ''id'' (plain_column ''source_memory_id'' ''TEXT'')),
       required (references ''memories'' ''id'' (plain_column ''target_memory_id'' ''TEXT'')),
       required (plain_column ''weight'' ''REAL''), required (plain_column ''kind'' ''TEXT''),
       required (plain_column ''updated_at'' ''INTEGER'')] [''source_memory_id'', ''target_memory_id''] [],
     Create_index ''idx_associations_target'' ''associations'' [''target_memory_id''],
     Create_table ''events''
      [plain_column ''id'' ''INTEGER'', required (plain_column ''kind'' ''TEXT''),
       required (plain_column ''payload'' ''TEXT''), required (plain_column ''occurred_at'' ''INTEGER'')] [''id''] [],
     Create_index ''idx_events_kind_time'' ''events'' [''kind'', ''occurred_at''],
     Create_table ''embedding_cache''
      [required (plain_column ''provider'' ''TEXT''), required (plain_column ''model'' ''TEXT''),
       required (plain_column ''text_hash'' ''BLOB''), required (plain_column ''embedding'' ''BLOB''),
       required (plain_column ''created_at'' ''INTEGER'')] [''provider'', ''model'', ''text_hash''] [],
     Create_table ''extractions''
      [required (plain_column ''input_hash'' ''BLOB''), required (plain_column ''provider'' ''TEXT''),
       required (plain_column ''model'' ''TEXT''), required (plain_column ''output'' ''TEXT''),
       required (plain_column ''created_at'' ''INTEGER'')] [''input_hash'', ''provider'', ''model''] [],
     Create_table ''kv''
      [required (plain_column ''namespace'' ''TEXT''), required (plain_column ''key'' ''TEXT''),
       required (plain_column ''value'' ''TEXT'')] [''namespace'', ''key''] []]"

definition MIGRATION_V2_FTS5 :: "statement list" where
  "MIGRATION_V2_FTS5 =
    [Create_fts ''memories_fts'' [''id'', ''content''],
     Create_trigger ''memories_after_insert'' ''memories'',
     Create_trigger ''memories_after_update'' ''memories'',
     Create_trigger ''memories_after_delete'' ''memories'']"

definition MIGRATION_V3_FULL_MEMORY_FIELDS :: "statement list" where
  "MIGRATION_V3_FULL_MEMORY_FIELDS =
    [Add_column ''memories'' (required (with_default (VReal 0) (plain_column ''importance'' ''REAL''))),
     Add_column ''memories'' (required (with_default (VReal (1 / 2)) (plain_column ''stability'' ''REAL''))),
     Add_column ''memories'' (required (with_default (VInt 0) (plain_column ''is_cold'' ''INTEGER''))),
     Add_column ''memories'' (plain_column ''cold_since'' ''INTEGER''),
     Add_column ''memories'' (required (with_default (VInt 0) (plain_column ''days_at_floor'' ''INTEGER''))),
     Add_column ''memories'' (required (with_default (VInt 0) (plain_column ''is_superseded'' ''INTEGER''))),
     Add_column ''memories'' (plain_column ''superseded_by'' ''TEXT''),
     Add_column ''memories'' (required (with_default (VInt 0) (plain_column ''is_stub'' ''INTEGER''))),
     Add_column ''memories'' (plain_column ''stub_content'' ''TEXT''),
     Add_column ''memories'' (plain_column ''contradicted_by'' ''TEXT''),
     Add_column ''memories'' (required (with_default (VText ''[]'') (plain_column ''session_ids'' ''TEXT''))),
     Create_index ''idx_memories_user_cold'' ''memories'' [''user_id'', ''is_cold''],
     Create_index ''idx_memories_user_stub'' ''memories'' [''user_id'', ''is_stub''],
     Create_index ''idx_memories_user_superseded'' ''memories'' [''user_id'', ''is_superseded'']]"

definition MIGRATION_V4_CONFLICT_QUEUE :: "statement list" where
  "MIGRATION_V4_CONFLICT_QUEUE =
    [Create_table ''conflict_queue''
      [plain_column ''id'' ''INTEGER'', required (plain_column ''user_id'' ''TEXT''),
       required (references ''memories'' ''id'' (plain_column ''new_memory_id'' ''TEXT'')),
       required (references ''memories'' ''id'' (plain_column ''existing_memory_id'' ''TEXT'')),
       required (plain_column ''similarity'' ''REAL''), required (plain_column ''queued_at'' ''INTEGER'')]
      [''id''] [[''user_id'', ''new_memory_id'', ''existing_memory_id'']],
     Create_index ''idx_conflict_queue_user'' ''conflict_queue'' [''user_id'', ''queued_at'']]"

definition MIGRATION_V5_ASSOCIATION_LAST_CO_RETRIEVAL :: "statement list" where
  "MIGRATION_V5_ASSOCIATION_LAST_CO_RETRIEVAL =
    [Add_column ''associations'' (plain_column ''last_co_retrieval'' ''INTEGER''),
     Update_copy ''associations'' ''last_co_retrieval'' ''updated_at'',
     Create_index ''idx_associations_last_co_retrieval'' ''associations'' [''last_co_retrieval'']]"

definition MIGRATIONS :: "migration list" where
  "MIGRATIONS =
    [\<lparr>mg_version = 1, mg_name = ''initial_schema'', mg_sql = MIGRATION_V1_INITIAL_SCHEMA\<rparr>,
     \<lparr>mg_version = 2, mg_name = ''fts5_for_hybrid_search'', mg_sql = MIGRATION_V2_FTS5\<rparr>,
     \<lparr>mg_version = 3, mg_name = ''full_memory_fields'', mg_sql = MIGRATION_V3_FULL_MEMORY_FIELDS\<rparr>,
     \<lparr>mg_version = 4, mg_name = ''conflict_queue'', mg_sql = MIGRATION_V4_CONFLICT_QUEUE\<rparr>,
     \<lparr>mg_version = 5, mg_name = ''association_last_co_retrieval'', mg_sql = MIGRATION_V5_ASSOCIATION_LAST_CO_RETRIEVAL\<rparr>]"

section \<open>The runner\<close>

definition is_migration_applied :: "nat \<Rightarrow> bool migrate" where
  "is_migration_applied v c = (case ct_applied c of
      Some rows \<Rightarrow> (Inr (v \<in> set (map fst rows)), c)
    | None \<Rightarrow> (Inl (No_such_table ''schema_migrations''), c))"

definition record_migration :: "int \<Rightarrow> migration \<Rightarrow> unit migrate" where
  "record_migration now m c = (case ct_applied c of
      Some rows \<Rightarrow> (Inr (), c\<lparr>ct_applied := Some (rows @ [(mg_version m, mg_name m, now)])\<rparr>)
    | None \<Rightarrow> (Inl (No_such_table ''schema_migrations''), c))"

definition apply_migration :: "int \<Rightarrow> migration \<Rightarrow> unit migrate" where
  "apply_migration now m =
     bind_sm (is_migration_applied (mg_version m)) (\<lambda>already.
       if already then ret_sm ()
       else bind_sm (raw_sql (mg_sql m)) (\<lambda>_. record_migration now m))"

definition create_migrations_table :: "catalog \<Rightarrow> catalog" where
  "create_migrations_table c = (case ct_applied c of None \<Rightarrow> c\<lparr>ct_applied := Some []\<rparr> | Some _ \<Rightarrow> c)"

definition run_migrations :: "int \<Rightarrow> unit migrate" where
  "run_migrations now = bind_sm (modify_sm create_migrations_table) (\<lambda>_. for_sm MIGRATIONS (apply_migration now))"

definition empty_catalog :: catalog where
  "empty_catalog = \<lparr>ct_tables = [], ct_indexes = [], ct_triggers = [], ct_applied = None\<rparr>"


section \<open>The schema of a catalog\<close>

text \<open>The schema forgets the rows and the times of the migrations. What a statement answers, and the
  schema it leaves, depends on the schema only.\<close>

definition no_rows :: "sql_table \<Rightarrow> sql_table" where
  "no_rows T = T\<lparr>tb_rows := []\<rparr>"

definition schema :: "catalog \<Rightarrow> catalog" where
  "schema c = c\<lparr>ct_tables := map (apsnd no_rows) (ct_tables c),
     ct_applied := map_option (map (\<lambda>(v, n, _). (v, n, 0))) (ct_applied c)\<rparr>"

text \<open>\<open>follows m m'\<close>: on the schema, \<open>m'\<close> answers as \<open>m\<close> does and leaves the schema of what \<open>m\<close> leaves.\<close>

definition follows :: "'a migrate \<Rightarrow> 'a migrate \<Rightarrow> bool" where
  "follows m m' \<longleftrightarrow> (\<forall>c. m' (schema c) = (fst (m c), schema (snd (m c))))"

lemma followsD: "follows m m' \<Longrightarrow> m c = (r, d) \<Longrightarrow> m' (schema c) = (r, schema d)"
  by (simp add: follows_def)

lemma follows_bind:
  assumes "follows m m'" "\<And>x. follows (f x) (f' x)"
  shows "follows (bind_sm m f) (bind_sm m' f')"
  unfolding follows_def
proof
  fix c
  obtain r d where m: "m c = (r, d)" by fastforce
  show "bind_sm m' f' (schema c) = (fst (bind_sm m f c), schema (snd (bind_sm m f c)))"
    using followsD [OF assms(1) m] m assms(2) by (cases r) (auto simp: bind_sm_def follows_def)
qed

lemma follows_ret: "follows (ret_sm x) (ret_sm x)"
  by (simp add: follows_def ret_sm_def)

lemma follows_for: "(\<And>x. follows (f x) (f' x)) \<Longrightarrow> follows (for_sm xs f) (for_sm xs f')"
  by (induction xs) (auto intro: follows_bind follows_ret)

lemma schema_simps [simp]:
  "ct_indexes (schema c) = ct_indexes c" "ct_triggers (schema c) = ct_triggers c"
  "map fst (ct_tables (schema c)) = map fst (ct_tables c)"
  "name_taken (schema c) n = name_taken c n"
  by (simp_all add: schema_def name_taken_def)

lemma table_of_schema [simp]: "table_of (schema c) t = map_option no_rows (table_of c t)"
proof -
  have "apsnd no_rows = (\<lambda>(n :: string, T). (n, no_rows T))" by auto
  then show ?thesis by (simp add: table_of_def schema_def map_of_map)
qed

lemma columns_of_no_rows [simp]: "columns_of (no_rows T) = columns_of T"
  by (simp add: columns_of_def no_rows_def)

lemma no_rows_new [simp]:
  "no_rows \<lparr>tb_columns = cols, tb_primary_key = pk, tb_unique = uq, tb_rows = []\<rparr>
     = \<lparr>tb_columns = cols, tb_primary_key = pk, tb_unique = uq, tb_rows = []\<rparr>"
  by (simp add: no_rows_def)

lemma schema_add_table: "schema (add_table t T c) = add_table t (no_rows T) (schema c)"
  by (simp add: schema_def add_table_def)

lemma schema_on_table: "(\<And>T. no_rows (f T) = g (no_rows T)) \<Longrightarrow> schema (on_table t f c) = on_table t g (schema c)"
  by (cases c) (auto simp: schema_def on_table_def)

lemma schema_indexes: "schema (c\<lparr>ct_indexes := xs\<rparr>) = (schema c)\<lparr>ct_indexes := xs\<rparr>"
  by (simp add: schema_def)

lemma schema_triggers: "schema (c\<lparr>ct_triggers := xs\<rparr>) = (schema c)\<lparr>ct_triggers := xs\<rparr>"
  by (simp add: schema_def)

lemma follows_stmt: "follows (exec_stmt st) (exec_stmt st)"
proof (cases st)
  case (Add_column t col)
  have "schema (on_table t (\<lambda>T. T\<lparr>tb_columns := tb_columns T @ [col],
        tb_rows := map (\<lambda>r. r @ [(co_name col, default_value col)]) (tb_rows T)\<rparr>) c)
      = on_table t (\<lambda>T. T\<lparr>tb_columns := tb_columns T @ [col],
        tb_rows := map (\<lambda>r. r @ [(co_name col, default_value col)]) (tb_rows T)\<rparr>) (schema c)" for c
    by (rule schema_on_table) (simp add: no_rows_def)
  then show ?thesis using Add_column by (auto simp: follows_def split: option.split)
next
  case (Update_copy t dst src)
  have "schema (on_table t (\<lambda>T. T\<lparr>tb_rows := map (\<lambda>r. set_value dst (value_of r src) r) (tb_rows T)\<rparr>) c)
      = on_table t (\<lambda>T. T\<lparr>tb_rows := map (\<lambda>r. set_value dst (value_of r src) r) (tb_rows T)\<rparr>) (schema c)" for c
    by (rule schema_on_table) (simp add: no_rows_def)
  then show ?thesis using Update_copy by (auto simp: follows_def simp del: find.simps split: option.split)
qed (auto simp: follows_def schema_add_table schema_indexes schema_triggers split: option.split)

lemma follows_apply: "follows (apply_migration now m) (apply_migration 0 m)"
proof -
  have "follows (is_migration_applied v) (is_migration_applied v)" for v
    by (force simp: follows_def is_migration_applied_def schema_def split: option.split)
  moreover have "follows (record_migration now m) (record_migration 0 m)"
    by (auto simp: follows_def record_migration_def schema_def split: option.split)
  ultimately show ?thesis
    unfolding apply_migration_def raw_sql_def
    by (auto intro!: follows_bind follows_for follows_stmt follows_ret)
qed

definition schema_at :: "nat \<Rightarrow> catalog" where
  "schema_at k = snd (for_sm (take k MIGRATIONS) (apply_migration 0) (create_migrations_table empty_catalog))"

section \<open>Applied migrations are skipped\<close>

definition applied_versions :: "catalog \<Rightarrow> nat set" where
  "applied_versions c = (case ct_applied c of Some rows \<Rightarrow> fst ` set rows | None \<Rightarrow> {})"

lemma exec_applied: "exec_stmt st c = (r, c') \<Longrightarrow> ct_applied c' = ct_applied c"
  by (cases st) (auto simp: add_table_def on_table_def split: if_splits option.splits)

lemma raw_sql_applied: "raw_sql sts c = (r, c') \<Longrightarrow> ct_applied c' = ct_applied c"
  unfolding raw_sql_def
proof (induction sts arbitrary: c)
  case (Cons st sts)
  obtain q d where d: "exec_stmt st c = (q, d)" by fastforce
  show ?case using Cons d exec_applied [OF d] by (cases q) (auto simp: bind_sm_def)
qed (simp add: ret_sm_def)

lemma apply_migration_versions:
  assumes "apply_migration now m c = (Inr (), c')"
  shows "applied_versions c' = insert (mg_version m) (applied_versions c)"
  using assms raw_sql_applied [of "mg_sql m" c]
  by (simp add: apply_migration_def is_migration_applied_def record_migration_def bind_sm_def ret_sm_def
      applied_versions_def split: option.splits if_splits prod.splits sum.splits)
    (force simp: insert_absorb)+

lemma apply_migration_skips:
  assumes "mg_version m \<in> applied_versions c"
  shows "apply_migration now m c = (Inr (), c)"
  using assms
  by (auto simp: apply_migration_def is_migration_applied_def bind_sm_def ret_sm_def applied_versions_def split: option.splits)

lemma for_Inr_iff:
  "for_sm (x # xs) f c = (Inr (), c') \<longleftrightarrow> (\<exists>d. f x c = (Inr (), d) \<and> for_sm xs f d = (Inr (), c'))"
  by (auto simp: bind_sm_def split: prod.splits sum.splits)

lemma for_append_Inr:
  "for_sm (xs @ ys) f c = (Inr (), c') \<longleftrightarrow> (\<exists>d. for_sm xs f c = (Inr (), d) \<and> for_sm ys f d = (Inr (), c'))"
  by (auto simp: for_sm_append bind_sm_def split: prod.splits sum.splits)

lemma migrations_versions:
  "for_sm ms (apply_migration now) c = (Inr (), c') \<Longrightarrow> applied_versions c' = mg_version ` set ms \<union> applied_versions c"
proof (induction ms arbitrary: c)
  case (Cons m ms)
  then obtain d where "apply_migration now m c = (Inr (), d)" "for_sm ms (apply_migration now) d = (Inr (), c')"
    unfolding for_Inr_iff by blast
  then show ?case using Cons.IH apply_migration_versions by fastforce
qed (simp add: ret_sm_def)

lemma migrations_recorded:
  "for_sm ms (apply_migration now) c = (Inr (), c') \<Longrightarrow> ct_applied c \<noteq> None \<Longrightarrow> ct_applied c' \<noteq> None"
proof (induction ms arbitrary: c)
  case (Cons m ms)
  then obtain d where d: "apply_migration now m c = (Inr (), d)" "for_sm ms (apply_migration now) d = (Inr (), c')"
    unfolding for_Inr_iff by blast
  have "ct_applied d \<noteq> None"
    using d(1) Cons.prems(2)
    by (auto simp: apply_migration_def is_migration_applied_def record_migration_def bind_sm_def ret_sm_def
        split: option.splits if_splits prod.splits sum.splits)
  then show ?case using Cons.IH d(2) by blast
qed (simp add: ret_sm_def)

lemma migrations_skip:
  "mg_version ` set ms \<subseteq> applied_versions c \<Longrightarrow> for_sm ms (apply_migration now) c = (Inr (), c)"
  by (induction ms) (auto simp: ret_sm_def bind_sm_def apply_migration_skips)

lemma schema_versions [simp]: "applied_versions (schema c) = applied_versions c"
  by (force simp: applied_versions_def schema_def split: option.split)

lemma schema_at_run:
  "for_sm (take k MIGRATIONS) (apply_migration 0) (create_migrations_table empty_catalog) = (Inr (), schema_at k)"
  "for_sm (drop k MIGRATIONS) (apply_migration 0) (schema_at k) = (Inr (), schema_at 5)"
proof -
  let ?f = "apply_migration 0" and ?c = "create_migrations_table empty_catalog"
  have "fst (for_sm MIGRATIONS ?f ?c) = Inr ()" by code_simp
  moreover have "take 5 MIGRATIONS = MIGRATIONS" by (simp add: MIGRATIONS_def)
  ultimately have "for_sm MIGRATIONS ?f ?c = (Inr (), schema_at 5)"
    by (simp add: schema_at_def prod_eq_iff)
  then have "for_sm (take k MIGRATIONS @ drop k MIGRATIONS) ?f ?c = (Inr (), schema_at 5)" by simp
  then obtain d where d: "for_sm (take k MIGRATIONS) ?f ?c = (Inr (), d)"
    "for_sm (drop k MIGRATIONS) ?f d = (Inr (), schema_at 5)" unfolding for_append_Inr by blast
  moreover have "d = schema_at k" using d(1) by (simp add: schema_at_def)
  ultimately show "for_sm (take k MIGRATIONS) ?f ?c = (Inr (), schema_at k)"
    "for_sm (drop k MIGRATIONS) ?f (schema_at k) = (Inr (), schema_at 5)" by simp_all
qed

section \<open>Rows\<close>

definition rows_fit :: "catalog \<Rightarrow> bool" where
  "rows_fit c \<longleftrightarrow> (\<forall>t T. table_of c t = Some T \<longrightarrow> (\<forall>r \<in> set (tb_rows T). map fst r = columns_of T))"

definition has_column :: "catalog \<Rightarrow> string \<Rightarrow> string \<Rightarrow> bool" where
  "has_column c t k \<longleftrightarrow> (\<exists>T. table_of c t = Some T \<and> k \<in> set (columns_of T))"

text \<open>The values of one column, row by row; of a table that does not exist, none.\<close>

definition column_values :: "catalog \<Rightarrow> string \<Rightarrow> string \<Rightarrow> sql_value list" where
  "column_values c t k = (case table_of c t of Some T \<Rightarrow> map (\<lambda>r. value_of r k) (tb_rows T) | None \<Rightarrow> [])"

definition row_count :: "catalog \<Rightarrow> string \<Rightarrow> nat" where
  "row_count c t = length (column_values c t [])"

lemma length_column_values: "length (column_values c t k) = row_count c t"
  by (simp add: column_values_def row_count_def split: option.split)

lemma table_of_add: "\<not> name_taken c t \<Longrightarrow> table_of (add_table t T c) u = (if u = t then Some T else table_of c u)"
  by (auto simp: table_of_def add_table_def name_taken_def map_add_def map_of_eq_None_iff [THEN iffD2] split: option.split)

lemma table_taken: "table_of c t = Some T \<Longrightarrow> name_taken c t"
  by (force simp: table_of_def name_taken_def dest: map_of_SomeD)

lemma table_of_on: "table_of (on_table t f c) u = map_option (if u = t then f else id) (table_of c u)"
proof -
  have "map_of (map (\<lambda>(n, T). (n, if n = t then f T else T)) ts) u = map_option (if u = t then f else id) (map_of ts u)" for ts
    by (induction ts) auto
  then show ?thesis by (simp add: table_of_def on_table_def)
qed

lemma table_of_other [simp]:
  "table_of (c\<lparr>ct_indexes := xs\<rparr>) t = table_of c t" "table_of (c\<lparr>ct_triggers := xs\<rparr>) t = table_of c t"
  "table_of (c\<lparr>ct_applied := ap\<rparr>) t = table_of c t"
  by (simp_all add: table_of_def)

lemma value_of_append: "value_of (r @ [(n, v)]) k = (if k \<in> set (map fst r) then value_of r k else if k = n then v else VNull)"
proof (cases "map_of r k")
  case None
  then have "k \<notin> set (map fst r)" by (simp add: map_of_eq_None_iff)
  then show ?thesis using None by (simp add: value_of_def map_add_def)
next
  case (Some x)
  then have "k \<in> set (map fst r)" using map_of_eq_None_iff [of r k] by auto
  then show ?thesis using Some by (simp add: value_of_def map_add_def)
qed

lemma value_of_set: "value_of (set_value n v r) k = (if k = n \<and> k \<in> set (map fst r) then v else value_of r k)"
proof (induction r)
  case (Cons e r)
  obtain a x where "e = (a, x)" by fastforce
  then show ?case using Cons by (cases "k = a"; cases "k = n") (simp_all add: value_of_def set_value_def)
qed (simp add: value_of_def set_value_def)

lemma map_fst_set_value [simp]: "map fst (set_value n v r) = map fst r"
  by (induction r) (auto simp: set_value_def)

text \<open>A statement that succeeds keeps the rows in shape and the columns, and changes the values of no
  column that was there unless it is the target of its \<open>UPDATE\<close>.\<close>

lemma exec_rows:
  assumes "exec_stmt st c = (Inr (), c')" "rows_fit c"
  shows "rows_fit c'" "has_column c t k \<Longrightarrow> has_column c' t k" "row_count c' t = row_count c t"
    "has_column c t k \<Longrightarrow> (\<And>src. st \<noteq> Update_copy t k src) \<Longrightarrow> column_values c' t k = column_values c t k"
proof -
  note D = rows_fit_def has_column_def column_values_def row_count_def columns_of_def
  show "rows_fit c'"
    using assms
    by (cases st) (auto simp: D table_of_add table_of_on dest: table_taken split: if_splits option.splits)
  show "has_column c' t k" if "has_column c t k"
    using assms that
    by (cases st) (auto simp: D table_of_add table_of_on dest: table_taken split: if_splits option.splits)
  show "row_count c' t = row_count c t"
    using assms
    by (cases st) (auto simp: D table_of_add table_of_on dest: table_taken split: if_splits option.splits)
  show "column_values c' t k = column_values c t k" if "has_column c t k" "\<And>src. st \<noteq> Update_copy t k src"
  proof -
    have "\<forall>src. st \<noteq> Update_copy t k src" using that(2) by blast
    with assms that(1) show ?thesis
    by (cases st) (auto simp: D table_of_add table_of_on value_of_append value_of_set dest: table_taken split: if_splits option.splits)
  qed
qed

lemma raw_sql_rows:
  assumes "raw_sql sts c = (Inr (), c')" "rows_fit c"
  shows "rows_fit c'" "has_column c t k \<Longrightarrow> has_column c' t k" "row_count c' t = row_count c t"
    "has_column c t k \<Longrightarrow> (\<And>src. Update_copy t k src \<notin> set sts) \<Longrightarrow> column_values c' t k = column_values c t k"
proof -
  have "rows_fit c' \<and> (has_column c t k \<longrightarrow> has_column c' t k) \<and> row_count c' t = row_count c t
    \<and> (has_column c t k \<longrightarrow> (\<forall>src. Update_copy t k src \<notin> set sts) \<longrightarrow> column_values c' t k = column_values c t k)"
    using assms unfolding raw_sql_def
  proof (induction sts arbitrary: c)
    case (Cons st sts)
    then obtain d where d: "exec_stmt st c = (Inr (), d)" "for_sm sts exec_stmt d = (Inr (), c')"
      unfolding for_Inr_iff by blast
    note R = exec_rows [OF d(1) Cons.prems(2)]
    show ?case using Cons.IH [OF d(2) R(1)] R(2,3) [of t] R(4) [of t k] by (auto simp: R(3))
  qed (simp add: ret_sm_def)
  then show "rows_fit c'" "has_column c t k \<Longrightarrow> has_column c' t k" "row_count c' t = row_count c t"
    "has_column c t k \<Longrightarrow> (\<And>src. Update_copy t k src \<notin> set sts) \<Longrightarrow> column_values c' t k = column_values c t k"
    by blast+
qed

lemma raw_sql_split:
  "raw_sql (xs @ st # ys) c = (Inr (), c') \<longleftrightarrow>
     (\<exists>c1 c2. raw_sql xs c = (Inr (), c1) \<and> exec_stmt st c1 = (Inr (), c2) \<and> raw_sql ys c2 = (Inr (), c'))"
  unfolding raw_sql_def for_append_Inr for_Inr_iff by blast

lemma add_column_values:
  assumes "exec_stmt (Add_column t col) c = (Inr (), c')" "rows_fit c"
  shows "has_column c' t (co_name col)"
    "column_values c' t (co_name col) = replicate (row_count c t) (default_value col)"
proof -
  obtain T where T: "table_of c t = Some T" "co_name col \<notin> set (columns_of T)"
    "table_of c' t = Some (T\<lparr>tb_columns := tb_columns T @ [col],
               tb_rows := map (\<lambda>r. r @ [(co_name col, default_value col)]) (tb_rows T)\<rparr>)"
    using assms(1) by (auto simp: table_of_on split: option.splits if_splits)
  show "has_column c' t (co_name col)" using T by (simp add: has_column_def columns_of_def)
  have "\<forall>r \<in> set (tb_rows T). co_name col \<notin> set (map fst r)" using assms(2) T(1,2) by (simp add: rows_fit_def)
  then show "column_values c' t (co_name col) = replicate (row_count c t) (default_value col)"
    using T by (simp add: column_values_def row_count_def value_of_append map_replicate_const cong: map_cong)
qed

lemma update_copy_values:
  assumes "exec_stmt (Update_copy t dst src) c = (Inr (), c')" "rows_fit c" "dst \<noteq> src"
  shows "column_values c' t dst = column_values c' t src"
proof -
  obtain T where T: "table_of c t = Some T" "dst \<in> set (columns_of T)"
    "table_of c' t = Some (T\<lparr>tb_rows := map (\<lambda>r. set_value dst (value_of r src) r) (tb_rows T)\<rparr>)"
    using assms(1) by (auto simp: table_of_on split: option.splits if_splits)
  have "\<forall>r \<in> set (tb_rows T). dst \<in> set (map fst r)" using assms(2) T(1,2) by (simp add: rows_fit_def)
  then show ?thesis using T assms(3) by (simp add: column_values_def value_of_set)
qed

section \<open>Upgrading\<close>

definition pending :: "nat \<Rightarrow> statement list" where
  "pending k = concat (map mg_sql (drop k MIGRATIONS))"

lemma exec_applied_irrelevant:
  "exec_stmt st (c\<lparr>ct_applied := ap\<rparr>) = (fst (exec_stmt st c), (snd (exec_stmt st c))\<lparr>ct_applied := ap\<rparr>)"
proof -
  have "name_taken (c\<lparr>ct_applied := ap\<rparr>) n = name_taken c n" for n by (simp add: name_taken_def)
  then show ?thesis
    by (cases st) (simp_all add: add_table_def on_table_def split: option.split)
qed

lemma raw_sql_applied_irrelevant:
  "raw_sql sts (c\<lparr>ct_applied := ap\<rparr>) = (fst (raw_sql sts c), (snd (raw_sql sts c))\<lparr>ct_applied := ap\<rparr>)"
  unfolding raw_sql_def
proof (induction sts arbitrary: c)
  case (Cons st sts)
  obtain r d where d: "exec_stmt st c = (r, d)" by fastforce
  then show ?case using Cons exec_applied_irrelevant [of st ap c] by (cases r) (simp_all add: bind_sm_def)
qed (simp add: ret_sm_def)

text \<open>Running migrations none of which is applied is, on the tables, running their statements.\<close>

lemma fresh_migrations_raw:
  assumes "for_sm ms (apply_migration now) c = (Inr (), c')" "distinct (map mg_version ms)"
    and "mg_version ` set ms \<inter> applied_versions c = {}"
  shows "\<exists>d ap. raw_sql (concat (map mg_sql ms)) c = (Inr (), d) \<and> c' = d\<lparr>ct_applied := ap\<rparr>"
  using assms
proof (induction ms arbitrary: c)
  case Nil
  then have "raw_sql (concat (map mg_sql [])) c = (Inr (), c) \<and> c' = c\<lparr>ct_applied := ct_applied c\<rparr>"
    by (simp add: raw_sql_def ret_sm_def)
  then show ?case by blast
next
  case (Cons m ms)
  obtain c1 where c1: "apply_migration now m c = (Inr (), c1)" "for_sm ms (apply_migration now) c1 = (Inr (), c')"
    using Cons.prems(1) unfolding for_Inr_iff by blast
  obtain d ap where d: "raw_sql (mg_sql m) c = (Inr (), d)" "c1 = d\<lparr>ct_applied := ap\<rparr>"
    using c1(1) Cons.prems(3)
    by (auto simp: apply_migration_def is_migration_applied_def record_migration_def bind_sm_def applied_versions_def
        split: option.splits if_splits prod.splits sum.splits)
  have "applied_versions c1 = insert (mg_version m) (applied_versions c)"
    using apply_migration_versions [OF c1(1)] .
  then have "mg_version ` set ms \<inter> applied_versions c1 = {}" using Cons.prems(2,3) by auto
  then obtain e ap' where e: "raw_sql (concat (map mg_sql ms)) c1 = (Inr (), e)" "c' = e\<lparr>ct_applied := ap'\<rparr>"
    using Cons.IH [OF c1(2)] Cons.prems(2) by auto
  have "raw_sql (concat (map mg_sql ms)) (d\<lparr>ct_applied := ap\<rparr>)
      = (fst (raw_sql (concat (map mg_sql ms)) d), (snd (raw_sql (concat (map mg_sql ms)) d))\<lparr>ct_applied := ap\<rparr>)"
    by (rule raw_sql_applied_irrelevant)
  then have "fst (raw_sql (concat (map mg_sql ms)) d) = Inr ()" "e = (snd (raw_sql (concat (map mg_sql ms)) d))\<lparr>ct_applied := ap\<rparr>"
    using e(1) d(2) by simp_all
  moreover have "raw_sql (concat (map mg_sql (m # ms))) c = raw_sql (concat (map mg_sql ms)) d"
    using d(1) by (simp add: raw_sql_def for_sm_append bind_sm_def)
  ultimately show ?case using e(2) by (auto simp: prod_eq_iff)
qed

lemma update_copy_columns:
  "exec_stmt (Update_copy t dst src) c = (Inr (), c') \<Longrightarrow> has_column c t dst \<and> has_column c t src"
  by (auto simp: has_column_def split: option.splits if_splits)

lemma pending_backfills:
  assumes "k < 5" "raw_sql (pending k) c = (Inr (), d)" "rows_fit c"
  shows "column_values d ''associations'' ''last_co_retrieval'' = column_values d ''associations'' ''updated_at''"
proof -
  let ?a = "''associations''" and ?u = "Update_copy ''associations'' ''last_co_retrieval'' ''updated_at''"
  define pre where "pre = take (4 - k) (drop k MIGRATIONS)"
  define xs where "xs = concat (map mg_sql pre) @ [Add_column ?a (plain_column ''last_co_retrieval'' ''INTEGER'')]"
  define i where "i = ''idx_associations_last_co_retrieval''"
  have "drop k MIGRATIONS = pre @ drop 4 MIGRATIONS"
    using append_take_drop_id [of "4 - k" "drop k MIGRATIONS"] assms(1) by (simp add: pre_def drop_drop)
  then have "pending k = concat (map mg_sql pre) @ MIGRATION_V5_ASSOCIATION_LAST_CO_RETRIEVAL"
    by (simp add: pending_def) (simp add: MIGRATIONS_def)
  then have p: "pending k = xs @ ?u # [Create_index i ?a [''last_co_retrieval'']]"
    by (simp add: xs_def i_def MIGRATION_V5_ASSOCIATION_LAST_CO_RETRIEVAL_def)
  then obtain c1 c2 where st: "raw_sql xs c = (Inr (), c1)" "exec_stmt ?u c1 = (Inr (), c2)"
    "raw_sql [Create_index i ?a [''last_co_retrieval'']] c2 = (Inr (), d)"
    using assms(2) unfolding p raw_sql_split by blast
  note F1 = raw_sql_rows(1) [OF st(1) assms(3)]
  note X = exec_rows [OF st(2) F1]
  have "has_column c2 ?a ''last_co_retrieval''" "has_column c2 ?a ''updated_at''"
    using update_copy_columns [OF st(2)] X(2) by blast+
  then have "column_values d ?a n = column_values c2 ?a n" if "n \<in> {''last_co_retrieval'', ''updated_at''}" for n
    using raw_sql_rows(4) [OF st(3) X(1)] that by auto
  moreover have "column_values c2 ?a ''last_co_retrieval'' = column_values c2 ?a ''updated_at''"
    using update_copy_values [OF st(2) F1] by simp
  ultimately show ?thesis by simp
qed

text \<open>The pending migrations run as one list of statements, and are recorded.\<close>

lemma run_pending:
  assumes sch: "schema (create_migrations_table c) = schema_at k"
  shows "\<exists>c' d ap. run_migrations now c = (Inr (), c') \<and> schema c' = schema_at 5
    \<and> applied_versions c' = mg_version ` set MIGRATIONS
    \<and> raw_sql (pending k) (create_migrations_table c) = (Inr (), d) \<and> c' = d\<lparr>ct_applied := ap\<rparr>"
proof -
  let ?c = "create_migrations_table c" and ?f = "apply_migration now"
  note run = schema_at_run [of k]
  have vers: "applied_versions ?c = mg_version ` set (take k MIGRATIONS)"
    using migrations_versions [OF run(1)] schema_versions [of ?c] sch
    by (simp add: applied_versions_def create_migrations_table_def empty_catalog_def)
  have "for_sm (take k MIGRATIONS) ?f ?c = (Inr (), ?c)"
    using vers by (intro migrations_skip) simp
  then have whole: "run_migrations now c = for_sm (drop k MIGRATIONS) ?f ?c"
    using for_sm_append [of "take k MIGRATIONS" "drop k MIGRATIONS" ?f]
    by (simp add: run_migrations_def) (simp add: bind_sm_def)
  obtain r c' where c': "for_sm (drop k MIGRATIONS) ?f ?c = (r, c')" by fastforce
  have "for_sm (drop k MIGRATIONS) (apply_migration 0) (schema ?c) = (r, schema c')"
    by (rule followsD [OF follows_for [OF follows_apply] c'])
  then have ok: "r = Inr ()" "schema c' = schema_at 5" using run(2) sch by simp_all
  note c' = c' [unfolded ok(1)]
  have "distinct (map mg_version MIGRATIONS)" by (simp add: MIGRATIONS_def)
  then have "distinct (map mg_version (take k MIGRATIONS @ drop k MIGRATIONS))" by simp
  then have "mg_version ` set (drop k MIGRATIONS) \<inter> applied_versions ?c = {}" "distinct (map mg_version (drop k MIGRATIONS))"
    unfolding vers map_append distinct_append by auto
  then obtain d ap where d: "raw_sql (pending k) ?c = (Inr (), d)" "c' = d\<lparr>ct_applied := ap\<rparr>"
    using fresh_migrations_raw [OF c'] unfolding pending_def by blast
  have "applied_versions c' = mg_version ` set MIGRATIONS"
    using migrations_versions [OF c'] vers by (metis append_take_drop_id image_Un set_append sup_commute)
  with whole c' ok(2) d show ?thesis by auto
qed

lemma run_migrations_again:
  assumes "applied_versions c = mg_version ` set MIGRATIONS"
  shows "run_migrations later c = (Inr (), c)"
proof -
  have "create_migrations_table c = c"
    using assms by (auto simp: create_migrations_table_def applied_versions_def MIGRATIONS_def split: option.splits)
  then show ?thesis using assms by (simp add: run_migrations_def migrations_skip)
qed

lemma added_column_default:
  assumes run: "raw_sql sts c = (Inr (), d)" "rows_fit c" and add: "Add_column t col \<in> set sts"
    and nw: "\<And>src. Update_copy t (co_name col) src \<notin> set sts"
  shows "column_values d t (co_name col) = replicate (row_count c t) (default_value col)"
proof -
  obtain xs ys where p: "sts = xs @ Add_column t col # ys" using split_list [OF add] by blast
  then obtain c1 c2 where st: "raw_sql xs c = (Inr (), c1)" "exec_stmt (Add_column t col) c1 = (Inr (), c2)"
    "raw_sql ys c2 = (Inr (), d)" using run(1) unfolding p raw_sql_split by blast
  note R1 = raw_sql_rows [OF st(1) run(2)]
  note A = add_column_values [OF st(2) R1(1)]
  have "column_values d t (co_name col) = column_values c2 t (co_name col)"
    using raw_sql_rows(4) [OF st(3) exec_rows(1) [OF st(2) R1(1)] A(1)] nw p by simp
  then show ?thesis using A(2) R1(3) [of t] by simp
qed

text \<open>Upgrading keeps the data: what \<open>c'\<close> has of \<open>c\<close>, a database with the first \<open>k\<close> migrations. It has the
  newest schema; every column that was there keeps its values row by row, and no row is lost; a column
  that a pending migration adds reads as its default, and \<open>last_co_retrieval\<close> of every edge becomes its
  \<open>updated_at\<close>.\<close>

definition upgraded :: "nat \<Rightarrow> catalog \<Rightarrow> catalog \<Rightarrow> bool" where
  "upgraded k c c' \<longleftrightarrow> schema c' = schema_at 5
    \<and> (\<forall>t. row_count c' t = row_count c t)
    \<and> (\<forall>t n. has_column c t n \<and> (\<forall>src. Update_copy t n src \<notin> set (pending k)) \<longrightarrow> column_values c' t n = column_values c t n)
    \<and> (\<forall>t col. Add_column t col \<in> set (pending k) \<and> (\<forall>src. Update_copy t (co_name col) src \<notin> set (pending k)) \<longrightarrow>
         column_values c' t (co_name col) = replicate (row_count c t) (default_value col))
    \<and> (k < 5 \<longrightarrow> column_values c' ''associations'' ''last_co_retrieval'' = column_values c' ''associations'' ''updated_at'')"

lemma run_migrations_upgrades:
  assumes sch: "schema (create_migrations_table c) = schema_at k" and "rows_fit c"
  shows "\<exists>c'. run_migrations now c = (Inr (), c') \<and> upgraded k c c' \<and> run_migrations later c' = (Inr (), c')"
proof -
  let ?c = "create_migrations_table c"
  have tabs: "table_of ?c t = table_of c t" for t
    by (simp add: create_migrations_table_def split: option.split)
  then have same: "row_count ?c = row_count c" "column_values ?c = column_values c" "has_column ?c = has_column c"
    and fit: "rows_fit ?c"
    using assms(2) by (simp_all add: fun_eq_iff row_count_def column_values_def has_column_def rows_fit_def)
  obtain c' d ap where run: "run_migrations now c = (Inr (), c')" "schema c' = schema_at 5"
    "applied_versions c' = mg_version ` set MIGRATIONS" "raw_sql (pending k) ?c = (Inr (), d)" "c' = d\<lparr>ct_applied := ap\<rparr>"
    using run_pending [OF sch] by blast
  then have ctab: "row_count c' = row_count d" "column_values c' = column_values d"
    by (simp_all add: fun_eq_iff row_count_def column_values_def)
  have "upgraded k c c'"
    using run(2) raw_sql_rows(3,4) [OF run(4) fit] added_column_default [OF run(4) fit]
      pending_backfills [OF _ run(4) fit] ctab same
    by (auto simp: upgraded_def)
  with run(1) run_migrations_again [OF run(3)] show ?thesis by blast
qed

text \<open>A database of version 1 with one edge.\<close>

definition demo_edge :: sql_row where
  "demo_edge = [(''source_memory_id'', VText ''a''), (''target_memory_id'', VText ''b''), (''weight'', VReal (1 / 2)),
     (''kind'', VText ''explicit''), (''updated_at'', VInt 7)]"

definition demo_v1 :: catalog where
  "demo_v1 = on_table ''associations'' (\<lambda>T. T\<lparr>tb_rows := [demo_edge]\<rparr>) (schema_at 1)"

lemma schema_at_schema: "schema (schema_at k) = schema_at k"
proof -
  have "schema (create_migrations_table empty_catalog) = create_migrations_table empty_catalog"
    by (simp add: schema_def create_migrations_table_def empty_catalog_def)
  then show ?thesis
    using followsD [OF follows_for [OF follows_apply] schema_at_run(1) [of k]] schema_at_run(1) [of k] by simp
qed

lemma schema_at_no_rows: "table_of (schema_at k) t = Some T \<Longrightarrow> tb_rows T = []"
proof -
  assume "table_of (schema_at k) t = Some T"
  then have "T = no_rows T" using table_of_schema [of "schema_at k" t] unfolding schema_at_schema by simp
  then have "tb_rows T = tb_rows (no_rows T)" by (rule arg_cong)
  then show ?thesis by (simp add: no_rows_def)
qed

lemma schema_at_1: "map_option columns_of (table_of (schema_at 1) ''associations'') =
    Some [''source_memory_id'', ''target_memory_id'', ''weight'', ''kind'', ''updated_at'']"
  by code_simp

lemma demo_v1_upgrade:
  "schema (create_migrations_table demo_v1) = schema_at 1" "rows_fit demo_v1"
  "upgraded 1 demo_v1 c' \<Longrightarrow> column_values c' ''associations'' ''updated_at'' = [VInt 7]
     \<and> column_values c' ''associations'' ''last_co_retrieval'' = [VInt 7]"
proof -
  obtain T where T: "table_of (schema_at 1) ''associations'' = Some T"
    "columns_of T = [''source_memory_id'', ''target_memory_id'', ''weight'', ''kind'', ''updated_at'']"
    using schema_at_1 by (cases "table_of (schema_at 1) ''associations''") auto
  have "applied_versions (schema_at 1) = {1}"
    using migrations_versions [OF schema_at_run(1) [of 1]]
    by (simp add: MIGRATIONS_def applied_versions_def create_migrations_table_def empty_catalog_def)
  then have "create_migrations_table demo_v1 = demo_v1"
    by (auto simp: create_migrations_table_def demo_v1_def on_table_def applied_versions_def split: option.splits)
  moreover have "schema demo_v1 = on_table ''associations'' id (schema (schema_at 1))"
    unfolding demo_v1_def by (rule schema_on_table) (simp add: no_rows_def)
  moreover have "(\<lambda>(n, T). (n, if n = ''associations'' then id T else T)) = (id :: string \<times> sql_table \<Rightarrow> _)" by auto
  then have "on_table ''associations'' id c = c" for c by (simp add: on_table_def)
  ultimately show "schema (create_migrations_table demo_v1) = schema_at 1" by (simp add: schema_at_schema)
  show "rows_fit demo_v1"
    using T schema_at_no_rows [of 1]
    by (auto simp: rows_fit_def demo_v1_def table_of_on demo_edge_def columns_of_def split: if_splits)
  have vals: "has_column demo_v1 ''associations'' ''updated_at''" "column_values demo_v1 ''associations'' ''updated_at'' = [VInt 7]"
    using T(1) arg_cong [OF T(2), of set]
    by (auto simp: has_column_def column_values_def demo_v1_def table_of_on columns_of_def value_of_def demo_edge_def)
  moreover have "Update_copy ''associations'' ''updated_at'' src \<notin> set (pending 1)" for src
    by (simp add: pending_def MIGRATIONS_def MIGRATION_V2_FTS5_def MIGRATION_V3_FULL_MEMORY_FIELDS_def
        MIGRATION_V4_CONFLICT_QUEUE_def MIGRATION_V5_ASSOCIATION_LAST_CO_RETRIEVAL_def)
  ultimately show "upgraded 1 demo_v1 c' \<Longrightarrow> column_values c' ''associations'' ''updated_at'' = [VInt 7]
     \<and> column_values c' ''associations'' ''last_co_retrieval'' = [VInt 7]"
    by (auto simp: upgraded_def)
qed

section \<open>A migration that is cut off\<close>

lemma name_taken_on [simp]: "name_taken (on_table t f c) n = name_taken c n"
proof -
  have "fst \<circ> (\<lambda>(n, T). (n, if n = t then f T else T)) = fst" by auto
  then have "map fst (ct_tables (on_table t f c)) = map fst (ct_tables c)" by (simp add: on_table_def)
  then show ?thesis by (simp add: name_taken_def on_table_def)
qed

lemma name_taken_simps [simp]:
  "name_taken (add_table t T c) n \<longleftrightarrow> n = t \<or> name_taken c n"
  "name_taken (c\<lparr>ct_indexes := ct_indexes c @ [i]\<rparr>) n \<longleftrightarrow> n = i \<or> name_taken c n"
  "name_taken (c\<lparr>ct_triggers := ys\<rparr>) n = name_taken c n"
  by (auto simp: name_taken_def add_table_def)

lemma exec_name_taken: "exec_stmt st c = (Inr (), c') \<Longrightarrow> name_taken c n \<Longrightarrow> name_taken c' n"
  by (cases st) (auto split: if_splits option.splits)

lemma raw_sql_name_taken: "raw_sql sts c = (Inr (), c') \<Longrightarrow> name_taken c n \<Longrightarrow> name_taken c' n"
  unfolding raw_sql_def by (induction sts arbitrary: c) (auto simp: ret_sm_def for_Inr_iff simp del: for_sm.simps(2) dest: exec_name_taken)

text \<open>The statements that cannot be executed twice.\<close>

fun creates :: "statement \<Rightarrow> bool" where
  "creates (Create_table t cols pk uniq) = True"
| "creates (Create_fts t cols) = True"
| "creates (Add_column t col) = True"
| "creates _ = False"

lemma creates_once:
  assumes "creates st" "exec_stmt st c = (Inr (), c1)" "raw_sql sts c1 = (Inr (), d)" "rows_fit c"
  shows "\<exists>e. exec_stmt st d = (Inl e, d)"
proof (cases st)
  case (Add_column t col)
  have "has_column d t (co_name col)"
    using raw_sql_rows(2) [OF assms(3) exec_rows(1) [OF assms(2,4)]] add_column_values(1) assms(2,4) Add_column by blast
  then show ?thesis using Add_column by (auto simp: has_column_def)
next
  case (Create_table t cols pk uniq)
  then have "name_taken c1 t" using assms(2) by (auto split: if_splits)
  then show ?thesis using raw_sql_name_taken [OF assms(3)] Create_table by auto
next
  case (Create_fts t cols)
  then have "name_taken c1 t" using assms(2) by (auto split: if_splits)
  then show ?thesis using raw_sql_name_taken [OF assms(3)] Create_fts by auto
qed (use assms(1) in simp_all)

lemma migrations_create: "m \<in> set MIGRATIONS \<Longrightarrow> \<exists>st sts. mg_sql m = st # sts \<and> creates st"
  by (auto simp: MIGRATIONS_def MIGRATION_V1_INITIAL_SCHEMA_def MIGRATION_V2_FTS5_def MIGRATION_V3_FULL_MEMORY_FIELDS_def
      MIGRATION_V4_CONFLICT_QUEUE_def MIGRATION_V5_ASSOCIATION_LAST_CO_RETRIEVAL_def)

text \<open>C21: A migration that is cut off cannot be resumed. When the process stops after at least one statement of
  the next migration and before the migration is recorded, every later attempt to open the database
  fails at that migration and changes nothing.\<close>

theorem interrupted_migration_blocks:
  assumes sch: "schema c = schema_at k" and k: "k < 5" and fit: "rows_fit c"
    and "xs \<noteq> []" and part: "mg_sql (MIGRATIONS ! k) = xs @ ys" and run: "raw_sql xs c = (Inr (), d)"
  shows "\<exists>e. \<forall>now. run_migrations now d = (Inl e, d)"
proof -
  let ?m = "MIGRATIONS ! k"
  have len: "length MIGRATIONS = 5" by (simp add: MIGRATIONS_def)
  have drop: "drop k MIGRATIONS = ?m # drop (Suc k) MIGRATIONS" using k len by (simp add: Cons_nth_drop_Suc)
  obtain st sts where m: "mg_sql ?m = st # sts" "creates st" using migrations_create [of ?m] k len by auto
  then obtain xs' where xs: "xs = st # xs'" using part \<open>xs \<noteq> []\<close> by (cases xs) auto
  obtain c1 where c1: "exec_stmt st c = (Inr (), c1)" "raw_sql xs' c1 = (Inr (), d)"
    using run unfolding xs raw_sql_def for_Inr_iff by blast
  obtain e where e: "exec_stmt st d = (Inl e, d)" using creates_once [OF m(2) c1 fit] by blast
  have ap: "ct_applied d = ct_applied c" using raw_sql_applied [OF run] .
  have vers: "applied_versions d = mg_version ` set (take k MIGRATIONS)"
    using migrations_versions [OF schema_at_run(1) [of k]] schema_versions [of c] sch ap
    by (simp add: applied_versions_def create_migrations_table_def empty_catalog_def)
  have "ct_applied (schema_at k) \<noteq> None"
    using migrations_recorded [OF schema_at_run(1) [of k]] by (simp add: create_migrations_table_def empty_catalog_def)
  then have "ct_applied (schema c) \<noteq> None" using sch by simp
  then have some: "ct_applied d \<noteq> None" using ap by (simp add: schema_def)
  then have "create_migrations_table d = d" by (auto simp: create_migrations_table_def)
  moreover have "for_sm (take k MIGRATIONS) (apply_migration now) d = (Inr (), d)" for now
    using vers by (intro migrations_skip) simp
  moreover have "apply_migration now ?m d = (Inl e, d)" for now
  proof -
    have "distinct (map mg_version (take k MIGRATIONS @ ?m # drop (Suc k) MIGRATIONS))"
      unfolding drop [symmetric] by (simp add: MIGRATIONS_def)
    then have "mg_version ?m \<notin> applied_versions d" unfolding vers by auto
    then show ?thesis
      using some m e
      by (auto simp: apply_migration_def is_migration_applied_def bind_sm_def raw_sql_def applied_versions_def
          split: option.splits)
  qed
  ultimately have "run_migrations now d = (Inl e, d)" for now
    using for_sm_append [of "take k MIGRATIONS" "drop k MIGRATIONS" "apply_migration now"]
    by (simp add: run_migrations_def) (simp add: drop bind_sm_def)
  then show ?thesis by blast
qed

theorem interrupted_migration_blocks_witness:
  "\<exists>d e. raw_sql (take 1 MIGRATION_V1_INITIAL_SCHEMA) (create_migrations_table empty_catalog) = (Inr (), d)
     \<and> run_migrations 9 d = (Inl e, d)"
proof -
  let ?xs = "take 1 MIGRATION_V1_INITIAL_SCHEMA" and ?ys = "drop 1 MIGRATION_V1_INITIAL_SCHEMA"
  let ?c = "create_migrations_table empty_catalog"
  have sch: "schema ?c = schema_at 0"
    using schema_at_run(1) [of 0] schema_at_schema [of 0] by (simp add: ret_sm_def)
  have fit: "rows_fit ?c" by (simp add: rows_fit_def table_of_def create_migrations_table_def empty_catalog_def)
  have ne: "?xs \<noteq> []" and p: "mg_sql (MIGRATIONS ! 0) = ?xs @ ?ys"
    by (simp_all add: MIGRATIONS_def MIGRATION_V1_INITIAL_SCHEMA_def)
  obtain d where d: "raw_sql ?xs ?c = (Inr (), d)"
    by (simp add: MIGRATION_V1_INITIAL_SCHEMA_def raw_sql_def name_taken_def create_migrations_table_def empty_catalog_def
        bind_sm_def ret_sm_def)
  show ?thesis using interrupted_migration_blocks [OF sch _ fit ne p d] d by auto
qed

end
