(* ===== verification/Store_Open.thy ===== *)
theory Store_Open
  imports Migrations Core_Paths
begin

text \<open>
  Opening a store (\<open>Store::open\<close> and \<open>Store::in_memory\<close> of \<open>crates/store/src/pool.rs\<close>): a writer pool of one
  connection that creates the file, a pool of read-only connections, then the migrations. The host has
  the file system and the catalogs of the database files. Reading the database URL is sqlx's, the
  parameter \<open>from_str\<close>.
\<close>

section \<open>The host\<close>

record host =
  ho_fs :: fs
  ho_dbs :: "path \<rightharpoonup> catalog"

datatype journal_mode = Wal_mode
datatype synchronous_mode = Normal_mode

record connect_options =
  op_filename :: path
  op_create_if_missing :: bool
  op_read_only :: bool
  op_journal_mode :: "journal_mode option"
  op_synchronous :: "synchronous_mode option"
  op_pragmas :: "(string \<times> string) list"

record pool =
  pl_options :: connect_options
  pl_max_connections :: nat

record store_pools =
  st_writer :: pool
  st_reader :: pool

datatype open_error =
    Bad_url string
  | Cannot_open string
  | Migration_failed migrate_error

type_synonym 'a open_io = "(host, open_error, 'a) sm"

definition READER_POOL_SIZE :: nat where
  "READER_POOL_SIZE = 4"

text \<open>The catalog SQLite finds in a file: an empty file is an empty database.\<close>

definition db_at :: "host \<Rightarrow> path \<Rightarrow> catalog option" where
  "db_at h p = (case fs_files (ho_fs h) p of
      None \<Rightarrow> None
    | Some (_, content) \<Rightarrow> (case ho_dbs h p of
        Some c \<Rightarrow> Some c | None \<Rightarrow> if content = [] then Some empty_catalog else None))"

text \<open>The first connection of a pool opens the file, or creates it under the umask.\<close>

definition connect_with :: "nat \<Rightarrow> connect_options \<Rightarrow> pool open_io" where
  "connect_with n opts h =
     (let p = op_filename opts; pool = \<lparr>pl_options = opts, pl_max_connections = n\<rparr> in
      case fs_fault (ho_fs h) p of
        Some e \<Rightarrow> (Inl (Cannot_open e), h)
      | None \<Rightarrow>
          if fs_dirs (ho_fs h) p \<noteq> None then (Inl (Cannot_open ''unable to open database file''), h)
          else if fs_files (ho_fs h) p = None
          then if op_create_if_missing opts \<and> \<not> op_read_only opts
               then (Inr pool, h\<lparr>ho_fs := (ho_fs h)\<lparr>fs_files :=
                       (fs_files (ho_fs h))(p \<mapsto> (420 AND NOT (fs_umask (ho_fs h)), []))\<rparr>,
                       ho_dbs := (ho_dbs h)(p \<mapsto> empty_catalog)\<rparr>)
               else (Inl (Cannot_open ''unable to open database file''), h)
          else (case db_at h p of
              None \<Rightarrow> (Inl (Cannot_open ''file is not a database''), h)
            | Some c \<Rightarrow> (Inr pool, h\<lparr>ho_dbs := (ho_dbs h)(p \<mapsto> c)\<rparr>)))"

section \<open>Opening\<close>

definition write_options :: "connect_options \<Rightarrow> connect_options" where
  "write_options o1 = o1\<lparr>op_create_if_missing := True, op_journal_mode := Some Wal_mode,
     op_synchronous := Some Normal_mode, op_pragmas := op_pragmas o1 @ [(''foreign_keys'', ''ON'')]\<rparr>"

definition read_options :: "connect_options \<Rightarrow> connect_options" where
  "read_options o1 = o1\<lparr>op_journal_mode := Some Wal_mode, op_synchronous := Some Normal_mode,
     op_pragmas := op_pragmas o1 @ [(''foreign_keys'', ''ON'')], op_read_only := True\<rparr>"

text \<open>The statements of the migrations go through the writer.\<close>

definition on_writer :: "pool \<Rightarrow> 'a migrate \<Rightarrow> 'a open_io" where
  "on_writer w m h = (case ho_dbs h (op_filename (pl_options w)) of
      None \<Rightarrow> (Inl (Cannot_open ''unable to open database file''), h)
    | Some c \<Rightarrow> (case m c of
        (r, c') \<Rightarrow> (map_sum Migration_failed id r, h\<lparr>ho_dbs := (ho_dbs h)(op_filename (pl_options w) \<mapsto> c')\<rparr>)))"

definition store_open :: "(string \<Rightarrow> string + connect_options) \<Rightarrow> int \<Rightarrow> path \<Rightarrow> store_pools open_io" where
  "store_open from_str now db_path =
     (let db_url = ''sqlite:'' @ db_path in
      bind_sm (lift_sm (map_sum Bad_url id (from_str db_url))) (\<lambda>o1.
      bind_sm (connect_with 1 (write_options o1)) (\<lambda>writer.
      bind_sm (lift_sm (map_sum Bad_url id (from_str db_url))) (\<lambda>o2.
      bind_sm (connect_with READER_POOL_SIZE (read_options o2)) (\<lambda>reader.
      bind_sm (on_writer writer (run_migrations now)) (\<lambda>_.
        ret_sm \<lparr>st_writer = writer, st_reader = reader\<rparr>))))))"

text \<open>An in-memory database lives in the one connection of its pool; what \<open>in_memory\<close> yields is the pool for
  both uses and the database in it.\<close>

definition in_memory ::
  "(string \<Rightarrow> string + connect_options) \<Rightarrow> int \<Rightarrow> open_error + store_pools \<times> catalog" where
  "in_memory from_str now = (case from_str ''sqlite::memory:'' of
      Inl e \<Rightarrow> Inl (Bad_url e)
    | Inr o1 \<Rightarrow>
        let pool = \<lparr>pl_options = o1\<lparr>op_journal_mode := Some Wal_mode,
               op_pragmas := op_pragmas o1 @ [(''foreign_keys'', ''ON'')]\<rparr>, pl_max_connections = 1\<rparr> in
        (case run_migrations now empty_catalog of
           (Inl e, _) \<Rightarrow> Inl (Migration_failed e)
         | (Inr _, c) \<Rightarrow> Inr (\<lparr>st_writer = pool, st_reader = pool\<rparr>, c)))"

section \<open>What opening does\<close>

text \<open>The database that opening works on: the one in the file, or a new one.\<close>

definition db_or_new :: "host \<Rightarrow> path \<Rightarrow> catalog option" where
  "db_or_new h p = (if fs_files (ho_fs h) p = None then Some empty_catalog else db_at h p)"

text \<open>A host on which the file can be opened, with the catalog in it.\<close>

definition created :: "path \<Rightarrow> host \<Rightarrow> host" where
  "created p h = (if fs_files (ho_fs h) p = None
     then h\<lparr>ho_fs := (ho_fs h)\<lparr>fs_files := (fs_files (ho_fs h))(p \<mapsto> (420 AND NOT (fs_umask (ho_fs h)), []))\<rparr>\<rparr> else h)"

definition openable :: "host \<Rightarrow> path \<Rightarrow> bool" where
  "openable h p \<longleftrightarrow> fs_fault (ho_fs h) p = None \<and> fs_dirs (ho_fs h) p = None"

lemma created_simps [simp]:
  "ho_dbs (created p h) = ho_dbs h" "fs_files (ho_fs (created p h)) p \<noteq> None"
  "openable (created p h) q = openable h q" "created p (created p h) = created p h"
  "created p (h\<lparr>ho_dbs := D\<rparr>) = (created p h)\<lparr>ho_dbs := D\<rparr>"
  by (simp_all add: created_def openable_def)

lemma db_or_new_known: "fs_files (ho_fs h) p \<noteq> None \<Longrightarrow> ho_dbs h p = Some c \<Longrightarrow> db_or_new h p = Some c"
  by (auto simp: db_or_new_def db_at_def)

text \<open>What \<open>from_str\<close> documents for the URL of a path without parameters.\<close>

definition file_options :: "path \<Rightarrow> connect_options" where
  "file_options p = \<lparr>op_filename = p, op_create_if_missing = False, op_read_only = False, op_journal_mode = None,
     op_synchronous = None, op_pragmas = []\<rparr>"

lemma connect_writer:
  assumes "openable h p" "db_or_new h p = Some c"
  shows "connect_with n (write_options (file_options p)) h =
    (Inr \<lparr>pl_options = write_options (file_options p), pl_max_connections = n\<rparr>,
     (created p h)\<lparr>ho_dbs := (ho_dbs h)(p \<mapsto> c)\<rparr>)"
  using assms by (auto simp: connect_with_def write_options_def file_options_def openable_def db_or_new_def created_def
      split: if_splits)

lemma connect_reader:
  assumes "openable h p" "fs_files (ho_fs h) p \<noteq> None" "ho_dbs h p = Some c"
  shows "connect_with n (read_options (file_options p)) h =
    (Inr \<lparr>pl_options = read_options (file_options p), pl_max_connections = n\<rparr>, h)"
proof -
  have "db_at h p = Some c" using assms(2,3) by (auto simp: db_at_def)
  moreover have "(ho_dbs h)(p \<mapsto> c) = ho_dbs h" using assms(3) by auto
  ultimately show ?thesis
    using assms by (auto simp: connect_with_def read_options_def file_options_def openable_def Let_def)
qed

definition file_pools :: "path \<Rightarrow> store_pools" where
  "file_pools p = \<lparr>st_writer = \<lparr>pl_options = write_options (file_options p), pl_max_connections = 1\<rparr>,
     st_reader = \<lparr>pl_options = read_options (file_options p), pl_max_connections = 4\<rparr>\<rparr>"

lemma new_database: "schema (create_migrations_table empty_catalog) = schema_at 0" "rows_fit empty_catalog"
  by (simp_all add: schema_at_def schema_def create_migrations_table_def empty_catalog_def rows_fit_def table_of_def
      ret_sm_def)

lemma store_open_eq:
  assumes "from_str (''sqlite:'' @ p) = Inr (file_options p)" "openable h p" "db_or_new h p = Some c"
  shows "store_open from_str now p h = (case run_migrations now c of
      (Inl e, c') \<Rightarrow> (Inl (Migration_failed e), (created p h)\<lparr>ho_dbs := (ho_dbs h)(p \<mapsto> c')\<rparr>)
    | (Inr _, c') \<Rightarrow> (Inr (file_pools p), (created p h)\<lparr>ho_dbs := (ho_dbs h)(p \<mapsto> c')\<rparr>))"
proof -
  let ?h = "(created p h)\<lparr>ho_dbs := (ho_dbs h)(p \<mapsto> c)\<rparr>"
  have op: "openable ?h p" "fs_files (ho_fs ?h) p \<noteq> None" "ho_dbs ?h p = Some c"
    using assms(2) created_simps(2,3) [of p h] by (simp_all add: openable_def)
  have fn: "op_filename (write_options (file_options p)) = p" by (simp add: write_options_def file_options_def)
  show ?thesis
    unfolding store_open_def Let_def assms(1)
    by (simp add: bind_sm_def lift_sm_def ret_sm_def connect_writer [OF assms(2,3)] connect_reader [OF op]
        READER_POOL_SIZE_def on_writer_def fn file_pools_def split: prod.split sum.split)
qed


text \<open>A new file, and a database of version 1 with one edge.\<close>

definition old_host :: host where
  "old_host = \<lparr>ho_fs = \<lparr>fs_dirs = [''/d'' \<mapsto> 448], fs_files = [''/d/data.db'' \<mapsto> (384, ''SQLite'')], fs_umask = 63,
     fs_fault = Map.empty\<rparr>, ho_dbs = [''/d/data.db'' \<mapsto> demo_v1]\<rparr>"

definition url_path :: "string \<Rightarrow> string + connect_options" where
  "url_path url = Inr (file_options (drop 7 url))"


text \<open>An in-memory store starts empty at the newest schema, one connection for reading and writing.\<close>

lemma in_memory_spec:
  assumes "from_str ''sqlite::memory:'' = Inr o1"
  obtains S c where "in_memory from_str now = Inr (S, c)" "st_reader S = st_writer S" "schema c = schema_at 5"
proof -
  obtain c where "run_migrations now empty_catalog = (Inr (), c)" "schema c = schema_at 5"
    using run_migrations_upgrades [OF new_database] unfolding upgraded_def by blast
  then show thesis using that assms by (simp add: in_memory_def Let_def)
qed

end
