(* ===== verification/Rust_Text.thy ===== *)
theory Rust_Text
  imports Rust_Float
begin

text \<open>The bytes of a text, and the cast of an unsigned number to \<open>i32\<close>.\<close>

text \<open>\<open>as_bytes\<close>: the UTF-8 of a text of characters below U+0100.\<close>

definition as_bytes :: "string \<Rightarrow> byte list" where
  "as_bytes s = concat (map (\<lambda>c. let n = of_char c :: nat in
     if n < 128 then [of_nat n] else [of_nat (192 + n div 64), of_nat (128 + n mod 64)]) s)"

definition as_i32 :: "nat \<Rightarrow> int" where
  "as_i32 n = sint (word_of_nat n :: 32 word)"

lemma as_i32_small: "n < 2 ^ 31 \<Longrightarrow> as_i32 n = int n"
  by (simp add: as_i32_def signed_take_bit_int_eq_self signed_of_nat)

end
