(* ===== verification/Embedding_Providers.thy ===== *)
theory Embedding_Providers
  imports Embeddings Rank Hash_Maps Rust_Text
begin

text \<open>
  The two embedding providers (\<open>crates/embeddings/src/fake.rs\<close>, \<open>local.rs\<close>). The deterministic one
  stretches SHA-256 over as many floats as the dimension asks for; it is the provider of a daemon built
  without the feature \<open>local-model\<close>. The other one asks fastembed, which is a parameter. A digest is
  given by its bytes: \<open>sha x i\<close> is the \<open>i\<close>-th of the 32 bytes of the hash of \<open>x\<close>.
\<close>

section \<open>Conversion to single precision\<close>

text \<open>Rounding to the nearest integer, ties to even.\<close>

definition round_half_even :: "real \<Rightarrow> int" where
  "round_half_even x =
     (let f = \<lfloor>x\<rfloor>; d = x - of_int f in if d < 1 / 2 \<or> (d = 1 / 2 \<and> even f) then f else f + 1)"

text \<open>\<open>f32_scale a\<close> is the largest exponent \<open>x\<close>, counted from the smallest normal number, with
  \<open>2 ^ x \<le> a * 2 ^ 126\<close>; 0 for subnormal numbers. A float of that scale is a multiple of
  \<open>2 ^ x / 2 ^ 149\<close>.\<close>

definition f32_scale :: "real \<Rightarrow> nat" where
  "f32_scale a = (case find (\<lambda>x. 2 ^ x \<le> a * 2 ^ 126) (rev [0..<254]) of Some x \<Rightarrow> x | None \<Rightarrow> 0)"

definition f32_mantissa :: "real \<Rightarrow> nat" where
  "f32_mantissa a = nat (round_half_even (a * 2 ^ 149 / 2 ^ f32_scale a))"

text \<open>\<open>r as f32\<close>: the bits are scale and mantissa added up, so that a mantissa that is rounded up to a
  power of two carries into the exponent, in the end into the infinity.\<close>

definition as_f32 :: "real \<Rightarrow> f32" where
  "as_f32 r = (let a = \<bar>r\<bar>; n = f32_scale a * 2 ^ 23 + f32_mantissa a
     in of_nat (min n (255 * 2 ^ 23) + (if r < 0 then 2 ^ 31 else 0)))"

section \<open>The deterministic provider\<close>

record fake_provider =
  fp_name :: string
  fp_model :: string
  fp_dimension :: nat
  fp_overrides :: "(string, f32 list) hash_map"

definition new_fake :: "string \<Rightarrow> string \<Rightarrow> nat \<Rightarrow> fake_provider" where
  "new_fake name model dimension =
     \<lparr>fp_name = name, fp_model = model, fp_dimension = dimension, fp_overrides = []\<rparr>"

definition set_override :: "string \<Rightarrow> f32 list \<Rightarrow> fake_provider \<Rightarrow> fake_provider" where
  "set_override inp vector P = P\<lparr>fp_overrides := hm_insert inp vector (fp_overrides P)\<rparr>"

definition digest :: "(byte list \<Rightarrow> nat \<Rightarrow> byte) \<Rightarrow> byte list \<Rightarrow> byte list" where
  "digest sha x = map (sha x) [0..<32]"

lemma length_digest [simp]: "length (digest sha x) = 32"
  by (simp add: digest_def)

text \<open>The loop that hashes the text with a counter behind it until there are enough bytes; the counter is a
  \<open>u32\<close>.\<close>

function stretch :: "(byte list \<Rightarrow> nat \<Rightarrow> byte) \<Rightarrow> byte list \<Rightarrow> nat \<Rightarrow> 32 word \<Rightarrow> byte list \<Rightarrow> byte list" where
  "stretch sha inp want counter bytes =
     (if length bytes < want
      then stretch sha inp want (counter + 1) (bytes @ digest sha (inp @ to_le_bytes counter))
      else bytes)"
  by pat_completeness auto
termination
  by (relation "measure (\<lambda>(sha, inp, want, counter, bytes). want - length bytes)") auto

declare stretch.simps [simp del]

text \<open>One float from four bytes: \<open>u32\<close> to the interval from -1 to 1.\<close>

definition unit_f32 :: "32 word \<Rightarrow> f32" where
  "unit_f32 raw = as_f32 (real (unat raw) / 4294967295 * 2 - 1)"

definition fake_embed :: "(byte list \<Rightarrow> nat \<Rightarrow> byte) \<Rightarrow> fake_provider \<Rightarrow> string \<Rightarrow> f32 list" where
  "fake_embed sha P inp =
     (case hm_get (fp_overrides P) inp of
        Some v \<Rightarrow> v
      | None \<Rightarrow> map unit_f32 (take (fp_dimension P)
          (decode_f32s (stretch sha (as_bytes inp) (fp_dimension P * 4) 0 []))))"

definition fake_embedder :: "(byte list \<Rightarrow> nat \<Rightarrow> byte) \<Rightarrow> fake_provider \<Rightarrow> embedder" where
  "fake_embedder sha P = \<lparr>emb_name = fp_name P, emb_model = fp_model P, emb_dimension = fp_dimension P,
     emb_embed = (\<lambda>inp. Inr (fake_embed sha P inp))\<rparr>"

section \<open>The model\<close>

text \<open>fastembed: loading the model, and embedding a batch of texts. The lock of the model is poisoned when
  an earlier call panicked.\<close>

record 'm fastembed =
  fe_try_new :: "string + 'm"
  fe_embed :: "'m \<Rightarrow> string list \<Rightarrow> string + f32 list list"

record 'm local_embeddings =
  le_inner :: 'm
  le_poisoned :: bool
  le_name :: string
  le_model_label :: string
  le_dimension :: nat

definition bge_small_en :: "'m fastembed \<Rightarrow> embedding_error + 'm local_embeddings" where
  "bge_small_en F = (case fe_try_new F of
     Inl e \<Rightarrow> Inl (Provider_error (''init bge-small-en-v1.5: '' @ e))
   | Inr model \<Rightarrow> Inr \<lparr>le_inner = model, le_poisoned = False, le_name = ''local'',
       le_model_label = ''bge-small-en-v1.5'', le_dimension = 384\<rparr>)"

definition local_embed :: "'m fastembed \<Rightarrow> 'm local_embeddings \<Rightarrow> string \<Rightarrow> string + f32 list" where
  "local_embed F P inp =
     (if le_poisoned P then Inl ''model mutex poisoned''
      else case fe_embed F (le_inner P) [inp] of
        Inl e \<Rightarrow> Inl (''embed: '' @ e)
      | Inr [] \<Rightarrow> Inl ''empty result from fastembed''
      | Inr (v # _) \<Rightarrow> Inr v)"

definition local_embedder :: "'m fastembed \<Rightarrow> 'm local_embeddings \<Rightarrow> embedder" where
  "local_embedder F P = \<lparr>emb_name = le_name P, emb_model = le_model_label P, emb_dimension = le_dimension P,
     emb_embed = local_embed F P\<rparr>"

section \<open>Rounding\<close>

lemma round_half_even_close: "\<bar>of_int (round_half_even x) - x\<bar> \<le> 1 / 2"
proof -
  have "0 \<le> x - of_int \<lfloor>x\<rfloor>" "x - of_int \<lfloor>x\<rfloor> < 1" by linarith+
  then show ?thesis unfolding round_half_even_def Let_def by (simp split: if_split)
qed

lemma round_half_even_mono_int:
  assumes "x \<le> of_int k"
  shows "round_half_even x \<le> k"
proof -
  have "\<lfloor>x\<rfloor> \<le> k" using assms by linarith
  moreover have "x = of_int k" if "\<lfloor>x\<rfloor> = k" using assms that by linarith
  ultimately show ?thesis by (auto simp: round_half_even_def Let_def order_le_less)
qed

lemma round_half_even_ge_int:
  assumes "of_int k \<le> x"
  shows "k \<le> round_half_even x"
proof -
  have "k \<le> \<lfloor>x\<rfloor>" using assms by (simp add: le_floor_iff)
  then show ?thesis by (simp add: round_half_even_def Let_def)
qed

lemma find_rev_upt_Some:
  "find P (rev [0..<n]) = Some x \<Longrightarrow> x < n \<and> P x \<and> (\<forall>y. x < y \<and> y < n \<longrightarrow> \<not> P y)"
proof (induction n)
  case (Suc n)
  then show ?case by (cases "P n") (auto simp: less_Suc_eq)
qed simp

lemma find_rev_upt_None: "find P (rev [0..<n]) = None \<longleftrightarrow> (\<forall>y<n. \<not> P y)"
  by (auto simp: find_None_iff)

lemma f32_scale_bound: "f32_scale a < 254"
  by (auto simp: f32_scale_def dest: find_rev_upt_Some split: option.split)

text \<open>Below \<open>2 ^ 128\<close> the scale brackets the number.\<close>

lemma f32_scale_bracket:
  assumes "0 \<le> a" "a * 2 ^ 126 < 2 ^ 254"
  shows "f32_scale a = 0 \<or> 2 ^ f32_scale a \<le> a * 2 ^ 126" "a * 2 ^ 126 < 2 * 2 ^ f32_scale a"
proof -
  show "f32_scale a = 0 \<or> 2 ^ f32_scale a \<le> a * 2 ^ 126"
    unfolding f32_scale_def by (cases "find (\<lambda>x. 2 ^ x \<le> a * 2 ^ 126) (rev [0..<254])")
      (auto dest: find_rev_upt_Some)
  show "a * 2 ^ 126 < 2 * 2 ^ f32_scale a"
  proof (cases "find (\<lambda>x. 2 ^ x \<le> a * 2 ^ 126) (rev [0..<254])")
    case None
    then have "\<not> (2 :: real) ^ 0 \<le> a * 2 ^ 126" unfolding find_rev_upt_None by (rule allE [of _ 0]) simp
    then show ?thesis unfolding f32_scale_def None by simp
  next
    case (Some x)
    then have x: "x < 254" "\<And>y. x < y \<Longrightarrow> y < 254 \<Longrightarrow> \<not> 2 ^ y \<le> a * 2 ^ 126"
      using find_rev_upt_Some [OF Some] by auto
    have "a * 2 ^ 126 < 2 ^ Suc x"
    proof (cases "Suc x < 254")
      case True
      then show ?thesis using x(2) [of "Suc x"] by simp
    next
      case False
      then have "Suc x = 254" using x(1) by simp
      then show ?thesis using assms(2) by metis
    qed
    then show ?thesis unfolding f32_scale_def Some by simp
  qed
qed


lemma bit_31_nat: "n < 2 ^ 31 \<Longrightarrow> bit (n + (if neg then 2 ^ 31 else 0)) 31 \<longleftrightarrow> neg" for n :: nat
  by (auto simp: bit_iff_odd div_add1_eq [of n "2 ^ 31"])

lemma unat_of_nat_small: "k < 2 ^ 32 \<Longrightarrow> unat (of_nat k :: 32 word) = k"
  by (simp add: unat_of_nat)

lemma f32_val_fields:
  assumes "n < 255 * 2 ^ 23"
  shows "f32_val (of_nat (n + (if neg then 2 ^ 31 else 0))) =
    (let v = (if n div 2 ^ 23 = 0 then real (n mod 2 ^ 23) / 2 ^ 149
              else real ((8388608 + n mod 2 ^ 23) * 2 ^ (n div 2 ^ 23)) / 2 ^ 150)
     in Fin (if neg then - v else v))"
proof -
  let ?k = "n + (if neg then 2 ^ 31 else 0)"
  have k: "?k < 2 ^ 32" "n < 2 ^ 31" using assms by auto
  have u: "unat (of_nat ?k :: 32 word) = ?k" by (rule unat_of_nat_small) (use k(1) in simp)
  have "bit (of_nat ?k :: 32 word) 31 \<longleftrightarrow> bit (unat (of_nat ?k :: 32 word)) 31" by (simp add: bit_unsigned_iff)
  then have b: "bit (of_nat ?k :: 32 word) 31 \<longleftrightarrow> neg" unfolding u using bit_31_nat [OF k(2)] by simp
  have m: "unat (take_bit 23 (of_nat ?k :: 32 word)) = n mod 2 ^ 23"
    unfolding unsigned_take_bit_eq u by (simp add: take_bit_eq_mod mod_add_eq [symmetric])
  have "unat (take_bit 8 (drop_bit 23 (of_nat ?k :: 32 word))) = n div 2 ^ 23 mod 256"
    unfolding unsigned_take_bit_eq unat_drop_bit_eq u
    using div_mult_self1 [of 8388608 n 256] by (simp add: take_bit_eq_mod drop_bit_eq_div)
  moreover have "n div 2 ^ 23 < 255" using assms by (simp add: div_less_iff_less_mult)
  ultimately have e: "unat (take_bit 8 (drop_bit 23 (of_nat ?k :: 32 word))) = n div 2 ^ 23" by simp
  have ne: "n div 2 ^ 23 \<noteq> 255" using \<open>n div 2 ^ 23 < 255\<close> by simp
  show ?thesis unfolding f32_val_def b m e Let_def using ne by simp
qed

text \<open>The bits of scale and mantissa denote the mantissa at that scale, also when the mantissa is a power of
  two that carries.\<close>

lemma f32_val_scaled:
  assumes "x < 253" "m \<le> 2 ^ 24" "x = 0 \<or> 2 ^ 23 \<le> m"
  shows "f32_val (of_nat (x * 2 ^ 23 + m + (if neg then 2 ^ 31 else 0))) =
    Fin ((if neg then - 1 else 1) * (real m * 2 ^ x / 2 ^ 149))"
proof -
  have n: "x * 2 ^ 23 + m < 255 * 2 ^ 23" using assms(1,2) by simp
  have p: "(2 :: real) ^ 150 = 2 * 2 ^ 149" by simp
  consider "m < 2 ^ 23" "x = 0" | "2 ^ 23 \<le> m" "m < 2 ^ 24" | "m = 2 ^ 24" using assms(2,3) by fastforce
  then show ?thesis
  proof cases
    case 1
    then show ?thesis unfolding f32_val_fields [OF n] by (simp add: Let_def)
  next
    case 2
    then obtain d where d: "m = 2 ^ 23 + d" "d < 2 ^ 23" using le_Suc_ex by fastforce
    then have "(x * 2 ^ 23 + m) div 2 ^ 23 = Suc x" "(x * 2 ^ 23 + m) mod 2 ^ 23 = d" by simp_all
    then show ?thesis unfolding f32_val_fields [OF n] p using d(1) by (simp add: Let_def field_simps)
  next
    case 3
    have c: "x * 2 ^ 23 + m = (x + 2) * 2 ^ 23" using 3 by simp
    have "(x * 2 ^ 23 + m) div 2 ^ 23 = x + 2" "(x * 2 ^ 23 + m) mod 2 ^ 23 = 0" unfolding c by simp_all
    then show ?thesis unfolding f32_val_fields [OF n] p using 3 by (simp add: Let_def field_simps)
  qed
qed


lemma f32_mantissa_bounds:
  assumes "0 \<le> a" "a * 2 ^ 126 < 2 ^ 254"
  shows "f32_mantissa a \<le> 2 ^ 24" "f32_scale a = 0 \<or> 2 ^ 23 \<le> f32_mantissa a"
    "\<bar>real (f32_mantissa a) - a * 2 ^ 149 / 2 ^ f32_scale a\<bar> \<le> 1 / 2"
proof -
  let ?q = "a * 2 ^ 149 / 2 ^ f32_scale a"
  have q: "?q = a * 2 ^ 126 / 2 ^ f32_scale a * 2 ^ 23" by simp
  have "?q \<le> of_int (2 ^ 24)"
    using f32_scale_bracket(2) [OF assms] unfolding q by (simp add: divide_simps)
  then have "round_half_even ?q \<le> 2 ^ 24" by (rule round_half_even_mono_int)
  then show "f32_mantissa a \<le> 2 ^ 24" by (simp add: f32_mantissa_def)
  have "of_int (2 ^ 23) \<le> ?q" if "2 ^ f32_scale a \<le> a * 2 ^ 126"
    using that unfolding q by (simp add: divide_simps)
  then have "2 ^ 23 \<le> round_half_even ?q" if "2 ^ f32_scale a \<le> a * 2 ^ 126"
    using that by (intro round_half_even_ge_int)
  then show "f32_scale a = 0 \<or> 2 ^ 23 \<le> f32_mantissa a"
    using f32_scale_bracket(1) [OF assms] by (auto simp: f32_mantissa_def nat_le_iff le_nat_iff)
  have "0 \<le> round_half_even ?q" using assms(1) by (intro round_half_even_ge_int) simp
  then show "\<bar>real (f32_mantissa a) - ?q\<bar> \<le> 1 / 2"
    using round_half_even_close [of ?q] by (simp add: f32_mantissa_def)
qed


text \<open>A number between -1 and 1 becomes a finite float between -1 and 1, off by at most half a unit in the
  last place of 1.\<close>

lemma as_f32_unit:
  assumes "\<bar>r\<bar> \<le> 1"
  shows "\<exists>v. f32_val (as_f32 r) = Fin v \<and> \<bar>v\<bar> \<le> 1 \<and> \<bar>v - r\<bar> \<le> 1 / 2 ^ 24"
proof -
  define a where "a = \<bar>r\<bar>"
  define x where "x = f32_scale a"
  define m where "m = f32_mantissa a"
  define v where "v = real m * 2 ^ x / 2 ^ 149"
  have a: "0 \<le> a" "a \<le> 1" "a * 2 ^ 126 < 2 ^ 254" using assms by (auto simp: a_def)
  note mb = f32_mantissa_bounds [OF a(1,3), folded x_def m_def]
  have x126: "x \<le> 126"
  proof (rule ccontr)
    assume "\<not> x \<le> 126"
    then have "(2 :: real) ^ 127 \<le> 2 ^ x" by (intro power_increasing) auto
    moreover have "2 ^ x \<le> a * 2 ^ 126"
      using f32_scale_bracket(1) [OF a(1,3)] \<open>\<not> x \<le> 126\<close> by (auto simp: x_def)
    ultimately show False using a(2) by simp
  qed
  then have split: "(2 :: real) ^ 149 = 2 ^ (149 - x) * 2 ^ x" by (simp flip: power_add)
  have "a * 2 ^ 149 / 2 ^ x \<le> of_int (2 ^ (149 - x))" using a(2) unfolding split by simp
  then have "m \<le> 2 ^ (149 - x)"
    unfolding m_def f32_mantissa_def x_def [symmetric] by (simp add: round_half_even_mono_int nat_le_iff)
  then have "real m \<le> 2 ^ (149 - x)" using of_nat_le_iff [of m "2 ^ (149 - x)", where 'a = real] by simp
  then have v1: "0 \<le> v" "v \<le> 1" unfolding v_def split by (simp_all add: divide_simps)
  have "v - a = (real m - a * 2 ^ 149 / 2 ^ x) * (2 ^ x / 2 ^ 149)" by (simp add: v_def field_simps)
  then have "\<bar>v - a\<bar> \<le> 1 / 2 * (2 ^ x / 2 ^ 149)"
    using mb(3) by (simp only: abs_mult) (intro mult_mono, simp_all)
  also have "\<dots> \<le> 1 / 2 * (2 ^ 126 / 2 ^ 149)"
    using x126 by (intro mult_left_mono divide_right_mono power_increasing) auto
  finally have close: "\<bar>v - a\<bar> \<le> 1 / 2 ^ 24" by simp
  have "m \<le> 2 ^ 24" "x * 2 ^ 23 \<le> 126 * 2 ^ 23" using mb(1) x126 by simp_all
  then have "as_f32 r = of_nat (x * 2 ^ 23 + m + (if r < 0 then 2 ^ 31 else 0))"
    unfolding as_f32_def Let_def a_def [symmetric] x_def [symmetric] m_def [symmetric] by (simp add: min_absorb1)
  then have "f32_val (as_f32 r) = Fin ((if r < 0 then - 1 else 1) * v)"
    using f32_val_scaled [of x m "r < 0"] mb(1,2) x126 by (simp add: v_def)
  then show ?thesis
    using v1 close by (intro exI [of _ "(if r < 0 then - 1 else 1) * v"]) (auto simp: a_def abs_if split: if_splits)
qed

section \<open>Vectors of the deterministic provider\<close>

lemma stretch_prefix:
  "\<exists>rest. stretch sha inp want counter bytes = bytes @ rest"
proof (induction sha inp want counter bytes rule: stretch.induct)
  case (1 sha inp want counter bytes)
  then show ?case by (subst stretch.simps) (cases "length bytes < want"; fastforce)
qed

lemma stretch_length:
  "length bytes \<le> want + 32 \<Longrightarrow>
   want \<le> length (stretch sha inp want counter bytes) \<and> length (stretch sha inp want counter bytes) \<le> want + 32"
proof (induction sha inp want counter bytes rule: stretch.induct)
  case (1 sha inp want counter bytes)
  then show ?case by (subst stretch.simps, subst (2) stretch.simps) (cases "length bytes < want"; simp)
qed

lemma unit_f32_value:
  "\<exists>v. f32_val (unit_f32 raw) = Fin v \<and> \<bar>v\<bar> \<le> 1 \<and> \<bar>v - (real (unat raw) / 4294967295 * 2 - 1)\<bar> \<le> 1 / 2 ^ 24"
proof -
  have "\<bar>real k / 4294967295 * 2 - 1\<bar> \<le> 1" if "k \<le> 4294967295" for k :: nat
    using that by (simp add: abs_le_iff field_simps)
  moreover have "unat raw \<le> 4294967295" using unsigned_less [of raw, where 'a = nat] by simp
  ultimately show ?thesis unfolding unit_f32_def by (intro as_f32_unit)
qed

text \<open>A text without an override gets a vector of the dimension of the provider whose components are numbers
  between -1 and 1; an override is answered verbatim.\<close>

theorem fake_embed_spec:
  "fake_embed sha (set_override inp v P) inp' = (if inp' = inp then v else fake_embed sha P inp')"
  "hm_get (fp_overrides P) inp = None \<Longrightarrow> length (fake_embed sha P inp) = fp_dimension P
     \<and> finite_vec (fake_embed sha P inp)
     \<and> (\<forall>w\<in>set (fake_embed sha P inp). \<exists>x. f32_val w = Fin x \<and> \<bar>x\<bar> \<le> 1)"
proof -
  show "fake_embed sha (set_override inp v P) inp' = (if inp' = inp then v else fake_embed sha P inp')"
    by (simp add: fake_embed_def set_override_def hm_get_insert split: option.split)
  assume none: "hm_get (fp_overrides P) inp = None"
  have "fp_dimension P * 4 \<le> length (stretch sha (as_bytes inp) (fp_dimension P * 4) 0 [])"
    using stretch_length [of "[]"] by simp
  then show "length (fake_embed sha P inp) = fp_dimension P
     \<and> finite_vec (fake_embed sha P inp)
     \<and> (\<forall>w\<in>set (fake_embed sha P inp). \<exists>x. f32_val w = Fin x \<and> \<bar>x\<bar> \<le> 1)"
    using unit_f32_value by (fastforce simp: fake_embed_def none length_decode_f32s finite_vec_def is_finite_def)
qed


text \<open>A provider that could be loaded answers with what fastembed gives for the one text.\<close>

lemma local_embed_spec:
  assumes "bge_small_en F = Inr P"
  shows "emb_embed (local_embedder F P) inp = Inr v \<longleftrightarrow> (\<exists>vs. fe_embed F (le_inner P) [inp] = Inr (v # vs))"
    "emb_name (local_embedder F P) = ''local'' \<and> emb_model (local_embedder F P) = ''bge-small-en-v1.5''
     \<and> emb_dimension (local_embedder F P) = 384"
  using assms by (auto simp: bge_small_en_def local_embedder_def local_embed_def split: sum.splits list.splits)

end
