(* ===== verification/Local_Llm.thy ===== *)
theory Local_Llm
  imports Llm Rust_Text
begin

text \<open>
  The local language model (\<open>crates/llm/src/local.rs\<close>): the model is loaded at the first completion and
  kept, and a completion is a greedy decoding loop. llama.cpp is the parameter \<open>llama\<close>: models of type
  \<open>'m\<close>, contexts of type \<open>'c\<close>, batches of type \<open>'b\<close>. Tokens are \<open>i32\<close>. The greedy sampler has no state of
  its own; the text of a token includes \<open>from_utf8_lossy\<close>.
\<close>

section \<open>llama.cpp\<close>

record ('m, 'c, 'b) llama =
  lm_init :: "string + unit"
  lm_load_from_file :: "string \<Rightarrow> string + 'm"
  lm_new_context :: "'m \<Rightarrow> nat option \<Rightarrow> nat \<Rightarrow> string + 'c"
  lm_n_ctx :: "'c \<Rightarrow> nat"
  lm_str_to_token :: "'m \<Rightarrow> string \<Rightarrow> string + int list"
  lm_token_eos :: "'m \<Rightarrow> int"
  lm_piece :: "'m \<Rightarrow> int \<Rightarrow> string + string"
  lm_sample :: "'c \<Rightarrow> int \<Rightarrow> int"
  lm_decode :: "'b \<Rightarrow> 'c \<Rightarrow> string + 'c"
  lm_batch_new :: "nat \<Rightarrow> nat \<Rightarrow> 'b"
  lm_batch_add :: "int \<Rightarrow> int \<Rightarrow> int list \<Rightarrow> bool \<Rightarrow> 'b \<Rightarrow> string + 'b"
  lm_batch_clear :: "'b \<Rightarrow> 'b"
  lm_n_tokens :: "'b \<Rightarrow> int"

section \<open>Loading the model\<close>

text \<open>The process: whether the backend is initialised (a static of the program), and the provider with the
  cell of its model.\<close>

record 'm local_llm =
  ll_backend :: bool
  ll_model_path :: string
  ll_model_name :: string
  ll_model :: "'m option"

definition new_local_llm :: "string option \<Rightarrow> string \<Rightarrow> bool \<Rightarrow> 'm local_llm" where
  "new_local_llm file_stem model_path backend = \<lparr>ll_backend = backend, ll_model_path = model_path,
     ll_model_name = (case file_stem of Some s \<Rightarrow> s | None \<Rightarrow> ''local-gguf''), ll_model = None\<rparr>"

text \<open>\<open>backend\<close>: the error is the panic of a failed initialisation, which leaves the static unset.\<close>

definition backend :: "('m, 'c, 'b) llama \<Rightarrow> ('m local_llm, string, unit) sm" where
  "backend L s = (if ll_backend s then (Inr (), s) else case lm_init L of
      Inl p \<Rightarrow> (Inl p, s)
    | Inr _ \<Rightarrow> (Inr (), s\<lparr>ll_backend := True\<rparr>))"

text \<open>A panic of the loading task is the error of its join.\<close>

definition ensure_model :: "('m, 'c, 'b) llama \<Rightarrow> ('m local_llm, llm_error, 'm) sm" where
  "ensure_model L = bind_sm (gets_sm ll_model) (\<lambda>cell. case cell of
      Some model \<Rightarrow> ret_sm model
    | None \<Rightarrow>
        bind_sm (map_err (\<lambda>p. Llm_provider (''join load: '' @ p)) (backend L)) (\<lambda>_.
        bind_sm (gets_sm ll_model_path) (\<lambda>path.
        bind_sm (lift_sm (map_sum (\<lambda>e. Llm_provider (''load_from_file: '' @ e)) id (lm_load_from_file L path))) (\<lambda>model.
        bind_sm (modify_sm (\<lambda>s. s\<lparr>ll_model := Some model\<rparr>)) (\<lambda>_. ret_sm model)))))"

section \<open>Greedy decoding\<close>

definition ctx_size :: "string \<Rightarrow> nat \<Rightarrow> nat" where
  "ctx_size prompt max_tokens = max (length (as_bytes prompt) div 2 + max_tokens + 256) 2048 mod 2 ^ 32"

text \<open>The prompt as a batch; the logits of its last token are asked for.\<close>

fun add_prompt :: "('m, 'c, 'b) llama \<Rightarrow> nat \<Rightarrow> nat \<Rightarrow> int list \<Rightarrow> 'b \<Rightarrow> llm_error + 'b" where
  "add_prompt L n i [] b = Inr b"
| "add_prompt L n i (tok # toks) b = (case lm_batch_add L tok (as_i32 i) [0] (i = n - 1) b of
      Inl e \<Rightarrow> Inl (Llm_provider (''batch add: '' @ e))
    | Inr b' \<Rightarrow> add_prompt L n (i + 1) toks b')"

fun generate :: "('m, 'c, 'b) llama \<Rightarrow> 'm \<Rightarrow> nat \<Rightarrow> 'c \<Rightarrow> 'b \<Rightarrow> int \<Rightarrow> string \<Rightarrow> llm_error + string" where
  "generate L model 0 ctx b n_cur outp = Inr outp"
| "generate L model (Suc k) ctx b n_cur outp =
     (let token = lm_sample L ctx (lm_n_tokens L b - 1) in
      if token = lm_token_eos L model then Inr outp
      else case lm_piece L model token of
        Inl e \<Rightarrow> Inl (Llm_provider (''token_to_piece_bytes: '' @ e))
      | Inr piece \<Rightarrow> (case lm_batch_add L token n_cur [0] True (lm_batch_clear L b) of
          Inl e \<Rightarrow> Inl (Llm_provider (''batch add gen: '' @ e))
        | Inr b' \<Rightarrow> (case lm_decode L b' ctx of
            Inl e \<Rightarrow> Inl (Llm_provider (''decode gen: '' @ e))
          | Inr ctx' \<Rightarrow> generate L model k ctx' b' (n_cur + 1) (outp @ piece))))"

definition decode_greedy :: "('m, 'c, 'b) llama \<Rightarrow> 'm \<Rightarrow> string \<Rightarrow> nat \<Rightarrow> llm_error + string" where
  "decode_greedy L model prompt max_tokens =
     (let size = ctx_size prompt max_tokens in
      case lm_new_context L model (if size = 0 then None else Some size) (min size 512) of
        Inl e \<Rightarrow> Inl (Llm_provider (''new_context: '' @ e))
      | Inr ctx \<Rightarrow> (case lm_str_to_token L model prompt of
          Inl e \<Rightarrow> Inl (Llm_provider (''tokenize: '' @ e))
        | Inr tokens \<Rightarrow>
            let n_prompt = length tokens in
            if as_i32 (lm_n_ctx L ctx) \<le> as_i32 n_prompt
            then Inl (Llm_provider (''prompt '' @ radix_str 10 n_prompt @ '' tokens exceeds ctx ''
              @ radix_str 10 (lm_n_ctx L ctx)))
            else (case add_prompt L n_prompt 0 tokens (lm_batch_new L 512 1) of
                Inl e \<Rightarrow> Inl e
              | Inr b \<Rightarrow> (case lm_decode L b ctx of
                  Inl e \<Rightarrow> Inl (Llm_provider (''decode prompt: '' @ e))
                | Inr ctx' \<Rightarrow> generate L model max_tokens ctx' b (lm_n_tokens L b) []))))"

definition local_complete ::
  "('m, 'c, 'b) llama \<Rightarrow> string \<Rightarrow> nat \<Rightarrow> ('m local_llm, llm_error, string) sm" where
  "local_complete L prompt max_tokens =
     bind_sm (ensure_model L) (\<lambda>model. lift_sm (decode_greedy L model prompt max_tokens))"


section \<open>Loading once\<close>

text \<open>A loaded model implies an initialised backend, so that \<open>backend()\<close> in the decoding finds it set.\<close>

definition local_ok :: "'m local_llm \<Rightarrow> bool" where
  "local_ok s \<longleftrightarrow> (ll_model s \<noteq> None \<longrightarrow> ll_backend s)"

lemma ensure_model_loaded: "ll_model s = Some model \<Longrightarrow> ensure_model L s = (Inr model, s)"
  by (simp add: ensure_model_def bind_sm_def gets_sm_def ret_sm_def)

lemma ensure_model_first:
  "ll_model s = None \<Longrightarrow> ensure_model L s =
     (if ll_backend s \<or> lm_init L = Inr ()
      then (case lm_load_from_file L (ll_model_path s) of
          Inl e \<Rightarrow> (Inl (Llm_provider (''load_from_file: '' @ e)), s\<lparr>ll_backend := True\<rparr>)
        | Inr model \<Rightarrow> (Inr model, s\<lparr>ll_backend := True, ll_model := Some model\<rparr>))
      else (Inl (Llm_provider (''join load: '' @ projl (lm_init L))), s))"
  by (cases "lm_init L"; cases "lm_load_from_file L (ll_model_path s)"; cases "ll_backend s")
    (simp_all add: ensure_model_def backend_def bind_sm_def gets_sm_def ret_sm_def map_err_def lift_sm_def
      modify_sm_def)

lemma ensure_model_ok: "local_ok s \<Longrightarrow> local_ok (snd (ensure_model L s))"
  by (cases "ll_model s"; cases "lm_load_from_file L (ll_model_path s)")
    (auto simp: local_ok_def ensure_model_loaded ensure_model_first)

lemma local_complete_eq:
  "local_complete L prompt n s = (case ensure_model L s of
     (Inl e, s') \<Rightarrow> (Inl e, s') | (Inr model, s') \<Rightarrow> (decode_greedy L model prompt n, s'))"
  by (simp add: local_complete_def bind_sm_def lift_sm_def split: prod.split sum.split)

text \<open>The model is loaded at most once: after a completion that got as far as decoding, every completion
  decodes with that model and changes nothing, whatever the file holds by then. A failed load is
  tried again by the next completion.\<close>

theorem local_complete_loads_once:
  assumes "local_ok s" "local_complete L prompt n s = (r, s')"
  shows "local_ok s'"
    and "ll_model s' = Some model \<Longrightarrow> r = decode_greedy L model prompt n
      \<and> local_complete L' prompt' n' s' = (decode_greedy L' model prompt' n', s') \<and> backend L' s' = (Inr (), s')"
    and "ll_model s' = None \<Longrightarrow> (\<exists>e. r = Inl e) \<and> ll_model s = None"
proof -
  have en: "s' = snd (ensure_model L s)"
    "r = (case fst (ensure_model L s) of Inl e \<Rightarrow> Inl e | Inr m \<Rightarrow> decode_greedy L m prompt n)"
    using assms(2) by (auto simp: local_complete_eq split: prod.splits sum.splits)
  show ok: "local_ok s'" unfolding en by (rule ensure_model_ok [OF assms(1)])
  show "r = decode_greedy L model prompt n
      \<and> local_complete L' prompt' n' s' = (decode_greedy L' model prompt' n', s') \<and> backend L' s' = (Inr (), s')"
    if m: "ll_model s' = Some model"
    using m en ok by (cases "ll_model s"; cases "lm_load_from_file L (ll_model_path s)")
      (auto simp: local_complete_eq ensure_model_loaded ensure_model_first backend_def local_ok_def split: if_splits)
  show "(\<exists>e. r = Inl e) \<and> ll_model s = None" if m: "ll_model s' = None"
    using m en by (cases "ll_model s"; cases "lm_load_from_file L (ll_model_path s)")
      (auto simp: ensure_model_loaded ensure_model_first split: if_splits)
qed

section \<open>What decoding returns\<close>

text \<open>A run of the greedy loop: every token is the sample of the context, is not the end of the text, and is
  decoded at the next position.\<close>

inductive emits :: "('m, 'c, 'b) llama \<Rightarrow> 'm \<Rightarrow> 'c \<Rightarrow> 'b \<Rightarrow> int \<Rightarrow> int list \<Rightarrow> string \<Rightarrow> 'c \<Rightarrow> 'b \<Rightarrow> bool"
  for L model where
  emits_nothing: "emits L model c b n [] [] c b"
| emits_token: "emits L model c b n (t # ts) (p @ outp) c'' b''"
  if "t = lm_sample L c (lm_n_tokens L b - 1)" "t \<noteq> lm_token_eos L model" "lm_piece L model t = Inr p"
    "lm_batch_add L t n [0] True (lm_batch_clear L b) = Inr b'" "lm_decode L b' c = Inr c'"
    "emits L model c' b' (n + 1) ts outp c'' b''"

inductive_cases emits_NilE: "emits L model c b n [] outp c' b'"
inductive_cases emits_ConsE: "emits L model c b n (t # ts) outp c' b'"

lemma emits_facts:
  "emits L model c b n ts outp c' b' \<Longrightarrow>
   lm_token_eos L model \<notin> set ts \<and> map Inr (map (\<lambda>t. projr (lm_piece L model t)) ts) = map (lm_piece L model) ts
   \<and> outp = concat (map (\<lambda>t. projr (lm_piece L model t)) ts)"
  by (induction rule: emits.induct) auto

lemma generate_Inr:
  "generate L model k c b n outp = Inr res \<longleftrightarrow>
   (\<exists>ts piece c' b'. emits L model c b n ts piece c' b' \<and> res = outp @ piece
      \<and> (length ts = k \<or> length ts < k \<and> lm_sample L c' (lm_n_tokens L b' - 1) = lm_token_eos L model))"
proof (induction k arbitrary: c b n outp)
  case 0
  then show ?case by (auto intro: emits_nothing elim: emits_NilE)
next
  case (Suc k)
  show ?case
  proof
    assume "generate L model (Suc k) c b n outp = Inr res"
    then consider (eos) "lm_sample L c (lm_n_tokens L b - 1) = lm_token_eos L model" "res = outp"
      | (step) p b' c' where "lm_sample L c (lm_n_tokens L b - 1) \<noteq> lm_token_eos L model"
          "lm_piece L model (lm_sample L c (lm_n_tokens L b - 1)) = Inr p"
          "lm_batch_add L (lm_sample L c (lm_n_tokens L b - 1)) n [0] True (lm_batch_clear L b) = Inr b'"
          "lm_decode L b' c = Inr c'" "generate L model k c' b' (n + 1) (outp @ p) = Inr res"
      by (auto simp: Let_def split: if_splits sum.splits)
    then show "\<exists>ts piece c' b'. emits L model c b n ts piece c' b' \<and> res = outp @ piece
      \<and> (length ts = Suc k \<or> length ts < Suc k \<and> lm_sample L c' (lm_n_tokens L b' - 1) = lm_token_eos L model)"
    proof cases
      case eos
      then show ?thesis by (intro exI [of _ "[]"] exI [of _ c] exI [of _ b]) (simp add: emits_nothing)
    next
      case step
      obtain ts piece c'' b'' where r: "emits L model c' b' (n + 1) ts piece c'' b''" "res = (outp @ p) @ piece"
        "length ts = k \<or> length ts < k \<and> lm_sample L c'' (lm_n_tokens L b'' - 1) = lm_token_eos L model"
        using step(5) unfolding Suc.IH by blast
      show ?thesis
        using emits_token [OF refl step(1-4) r(1)] r(2,3)
        by (intro exI [of _ "_ # ts"] exI [of _ "p @ piece"] exI [of _ c''] exI [of _ b'']) auto
    qed
  next
    assume "\<exists>ts piece c' b'. emits L model c b n ts piece c' b' \<and> res = outp @ piece
      \<and> (length ts = Suc k \<or> length ts < Suc k \<and> lm_sample L c' (lm_n_tokens L b' - 1) = lm_token_eos L model)"
    then obtain ts piece c' b' where r: "emits L model c b n ts piece c' b'" "res = outp @ piece"
      "length ts = Suc k \<or> length ts < Suc k \<and> lm_sample L c' (lm_n_tokens L b' - 1) = lm_token_eos L model"
      by blast
    show "generate L model (Suc k) c b n outp = Inr res"
    proof (cases ts)
      case Nil
      then show ?thesis using r by (auto elim: emits_NilE)
    next
      case (Cons t ts')
      from r(1) [unfolded Cons] obtain p piece' b1 c1 where
        e: "t = lm_sample L c (lm_n_tokens L b - 1)" "t \<noteq> lm_token_eos L model" "lm_piece L model t = Inr p"
        "lm_batch_add L t n [0] True (lm_batch_clear L b) = Inr b1" "lm_decode L b1 c = Inr c1"
        "emits L model c1 b1 (n + 1) ts' piece' c' b'" "piece = p @ piece'"
        by (rule emits_ConsE) blast
      have "generate L model k c1 b1 (n + 1) (outp @ p) = Inr res"
        unfolding Suc.IH using e(6,7) r(2,3) Cons
        by (intro exI [of _ ts'] exI [of _ piece'] exI [of _ c'] exI [of _ b']) auto
      then show ?thesis using e by (simp add: Let_def)
    qed
  qed
qed

section \<open>When decoding succeeds\<close>

text \<open>What llama.cpp documents of batches and contexts: a batch takes as many tokens as it was allocated
  for (\<open>room\<close>); a context of a given size holds that many positions, and decoding a batch of at most
  \<open>n_batch\<close> tokens succeeds while they fit (\<open>used\<close>).\<close>

definition llama_ok :: "('m, 'c, 'b) llama \<Rightarrow> ('b \<Rightarrow> nat) \<Rightarrow> ('c \<Rightarrow> nat) \<Rightarrow> 'm \<Rightarrow> bool" where
  "llama_ok L room used model \<longleftrightarrow>
     (\<forall>n k. 0 < n \<longrightarrow> (\<exists>c. lm_new_context L model (Some n) k = Inr c \<and> lm_n_ctx L c = n \<and> used c = 0))
   \<and> (\<forall>k m. room (lm_batch_new L k m) = k \<and> lm_n_tokens L (lm_batch_new L k m) = 0)
   \<and> (\<forall>t p q l b. if lm_n_tokens L b < int (room b)
        then \<exists>b'. lm_batch_add L t p q l b = Inr b' \<and> lm_n_tokens L b' = lm_n_tokens L b + 1 \<and> room b' = room b
        else \<exists>e. lm_batch_add L t p q l b = Inl e)
   \<and> (\<forall>b. room (lm_batch_clear L b) = room b \<and> lm_n_tokens L (lm_batch_clear L b) = 0)
   \<and> (\<forall>b c. 0 \<le> lm_n_tokens L b \<and> lm_n_tokens L b \<le> 512 \<and> int (used c) + lm_n_tokens L b \<le> int (lm_n_ctx L c) \<longrightarrow>
        (\<exists>c'. lm_decode L b c = Inr c' \<and> lm_n_ctx L c' = lm_n_ctx L c \<and> int (used c') = int (used c) + lm_n_tokens L b))
   \<and> (\<forall>t. \<exists>p. lm_piece L model t = Inr p)"

lemma llama_okD:
  assumes "llama_ok L room used model"
  shows "0 < n \<Longrightarrow> \<exists>c. lm_new_context L model (Some n) k = Inr c \<and> lm_n_ctx L c = n \<and> used c = 0"
    and "room (lm_batch_new L k m) = k" "lm_n_tokens L (lm_batch_new L k m) = 0"
    and "lm_n_tokens L b < int (room b) \<Longrightarrow> \<exists>b'. lm_batch_add L t p q l b = Inr b'
      \<and> lm_n_tokens L b' = lm_n_tokens L b + 1 \<and> room b' = room b"
    and "int (room b) \<le> lm_n_tokens L b \<Longrightarrow> \<exists>e. lm_batch_add L t p q l b = Inl e"
    and "room (lm_batch_clear L b) = room b" "lm_n_tokens L (lm_batch_clear L b) = 0"
    and "0 \<le> lm_n_tokens L b \<Longrightarrow> lm_n_tokens L b \<le> 512 \<Longrightarrow> int (used c) + lm_n_tokens L b \<le> int (lm_n_ctx L c) \<Longrightarrow>
      \<exists>c'. lm_decode L b c = Inr c' \<and> lm_n_ctx L c' = lm_n_ctx L c \<and> int (used c') = int (used c) + lm_n_tokens L b"
    and "\<exists>p. lm_piece L model t = Inr p"
  using assms unfolding llama_ok_def by (meson linorder_not_less)+

lemma add_prompt_fits:
  assumes "llama_ok L room used model" "lm_n_tokens L b + int (length toks) \<le> int (room b)"
  shows "\<exists>b'. add_prompt L n i toks b = Inr b' \<and> lm_n_tokens L b' = lm_n_tokens L b + int (length toks)
    \<and> room b' = room b"
  using assms(2)
proof (induction toks arbitrary: i b)
  case (Cons t toks)
  obtain b1 where b1: "lm_batch_add L t (as_i32 i) [0] (i = n - 1) b = Inr b1"
    "lm_n_tokens L b1 = lm_n_tokens L b + 1" "room b1 = room b"
    using llama_okD(4) [OF assms(1), of b] Cons.prems by fastforce
  then show ?case using Cons.IH [of b1 "i + 1"] Cons.prems by auto
qed auto

lemma add_prompt_overflows:
  assumes "llama_ok L room used model" "lm_n_tokens L b \<le> int (room b)"
    "int (room b) < lm_n_tokens L b + int (length toks)"
  shows "\<exists>e. add_prompt L n i toks b = Inl (Llm_provider (''batch add: '' @ e))"
  using assms(2,3)
proof (induction toks arbitrary: i b)
  case (Cons t toks)
  show ?case
  proof (cases "lm_n_tokens L b < int (room b)")
    case True
    then obtain b1 where b1: "lm_batch_add L t (as_i32 i) [0] (i = n - 1) b = Inr b1"
      "lm_n_tokens L b1 = lm_n_tokens L b + 1" "room b1 = room b"
      using llama_okD(4) [OF assms(1)] by blast
    then show ?thesis using Cons.IH [of b1 "i + 1"] Cons.prems True by auto
  next
    case False
    then obtain e where "lm_batch_add L t (as_i32 i) [0] (i = n - 1) b = Inl e"
      using llama_okD(5) [OF assms(1), of b] by fastforce
    then show ?thesis by auto
  qed
qed auto

lemma generate_returns:
  assumes "llama_ok L room used model" "0 < room b" "used c + k \<le> lm_n_ctx L c"
  shows "\<exists>res. generate L model k c b n outp = Inr res"
  using assms(2,3)
proof (induction k arbitrary: c b n outp)
  case (Suc k)
  let ?t = "lm_sample L c (lm_n_tokens L b - 1)"
  show ?case
  proof (cases "?t = lm_token_eos L model")
    case False
    obtain p where p: "lm_piece L model ?t = Inr p" using llama_okD(9) [OF assms(1)] by blast
    obtain b1 where b1: "lm_batch_add L ?t n [0] True (lm_batch_clear L b) = Inr b1" "lm_n_tokens L b1 = 1"
      "room b1 = room b"
      using llama_okD(4) [OF assms(1), of "lm_batch_clear L b"] llama_okD(6,7) [OF assms(1), of b] Suc.prems(1)
      by force
    obtain c1 where c1: "lm_decode L b1 c = Inr c1" "lm_n_ctx L c1 = lm_n_ctx L c" "used c1 = used c + 1"
      using llama_okD(8) [OF assms(1), of b1 c] b1(2) Suc.prems(2) by force
    show ?thesis
      using Suc.IH [of b1 c1] False p b1 c1 Suc.prems by (simp add: Let_def)
  qed (simp add: Let_def)
qed simp


lemma ctx_size_small:
  assumes "length (as_bytes prompt) div 2 + n + 256 < 2 ^ 31"
  shows "2048 \<le> ctx_size prompt n" "ctx_size prompt n < 2 ^ 31"
    "length (as_bytes prompt) div 2 + n + 256 \<le> ctx_size prompt n"
  using assms by (simp_all add: ctx_size_def)

text \<open>With a context of the asked size, the outcome is that of the batch and the loop.\<close>

lemma decode_greedy_eq:
  assumes "llama_ok L room used model" "lm_str_to_token L model prompt = Inr tokens"
    and "length (as_bytes prompt) div 2 + n + 256 < 2 ^ 31" "length tokens < 2 ^ 31"
  shows "\<exists>ctx. lm_n_ctx L ctx = ctx_size prompt n \<and> used ctx = 0 \<and> decode_greedy L model prompt n =
    (if ctx_size prompt n \<le> length tokens
     then Inl (Llm_provider (''prompt '' @ radix_str 10 (length tokens) @ '' tokens exceeds ctx ''
       @ radix_str 10 (ctx_size prompt n)))
     else case add_prompt L (length tokens) 0 tokens (lm_batch_new L 512 1) of
         Inl e \<Rightarrow> Inl e
       | Inr b \<Rightarrow> (case lm_decode L b ctx of
           Inl e \<Rightarrow> Inl (Llm_provider (''decode prompt: '' @ e))
         | Inr ctx' \<Rightarrow> generate L model n ctx' b (lm_n_tokens L b) []))"
proof -
  have pos: "0 < ctx_size prompt n" and small: "ctx_size prompt n < 2 ^ 31"
    using ctx_size_small [OF assms(3)] by auto
  obtain ctx where ctx: "lm_new_context L model (Some (ctx_size prompt n)) (min (ctx_size prompt n) 512) = Inr ctx"
    "lm_n_ctx L ctx = ctx_size prompt n" "used ctx = 0"
    using llama_okD(1) [OF assms(1) pos] by blast
  moreover have "as_i32 (lm_n_ctx L ctx) \<le> as_i32 (length tokens) \<longleftrightarrow> ctx_size prompt n \<le> length tokens"
    using small assms(4) ctx(2) by (simp add: as_i32_small)
  ultimately show ?thesis
    using pos assms(2) by (intro exI [of _ ctx]) (simp add: decode_greedy_def Let_def)
qed

lemma decode_greedy_cases:
  assumes "llama_ok L room used model" "lm_str_to_token L model prompt = Inr tokens"
    and "length (as_bytes prompt) div 2 + n + 256 < 2 ^ 31" "length tokens < 2 ^ 31"
  shows "length tokens \<le> 512 \<Longrightarrow> length tokens + n \<le> ctx_size prompt n \<Longrightarrow>
      \<exists>ts. decode_greedy L model prompt n = Inr (concat (map (\<lambda>t. projr (lm_piece L model t)) ts))
        \<and> length ts \<le> n \<and> lm_token_eos L model \<notin> set ts"
    and "512 < length tokens \<Longrightarrow> length tokens < ctx_size prompt n \<Longrightarrow>
      \<exists>e. decode_greedy L model prompt n = Inl (Llm_provider (''batch add: '' @ e))"
    and "ctx_size prompt n \<le> length tokens \<Longrightarrow> decode_greedy L model prompt n =
      Inl (Llm_provider (''prompt '' @ radix_str 10 (length tokens) @ '' tokens exceeds ctx ''
        @ radix_str 10 (ctx_size prompt n)))"
proof -
  note new = llama_okD(2,3) [OF assms(1), of 512 1]
  obtain ctx where ctx: "lm_n_ctx L ctx = ctx_size prompt n" "used ctx = 0"
    and eq: "decode_greedy L model prompt n =
    (if ctx_size prompt n \<le> length tokens
     then Inl (Llm_provider (''prompt '' @ radix_str 10 (length tokens) @ '' tokens exceeds ctx ''
       @ radix_str 10 (ctx_size prompt n)))
     else case add_prompt L (length tokens) 0 tokens (lm_batch_new L 512 1) of
         Inl e \<Rightarrow> Inl e
       | Inr b \<Rightarrow> (case lm_decode L b ctx of
           Inl e \<Rightarrow> Inl (Llm_provider (''decode prompt: '' @ e))
         | Inr ctx' \<Rightarrow> generate L model n ctx' b (lm_n_tokens L b) []))"
    using decode_greedy_eq [OF assms] by blast
  show "\<exists>e. decode_greedy L model prompt n = Inl (Llm_provider (''batch add: '' @ e))"
    if "512 < length tokens" "length tokens < ctx_size prompt n"
    using add_prompt_overflows [OF assms(1), of "lm_batch_new L 512 1" tokens "length tokens" 0] new that
    unfolding eq by auto
  show "decode_greedy L model prompt n =
      Inl (Llm_provider (''prompt '' @ radix_str 10 (length tokens) @ '' tokens exceeds ctx ''
        @ radix_str 10 (ctx_size prompt n)))" if "ctx_size prompt n \<le> length tokens"
    unfolding eq using that by simp
  assume fits: "length tokens \<le> 512" "length tokens + n \<le> ctx_size prompt n"
  obtain b where b: "add_prompt L (length tokens) 0 tokens (lm_batch_new L 512 1) = Inr b"
    "lm_n_tokens L b = int (length tokens)" "room b = 512"
    using add_prompt_fits [OF assms(1), of "lm_batch_new L 512 1" tokens "length tokens" 0] new fits(1) by auto
  obtain ctx' where ctx': "lm_decode L b ctx = Inr ctx'" "lm_n_ctx L ctx' = ctx_size prompt n"
    "used ctx' = length tokens"
    using llama_okD(8) [OF assms(1), of b ctx] b ctx fits by auto
  obtain res where res: "generate L model n ctx' b (lm_n_tokens L b) [] = Inr res"
    using generate_returns [OF assms(1), of b ctx' n] b(3) ctx'(2,3) fits(2) by auto
  have "\<not> ctx_size prompt n \<le> length tokens" using fits(1) ctx_size_small(1) [OF assms(3)] by simp
  then have d: "decode_greedy L model prompt n = Inr res" unfolding eq using b(1) ctx'(1) res by simp
  obtain ts where "length ts \<le> n" "lm_token_eos L model \<notin> set ts"
    "res = concat (map (\<lambda>t. projr (lm_piece L model t)) ts)"
    using res unfolding generate_Inr by (metis append_Nil emits_facts order.order_iff_strict)
  then show "\<exists>ts. decode_greedy L model prompt n = Inr (concat (map (\<lambda>t. projr (lm_piece L model t)) ts))
        \<and> length ts \<le> n \<and> lm_token_eos L model \<notin> set ts"
    unfolding d by blast
qed



text \<open>A small machine with these laws: a context counts its positions, a batch its tokens, and the text ends
  at the sixth position.\<close>

definition tiny_llama :: "int list \<Rightarrow> (unit, nat \<times> nat, nat \<times> nat) llama" where
  "tiny_llama toks = \<lparr>lm_init = Inr (), lm_load_from_file = (\<lambda>_. Inr ()),
     lm_new_context = (\<lambda>_ n _. Inr (case n of Some k \<Rightarrow> k | None \<Rightarrow> 512, 0)), lm_n_ctx = fst,
     lm_str_to_token = (\<lambda>_ _. Inr toks), lm_token_eos = (\<lambda>_. 0), lm_piece = (\<lambda>_ t. Inr (if t = 1 then ''NO'' else ''NE'')),
     lm_sample = (\<lambda>c _. if snd c < 5 then 1 else if snd c = 5 then 2 else 0),
     lm_decode = (\<lambda>b c. if snd c + snd b \<le> fst c then Inr (fst c, snd c + snd b) else Inl ''NoKvCacheSlot''),
     lm_batch_new = (\<lambda>k _. (k, 0)),
     lm_batch_add = (\<lambda>_ _ _ _ b. if snd b < fst b then Inr (fst b, snd b + 1) else Inl ''Insufficient Space''),
     lm_batch_clear = (\<lambda>b. (fst b, 0)), lm_n_tokens = (\<lambda>b. int (snd b))\<rparr>"

lemma tiny_llama_sel [simp]:
  "lm_new_context (tiny_llama toks) m n k = Inr (case n of Some k \<Rightarrow> k | None \<Rightarrow> 512, 0)"
  "lm_n_ctx (tiny_llama toks) c = fst c" "lm_str_to_token (tiny_llama toks) m p = Inr toks"
  "lm_token_eos (tiny_llama toks) m = 0" "lm_piece (tiny_llama toks) m t = Inr (if t = 1 then ''NO'' else ''NE'')"
  "lm_sample (tiny_llama toks) c i = (if snd c < 5 then 1 else if snd c = 5 then 2 else 0)"
  "lm_decode (tiny_llama toks) b c = (if snd c + snd b \<le> fst c then Inr (fst c, snd c + snd b) else Inl ''NoKvCacheSlot'')"
  "lm_batch_new (tiny_llama toks) j l = (j, 0)"
  "lm_batch_add (tiny_llama toks) t q sq lg b
   = (if snd b < fst b then Inr (fst b, snd b + 1) else Inl ''Insufficient Space'')"
  "lm_batch_clear (tiny_llama toks) b = (fst b, 0)" "lm_n_tokens (tiny_llama toks) b = int (snd b)"
  by (simp_all add: tiny_llama_def)

lemma tiny_llama_ok: "llama_ok (tiny_llama toks) fst snd ()"
  by (auto simp: llama_ok_def)

lemmas generate_numeral = generate.simps(2) [where k = "pred_numeral v" for v, folded numeral_eq_Suc]


end
