(* ===== verification/Startup.thy ===== *)
theory Startup
  imports Store_Open Daemon_Main Embedding_Providers Local_Llm
begin

text \<open>
  The binary \<open>cm-daemon\<close> as a whole (\<open>main\<close> of \<open>crates/daemon/src/main.rs\<close>) up to the accept loop, composed
  of the parts: paths and private directories, the store with its migrations, the embedding provider,
  the language model, the lifecycle configuration, the daemon, its socket and its PID file.
\<close>

section \<open>The daemon\<close>

text \<open>\<open>Daemon::new_full_runtime\<close>: the parts that handlers see of a daemon, on top of the environment of the
  process, and its state on the rows of the store.\<close>

definition TRACE_CAPACITY :: nat where
  "TRACE_CAPACITY = 1000"

definition new_full_runtime ::
  "env \<Rightarrow> db \<Rightarrow> embedder \<Rightarrow> daemon_runtime \<Rightarrow> llm_provider option \<Rightarrow> lifecycle_config \<Rightarrow> env \<times> app" where
  "new_full_runtime E store embeddings runtime llm lifecycle =
     (E\<lparr>e_embedder := embeddings, e_llm := map_option llm_view llm, e_lifecycle := lifecycle, e_runtime := runtime\<rparr>,
      \<lparr>app_store = store, app_drawn = 0, app_traces = new_ring TRACE_CAPACITY, app_events = [], app_shutdown = False\<rparr>)"

text \<open>The other constructors fill in the defaults; \<open>None\<close> is the panic of unresolvable directories.\<close>

definition new_full ::
  "string \<Rightarrow> os_env \<Rightarrow> env \<Rightarrow> db \<Rightarrow> embedder \<Rightarrow> path \<Rightarrow> llm_provider option \<Rightarrow> lifecycle_config \<Rightarrow> (env \<times> app) option" where
  "new_full bid V E store embeddings socket_path llm lifecycle =
     map_option (\<lambda>runtime. new_full_runtime E store embeddings runtime llm lifecycle) (runtime_from_socket bid V socket_path)"

definition new_with_llm ::
  "string \<Rightarrow> os_env \<Rightarrow> env \<Rightarrow> db \<Rightarrow> embedder \<Rightarrow> path \<Rightarrow> llm_provider option \<Rightarrow> (env \<times> app) option" where
  "new_with_llm bid V E store embeddings socket_path llm =
     new_full bid V E store embeddings socket_path llm paper_faithful_lifecycle_config"

definition new_daemon :: "string \<Rightarrow> os_env \<Rightarrow> env \<Rightarrow> db \<Rightarrow> embedder \<Rightarrow> path \<Rightarrow> (env \<times> app) option" where
  "new_daemon bid V E store embeddings socket_path = new_with_llm bid V E store embeddings socket_path None"

section \<open>The binary\<close>

record 'm process =
  px_env :: os_env
  px_build :: build_ctx
  px_local_model :: bool
  px_sha :: "byte list \<Rightarrow> nat \<Rightarrow> byte"
  px_fastembed :: "'m fastembed"
  px_from_str :: "string \<Rightarrow> string + connect_options"
  px_toml :: toml
  px_rates :: "(string, fl) hash_map \<Rightarrow> (string \<times> fl) list"
  px_now :: int
  px_pid :: nat
  px_live :: "path \<Rightarrow> bool"
  px_build_id :: string
  px_texts :: texts

datatype main_error =
    Main_panic
  | Main_io string
  | Main_store open_error
  | Main_embeddings string
  | Main_llm string
  | Main_daemon daemon_error

record started =
  sn_pools :: store_pools
  sn_embeddings :: embedder
  sn_llm :: "llm_provider option"
  sn_lifecycle :: lifecycle_config
  sn_runtime :: daemon_runtime

definition at_fs :: "('e \<Rightarrow> main_error) \<Rightarrow> (fs, 'e, 'a) sm \<Rightarrow> (host, main_error, 'a) sm" where
  "at_fs f m h = (case m (ho_fs h) of (r, s) \<Rightarrow> (map_sum f id r, h\<lparr>ho_fs := s\<rparr>))"

text \<open>The two providers a build can have.\<close>

definition fake_16 :: "(byte list \<Rightarrow> nat \<Rightarrow> byte) \<Rightarrow> embedder" where
  "fake_16 sha = fake_embedder sha (new_fake ''local'' ''fake-16'' 16)"

definition bge_embedder :: "texts \<Rightarrow> 'm fastembed \<Rightarrow> string + embedder" where
  "bge_embedder T F = map_sum (embedding_error_text T) (local_embedder F) (bge_small_en F)"

text \<open>The configuration is read for the language model and again for the lifecycle; nothing changes it in
  between.\<close>

definition loaded_config :: "'m process \<Rightarrow> daemon_args \<Rightarrow> fs \<Rightarrow> config_error + daemon_config" where
  "loaded_config X args s = (case load_config (px_toml X) (main_env args (px_env X)) of
      Some m \<Rightarrow> fst (m s) | None \<Rightarrow> Inl (Config_io ''unresolvable''))"

definition daemon_main :: "'m process \<Rightarrow> daemon_args \<Rightarrow> (host, main_error, started) sm" where
  "daemon_main X args = (case main_paths args (px_env X) of
      None \<Rightarrow> throw_sm Main_panic
    | Some P \<Rightarrow>
        bind_sm (at_fs Main_io (main_prepare P)) (\<lambda>_.
        bind_sm (map_err Main_store (store_open (px_from_str X) (px_now X) (rp_db_path P))) (\<lambda>store.
        bind_sm (at_fs Main_io (secure_private_file_if_exists (rp_db_path P))) (\<lambda>_.
        bind_sm (lift_sm (map_sum Main_embeddings id (build_embeddings (px_local_model X) (main_env args (px_env X))
            (fake_16 (px_sha X)) (bge_embedder (px_texts X) (px_fastembed X))))) (\<lambda>embeddings.
        bind_sm (gets_sm (\<lambda>h. loaded_config X args (ho_fs h))) (\<lambda>loaded.
        bind_sm (lift_sm (map_sum Main_llm id (build_llm (px_build X) (main_env args (px_env X)) loaded))) (\<lambda>llm.
          let lifecycle = build_lifecycle_config (px_rates X) loaded;
              runtime = runtime_from_paths (px_build_id X) P
          in bind_sm (at_fs Main_daemon (serve_start (px_pid X) (px_live X) runtime)) (\<lambda>_.
            ret_sm \<lparr>sn_pools = store, sn_embeddings = embeddings, sn_llm = llm, sn_lifecycle = lifecycle,
              sn_runtime = runtime\<rparr>))))))))"


section \<open>What each step does to the files\<close>

text \<open>\<open>tight_step q\<close>: a private file at \<open>q\<close> stays private.\<close>

definition tight_step :: "path \<Rightarrow> fs \<Rightarrow> fs \<Rightarrow> bool" where
  "tight_step q s s' \<longleftrightarrow> (is_private_file s q \<longrightarrow> is_private_file s' q)"

interpretation tight: frame_rel "tight_step q" for q
  by unfold_locales (auto simp: tight_step_def)

lemma tight_same: "fs_files s' q = fs_files s q \<Longrightarrow> tight_step q s s'"
  by (simp add: tight_step_def is_private_file_def)

lemma ensure_parent_tight: "keeps (tight_step q) (ensure_parent p)"
  by (rule keepsI) (metis ensure_parent_files prod.collapse tight_same)

lemma repair_mode_tight: "q \<noteq> p \<or> w = 384 \<Longrightarrow> keeps (tight_step q) (repair_mode p w)"
  by (rule keepsI) (auto simp: repair_mode_def mode_of_def set_mode_def guarded_def bind_sm_def ret_sm_def
      tight_step_def is_private_file_def split: option.splits)

lemma secure_file_tight: "keeps (tight_step q) (secure_private_file_if_exists p)"
  unfolding secure_private_file_if_exists_def
  by (intro tight.keeps_bind tight.keeps_gets) (auto intro: tight.keeps_ret repair_mode_tight)

lemma write_file_tight: "keeps (tight_step q) (write_file p content)"
  by (rule keepsI) (auto simp: write_file_def guarded_def tight_step_def is_private_file_def split: option.splits)

lemma bind_socket_tight: "keeps (tight_step q) (bind_socket p)"
  by (rule keepsI) (auto simp: bind_socket_def guarded_def path_exists_def tight_step_def is_private_file_def
      split: option.splits)

lemma remove_file_tight: "q \<noteq> p \<Longrightarrow> keeps (tight_step q) (remove_file p)"
  by (rule keepsI) (auto simp: remove_file_def guarded_def tight_step_def is_private_file_def split: option.splits)

lemma serve_start_tight:
  assumes "q \<noteq> rt_socket_path R"
  shows "keeps (tight_step q) (serve_start pid live R)"
proof -
  have "keeps (tight_step q) (clear_stale_socket live (rt_socket_path R))"
    unfolding clear_stale_socket_def using assms
    by (intro tight.keeps_bind tight.keeps_gets) (auto intro: tight.keeps_ret tight.keeps_throw tight.keeps_map_err remove_file_tight)
  moreover have "keeps (tight_step q) (write_pid_file pid p)" for p
    unfolding write_pid_file_def
    by (intro tight.keeps_bind ensure_parent_tight write_file_tight secure_file_tight)
  ultimately show ?thesis
    unfolding serve_start_def secure_private_socket_def using assms
    by (intro tight.keeps_bind tight.keeps_map_err ensure_parent_tight secure_file_tight bind_socket_tight repair_mode_tight) auto
qed

text \<open>Preparing the directories and the log leaves every other file alone.\<close>

lemma main_prepare_files: "keeps (files_step (rp_daemon_log_path P)) (main_prepare P)"
proof -
  let ?p = "rp_daemon_log_path P"
  have parent: "keeps (files_step ?p) (ensure_parent q)" for q
    by (rule keepsI) (metis ensure_parent_files files_step_def prod.collapse)
  have dirs: "keeps (files_step ?p) (ensure_private_dir d)" for d
    using ensure_private_dir_keeps [of d] by (auto simp: keeps_def priv_step_def files_step_def)
  have "keeps (files_step ?p) (write_file ?p content)" for content
    by (rule keepsI) (auto simp: write_file_def guarded_def files_step_def split: option.splits)
  then have "keeps (files_step ?p) (touch_file ?p)"
    unfolding touch_file_def by (intro files.keeps_bind files.keeps_gets) (auto split: option.split)
  moreover have "keeps (files_step ?p) (secure_private_file_if_exists ?p)"
    by (rule keepsI) (metis files_step_def prod.collapse secure_file_other)
  ultimately show ?thesis
    unfolding main_prepare_def init_logging_def ensure_private_dirs_def set_private_umask_def
    by (intro files.keeps_bind files.keeps_for parent dirs files.keeps_modify) (auto simp: files_step_def)
qed

lemma at_fs_Inr: "at_fs f m h = (Inr x, h') \<longleftrightarrow> (\<exists>s. m (ho_fs h) = (Inr x, s) \<and> h' = h\<lparr>ho_fs := s\<rparr>)"
  by (cases "m (ho_fs h)"; cases "fst (m (ho_fs h))") (auto simp: at_fs_def)

lemma at_fs_run: "at_fs f m h = (r, h') \<Longrightarrow> \<exists>r' s. m (ho_fs h) = (r', s) \<and> h' = h\<lparr>ho_fs := s\<rparr> \<and> r = map_sum f id r'"
  by (auto simp: at_fs_def split: prod.splits)

text \<open>A store that has been opened: the file could be opened, and what it held has been migrated.\<close>

lemma connect_with_Inr:
  "connect_with n opts h = (Inr w, h') \<Longrightarrow> openable h (op_filename opts)"
  by (auto simp: connect_with_def openable_def Let_def split: option.splits if_splits)

lemma store_opened:
  assumes "store_open from_str now p h = (Inr S, h')" "from_str (''sqlite:'' @ p) = Inr (file_options p)"
    and "db_or_new h p = Some c" "schema (create_migrations_table c) = schema_at k" "rows_fit c"
  shows "openable h p \<and> (\<exists>c'. h' = (created p h)\<lparr>ho_dbs := (ho_dbs h)(p \<mapsto> c')\<rparr> \<and> upgraded k c c')"
proof -
  obtain w h1 where "connect_with 1 (write_options (file_options p)) h = (Inr w, h1)"
    using assms(1) unfolding store_open_def Let_def bind_sm_Inr_iff lift_map_sum_Inr assms(2) by auto
  then have op: "openable h p"
    using connect_with_Inr by (fastforce simp: write_options_def file_options_def)
  obtain c' where "run_migrations now c = (Inr (), c')" "upgraded k c c'"
    using run_migrations_upgrades [OF assms(4,5)] by blast
  then show ?thesis
    using op assms(1) store_open_eq [where from_str = from_str and p = p and now = now, OF assms(2) op assms(3)] by auto
qed


section \<open>Starting\<close>

text \<open>A start that gets as far as the socket has opened the store before: it succeeds, or its error is
  late. A step whose errors are early has then succeeded.\<close>

definition late_error :: "main_error \<Rightarrow> bool" where
  "late_error e \<longleftrightarrow> (\<exists>d. e = Main_daemon d)"

definition late :: "main_error + 'a \<Rightarrow> bool" where
  "late r \<longleftrightarrow> (\<forall>e. r = Inl e \<longrightarrow> late_error e)"

definition early :: "('s, main_error, 'a) sm \<Rightarrow> bool" where
  "early m \<longleftrightarrow> (\<forall>s e t. m s = (Inl e, t) \<longrightarrow> \<not> late_error e)"

lemma late_bind:
  "early m \<Longrightarrow> late r \<Longrightarrow> bind_sm m f s = (r, t) \<longleftrightarrow> (\<exists>x u. m s = (Inr x, u) \<and> f x u = (r, t))"
  by (auto simp: bind_sm_def early_def late_def split: prod.splits sum.splits)

lemma map_sum_Inl: "map_sum f id x = Inl e \<longleftrightarrow> (\<exists>a. x = Inl a \<and> e = f a)"
  by (cases x) auto

lemma early_simps [simp]:
  "early (at_fs Main_io m)" "early (map_err Main_store m')" "early (gets_sm g)"
  "early (lift_sm (map_sum Main_embeddings id y))" "early (lift_sm (map_sum Main_llm id y'))"
  by (auto simp: early_def late_error_def at_fs_def map_err_def lift_sm_def gets_sm_def map_sum_Inl
      split: prod.splits sum.splits)

lemma lift_sm_Inr: "lift_sm r s = (Inr x, t) \<longleftrightarrow> r = Inr x \<and> t = s"
  by (auto simp: lift_sm_def)

lemma daemon_main_reaches:
  assumes "daemon_main X args h = (res, h')" "main_paths args (px_env X) = Some P" "late res"
  obtains s1 S h2 s3 r s4 where "main_prepare P (ho_fs h) = (Inr (), s1)"
    "store_open (px_from_str X) (px_now X) (rp_db_path P) (h\<lparr>ho_fs := s1\<rparr>) = (Inr S, h2)"
    "secure_private_file_if_exists (rp_db_path P) (ho_fs h2) = (Inr (), s3)"
    "serve_start (px_pid X) (px_live X) (runtime_from_paths (px_build_id X) P) s3 = (r, s4)"
    "h' = h2\<lparr>ho_fs := s4\<rparr>" "\<And>d. res = Inr d \<Longrightarrow> r = Inr ()"
proof -
  obtain s1 S h2 s3 emb llm where steps: "main_prepare P (ho_fs h) = (Inr (), s1)"
    "store_open (px_from_str X) (px_now X) (rp_db_path P) (h\<lparr>ho_fs := s1\<rparr>) = (Inr S, h2)"
    "secure_private_file_if_exists (rp_db_path P) (ho_fs h2) = (Inr (), s3)"
    and serve: "bind_sm (at_fs Main_daemon (serve_start (px_pid X) (px_live X) (runtime_from_paths (px_build_id X) P)))
      (\<lambda>_. ret_sm \<lparr>sn_pools = S, sn_embeddings = emb, sn_llm = llm,
         sn_lifecycle = build_lifecycle_config (px_rates X) (loaded_config X args s3),
         sn_runtime = runtime_from_paths (px_build_id X) P\<rparr>) (h2\<lparr>ho_fs := s3\<rparr>) = (res, h')"
    using assms(1) unfolding daemon_main_def assms(2) option.case Let_def
    by (auto simp: late_bind [OF _ assms(3)] at_fs_Inr map_err_Inr lift_sm_Inr gets_sm_def)
  obtain r s4 where s4: "serve_start (px_pid X) (px_live X) (runtime_from_paths (px_build_id X) P) s3 = (r, s4)"
    by fastforce
  show thesis
    using that [OF steps s4] serve s4 by (cases r) (auto simp: at_fs_def bind_sm_def ret_sm_def)
qed


text \<open>\<open>guard_step k p\<close>: when there is a file at \<open>k\<close>, it and the file at \<open>p\<close> stay as they are.\<close>

definition guard_step :: "path \<Rightarrow> path \<Rightarrow> host \<Rightarrow> host \<Rightarrow> bool" where
  "guard_step k p h h' \<longleftrightarrow> (fs_files (ho_fs h) k \<noteq> None \<longrightarrow>
     fs_files (ho_fs h') k = fs_files (ho_fs h) k \<and> fs_files (ho_fs h') p = fs_files (ho_fs h) p)"

interpretation guard: frame_rel "guard_step k p" for k p
  by unfold_locales (auto simp: guard_step_def)

lemma guard_at_fs: "keeps (files_step q) m \<Longrightarrow> q \<noteq> k \<Longrightarrow> q \<noteq> p \<Longrightarrow> keeps (guard_step k p) (at_fs f m)"
  by (rule keepsI) (auto simp: at_fs_def guard_step_def files_step_def split: prod.split dest!: keepsD)

lemma guard_connect: "op_filename opts \<noteq> k \<Longrightarrow> op_filename opts \<noteq> p \<Longrightarrow> keeps (guard_step k p) (connect_with n opts)"
  by (rule keepsI) (auto simp: connect_with_def guard_step_def Let_def split: option.split)

lemma guard_writer: "keeps (guard_step k p) (on_writer w m)"
  by (rule keepsI) (auto simp: on_writer_def guard_step_def split: option.split prod.split)

lemma guard_store_open:
  assumes "from_str (''sqlite:'' @ d) = Inr (file_options d)" "d \<noteq> k" "d \<noteq> p"
  shows "keeps (guard_step k p) (store_open from_str now d)"
proof -
  have eq: "bind_sm (lift_sm (map_sum Bad_url id (from_str (''sqlite:'' @ d)))) f = f (file_options d)"
    for f :: "_ \<Rightarrow> store_pools open_io"
    unfolding assms(1) by (simp add: bind_sm_def [abs_def] lift_sm_def)
  show ?thesis
    unfolding store_open_def Let_def eq using assms(2,3)
    by (intro guard.keeps_bind guard.keeps_ret guard_connect guard_writer;
        simp add: write_options_def read_options_def file_options_def)
qed

lemma guard_serve_start:
  assumes "rt_db_path R \<noteq> rt_socket_path R" "rt_db_path R \<noteq> rt_pid_path R" "live (rt_socket_path R)"
  shows "keeps (guard_step (rt_socket_path R) (rt_pid_path R)) (at_fs f (serve_start pid live R))"
proof (rule keepsI)
  fix h :: host
  obtain r s where run: "serve_start pid live R (ho_fs h) = (r, s)" by fastforce
  show "guard_step (rt_socket_path R) (rt_pid_path R) h (snd (at_fs f (serve_start pid live R) h))"
    using serve_start_running [OF run assms(1,2) _ assms(3)] by (auto simp: guard_step_def at_fs_def run)
qed

lemma runtime_paths [simp]:
  "rt_socket_path (runtime_from_paths b P) = rp_socket_path P" "rt_pid_path (runtime_from_paths b P) = rp_pid_path P"
  "rt_db_path (runtime_from_paths b P) = rp_db_path P"
  by (simp_all add: runtime_from_paths_def)

lemma daemon_main_guard:
  assumes "main_paths args (px_env X) = Some P" "px_from_str X (''sqlite:'' @ rp_db_path P) = Inr (file_options (rp_db_path P))"
    and "distinct [rp_socket_path P, rp_pid_path P, rp_db_path P, rp_daemon_log_path P]" "px_live X (rp_socket_path P)"
  shows "keeps (guard_step (rp_socket_path P) (rp_pid_path P)) (daemon_main X args)"
proof -
  let ?k = "rp_socket_path P" and ?p = "rp_pid_path P" and ?d = "rp_db_path P"
  have prep: "keeps (guard_step ?k ?p) (at_fs Main_io (main_prepare P))"
    using assms(3) by (intro guard_at_fs [OF main_prepare_files]) auto
  have "keeps (files_step ?d) (secure_private_file_if_exists ?d)"
    by (rule keepsI) (metis files_step_def prod.collapse secure_file_other)
  then have secure: "keeps (guard_step ?k ?p) (at_fs Main_io (secure_private_file_if_exists ?d))"
    using assms(3) by (intro guard_at_fs) auto
  have serve: "keeps (guard_step ?k ?p) (at_fs Main_daemon (serve_start (px_pid X) (px_live X) (runtime_from_paths (px_build_id X) P)))"
    using guard_serve_start [of "runtime_from_paths (px_build_id X) P" "px_live X" Main_daemon "px_pid X"] assms(3,4) by auto
  have store: "keeps (guard_step ?k ?p) (store_open (px_from_str X) (px_now X) ?d)"
    using assms(3) by (intro guard_store_open [where d = "?d" and from_str = "px_from_str X", OF assms(2)]) auto
  show ?thesis
    unfolding daemon_main_def assms(1) option.case Let_def
    by (intro guard.keeps_bind guard.keeps_ret guard.keeps_lift guard.keeps_gets guard.keeps_map_err prep secure serve store)
qed

lemma db_or_new_cong: "fs_files s p = fs_files (ho_fs h) p \<Longrightarrow> db_or_new (h\<lparr>ho_fs := s\<rparr>) p = db_or_new h p"
  by (simp add: db_or_new_def db_at_def split: option.split)

lemma daemon_main_late:
  assumes run: "daemon_main X args h = (res, h')" "main_paths args (px_env X) = Some P"
    and url: "px_from_str X (''sqlite:'' @ rp_db_path P) = Inr (file_options (rp_db_path P))"
    and dist: "distinct [rp_socket_path P, rp_pid_path P, rp_db_path P, rp_daemon_log_path P]"
    and old: "db_or_new h (rp_db_path P) = Some c" "schema (create_migrations_table c) = schema_at k" "rows_fit c"
    and late: "late res"
  shows "\<exists>c'. ho_dbs h' (rp_db_path P) = Some c' \<and> upgraded k c c'"
    and "res = Inr d \<Longrightarrow> daemon_up (px_pid X) (runtime_from_paths (px_build_id X) P) (ho_fs h')
      \<and> is_private_file (ho_fs h') (rp_db_path P)
      \<and> \<not> (fs_files (ho_fs h) (rp_socket_path P) \<noteq> None \<and> px_live X (rp_socket_path P))"
proof -
  let ?R = "runtime_from_paths (px_build_id X) P" and ?d = "rp_db_path P" and ?k = "rp_socket_path P"
  obtain s1 S h2 s3 r s4 where st: "main_prepare P (ho_fs h) = (Inr (), s1)"
    "store_open (px_from_str X) (px_now X) ?d (h\<lparr>ho_fs := s1\<rparr>) = (Inr S, h2)"
    "secure_private_file_if_exists ?d (ho_fs h2) = (Inr (), s3)" "serve_start (px_pid X) (px_live X) ?R s3 = (r, s4)"
    "h' = h2\<lparr>ho_fs := s4\<rparr>" "\<And>d. res = Inr d \<Longrightarrow> r = Inr ()"
    by (rule daemon_main_reaches [OF run late]) blast
  have same: "fs_files s1 q = fs_files (ho_fs h) q" if "q \<noteq> rp_daemon_log_path P" for q
    using keepsD [OF main_prepare_files st(1)] that by (simp add: files_step_def)
  then have "db_or_new (h\<lparr>ho_fs := s1\<rparr>) ?d = Some c" using old(1) dist by (simp add: db_or_new_cong)
  from store_opened [OF st(2) url this old(2,3)] obtain c' where
    op: "openable (h\<lparr>ho_fs := s1\<rparr>) ?d" "upgraded k c c'"
    and h2: "h2 = (created ?d (h\<lparr>ho_fs := s1\<rparr>))\<lparr>ho_dbs := (ho_dbs h)(?d \<mapsto> c')\<rparr>" by auto
  obtain m content where found: "fs_files (ho_fs h2) ?d = Some (m, content)" "fs_dirs (ho_fs h2) ?d = None"
    using created_simps(2) [of ?d "h\<lparr>ho_fs := s1\<rparr>"] op(1) by (auto simp: h2 openable_def created_def)
  have "is_private_file s4 ?d"
    using secure_file_reads [OF st(3) found] keepsD [OF serve_start_tight st(4), of ?d] dist
    by (auto simp: tight_step_def)
  moreover have "fs_files s3 ?k = fs_files (ho_fs h) ?k"
    using secure_file_other [OF st(3), of ?k] same [of ?k] dist by (auto simp: h2 created_def)
  moreover have "\<not> (fs_files s3 ?k \<noteq> None \<and> px_live X ?k)" if "r = Inr ()"
    using serve_start_running [OF st(4)] dist that by auto
  moreover have "daemon_up (px_pid X) ?R s4" if "r = Inr ()"
    using serve_start_up [of _ _ ?R s3 s4] st(4) dist that by auto
  ultimately show "\<exists>c'. ho_dbs h' ?d = Some c' \<and> upgraded k c c'"
    and "res = Inr d \<Longrightarrow> daemon_up (px_pid X) ?R (ho_fs h') \<and> is_private_file (ho_fs h') ?d
      \<and> \<not> (fs_files (ho_fs h) ?k \<noteq> None \<and> px_live X ?k)"
    using st(5,6) op(2) h2 by auto
qed

text \<open>C35: Starting the daemon. On a database with the first \<open>k\<close> migrations: when the daemon starts, its socket
  is open to its owner only, its PID file holds its process id, its database is readable by its owner
  only, at the newest schema, and has kept its data. When another daemon is listening on the socket,
  the start fails and the socket and the PID file of the other daemon stay as they are; but the
  database has been migrated by then: a start that fails at the socket has upgraded it under the
  daemon that is running.\<close>

theorem daemon_main_spec:
  assumes run: "daemon_main X args h = (res, h')" "main_paths args (px_env X) = Some P"
    and url: "px_from_str X (''sqlite:'' @ rp_db_path P) = Inr (file_options (rp_db_path P))"
    and dist: "distinct [rp_socket_path P, rp_pid_path P, rp_db_path P, rp_daemon_log_path P]"
    and old: "db_or_new h (rp_db_path P) = Some c" "schema (create_migrations_table c) = schema_at k" "rows_fit c"
  shows "(\<forall>d. res = Inr d \<longrightarrow> daemon_up (px_pid X) (runtime_from_paths (px_build_id X) P) (ho_fs h')
        \<and> is_private_file (ho_fs h') (rp_db_path P))
    \<and> (late res \<longrightarrow> (\<exists>c'. ho_dbs h' (rp_db_path P) = Some c' \<and> upgraded k c c'))
    \<and> (fs_files (ho_fs h) (rp_socket_path P) \<noteq> None \<and> px_live X (rp_socket_path P) \<longrightarrow>
        (\<exists>e. res = Inl e) \<and> fs_files (ho_fs h') (rp_socket_path P) = fs_files (ho_fs h) (rp_socket_path P)
        \<and> fs_files (ho_fs h') (rp_pid_path P) = fs_files (ho_fs h) (rp_pid_path P))"
  using daemon_main_late [OF assms] keepsD [OF daemon_main_guard [OF run(2) url dist] run(1)]
  by (cases res) (auto simp: guard_step_def late_def)


text \<open>A host with private directories everywhere but at the files of the daemon, and a database of version 1;
  a daemon without a language model starts there.\<close>

definition tiny_fs :: fs where
  "tiny_fs = \<lparr>fs_dirs = (\<lambda>p. if p \<in> {''/r/s'', ''/r/p'', ''/r/d'', ''/r/l''} then None else Some 448),
     fs_files = [''/r/d'' \<mapsto> (420, ''SQLite'')], fs_umask = 18, fs_fault = Map.empty\<rparr>"

definition tiny_args :: daemon_args where
  "tiny_args = \<lparr>da_instance = None, da_socket = Some ''/r/s'', da_db = Some ''/r/d'', da_pid = Some ''/r/p'',
     da_log = Some ''/r/l'', da_json_logs = False\<rparr>"

definition tiny_env :: os_env where
  "tiny_env = \<lparr>ev_vars = Map.empty, ev_debug = False, ev_config_dir = Some ''/c'', ev_data_dir = Some ''/c'',
     ev_data_local_dir = Some ''/c'', ev_runtime_dir = Some ''/c'', ev_cache_dir = Some ''/c'', ev_home_dir = Some ''/c''\<rparr>"

definition tiny_process :: "unit process" where
  "tiny_process = \<lparr>px_env = tiny_env, px_build = demo_build, px_local_model = False, px_sha = (\<lambda>_ _. 0),
     px_fastembed = \<lparr>fe_try_new = Inl ''offline'', fe_embed = (\<lambda>_ _. Inl ''offline'')\<rparr>, px_from_str = url_path,
     px_toml = \<lparr>tm_from_str = (\<lambda>_. Inl []), tm_to_string = (\<lambda>_. Inl [])\<rparr>, px_rates = id, px_now = 9, px_pid = 7,
     px_live = (\<lambda>_. False), px_build_id = [], px_texts = \<lparr>tx_sqlx = (\<lambda>_. []), tx_debug_payload = (\<lambda>_. [])\<rparr>\<rparr>"

lemma private_dir_there:
  "fs_fault s p = None \<Longrightarrow> fs_dirs s p = Some 448 \<Longrightarrow> ensure_private_dir p s = (Inr (), s)"
  by (simp add: ensure_private_dir_def create_dir_all_def repair_mode_def mode_of_def guarded_def bind_sm_def ret_sm_def)

lemma tiny_paths: "\<exists>P. main_paths tiny_args tiny_env = Some P \<and> rp_socket_path P = ''/r/s'' \<and> rp_db_path P = ''/r/d''
   \<and> rp_pid_path P = ''/r/p'' \<and> rp_daemon_log_path P = ''/r/l''
   \<and> (\<forall>d \<in> set (private_dir_list P). d \<notin> {''/r/s'', ''/r/p'', ''/r/d'', ''/r/l''})"
  by (simp add: main_paths_def main_env_def tiny_args_def tiny_env_def resolve_paths_def for_instance_def base_config_def
      base_data_def base_runtime_def base_cache_def base_log_def or_else_def instance_paths_def override_def
      private_dir_list_def path_join_def starts_with_def app_instance_name_def default_instance_name_def
      PROD_INSTANCE_NAME_def)


text \<open>Preparing the paths writes the log only.\<close>

lemma tiny_prepare:
  assumes P: "rp_socket_path P = ''/r/s''" "rp_db_path P = ''/r/d''" "rp_pid_path P = ''/r/p''" "rp_daemon_log_path P = ''/r/l''"
    "\<forall>d \<in> set (private_dir_list P). d \<notin> {''/r/s'', ''/r/p'', ''/r/d'', ''/r/l''}"
  shows "main_prepare P tiny_fs = (Inr (), tiny_fs\<lparr>fs_umask := 63,
    fs_files := [''/r/d'' \<mapsto> (420, ''SQLite''), ''/r/l'' \<mapsto> (384, [])]\<rparr>)"
proof -
  let ?s = "tiny_fs\<lparr>fs_umask := 63\<rparr>"
  have dirs: "ensure_private_dir d ?s = (Inr (), ?s)" if "d \<notin> {''/r/s'', ''/r/p'', ''/r/d'', ''/r/l''}" for d
    using that by (intro private_dir_there) (simp_all add: tiny_fs_def)
  have "for_sm ds ensure_private_dir ?s = (Inr (), ?s)" if "\<forall>d \<in> set ds. d \<notin> {''/r/s'', ''/r/p'', ''/r/d'', ''/r/l''}" for ds
    using that by (induction ds) (auto simp: ret_sm_def bind_sm_def dirs)
  then have all: "ensure_private_dirs P ?s = (Inr (), ?s)" using P(5) by (simp add: ensure_private_dirs_def)
  have parents: "path_parent ''/r/s'' = Some ''/r''" "path_parent ''/r/d'' = Some ''/r''" "path_parent ''/r/l'' = Some ''/r''"
    by (simp_all add: path_parent_def rstrip_slash_def dir_part_def Let_def)
  have par: "ensure_parent p ?s = (Inr (), ?s)" if "path_parent p = Some ''/r''" for p
    using that dirs [of "''/r''"] by (simp add: ensure_parent_def)
  have "init_logging P ?s = (Inr (), tiny_fs\<lparr>fs_umask := 63,
      fs_files := [''/r/d'' \<mapsto> (420, ''SQLite''), ''/r/l'' \<mapsto> (384, [])]\<rparr>)"
    by (simp add: init_logging_def P(4) touch_file_def gets_sm_def bind_sm_def tiny_fs_def write_file_def guarded_def parents
        secure_private_file_if_exists_def path_exists_def repair_mode_def mode_of_def ret_sm_def)
  then show ?thesis
    by (simp add: main_prepare_def bind_sm_def set_private_umask_def modify_sm_def all P(1-4) par parents)
qed


definition tiny_host :: host where
  "tiny_host = \<lparr>ho_fs = tiny_fs, ho_dbs = [''/r/d'' \<mapsto> demo_v1]\<rparr>"

lemma tiny_serves:
  assumes "rt_socket_path R = ''/r/s''" "rt_pid_path R = ''/r/p''" "rt_db_path R = ''/r/d''"
  shows "\<exists>t. serve_start 7 (\<lambda>_. False) R (tiny_fs\<lparr>fs_umask := 63,
    fs_files := [''/r/d'' \<mapsto> (384, ''SQLite''), ''/r/l'' \<mapsto> (384, [])]\<rparr>) = (Inr (), t)"
proof -
  have parents: "path_parent ''/r/s'' = Some ''/r''" "path_parent ''/r/p'' = Some ''/r''"
    by (simp_all add: path_parent_def rstrip_slash_def dir_part_def Let_def)
  show ?thesis
    by (simp add: serve_start_def assms tiny_fs_def ensure_parent_def parents private_dir_there
        repair_mode_def mode_of_def set_mode_def guarded_def path_exists_def
        secure_private_file_if_exists_def clear_stale_socket_def bind_socket_def secure_private_socket_def
        write_pid_file_def write_file_def bind_sm_def map_err_def gets_sm_def ret_sm_def Let_def)
qed

lemma tiny_process_sel:
  "px_env tiny_process = tiny_env" "px_build tiny_process = demo_build" "px_local_model tiny_process = False"
  "px_from_str tiny_process = url_path" "px_now tiny_process = 9" "px_pid tiny_process = 7"
  "px_live tiny_process = (\<lambda>_. False)" "px_build_id tiny_process = []"
  by (simp_all add: tiny_process_def)

lemma tiny_llm: "build_llm B V (loaded_config tiny_process args s) = Inr None"
  by (auto simp: build_llm_def loaded_config_def load_config_def load_from_def tiny_process_def default_daemon_config_def
      split: option.split sum.split io_error.split)

lemma tiny_starts: "\<exists>d h'. daemon_main tiny_process tiny_args tiny_host = (Inr d, h')"
proof -
  obtain P where P: "main_paths tiny_args tiny_env = Some P" "rp_socket_path P = ''/r/s''" "rp_db_path P = ''/r/d''"
    "rp_pid_path P = ''/r/p''" "rp_daemon_log_path P = ''/r/l''"
    "\<forall>d \<in> set (private_dir_list P). d \<notin> {''/r/s'', ''/r/p'', ''/r/d'', ''/r/l''}"
    using tiny_paths by blast
  let ?s = "\<lambda>m. tiny_fs\<lparr>fs_umask := 63, fs_files := [''/r/d'' \<mapsto> (m, ''SQLite''), ''/r/l'' \<mapsto> (384, [])]\<rparr>"
  let ?h = "tiny_host\<lparr>ho_fs := ?s 420\<rparr>"
  have open1: "openable ?h ''/r/d''" "db_or_new ?h ''/r/d'' = Some demo_v1" "created ''/r/d'' ?h = ?h"
    by (simp_all add: openable_def tiny_fs_def tiny_host_def db_or_new_def db_at_def created_def)
  obtain c' where "run_migrations 9 demo_v1 = (Inr (), c')"
    using run_migrations_upgrades [OF demo_v1_upgrade(1,2)] by blast
  then have store: "store_open url_path 9 ''/r/d'' ?h = (Inr (file_pools ''/r/d''), ?h\<lparr>ho_dbs := (ho_dbs ?h)(''/r/d'' \<mapsto> c')\<rparr>)"
    using store_open_eq [where from_str = url_path and p = "''/r/d''" and now = 9, OF _ open1(1,2)] open1(3)
    by (simp add: url_path_def)
  have secure: "secure_private_file_if_exists ''/r/d'' (?s 420) = (Inr (), ?s 384)"
    by (simp add: secure_private_file_if_exists_def tiny_fs_def path_exists_def repair_mode_def mode_of_def set_mode_def
        guarded_def bind_sm_def gets_sm_def fun_upd_twist)
  obtain t where t: "serve_start 7 (\<lambda>_. False) (runtime_from_paths [] P) (?s 384) = (Inr (), t)"
    using tiny_serves [of "runtime_from_paths [] P"] P(2-4) by auto
  show ?thesis
    using P(1,3) tiny_prepare [OF P(2-6)] store secure t
    by (simp add: daemon_main_def tiny_process_sel tiny_llm tiny_host_def at_fs_def bind_sm_def map_err_def lift_sm_def gets_sm_def
        build_embeddings_def ret_sm_def Let_def)
qed


theorem daemon_main_spec_witness:
  "\<exists>P d h' c'. daemon_main tiny_process tiny_args tiny_host = (Inr d, h')
     \<and> daemon_up 7 (runtime_from_paths [] P) (ho_fs h') \<and> rp_socket_path P = ''/r/s'' \<and> is_private_file (ho_fs h') ''/r/d''
     \<and> ho_dbs h' ''/r/d'' = Some c' \<and> column_values c' ''associations'' ''last_co_retrieval'' = [VInt 7]"
proof -
  obtain P where P: "main_paths tiny_args tiny_env = Some P" "rp_socket_path P = ''/r/s''" "rp_db_path P = ''/r/d''"
    "rp_pid_path P = ''/r/p''" "rp_daemon_log_path P = ''/r/l''"
    using tiny_paths by blast
  obtain d h' where run: "daemon_main tiny_process tiny_args tiny_host = (Inr d, h')" using tiny_starts by blast
  have hyps: "main_paths tiny_args (px_env tiny_process) = Some P"
    "px_from_str tiny_process (''sqlite:'' @ rp_db_path P) = Inr (file_options (rp_db_path P))"
    "distinct [rp_socket_path P, rp_pid_path P, rp_db_path P, rp_daemon_log_path P]"
    "db_or_new tiny_host (rp_db_path P) = Some demo_v1"
    using P by (simp_all add: tiny_process_sel url_path_def db_or_new_def db_at_def tiny_host_def tiny_fs_def)
  from daemon_main_spec [OF run hyps demo_v1_upgrade(1,2)] obtain c' where
    "daemon_up 7 (runtime_from_paths [] P) (ho_fs h')" "is_private_file (ho_fs h') ''/r/d''"
    "ho_dbs h' ''/r/d'' = Some c'" "upgraded 1 demo_v1 c'"
    using P(3) by (auto simp: tiny_process_sel late_def)
  then show ?thesis using run P(2) demo_v1_upgrade(3) by blast
qed

end
