(* ===== verification/Wire_Json.thy ===== *)
theory Wire_Json
  imports App_State Embedding_Providers "HOL-Library.Monad_Syntax"
begin

text \<open>
  How serde's derived implementations write values as JSON and read them back: numbers of each width,
  options, sequences, the fields of a struct and the tag of an enum. A JSON value is what serde_json has
  read from a text or is about to print; a number stands for itself, whatever digits it is printed with.
  Reading is by objects and tag names, the form the protocol specifies; the positional forms that derived
  implementations accept besides (arrays for structs, indices for variants) are refused here.
\<close>

section \<open>Values\<close>

definition fits_u64 :: "nat \<Rightarrow> bool" where
  "fits_u64 n \<longleftrightarrow> n < 2 ^ 64"

definition fits_u32 :: "nat \<Rightarrow> bool" where
  "fits_u32 n \<longleftrightarrow> n < 2 ^ 32"

definition fits_i64 :: "int \<Rightarrow> bool" where
  "fits_i64 n \<longleftrightarrow> - (2 ^ 63) \<le> n \<and> n < 2 ^ 63"

definition fits_i32 :: "int \<Rightarrow> bool" where
  "fits_i32 n \<longleftrightarrow> - (2 ^ 31) \<le> n \<and> n < 2 ^ 31"

definition ser_nat :: "nat \<Rightarrow> json" where
  "ser_nat n = JInt (int n)"

fun de_bool :: "json \<Rightarrow> bool option" where
  "de_bool (JBool b) = Some b"
| "de_bool _ = None"

definition de_u32 :: "json \<Rightarrow> nat option" where
  "de_u32 j = Option.bind (json_as_u64 j) (\<lambda>n. if fits_u32 n then Some n else None)"

definition de_i32 :: "json \<Rightarrow> int option" where
  "de_i32 j = Option.bind (json_as_i64 j) (\<lambda>n. if fits_i32 n then Some n else None)"

text \<open>Floats: infinities and NaN are written as \<open>null\<close>, which is not read as a float. Integers are.\<close>

fun de_f64 :: "json \<Rightarrow> real option" where
  "de_f64 (JInt n) = Some (real_of_int n)"
| "de_f64 (JReal r) = Some r"
| "de_f64 JNegZero = Some 0"
| "de_f64 _ = None"

fun ser_fl :: "fl \<Rightarrow> json" where
  "ser_fl (Fin r) = JReal r"
| "ser_fl _ = JNull"

definition de_fl :: "json \<Rightarrow> fl option" where
  "de_fl j = map_option Fin (de_f64 j)"

fun is_fin :: "fl \<Rightarrow> bool" where
  "is_fin (Fin _) = True"
| "is_fin _ = False"

text \<open>Single precision by its bits; the value with only the sign bit set is \<open>-0.0\<close>.\<close>

definition NEG_ZERO :: f32 where
  "NEG_ZERO = 2147483648"

definition ser_f32 :: "f32 \<Rightarrow> json" where
  "ser_f32 w = (if w = NEG_ZERO then JNegZero else ser_fl (f32_val w))"

fun de_f32 :: "json \<Rightarrow> f32 option" where
  "de_f32 JNegZero = Some NEG_ZERO"
| "de_f32 j = map_option as_f32 (de_f64 j)"

section \<open>Options and sequences\<close>

fun ser_opt :: "('a \<Rightarrow> json) \<Rightarrow> 'a option \<Rightarrow> json" where
  "ser_opt ser None = JNull"
| "ser_opt ser (Some x) = ser x"

definition de_opt :: "(json \<Rightarrow> 'a option) \<Rightarrow> json \<Rightarrow> 'a option option" where
  "de_opt de j = (if j = JNull then Some None else map_option Some (de j))"

definition ser_list :: "('a \<Rightarrow> json) \<Rightarrow> 'a list \<Rightarrow> json" where
  "ser_list ser xs = JArr (map ser xs)"

fun de_list :: "(json \<Rightarrow> 'a option) \<Rightarrow> json \<Rightarrow> 'a list option" where
  "de_list de (JArr js) = those (map de js)"
| "de_list de _ = None"

section \<open>Structs and enums\<close>

type_synonym members = "(string \<times> json) list"

text \<open>All values under a key: a second one under the key of a field is an error, keys that are no field of
  the struct are ignored.\<close>

fun values_at :: "string \<Rightarrow> members \<Rightarrow> json list" where
  "values_at k [] = []"
| "values_at k ((k', v) # kvs) = (if k' = k then v # values_at k kvs else values_at k kvs)"

definition field :: "string \<Rightarrow> (json \<Rightarrow> 'a option) \<Rightarrow> members \<Rightarrow> 'a option" where
  "field k de kvs = (case values_at k kvs of [v] \<Rightarrow> de v | _ \<Rightarrow> None)"

text \<open>\<open>#[serde(default = "..")]\<close>.\<close>

definition field_or :: "'a \<Rightarrow> string \<Rightarrow> (json \<Rightarrow> 'a option) \<Rightarrow> members \<Rightarrow> 'a option" where
  "field_or dflt k de kvs = (case values_at k kvs of [] \<Rightarrow> Some dflt | [v] \<Rightarrow> de v | _ \<Rightarrow> None)"

text \<open>A field of type \<open>Option\<close>, which may be absent with or without \<open>#[serde(default)]\<close>.\<close>

definition field_opt :: "string \<Rightarrow> (json \<Rightarrow> 'a option) \<Rightarrow> members \<Rightarrow> 'a option option" where
  "field_opt k de = field_or None k (de_opt de)"

fun struct :: "(members \<Rightarrow> 'a option) \<Rightarrow> json \<Rightarrow> 'a option" where
  "struct de (JObj kvs) = de kvs"
| "struct de _ = None"

text \<open>\<open>#[serde(tag = "..")]\<close>: the tag is a member among the fields of the variant.\<close>

definition tagged :: "string \<Rightarrow> members \<Rightarrow> (string \<times> members) option" where
  "tagged k kvs = (case values_at k kvs of
      [JStr t] \<Rightarrow> Some (t, filter (\<lambda>(k', _). k' \<noteq> k) kvs)
    | _ \<Rightarrow> None)"

definition variant :: "(string \<times> (members \<Rightarrow> 'a option)) list \<Rightarrow> string \<times> members \<Rightarrow> 'a option" where
  "variant table = (\<lambda>(t, kvs). Option.bind (map_of table t) (\<lambda>de. de kvs))"

text \<open>An enum without data is its name.\<close>

definition de_name :: "(string \<times> 'a) list \<Rightarrow> json \<Rightarrow> 'a option" where
  "de_name table j = Option.bind (json_as_str j) (map_of table)"

section \<open>What is written is read back\<close>

text \<open>A type on the wire: written and read back, a value is the same if it is \<open>ok\<close>, and an error otherwise.\<close>

locale wire_type =
  fixes ser :: "'a \<Rightarrow> json" and de :: "json \<Rightarrow> 'a option" and ok :: "'a \<Rightarrow> bool"
  assumes trip: "de (ser x) = (if ok x then Some x else None)"
begin

lemma list_trip: "de_list de (ser_list ser xs) = (if list_all ok xs then Some xs else None)"
  by (induction xs) (simp_all add: ser_list_def trip)

end

locale wire_value = wire_type +
  assumes not_null: "ser x \<noteq> JNull"
begin

lemma opt_trip: "de_opt de (ser_opt ser v) = (if pred_option ok v then Some v else None)"
  by (cases v) (simp_all add: de_opt_def trip not_null)

lemma opt_list_trip: "de_opt (de_list de) (ser_opt (ser_list ser) v) = (if pred_option (list_all ok) v then Some v else None)"
  by (cases v) (simp_all add: de_opt_def list_trip, simp_all add: ser_list_def)

end

interpretation str_w: wire_value JStr json_as_str "\<lambda>_. True"
  by unfold_locales simp_all

interpretation bool_w: wire_value JBool de_bool "\<lambda>_. True"
  by unfold_locales simp_all

interpretation u64_w: wire_value ser_nat json_as_u64 fits_u64
  by unfold_locales (simp_all add: ser_nat_def fits_u64_def)

interpretation u32_w: wire_value ser_nat de_u32 fits_u32
  by unfold_locales (auto simp: ser_nat_def fits_u32_def de_u32_def)

interpretation i64_w: wire_value JInt json_as_i64 fits_i64
  by unfold_locales (auto simp: fits_i64_def)

interpretation i32_w: wire_value JInt de_i32 fits_i32
  by unfold_locales (auto simp: fits_i32_def de_i32_def)

interpretation f64_w: wire_value JReal de_f64 "\<lambda>_. True"
  by unfold_locales simp_all

interpretation fl_w: wire_type ser_fl de_fl is_fin
proof
  show "de_fl (ser_fl x) = (if is_fin x then Some x else None)" for x
    by (cases x) (simp_all add: de_fl_def)
qed

interpretation strs_w: wire_value "ser_list JStr" "de_list json_as_str" "\<lambda>_. True"
proof
  show "de_list json_as_str (ser_list JStr xs) = (if True then Some xs else None)" for xs
    by (simp add: str_w.list_trip list_all_def)
qed (simp add: ser_list_def)

section \<open>Single precision\<close>

text \<open>The value of a finite float is converted to that float again, but for the sign of zero.\<close>

lemma f32_scale_unique:
  assumes "0 \<le> a" "a * 2 ^ 126 < 2 ^ 254" "x = 0 \<or> 2 ^ x \<le> a * 2 ^ 126" "a * 2 ^ 126 < 2 * 2 ^ x"
  shows "f32_scale a = x"
proof (rule ccontr)
  note b = f32_scale_bracket [OF assms(1,2)]
  have le: "(2 :: real) ^ Suc i \<le> 2 ^ j" if "i < j" for i j using that by (intro power_increasing) auto
  assume "f32_scale a \<noteq> x"
  then consider "f32_scale a < x" | "x < f32_scale a" by linarith
  then show False
  proof cases
    case 1
    then show False using assms(3) b(2) le [OF 1] by simp
  next
    case 2
    then show False using assms(4) b(1) le [OF 2] by simp
  qed
qed

lemma f32_mantissa_exact: "a * 2 ^ 149 / 2 ^ f32_scale a = real m \<Longrightarrow> f32_mantissa a = m"
  by (simp add: f32_mantissa_def round_half_even_def Let_def)

lemma f32_fields:
  fixes w :: f32
  obtains n neg where "w = of_nat (n + (if neg then 2 ^ 31 else 0))" "n < 2 ^ 31"
proof -
  have "unat w < 2 ^ 32" using unsigned_less [of w] by simp
  then show thesis
    using that [of "unat w" False] that [of "unat w - 2 ^ 31" True] by (cases "unat w < 2 ^ 31") simp_all
qed

lemma f32_val_finite:
  assumes "f32_val (of_nat (n + (if neg then 2 ^ 31 else 0))) = Fin r" "n < 2 ^ 31"
  shows "n < 255 * 2 ^ 23"
proof (rule ccontr)
  assume big: "\<not> n < 255 * 2 ^ 23"
  let ?k = "n + (if neg then 2 ^ 31 else 0)"
  have u: "unat (of_nat ?k :: 32 word) = ?k" by (rule unat_of_nat_small) (use assms(2) in simp)
  have "unat (take_bit 8 (drop_bit 23 (of_nat ?k :: 32 word))) = n div 2 ^ 23 mod 256"
    unfolding unsigned_take_bit_eq unat_drop_bit_eq u
    using div_mult_self1 [of 8388608 n 256] by (simp add: take_bit_eq_mod drop_bit_eq_div)
  moreover have "n div 2 ^ 23 = 255" using assms(2) big by (intro div_nat_eqI) simp_all
  ultimately show False using assms(1) by (auto simp: f32_val_def Let_def split: if_splits)
qed

lemma as_f32_val:
  assumes "f32_val w = Fin r" "w \<noteq> NEG_ZERO"
  shows "as_f32 r = w"
proof -
  obtain n neg where w: "w = of_nat (n + (if neg then 2 ^ 31 else 0))" and "n < 2 ^ 31" by (rule f32_fields)
  then have n: "n < 255 * 2 ^ 23" using f32_val_finite assms(1) by blast
  define e where "e = n div 2 ^ 23"
  define m where "m = n mod 2 ^ 23"
  have em: "n = e * 2 ^ 23 + m" "m < 2 ^ 23" "e < 255" using n by (simp_all add: e_def m_def div_less_iff_less_mult)
  define a where "a = (if e = 0 then real m / 2 ^ 149 else real ((8388608 + m) * 2 ^ e) / 2 ^ 150)"
  have r: "r = (if neg then - a else a)"
    using assms(1) unfolding w f32_val_fields [OF n] Let_def e_def m_def a_def by auto
  have a0: "0 \<le> a" by (simp add: a_def)
  have scale: "f32_scale a = e - 1" and mant: "e = 0 \<Longrightarrow> f32_mantissa a = m" "e \<noteq> 0 \<Longrightarrow> f32_mantissa a = 2 ^ 23 + m"
  proof -
    have up: "(2 :: real) ^ e \<le> 2 ^ 254" using em(3) by (intro power_increasing) auto
    have s: "f32_scale a = e - 1"
    proof (cases "e = 0")
      case True
      then show ?thesis using em(2) by (intro f32_scale_unique [OF a0]) (simp_all add: a_def)
    next
      case False
      then have p: "(2 :: real) ^ e = 2 * 2 ^ (e - 1)" by (cases e) simp_all
      have v: "a * 2 ^ 126 = (1 + real m / 2 ^ 23) * 2 ^ (e - 1)" using False by (simp add: a_def p field_simps)
      have lt: "1 + real m / 2 ^ 23 < 2" using em(2) by simp
      then have "a * 2 ^ 126 < 2 ^ e" unfolding v p by (intro mult_strict_right_mono) simp_all
      then have "a * 2 ^ 126 < 2 ^ 254" "a * 2 ^ 126 < 2 * 2 ^ (e - 1)" using up p by (linarith, simp)
      moreover have "2 ^ (e - 1) \<le> a * 2 ^ 126" unfolding v by simp
      ultimately show ?thesis by (intro f32_scale_unique [OF a0] disjI2)
    qed
    show "f32_scale a = e - 1" by (rule s)
    show "f32_mantissa a = m" if "e = 0" by (rule f32_mantissa_exact) (simp add: s that, simp add: a_def that)
    show "f32_mantissa a = 2 ^ 23 + m" if "e \<noteq> 0"
    proof (rule f32_mantissa_exact)
      have "(2 :: real) ^ e = 2 * 2 ^ (e - 1)" using that by (cases e) simp_all
      then show "a * 2 ^ 149 / 2 ^ f32_scale a = real (2 ^ 23 + m)" unfolding s by (simp add: a_def that)
    qed
  qed
  have "f32_scale a * 2 ^ 23 + f32_mantissa a = n"
    using scale mant em(1) by (cases e) simp_all
  moreover have "\<bar>r\<bar> = a" using r a0 by auto
  moreover have "r < 0 \<longleftrightarrow> neg"
  proof -
    have "n \<noteq> 0" if neg using assms(2) that w by (cases "n = 0") (simp_all add: NEG_ZERO_def)
    then have "a \<noteq> 0" if neg using that em by (auto simp: a_def)
    then show ?thesis using r a0 by auto
  qed
  ultimately show ?thesis using n unfolding as_f32_def w by (simp add: Let_def min_absorb1)
qed

lemma is_fin_iff: "is_fin x \<longleftrightarrow> (\<exists>r. x = Fin r)"
  by (cases x) simp_all

lemma f32_val_NEG_ZERO: "f32_val NEG_ZERO = Fin 0"
  using f32_val_fields [of 0 True] by (simp add: NEG_ZERO_def)

interpretation f32_w: wire_type ser_f32 de_f32 "\<lambda>w. is_fin (f32_val w)"
proof
  fix w
  show "de_f32 (ser_f32 w) = (if is_fin (f32_val w) then Some w else None)"
    using as_f32_val [of w] by (cases "f32_val w") (auto simp: ser_f32_def f32_val_NEG_ZERO)
qed

named_theorems wire "how the parts of a type are read back"

lemmas [wire] = str_w.trip bool_w.trip u64_w.trip u32_w.trip i64_w.trip i32_w.trip f64_w.trip fl_w.trip
  str_w.opt_trip i64_w.opt_trip f64_w.opt_trip strs_w.opt_trip str_w.list_trip strs_w.trip strs_w.list_trip f32_w.list_trip

lemma all_True [wire]:
  "list_all (\<lambda>_. True) xs" "pred_option (\<lambda>_. True) v" "pred_option (list_all (\<lambda>_. True)) w"
  by (simp_all add: list_all_def pred_option_def)

declare json_as_i64.simps [simp del] json_as_u64.simps [simp del]

lemma values_at_simps [simp]: "values_at k (kvs @ kvs') = values_at k kvs @ values_at k kvs'"
  by (induction kvs) auto

lemma values_at_absent: "k \<notin> fst ` set kvs \<Longrightarrow> values_at k kvs = []"
  by (induction kvs) auto

lemma bind_if [wire]: "Option.bind (if b then Some x else None) f = (if b then f x else None)"
  by simp

lemma tagged_own [wire]: "values_at k kvs = [] \<Longrightarrow> tagged k ((k, JStr t) # kvs) = Some (t, kvs)"
proof -
  assume a: "values_at k kvs = []"
  then have "filter (\<lambda>(k', _). k' \<noteq> k) kvs = kvs" by (induction kvs) (auto split: if_splits)
  then show ?thesis by (simp add: tagged_def a)
qed

end
