(* ===== verification/Wire_Requests.thy ===== *)
theory Wire_Requests
  imports Wire_Json Protocol
begin

text \<open>
  The JSON of requests (\<open>crates/protocol/src/lib.rs\<close>, the derived \<open>Serialize\<close> and \<open>Deserialize\<close> with their
  attributes): bucket and operation are tags beside the arguments, fields with a default may be absent.
\<close>

lemmas fields = field_def field_or_def field_opt_def

section \<open>The fields of all requests\<close>

text \<open>Members under other keys are unknown to this version.\<close>

definition REQUEST_KEYS :: "string list" where
  "REQUEST_KEYS =
   [''bucket'', ''op'', ''replay_snapshot'', ''synchronous'', ''user_id'', ''max_retention'', ''limit'',
    ''min_stability'', ''min_access_count'', ''ids'', ''summary_id'', ''id'', ''cold_since'',
    ''stub_content'', ''retention_floor'', ''confirm'', ''scope'', ''ttl_seconds'', ''token'',
    ''required_scope'', ''content'', ''category'', ''memory_type'', ''metadata'', ''memories'',
    ''initial_link_weight'', ''categories'', ''memory_types'', ''min_retention_floor'',
    ''min_importance'', ''created_after'', ''created_before'', ''offset'', ''include_superseded'',
    ''include_cold'', ''include_stubs'', ''importance'', ''stability'', ''valid_until'', ''source_id'',
    ''target_id'', ''strength'', ''bidirectional'', ''kind'', ''min_strength'', ''source_ids'',
    ''embedding'', ''embedding_provider'', ''embedding_model'', ''deep_recall'', ''query'', ''updates'',
    ''hybrid'', ''graph_expansion_hops'', ''bridge_discovery'']"

definition unknown :: "members \<Rightarrow> bool" where
  "unknown extra \<longleftrightarrow> (\<forall>k \<in> set REQUEST_KEYS. values_at k extra = [])"

lemma unknown_all: "unknown extra \<Longrightarrow> list_all (\<lambda>k. values_at k extra = []) REQUEST_KEYS"
  by (simp add: unknown_def list_all_iff)

lemmas unknown_at = unknown_all [unfolded REQUEST_KEYS_def list.pred_inject]

lemma unknown_tags:
  "unknown extra \<Longrightarrow> values_at ''bucket'' extra = []" "unknown extra \<Longrightarrow> values_at ''op'' extra = []"
  by (simp_all add: unknown_at)

section \<open>Lifecycle\<close>

definition ser_tick_args :: "tick_args \<Rightarrow> members" where
  "ser_tick_args a = [(''synchronous'', JBool (tk_synchronous a))]"

definition de_tick_args :: "members \<Rightarrow> tick_args option" where
  "de_tick_args kvs = do {
     synchronous \<leftarrow> field_or False ''synchronous'' de_bool kvs;
     Some \<lparr>tk_synchronous = synchronous\<rparr>
   }"

lemma tick_args_wire [wire]:
  "de_tick_args (ser_tick_args a) = Some a"
  "values_at ''op'' (ser_tick_args a) = []"
  "values_at ''bucket'' (ser_tick_args a) = []"
  "unknown extra \<Longrightarrow> de_tick_args (kvs @ extra) = de_tick_args kvs"
  by (cases a; simp add: de_tick_args_def ser_tick_args_def fields wire)
    (simp_all add: ser_tick_args_def de_tick_args_def fields unknown_at)

definition ser_find_fading_args :: "find_fading_args \<Rightarrow> members" where
  "ser_find_fading_args a = [(''user_id'', JStr (ff_user_id a)),
    (''max_retention'', JReal (ff_max_retention a)), (''limit'', JInt (ff_limit a))]"

definition de_find_fading_args :: "members \<Rightarrow> find_fading_args option" where
  "de_find_fading_args kvs = do {
     user_id \<leftarrow> field ''user_id'' json_as_str kvs;
     max_retention \<leftarrow> field ''max_retention'' de_f64 kvs;
     lim0 \<leftarrow> field_or default_find_limit ''limit'' json_as_i64 kvs;
     Some \<lparr>ff_user_id = user_id, ff_max_retention = max_retention, ff_limit = lim0\<rparr>
   }"

definition ok_find_fading_args :: "find_fading_args \<Rightarrow> bool" where
  "ok_find_fading_args a \<longleftrightarrow> fits_i64 (ff_limit a)"

lemma find_fading_args_wire [wire]:
  "de_find_fading_args (ser_find_fading_args a) = (if ok_find_fading_args a then Some a else None)"
  "values_at ''op'' (ser_find_fading_args a) = []"
  "values_at ''bucket'' (ser_find_fading_args a) = []"
  "unknown extra \<Longrightarrow> de_find_fading_args (kvs @ extra) = de_find_fading_args kvs"
  by (cases a; simp add: de_find_fading_args_def ser_find_fading_args_def ok_find_fading_args_def fields wire)
    (simp_all add: ser_find_fading_args_def de_find_fading_args_def fields unknown_at)

definition ser_find_stable_args :: "find_stable_args \<Rightarrow> members" where
  "ser_find_stable_args a = [(''user_id'', JStr (fs_user_id a)),
    (''min_stability'', JReal (fs_min_stability a)), (''min_access_count'', JInt (fs_min_access_count a)),
    (''limit'', JInt (fs_limit a))]"

definition de_find_stable_args :: "members \<Rightarrow> find_stable_args option" where
  "de_find_stable_args kvs = do {
     user_id \<leftarrow> field ''user_id'' json_as_str kvs;
     min_stability \<leftarrow> field ''min_stability'' de_f64 kvs;
     min_access_count \<leftarrow> field ''min_access_count'' json_as_i64 kvs;
     lim0 \<leftarrow> field_or default_find_limit ''limit'' json_as_i64 kvs;
     Some \<lparr>fs_user_id = user_id, fs_min_stability = min_stability,
       fs_min_access_count = min_access_count, fs_limit = lim0\<rparr>
   }"

definition ok_find_stable_args :: "find_stable_args \<Rightarrow> bool" where
  "ok_find_stable_args a \<longleftrightarrow> fits_i64 (fs_min_access_count a) \<and> fits_i64 (fs_limit a)"

lemma find_stable_args_wire [wire]:
  "de_find_stable_args (ser_find_stable_args a) = (if ok_find_stable_args a then Some a else None)"
  "values_at ''op'' (ser_find_stable_args a) = []"
  "values_at ''bucket'' (ser_find_stable_args a) = []"
  "unknown extra \<Longrightarrow> de_find_stable_args (kvs @ extra) = de_find_stable_args kvs"
  by (cases a; simp add: de_find_stable_args_def ser_find_stable_args_def ok_find_stable_args_def fields wire)
    (simp_all add: ser_find_stable_args_def de_find_stable_args_def fields unknown_at)

definition ser_mark_superseded_args :: "mark_superseded_args \<Rightarrow> members" where
  "ser_mark_superseded_args a = [(''user_id'', JStr (ms_user_id a)), (''ids'', ser_list JStr (ms_ids a)),
    (''summary_id'', JStr (ms_summary_id a))]"

definition de_mark_superseded_args :: "members \<Rightarrow> mark_superseded_args option" where
  "de_mark_superseded_args kvs = do {
     user_id \<leftarrow> field ''user_id'' json_as_str kvs;
     idents \<leftarrow> field ''ids'' (de_list json_as_str) kvs;
     summary_id \<leftarrow> field ''summary_id'' json_as_str kvs;
     Some \<lparr>ms_user_id = user_id, ms_ids = idents, ms_summary_id = summary_id\<rparr>
   }"

lemma mark_superseded_args_wire [wire]:
  "de_mark_superseded_args (ser_mark_superseded_args a) = Some a"
  "values_at ''op'' (ser_mark_superseded_args a) = []"
  "values_at ''bucket'' (ser_mark_superseded_args a) = []"
  "unknown extra \<Longrightarrow> de_mark_superseded_args (kvs @ extra) = de_mark_superseded_args kvs"
  by (cases a; simp add: de_mark_superseded_args_def ser_mark_superseded_args_def fields wire)
    (simp_all add: ser_mark_superseded_args_def de_mark_superseded_args_def fields unknown_at)

definition ser_migrate_to_cold_args :: "migrate_to_cold_args \<Rightarrow> members" where
  "ser_migrate_to_cold_args a = [(''user_id'', JStr (mc_user_id a)), (''id'', JStr (mc_id a)),
    (''cold_since'', JInt (mc_cold_since a))]"

definition de_migrate_to_cold_args :: "members \<Rightarrow> migrate_to_cold_args option" where
  "de_migrate_to_cold_args kvs = do {
     user_id \<leftarrow> field ''user_id'' json_as_str kvs;
     ident \<leftarrow> field ''id'' json_as_str kvs;
     cold_since \<leftarrow> field ''cold_since'' json_as_i64 kvs;
     Some \<lparr>mc_user_id = user_id, mc_id = ident, mc_cold_since = cold_since\<rparr>
   }"

definition ok_migrate_to_cold_args :: "migrate_to_cold_args \<Rightarrow> bool" where
  "ok_migrate_to_cold_args a \<longleftrightarrow> fits_i64 (mc_cold_since a)"

lemma migrate_to_cold_args_wire [wire]:
  "de_migrate_to_cold_args (ser_migrate_to_cold_args a) = (if ok_migrate_to_cold_args a then Some a else None)"
  "values_at ''op'' (ser_migrate_to_cold_args a) = []"
  "values_at ''bucket'' (ser_migrate_to_cold_args a) = []"
  "unknown extra \<Longrightarrow> de_migrate_to_cold_args (kvs @ extra) = de_migrate_to_cold_args kvs"
  by (cases a; simp add: de_migrate_to_cold_args_def ser_migrate_to_cold_args_def ok_migrate_to_cold_args_def fields wire)
    (simp_all add: ser_migrate_to_cold_args_def de_migrate_to_cold_args_def fields unknown_at)

definition ser_migrate_to_hot_args :: "migrate_to_hot_args \<Rightarrow> members" where
  "ser_migrate_to_hot_args a = [(''user_id'', JStr (mh_user_id a)), (''id'', JStr (mh_id a))]"

definition de_migrate_to_hot_args :: "members \<Rightarrow> migrate_to_hot_args option" where
  "de_migrate_to_hot_args kvs = do {
     user_id \<leftarrow> field ''user_id'' json_as_str kvs;
     ident \<leftarrow> field ''id'' json_as_str kvs;
     Some \<lparr>mh_user_id = user_id, mh_id = ident\<rparr>
   }"

lemma migrate_to_hot_args_wire [wire]:
  "de_migrate_to_hot_args (ser_migrate_to_hot_args a) = Some a"
  "values_at ''op'' (ser_migrate_to_hot_args a) = []"
  "values_at ''bucket'' (ser_migrate_to_hot_args a) = []"
  "unknown extra \<Longrightarrow> de_migrate_to_hot_args (kvs @ extra) = de_migrate_to_hot_args kvs"
  by (cases a; simp add: de_migrate_to_hot_args_def ser_migrate_to_hot_args_def fields wire)
    (simp_all add: ser_migrate_to_hot_args_def de_migrate_to_hot_args_def fields unknown_at)

definition ser_convert_to_stub_args :: "convert_to_stub_args \<Rightarrow> members" where
  "ser_convert_to_stub_args a = [(''user_id'', JStr (cs_user_id a)), (''id'', JStr (cs_id a)),
    (''stub_content'', JStr (cs_stub_content a))]"

definition de_convert_to_stub_args :: "members \<Rightarrow> convert_to_stub_args option" where
  "de_convert_to_stub_args kvs = do {
     user_id \<leftarrow> field ''user_id'' json_as_str kvs;
     ident \<leftarrow> field ''id'' json_as_str kvs;
     stub_content \<leftarrow> field ''stub_content'' json_as_str kvs;
     Some \<lparr>cs_user_id = user_id, cs_id = ident, cs_stub_content = stub_content\<rparr>
   }"

lemma convert_to_stub_args_wire [wire]:
  "de_convert_to_stub_args (ser_convert_to_stub_args a) = Some a"
  "values_at ''op'' (ser_convert_to_stub_args a) = []"
  "values_at ''bucket'' (ser_convert_to_stub_args a) = []"
  "unknown extra \<Longrightarrow> de_convert_to_stub_args (kvs @ extra) = de_convert_to_stub_args kvs"
  by (cases a; simp add: de_convert_to_stub_args_def ser_convert_to_stub_args_def fields wire)
    (simp_all add: ser_convert_to_stub_args_def de_convert_to_stub_args_def fields unknown_at)

definition ser_update_retention_args :: "update_retention_args \<Rightarrow> members" where
  "ser_update_retention_args a = [(''user_id'', JStr (ur_user_id a)), (''id'', JStr (ur_id a)),
    (''retention_floor'', JReal (ur_retention_floor a))]"

definition de_update_retention_args :: "members \<Rightarrow> update_retention_args option" where
  "de_update_retention_args kvs = do {
     user_id \<leftarrow> field ''user_id'' json_as_str kvs;
     ident \<leftarrow> field ''id'' json_as_str kvs;
     retention_floor \<leftarrow> field ''retention_floor'' de_f64 kvs;
     Some \<lparr>ur_user_id = user_id, ur_id = ident, ur_retention_floor = retention_floor\<rparr>
   }"

lemma update_retention_args_wire [wire]:
  "de_update_retention_args (ser_update_retention_args a) = Some a"
  "values_at ''op'' (ser_update_retention_args a) = []"
  "values_at ''bucket'' (ser_update_retention_args a) = []"
  "unknown extra \<Longrightarrow> de_update_retention_args (kvs @ extra) = de_update_retention_args kvs"
  by (cases a; simp add: de_update_retention_args_def ser_update_retention_args_def fields wire)
    (simp_all add: ser_update_retention_args_def de_update_retention_args_def fields unknown_at)

definition ser_clear_args :: "clear_args \<Rightarrow> members" where
  "ser_clear_args a = [(''user_id'', JStr (cl_user_id a)), (''confirm'', JBool (cl_confirm a))]"

definition de_clear_args :: "members \<Rightarrow> clear_args option" where
  "de_clear_args kvs = do {
     user_id \<leftarrow> field ''user_id'' json_as_str kvs;
     conf \<leftarrow> field ''confirm'' de_bool kvs;
     Some \<lparr>cl_user_id = user_id, cl_confirm = conf\<rparr>
   }"

lemma clear_args_wire [wire]:
  "de_clear_args (ser_clear_args a) = Some a"
  "values_at ''op'' (ser_clear_args a) = []"
  "values_at ''bucket'' (ser_clear_args a) = []"
  "unknown extra \<Longrightarrow> de_clear_args (kvs @ extra) = de_clear_args kvs"
  by (cases a; simp add: de_clear_args_def ser_clear_args_def fields wire)
    (simp_all add: ser_clear_args_def de_clear_args_def fields unknown_at)

fun ser_lifecycle :: "lifecycle_request \<Rightarrow> string \<times> members" where
  "ser_lifecycle (Tick a) = (''Tick'', ser_tick_args a)"
| "ser_lifecycle (FindFading a) = (''FindFading'', ser_find_fading_args a)"
| "ser_lifecycle (FindStable a) = (''FindStable'', ser_find_stable_args a)"
| "ser_lifecycle (MarkSuperseded a) = (''MarkSuperseded'', ser_mark_superseded_args a)"
| "ser_lifecycle (MigrateToCold a) = (''MigrateToCold'', ser_migrate_to_cold_args a)"
| "ser_lifecycle (MigrateToHot a) = (''MigrateToHot'', ser_migrate_to_hot_args a)"
| "ser_lifecycle (ConvertToStub a) = (''ConvertToStub'', ser_convert_to_stub_args a)"
| "ser_lifecycle (UpdateRetention a) = (''UpdateRetention'', ser_update_retention_args a)"
| "ser_lifecycle (Clear a) = (''Clear'', ser_clear_args a)"

definition de_lifecycle :: "(string \<times> (members \<Rightarrow> lifecycle_request option)) list" where
  "de_lifecycle =
     [(''Tick'', map_option Tick \<circ> de_tick_args),
      (''FindFading'', map_option FindFading \<circ> de_find_fading_args),
      (''FindStable'', map_option FindStable \<circ> de_find_stable_args),
      (''MarkSuperseded'', map_option MarkSuperseded \<circ> de_mark_superseded_args),
      (''MigrateToCold'', map_option MigrateToCold \<circ> de_migrate_to_cold_args),
      (''MigrateToHot'', map_option MigrateToHot \<circ> de_migrate_to_hot_args),
      (''ConvertToStub'', map_option ConvertToStub \<circ> de_convert_to_stub_args),
      (''UpdateRetention'', map_option UpdateRetention \<circ> de_update_retention_args),
      (''Clear'', map_option Clear \<circ> de_clear_args)]"

fun ok_lifecycle :: "lifecycle_request \<Rightarrow> bool" where
  "ok_lifecycle (FindFading a) = ok_find_fading_args a"
| "ok_lifecycle (FindStable a) = ok_find_stable_args a"
| "ok_lifecycle (MigrateToCold a) = ok_migrate_to_cold_args a"
| "ok_lifecycle _ = True"

section \<open>Diagnostics\<close>

fun ser_scope :: "bridge_scope \<Rightarrow> json" where
  "ser_scope Read = JStr ''read''"
| "ser_scope Write = JStr ''write''"
| "ser_scope Admin = JStr ''admin''"

definition de_scope :: "json \<Rightarrow> bridge_scope option" where
  "de_scope = de_name [(''read'', Read), (''write'', Write), (''admin'', Admin)]"

interpretation scope_w: wire_value ser_scope de_scope "\<lambda>_. True"
proof
  show "de_scope (ser_scope x) = (if True then Some x else None)" "ser_scope x \<noteq> JNull" for x
    by (cases x; simp add: de_scope_def de_name_def)+
qed

lemmas [wire] = scope_w.trip

definition ser_mint_bridge_token_args :: "mint_bridge_token_args \<Rightarrow> members" where
  "ser_mint_bridge_token_args a = [(''user_id'', JStr (mt_user_id a)), (''scope'', ser_scope (mt_scope a)),
    (''ttl_seconds'', ser_nat (mt_ttl_seconds a))]"

definition de_mint_bridge_token_args :: "members \<Rightarrow> mint_bridge_token_args option" where
  "de_mint_bridge_token_args kvs = do {
     user_id \<leftarrow> field ''user_id'' json_as_str kvs;
     sc \<leftarrow> field ''scope'' de_scope kvs;
     ttl_seconds \<leftarrow> field_or default_ttl ''ttl_seconds'' json_as_u64 kvs;
     Some \<lparr>mt_user_id = user_id, mt_scope = sc, mt_ttl_seconds = ttl_seconds\<rparr>
   }"

definition ok_mint_bridge_token_args :: "mint_bridge_token_args \<Rightarrow> bool" where
  "ok_mint_bridge_token_args a \<longleftrightarrow> fits_u64 (mt_ttl_seconds a)"

lemma mint_bridge_token_args_wire [wire]:
  "de_mint_bridge_token_args (ser_mint_bridge_token_args a) = (if ok_mint_bridge_token_args a then Some a else None)"
  "values_at ''op'' (ser_mint_bridge_token_args a) = []"
  "values_at ''bucket'' (ser_mint_bridge_token_args a) = []"
  "unknown extra \<Longrightarrow> de_mint_bridge_token_args (kvs @ extra) = de_mint_bridge_token_args kvs"
  by (cases a; simp add: de_mint_bridge_token_args_def ser_mint_bridge_token_args_def ok_mint_bridge_token_args_def fields wire)
    (simp_all add: ser_mint_bridge_token_args_def de_mint_bridge_token_args_def fields unknown_at)

definition ser_validate_bridge_token_args :: "validate_bridge_token_args \<Rightarrow> members" where
  "ser_validate_bridge_token_args a = [(''token'', JStr (vt_token a)),
    (''required_scope'', ser_scope (vt_required_scope a))]"

definition de_validate_bridge_token_args :: "members \<Rightarrow> validate_bridge_token_args option" where
  "de_validate_bridge_token_args kvs = do {
     tok \<leftarrow> field ''token'' json_as_str kvs;
     required_scope \<leftarrow> field ''required_scope'' de_scope kvs;
     Some \<lparr>vt_token = tok, vt_required_scope = required_scope\<rparr>
   }"

lemma validate_bridge_token_args_wire [wire]:
  "de_validate_bridge_token_args (ser_validate_bridge_token_args a) = Some a"
  "values_at ''op'' (ser_validate_bridge_token_args a) = []"
  "values_at ''bucket'' (ser_validate_bridge_token_args a) = []"
  "unknown extra \<Longrightarrow> de_validate_bridge_token_args (kvs @ extra) = de_validate_bridge_token_args kvs"
  by (cases a; simp add: de_validate_bridge_token_args_def ser_validate_bridge_token_args_def fields wire)
    (simp_all add: ser_validate_bridge_token_args_def de_validate_bridge_token_args_def fields unknown_at)

definition ser_recent_traces_args :: "nat \<Rightarrow> members" where
  "ser_recent_traces_args limit = [(''limit'', ser_nat limit)]"

definition de_recent_traces_args :: "members \<Rightarrow> nat option" where
  "de_recent_traces_args = field_or default_trace_limit ''limit'' json_as_u64"

definition ser_counts_args :: "string \<Rightarrow> members" where
  "ser_counts_args user_id = [(''user_id'', JStr user_id)]"

definition de_counts_args :: "members \<Rightarrow> string option" where
  "de_counts_args = field ''user_id'' json_as_str"

lemma small_diagnostics_wire [wire]:
  "de_recent_traces_args (ser_recent_traces_args n) = (if fits_u64 n then Some n else None)"
  "de_counts_args (ser_counts_args u) = Some u"
  "values_at ''op'' (ser_recent_traces_args n) = []" "values_at ''bucket'' (ser_recent_traces_args n) = []"
  "values_at ''op'' (ser_counts_args u) = []" "values_at ''bucket'' (ser_counts_args u) = []"
  "unknown extra \<Longrightarrow> de_recent_traces_args (kvs @ extra) = de_recent_traces_args kvs"
  "unknown extra \<Longrightarrow> de_counts_args (kvs @ extra) = de_counts_args kvs"
  by (simp_all add: ser_recent_traces_args_def de_recent_traces_args_def ser_counts_args_def de_counts_args_def
      fields wire unknown_at)

fun ser_diagnostics :: "diagnostics_request \<Rightarrow> string \<times> members" where
  "ser_diagnostics Status = (''Status'', [])"
| "ser_diagnostics Doctor = (''Doctor'', [])"
| "ser_diagnostics (RecentTraces n) = (''RecentTraces'', ser_recent_traces_args n)"
| "ser_diagnostics Shutdown = (''Shutdown'', [])"
| "ser_diagnostics (MintBridgeToken a) = (''MintBridgeToken'', ser_mint_bridge_token_args a)"
| "ser_diagnostics (ValidateBridgeToken a) = (''ValidateBridgeToken'', ser_validate_bridge_token_args a)"
| "ser_diagnostics (Counts u) = (''Counts'', ser_counts_args u)"

text \<open>A variant without data takes whatever members there are.\<close>

definition de_diagnostics :: "(string \<times> (members \<Rightarrow> diagnostics_request option)) list" where
  "de_diagnostics =
     [(''Status'', \<lambda>_. Some Status),
      (''Doctor'', \<lambda>_. Some Doctor),
      (''RecentTraces'', map_option RecentTraces \<circ> de_recent_traces_args),
      (''Shutdown'', \<lambda>_. Some Shutdown),
      (''MintBridgeToken'', map_option MintBridgeToken \<circ> de_mint_bridge_token_args),
      (''ValidateBridgeToken'', map_option ValidateBridgeToken \<circ> de_validate_bridge_token_args),
      (''Counts'', map_option Counts \<circ> de_counts_args)]"

fun ok_diagnostics :: "diagnostics_request \<Rightarrow> bool" where
  "ok_diagnostics (RecentTraces n) = fits_u64 n"
| "ok_diagnostics (MintBridgeToken a) = ok_mint_bridge_token_args a"
| "ok_diagnostics _ = True"

section \<open>Memory\<close>

definition ser_batch_memory_entry :: "batch_memory_entry \<Rightarrow> members" where
  "ser_batch_memory_entry a = [(''content'', JStr (be_content a)), (''category'', JStr (be_category a)),
    (''memory_type'', JStr (be_memory_type a)), (''metadata'', JStr (be_metadata a))]"

definition de_batch_memory_entry :: "members \<Rightarrow> batch_memory_entry option" where
  "de_batch_memory_entry kvs = do {
     content \<leftarrow> field ''content'' json_as_str kvs;
     category \<leftarrow> field_or default_category ''category'' json_as_str kvs;
     memory_type \<leftarrow> field_or default_memory_type ''memory_type'' json_as_str kvs;
     meta \<leftarrow> field_or default_metadata ''metadata'' json_as_str kvs;
     Some \<lparr>be_content = content, be_category = category, be_memory_type = memory_type,
       be_metadata = meta\<rparr>
   }"

lemma batch_memory_entry_wire [wire]:
  "de_batch_memory_entry (ser_batch_memory_entry a) = Some a"
  "values_at ''op'' (ser_batch_memory_entry a) = []"
  "values_at ''bucket'' (ser_batch_memory_entry a) = []"
  "unknown extra \<Longrightarrow> de_batch_memory_entry (kvs @ extra) = de_batch_memory_entry kvs"
  by (cases a; simp add: de_batch_memory_entry_def ser_batch_memory_entry_def fields wire)
    (simp_all add: ser_batch_memory_entry_def de_batch_memory_entry_def fields unknown_at)

interpretation batch_memory_entry_w: wire_value "JObj \<circ> ser_batch_memory_entry" "struct de_batch_memory_entry" "\<lambda>_. True"
  by unfold_locales (simp_all add: wire)

lemmas [wire] = batch_memory_entry_w.list_trip

definition ser_store_batch_args :: "store_batch_args \<Rightarrow> members" where
  "ser_store_batch_args a = [(''user_id'', JStr (sb_user_id a)),
    (''memories'', ser_list (JObj \<circ> ser_batch_memory_entry) (sb_memories a)),
    (''initial_link_weight'', JReal (sb_initial_link_weight a))]"

definition de_store_batch_args :: "members \<Rightarrow> store_batch_args option" where
  "de_store_batch_args kvs = do {
     user_id \<leftarrow> field ''user_id'' json_as_str kvs;
     mems \<leftarrow> field ''memories'' (de_list (struct de_batch_memory_entry)) kvs;
     initial_link_weight \<leftarrow> field_or default_batch_link_weight ''initial_link_weight'' de_f64 kvs;
     Some \<lparr>sb_user_id = user_id, sb_memories = mems, sb_initial_link_weight = initial_link_weight\<rparr>
   }"

lemma store_batch_args_wire [wire]:
  "de_store_batch_args (ser_store_batch_args a) = Some a"
  "values_at ''op'' (ser_store_batch_args a) = []"
  "values_at ''bucket'' (ser_store_batch_args a) = []"
  "unknown extra \<Longrightarrow> de_store_batch_args (kvs @ extra) = de_store_batch_args kvs"
  by (cases a; simp add: de_store_batch_args_def ser_store_batch_args_def fields wire)
    (simp_all add: ser_store_batch_args_def de_store_batch_args_def fields unknown_at)

definition ser_get_memory_args :: "get_memory_args \<Rightarrow> members" where
  "ser_get_memory_args a = [(''user_id'', JStr (gm_user_id a)), (''id'', JStr (gm_id a))]"

definition de_get_memory_args :: "members \<Rightarrow> get_memory_args option" where
  "de_get_memory_args kvs = do {
     user_id \<leftarrow> field ''user_id'' json_as_str kvs;
     ident \<leftarrow> field ''id'' json_as_str kvs;
     Some \<lparr>gm_user_id = user_id, gm_id = ident\<rparr>
   }"

lemma get_memory_args_wire [wire]:
  "de_get_memory_args (ser_get_memory_args a) = Some a"
  "values_at ''op'' (ser_get_memory_args a) = []"
  "values_at ''bucket'' (ser_get_memory_args a) = []"
  "unknown extra \<Longrightarrow> de_get_memory_args (kvs @ extra) = de_get_memory_args kvs"
  by (cases a; simp add: de_get_memory_args_def ser_get_memory_args_def fields wire)
    (simp_all add: ser_get_memory_args_def de_get_memory_args_def fields unknown_at)

definition ser_get_many_memory_args :: "get_many_memory_args \<Rightarrow> members" where
  "ser_get_many_memory_args a = [(''user_id'', JStr (gn_user_id a)), (''ids'', ser_list JStr (gn_ids a))]"

definition de_get_many_memory_args :: "members \<Rightarrow> get_many_memory_args option" where
  "de_get_many_memory_args kvs = do {
     user_id \<leftarrow> field ''user_id'' json_as_str kvs;
     idents \<leftarrow> field ''ids'' (de_list json_as_str) kvs;
     Some \<lparr>gn_user_id = user_id, gn_ids = idents\<rparr>
   }"

lemma get_many_memory_args_wire [wire]:
  "de_get_many_memory_args (ser_get_many_memory_args a) = Some a"
  "values_at ''op'' (ser_get_many_memory_args a) = []"
  "values_at ''bucket'' (ser_get_many_memory_args a) = []"
  "unknown extra \<Longrightarrow> de_get_many_memory_args (kvs @ extra) = de_get_many_memory_args kvs"
  by (cases a; simp add: de_get_many_memory_args_def ser_get_many_memory_args_def fields wire)
    (simp_all add: ser_get_many_memory_args_def de_get_many_memory_args_def fields unknown_at)

definition ser_list_memory_args :: "list_memory_args \<Rightarrow> members" where
  "ser_list_memory_args a = [(''user_id'', JStr (li_user_id a)),
    (''categories'', ser_opt (ser_list JStr) (li_categories a)),
    (''memory_types'', ser_opt (ser_list JStr) (li_memory_types a)),
    (''min_retention_floor'', ser_opt JReal (li_min_retention_floor a)),
    (''min_importance'', ser_opt JReal (li_min_importance a)),
    (''created_after'', ser_opt JInt (li_created_after a)),
    (''created_before'', ser_opt JInt (li_created_before a)), (''limit'', ser_opt JInt (li_limit a)),
    (''offset'', ser_opt JInt (li_offset a)), (''include_superseded'', JBool (li_include_superseded a)),
    (''include_cold'', JBool (li_include_cold a)), (''include_stubs'', JBool (li_include_stubs a))]"

definition de_list_memory_args :: "members \<Rightarrow> list_memory_args option" where
  "de_list_memory_args kvs = do {
     user_id \<leftarrow> field ''user_id'' json_as_str kvs;
     categories \<leftarrow> field_opt ''categories'' (de_list json_as_str) kvs;
     memory_types \<leftarrow> field_opt ''memory_types'' (de_list json_as_str) kvs;
     min_retention_floor \<leftarrow> field_opt ''min_retention_floor'' de_f64 kvs;
     min_importance \<leftarrow> field_opt ''min_importance'' de_f64 kvs;
     created_after \<leftarrow> field_opt ''created_after'' json_as_i64 kvs;
     created_before \<leftarrow> field_opt ''created_before'' json_as_i64 kvs;
     lim0 \<leftarrow> field_opt ''limit'' json_as_i64 kvs;
     off \<leftarrow> field_opt ''offset'' json_as_i64 kvs;
     include_superseded \<leftarrow> field_or False ''include_superseded'' de_bool kvs;
     include_cold \<leftarrow> field_or False ''include_cold'' de_bool kvs;
     include_stubs \<leftarrow> field_or False ''include_stubs'' de_bool kvs;
     Some \<lparr>li_user_id = user_id, li_categories = categories, li_memory_types = memory_types,
       li_min_retention_floor = min_retention_floor, li_min_importance = min_importance,
       li_created_after = created_after, li_created_before = created_before, li_limit = lim0, li_offset = off,
       li_include_superseded = include_superseded, li_include_cold = include_cold,
       li_include_stubs = include_stubs\<rparr>
   }"

definition ok_list_memory_args :: "list_memory_args \<Rightarrow> bool" where
  "ok_list_memory_args a \<longleftrightarrow> pred_option fits_i64 (li_created_after a) \<and>
    pred_option fits_i64 (li_created_before a) \<and> pred_option fits_i64 (li_limit a) \<and>
    pred_option fits_i64 (li_offset a)"

lemma list_memory_args_wire [wire]:
  "de_list_memory_args (ser_list_memory_args a) = (if ok_list_memory_args a then Some a else None)"
  "values_at ''op'' (ser_list_memory_args a) = []"
  "values_at ''bucket'' (ser_list_memory_args a) = []"
  "unknown extra \<Longrightarrow> de_list_memory_args (kvs @ extra) = de_list_memory_args kvs"
  by (cases a; simp add: de_list_memory_args_def ser_list_memory_args_def ok_list_memory_args_def fields wire)
    (simp_all add: ser_list_memory_args_def de_list_memory_args_def fields unknown_at)

definition ser_update_memory_args :: "update_memory_args \<Rightarrow> members" where
  "ser_update_memory_args a = [(''user_id'', JStr (up_user_id a)), (''id'', JStr (up_id a)),
    (''content'', ser_opt JStr (up_content a)), (''category'', ser_opt JStr (up_category a)),
    (''memory_type'', ser_opt JStr (up_memory_type a)), (''metadata'', ser_opt JStr (up_metadata a)),
    (''retention_floor'', ser_opt JReal (up_retention_floor a)),
    (''importance'', ser_opt JReal (up_importance a)), (''stability'', ser_opt JReal (up_stability a)),
    (''valid_until'', ser_opt JInt (up_valid_until a))]"

definition de_update_memory_args :: "members \<Rightarrow> update_memory_args option" where
  "de_update_memory_args kvs = do {
     user_id \<leftarrow> field ''user_id'' json_as_str kvs;
     ident \<leftarrow> field ''id'' json_as_str kvs;
     content \<leftarrow> field_opt ''content'' json_as_str kvs;
     category \<leftarrow> field_opt ''category'' json_as_str kvs;
     memory_type \<leftarrow> field_opt ''memory_type'' json_as_str kvs;
     meta \<leftarrow> field_opt ''metadata'' json_as_str kvs;
     retention_floor \<leftarrow> field_opt ''retention_floor'' de_f64 kvs;
     imp \<leftarrow> field_opt ''importance'' de_f64 kvs;
     stab \<leftarrow> field_opt ''stability'' de_f64 kvs;
     valid_until \<leftarrow> field_opt ''valid_until'' json_as_i64 kvs;
     Some \<lparr>up_user_id = user_id, up_id = ident, up_content = content, up_category = category,
       up_memory_type = memory_type, up_metadata = meta, up_retention_floor = retention_floor,
       up_importance = imp, up_stability = stab, up_valid_until = valid_until\<rparr>
   }"

definition ok_update_memory_args :: "update_memory_args \<Rightarrow> bool" where
  "ok_update_memory_args a \<longleftrightarrow> pred_option fits_i64 (up_valid_until a)"

lemma update_memory_args_wire [wire]:
  "de_update_memory_args (ser_update_memory_args a) = (if ok_update_memory_args a then Some a else None)"
  "values_at ''op'' (ser_update_memory_args a) = []"
  "values_at ''bucket'' (ser_update_memory_args a) = []"
  "unknown extra \<Longrightarrow> de_update_memory_args (kvs @ extra) = de_update_memory_args kvs"
  by (cases a; simp add: de_update_memory_args_def ser_update_memory_args_def ok_update_memory_args_def fields wire)
    (simp_all add: ser_update_memory_args_def de_update_memory_args_def fields unknown_at)

definition ser_delete_memory_args :: "delete_memory_args \<Rightarrow> members" where
  "ser_delete_memory_args a = [(''user_id'', JStr (dm_user_id a)), (''id'', JStr (dm_id a))]"

definition de_delete_memory_args :: "members \<Rightarrow> delete_memory_args option" where
  "de_delete_memory_args kvs = do {
     user_id \<leftarrow> field ''user_id'' json_as_str kvs;
     ident \<leftarrow> field ''id'' json_as_str kvs;
     Some \<lparr>dm_user_id = user_id, dm_id = ident\<rparr>
   }"

lemma delete_memory_args_wire [wire]:
  "de_delete_memory_args (ser_delete_memory_args a) = Some a"
  "values_at ''op'' (ser_delete_memory_args a) = []"
  "values_at ''bucket'' (ser_delete_memory_args a) = []"
  "unknown extra \<Longrightarrow> de_delete_memory_args (kvs @ extra) = de_delete_memory_args kvs"
  by (cases a; simp add: de_delete_memory_args_def ser_delete_memory_args_def fields wire)
    (simp_all add: ser_delete_memory_args_def de_delete_memory_args_def fields unknown_at)

definition ser_delete_many_memory_args :: "delete_many_memory_args \<Rightarrow> members" where
  "ser_delete_many_memory_args a = [(''user_id'', JStr (dn_user_id a)), (''ids'', ser_list JStr (dn_ids a))]"

definition de_delete_many_memory_args :: "members \<Rightarrow> delete_many_memory_args option" where
  "de_delete_many_memory_args kvs = do {
     user_id \<leftarrow> field ''user_id'' json_as_str kvs;
     idents \<leftarrow> field ''ids'' (de_list json_as_str) kvs;
     Some \<lparr>dn_user_id = user_id, dn_ids = idents\<rparr>
   }"

lemma delete_many_memory_args_wire [wire]:
  "de_delete_many_memory_args (ser_delete_many_memory_args a) = Some a"
  "values_at ''op'' (ser_delete_many_memory_args a) = []"
  "values_at ''bucket'' (ser_delete_many_memory_args a) = []"
  "unknown extra \<Longrightarrow> de_delete_many_memory_args (kvs @ extra) = de_delete_many_memory_args kvs"
  by (cases a; simp add: de_delete_many_memory_args_def ser_delete_many_memory_args_def fields wire)
    (simp_all add: ser_delete_many_memory_args_def de_delete_many_memory_args_def fields unknown_at)

definition ser_link_memory_args :: "link_memory_args \<Rightarrow> members" where
  "ser_link_memory_args a = [(''user_id'', JStr (lk_user_id a)), (''source_id'', JStr (lk_source_id a)),
    (''target_id'', JStr (lk_target_id a)), (''strength'', JReal (lk_strength a)),
    (''bidirectional'', JBool (lk_bidirectional a)), (''kind'', JStr (lk_kind a))]"

definition de_link_memory_args :: "members \<Rightarrow> link_memory_args option" where
  "de_link_memory_args kvs = do {
     user_id \<leftarrow> field ''user_id'' json_as_str kvs;
     source_id \<leftarrow> field ''source_id'' json_as_str kvs;
     target_id \<leftarrow> field ''target_id'' json_as_str kvs;
     strength \<leftarrow> field_or default_link_strength ''strength'' de_f64 kvs;
     bidirectional \<leftarrow> field_or True ''bidirectional'' de_bool kvs;
     kd \<leftarrow> field_or default_link_kind ''kind'' json_as_str kvs;
     Some \<lparr>lk_user_id = user_id, lk_source_id = source_id, lk_target_id = target_id,
       lk_strength = strength, lk_bidirectional = bidirectional, lk_kind = kd\<rparr>
   }"

lemma link_memory_args_wire [wire]:
  "de_link_memory_args (ser_link_memory_args a) = Some a"
  "values_at ''op'' (ser_link_memory_args a) = []"
  "values_at ''bucket'' (ser_link_memory_args a) = []"
  "unknown extra \<Longrightarrow> de_link_memory_args (kvs @ extra) = de_link_memory_args kvs"
  by (cases a; simp add: de_link_memory_args_def ser_link_memory_args_def fields wire)
    (simp_all add: ser_link_memory_args_def de_link_memory_args_def fields unknown_at)

definition ser_unlink_memory_args :: "unlink_memory_args \<Rightarrow> members" where
  "ser_unlink_memory_args a = [(''user_id'', JStr (ul_user_id a)), (''source_id'', JStr (ul_source_id a)),
    (''target_id'', JStr (ul_target_id a)), (''bidirectional'', JBool (ul_bidirectional a))]"

definition de_unlink_memory_args :: "members \<Rightarrow> unlink_memory_args option" where
  "de_unlink_memory_args kvs = do {
     user_id \<leftarrow> field ''user_id'' json_as_str kvs;
     source_id \<leftarrow> field ''source_id'' json_as_str kvs;
     target_id \<leftarrow> field ''target_id'' json_as_str kvs;
     bidirectional \<leftarrow> field_or True ''bidirectional'' de_bool kvs;
     Some \<lparr>ul_user_id = user_id, ul_source_id = source_id, ul_target_id = target_id,
       ul_bidirectional = bidirectional\<rparr>
   }"

lemma unlink_memory_args_wire [wire]:
  "de_unlink_memory_args (ser_unlink_memory_args a) = Some a"
  "values_at ''op'' (ser_unlink_memory_args a) = []"
  "values_at ''bucket'' (ser_unlink_memory_args a) = []"
  "unknown extra \<Longrightarrow> de_unlink_memory_args (kvs @ extra) = de_unlink_memory_args kvs"
  by (cases a; simp add: de_unlink_memory_args_def ser_unlink_memory_args_def fields wire)
    (simp_all add: ser_unlink_memory_args_def de_unlink_memory_args_def fields unknown_at)

definition ser_get_linked_args :: "get_linked_args \<Rightarrow> members" where
  "ser_get_linked_args a = [(''user_id'', JStr (gl_user_id a)), (''source_id'', JStr (gl_source_id a)),
    (''min_strength'', JReal (gl_min_strength a))]"

definition de_get_linked_args :: "members \<Rightarrow> get_linked_args option" where
  "de_get_linked_args kvs = do {
     user_id \<leftarrow> field ''user_id'' json_as_str kvs;
     source_id \<leftarrow> field ''source_id'' json_as_str kvs;
     strength \<leftarrow> field_or default_min_link_strength ''min_strength'' de_f64 kvs;
     Some \<lparr>gl_user_id = user_id, gl_source_id = source_id, gl_min_strength = strength\<rparr>
   }"

lemma get_linked_args_wire [wire]:
  "de_get_linked_args (ser_get_linked_args a) = Some a"
  "values_at ''op'' (ser_get_linked_args a) = []"
  "values_at ''bucket'' (ser_get_linked_args a) = []"
  "unknown extra \<Longrightarrow> de_get_linked_args (kvs @ extra) = de_get_linked_args kvs"
  by (cases a; simp add: de_get_linked_args_def ser_get_linked_args_def fields wire)
    (simp_all add: ser_get_linked_args_def de_get_linked_args_def fields unknown_at)

definition ser_get_linked_many_args :: "get_linked_many_args \<Rightarrow> members" where
  "ser_get_linked_many_args a = [(''user_id'', JStr (gk_user_id a)),
    (''source_ids'', ser_list JStr (gk_source_ids a)), (''min_strength'', JReal (gk_min_strength a))]"

definition de_get_linked_many_args :: "members \<Rightarrow> get_linked_many_args option" where
  "de_get_linked_many_args kvs = do {
     user_id \<leftarrow> field ''user_id'' json_as_str kvs;
     source_ids \<leftarrow> field ''source_ids'' (de_list json_as_str) kvs;
     strength \<leftarrow> field_or default_min_link_strength ''min_strength'' de_f64 kvs;
     Some \<lparr>gk_user_id = user_id, gk_source_ids = source_ids, gk_min_strength = strength\<rparr>
   }"

lemma get_linked_many_args_wire [wire]:
  "de_get_linked_many_args (ser_get_linked_many_args a) = Some a"
  "values_at ''op'' (ser_get_linked_many_args a) = []"
  "values_at ''bucket'' (ser_get_linked_many_args a) = []"
  "unknown extra \<Longrightarrow> de_get_linked_many_args (kvs @ extra) = de_get_linked_many_args kvs"
  by (cases a; simp add: de_get_linked_many_args_def ser_get_linked_many_args_def fields wire)
    (simp_all add: ser_get_linked_many_args_def de_get_linked_many_args_def fields unknown_at)

definition ser_vector_search_args :: "vector_search_args \<Rightarrow> members" where
  "ser_vector_search_args a = [(''user_id'', JStr (vs_user_id a)),
    (''embedding'', ser_list ser_f32 (vs_embedding a)),
    (''embedding_provider'', JStr (vs_embedding_provider a)),
    (''embedding_model'', JStr (vs_embedding_model a)), (''limit'', ser_nat (vs_limit a)),
    (''deep_recall'', JBool (vs_deep_recall a))]"

definition de_vector_search_args :: "members \<Rightarrow> vector_search_args option" where
  "de_vector_search_args kvs = do {
     user_id \<leftarrow> field ''user_id'' json_as_str kvs;
     vec \<leftarrow> field ''embedding'' (de_list de_f32) kvs;
     embedding_provider \<leftarrow> field ''embedding_provider'' json_as_str kvs;
     embedding_model \<leftarrow> field ''embedding_model'' json_as_str kvs;
     lim0 \<leftarrow> field_or default_limit ''limit'' json_as_u64 kvs;
     deep_recall \<leftarrow> field_or False ''deep_recall'' de_bool kvs;
     Some \<lparr>vs_user_id = user_id, vs_embedding = vec, vs_embedding_provider = embedding_provider,
       vs_embedding_model = embedding_model, vs_limit = lim0, vs_deep_recall = deep_recall\<rparr>
   }"

definition ok_vector_search_args :: "vector_search_args \<Rightarrow> bool" where
  "ok_vector_search_args a \<longleftrightarrow>
    list_all (\<lambda>w. is_fin (f32_val w)) (vs_embedding a) \<and> fits_u64 (vs_limit a)"

lemma vector_search_args_wire [wire]:
  "de_vector_search_args (ser_vector_search_args a) = (if ok_vector_search_args a then Some a else None)"
  "values_at ''op'' (ser_vector_search_args a) = []"
  "values_at ''bucket'' (ser_vector_search_args a) = []"
  "unknown extra \<Longrightarrow> de_vector_search_args (kvs @ extra) = de_vector_search_args kvs"
  by (cases a; simp add: de_vector_search_args_def ser_vector_search_args_def ok_vector_search_args_def fields wire)
    (simp_all add: ser_vector_search_args_def de_vector_search_args_def fields unknown_at)

definition ser_search_lexical_args :: "search_lexical_args \<Rightarrow> members" where
  "ser_search_lexical_args a = [(''user_id'', JStr (sl_user_id a)), (''query'', JStr (sl_query a)),
    (''limit'', ser_nat (sl_limit a))]"

definition de_search_lexical_args :: "members \<Rightarrow> search_lexical_args option" where
  "de_search_lexical_args kvs = do {
     user_id \<leftarrow> field ''user_id'' json_as_str kvs;
     qu \<leftarrow> field ''query'' json_as_str kvs;
     lim0 \<leftarrow> field_or default_limit ''limit'' json_as_u64 kvs;
     Some \<lparr>sl_user_id = user_id, sl_query = qu, sl_limit = lim0\<rparr>
   }"

definition ok_search_lexical_args :: "search_lexical_args \<Rightarrow> bool" where
  "ok_search_lexical_args a \<longleftrightarrow> fits_u64 (sl_limit a)"

lemma search_lexical_args_wire [wire]:
  "de_search_lexical_args (ser_search_lexical_args a) = (if ok_search_lexical_args a then Some a else None)"
  "values_at ''op'' (ser_search_lexical_args a) = []"
  "values_at ''bucket'' (ser_search_lexical_args a) = []"
  "unknown extra \<Longrightarrow> de_search_lexical_args (kvs @ extra) = de_search_lexical_args kvs"
  by (cases a; simp add: de_search_lexical_args_def ser_search_lexical_args_def ok_search_lexical_args_def fields wire)
    (simp_all add: ser_search_lexical_args_def de_search_lexical_args_def fields unknown_at)

definition ser_retention_update :: "retention_update \<Rightarrow> members" where
  "ser_retention_update a = [(''id'', JStr (ru_id a)), (''retention_floor'', JReal (ru_retention_floor a))]"

definition de_retention_update :: "members \<Rightarrow> retention_update option" where
  "de_retention_update kvs = do {
     ident \<leftarrow> field ''id'' json_as_str kvs;
     retention_floor \<leftarrow> field ''retention_floor'' de_f64 kvs;
     Some \<lparr>ru_id = ident, ru_retention_floor = retention_floor\<rparr>
   }"

lemma retention_update_wire [wire]:
  "de_retention_update (ser_retention_update a) = Some a"
  "values_at ''op'' (ser_retention_update a) = []"
  "values_at ''bucket'' (ser_retention_update a) = []"
  "unknown extra \<Longrightarrow> de_retention_update (kvs @ extra) = de_retention_update kvs"
  by (cases a; simp add: de_retention_update_def ser_retention_update_def fields wire)
    (simp_all add: ser_retention_update_def de_retention_update_def fields unknown_at)

interpretation retention_update_w: wire_value "JObj \<circ> ser_retention_update" "struct de_retention_update" "\<lambda>_. True"
  by unfold_locales (simp_all add: wire)

lemmas [wire] = retention_update_w.list_trip

definition ser_batch_update_args :: "batch_update_args \<Rightarrow> members" where
  "ser_batch_update_args a = [(''user_id'', JStr (bu_user_id a)),
    (''updates'', ser_list (JObj \<circ> ser_retention_update) (bu_updates a))]"

definition de_batch_update_args :: "members \<Rightarrow> batch_update_args option" where
  "de_batch_update_args kvs = do {
     user_id \<leftarrow> field ''user_id'' json_as_str kvs;
     ups \<leftarrow> field ''updates'' (de_list (struct de_retention_update)) kvs;
     Some \<lparr>bu_user_id = user_id, bu_updates = ups\<rparr>
   }"

lemma batch_update_args_wire [wire]:
  "de_batch_update_args (ser_batch_update_args a) = Some a"
  "values_at ''op'' (ser_batch_update_args a) = []"
  "values_at ''bucket'' (ser_batch_update_args a) = []"
  "unknown extra \<Longrightarrow> de_batch_update_args (kvs @ extra) = de_batch_update_args kvs"
  by (cases a; simp add: de_batch_update_args_def ser_batch_update_args_def fields wire)
    (simp_all add: ser_batch_update_args_def de_batch_update_args_def fields unknown_at)

definition ser_store_memory_args :: "store_memory_args \<Rightarrow> members" where
  "ser_store_memory_args a = [(''user_id'', JStr (sm_user_id a)), (''content'', JStr (sm_content a)),
    (''category'', JStr (sm_category a)), (''memory_type'', JStr (sm_memory_type a)),
    (''metadata'', JStr (sm_metadata a)), (''importance'', ser_opt JReal (sm_importance a))]"

definition de_store_memory_args :: "members \<Rightarrow> store_memory_args option" where
  "de_store_memory_args kvs = do {
     user_id \<leftarrow> field ''user_id'' json_as_str kvs;
     content \<leftarrow> field ''content'' json_as_str kvs;
     category \<leftarrow> field ''category'' json_as_str kvs;
     memory_type \<leftarrow> field ''memory_type'' json_as_str kvs;
     meta \<leftarrow> field_or default_metadata ''metadata'' json_as_str kvs;
     imp \<leftarrow> field_opt ''importance'' de_f64 kvs;
     Some \<lparr>sm_user_id = user_id, sm_content = content, sm_category = category,
       sm_memory_type = memory_type, sm_metadata = meta, sm_importance = imp\<rparr>
   }"

lemma store_memory_args_wire [wire]:
  "de_store_memory_args (ser_store_memory_args a) = Some a"
  "values_at ''op'' (ser_store_memory_args a) = []"
  "values_at ''bucket'' (ser_store_memory_args a) = []"
  "unknown extra \<Longrightarrow> de_store_memory_args (kvs @ extra) = de_store_memory_args kvs"
  by (cases a; simp add: de_store_memory_args_def ser_store_memory_args_def fields wire)
    (simp_all add: ser_store_memory_args_def de_store_memory_args_def fields unknown_at)

definition ser_search_memory_args :: "search_memory_args \<Rightarrow> members" where
  "ser_search_memory_args a = [(''user_id'', JStr (sa_user_id a)), (''query'', JStr (sa_query a)),
    (''limit'', ser_nat (sa_limit a)), (''deep_recall'', JBool (sa_deep_recall a)),
    (''hybrid'', JBool (sa_hybrid a)), (''graph_expansion_hops'', ser_nat (sa_graph_expansion_hops a)),
    (''bridge_discovery'', JBool (sa_bridge_discovery a))]"

definition de_search_memory_args :: "members \<Rightarrow> search_memory_args option" where
  "de_search_memory_args kvs = do {
     user_id \<leftarrow> field ''user_id'' json_as_str kvs;
     qu \<leftarrow> field ''query'' json_as_str kvs;
     lim0 \<leftarrow> field_or default_limit ''limit'' json_as_u64 kvs;
     deep_recall \<leftarrow> field_or False ''deep_recall'' de_bool kvs;
     hybrid \<leftarrow> field_or False ''hybrid'' de_bool kvs;
     graph_expansion_hops \<leftarrow> field_or 0 ''graph_expansion_hops'' json_as_u64 kvs;
     bridge_discovery \<leftarrow> field_or False ''bridge_discovery'' de_bool kvs;
     Some \<lparr>sa_user_id = user_id, sa_query = qu, sa_limit = lim0, sa_deep_recall = deep_recall,
       sa_hybrid = hybrid, sa_graph_expansion_hops = graph_expansion_hops,
       sa_bridge_discovery = bridge_discovery\<rparr>
   }"

definition ok_search_memory_args :: "search_memory_args \<Rightarrow> bool" where
  "ok_search_memory_args a \<longleftrightarrow> fits_u64 (sa_limit a) \<and>
    fits_u64 (sa_graph_expansion_hops a)"

lemma search_memory_args_wire [wire]:
  "de_search_memory_args (ser_search_memory_args a) = (if ok_search_memory_args a then Some a else None)"
  "values_at ''op'' (ser_search_memory_args a) = []"
  "values_at ''bucket'' (ser_search_memory_args a) = []"
  "unknown extra \<Longrightarrow> de_search_memory_args (kvs @ extra) = de_search_memory_args kvs"
  by (cases a; simp add: de_search_memory_args_def ser_search_memory_args_def ok_search_memory_args_def fields wire)
    (simp_all add: ser_search_memory_args_def de_search_memory_args_def fields unknown_at)

definition ser_subscribe_args :: "bool \<Rightarrow> members" where
  "ser_subscribe_args replay_snapshot = [(''replay_snapshot'', JBool replay_snapshot)]"

definition de_subscribe_args :: "members \<Rightarrow> bool option" where
  "de_subscribe_args = field_or True ''replay_snapshot'' de_bool"

lemma subscribe_args_wire [wire]:
  "de_subscribe_args (ser_subscribe_args b) = Some b"
  "values_at ''op'' (ser_subscribe_args b) = []" "values_at ''bucket'' (ser_subscribe_args b) = []"
  "unknown extra \<Longrightarrow> de_subscribe_args (kvs @ extra) = de_subscribe_args kvs"
  by (simp_all add: ser_subscribe_args_def de_subscribe_args_def fields wire unknown_at)

fun ser_memory :: "memory_request \<Rightarrow> string \<times> members" where
  "ser_memory (Subscribe b) = (''Subscribe'', ser_subscribe_args b)"
| "ser_memory (Store a) = (''Store'', ser_store_memory_args a)"
| "ser_memory (StoreBatch a) = (''StoreBatch'', ser_store_batch_args a)"
| "ser_memory (Search a) = (''Search'', ser_search_memory_args a)"
| "ser_memory (Get a) = (''Get'', ser_get_memory_args a)"
| "ser_memory (GetMany a) = (''GetMany'', ser_get_many_memory_args a)"
| "ser_memory (ListMem a) = (''List'', ser_list_memory_args a)"
| "ser_memory (Update a) = (''Update'', ser_update_memory_args a)"
| "ser_memory (Delete a) = (''Delete'', ser_delete_memory_args a)"
| "ser_memory (DeleteMany a) = (''DeleteMany'', ser_delete_many_memory_args a)"
| "ser_memory (Link a) = (''Link'', ser_link_memory_args a)"
| "ser_memory (Unlink a) = (''Unlink'', ser_unlink_memory_args a)"
| "ser_memory (GetLinked a) = (''GetLinked'', ser_get_linked_args a)"
| "ser_memory (GetLinkedMany a) = (''GetLinkedMany'', ser_get_linked_many_args a)"
| "ser_memory (VectorSearch a) = (''VectorSearch'', ser_vector_search_args a)"
| "ser_memory (SearchLexical a) = (''SearchLexical'', ser_search_lexical_args a)"
| "ser_memory (BatchUpdate a) = (''BatchUpdate'', ser_batch_update_args a)"

definition de_memory :: "(string \<times> (members \<Rightarrow> memory_request option)) list" where
  "de_memory =
     [(''Subscribe'', map_option Subscribe \<circ> de_subscribe_args),
      (''Store'', map_option Store \<circ> de_store_memory_args),
      (''StoreBatch'', map_option StoreBatch \<circ> de_store_batch_args),
      (''Search'', map_option Search \<circ> de_search_memory_args),
      (''Get'', map_option Get \<circ> de_get_memory_args),
      (''GetMany'', map_option GetMany \<circ> de_get_many_memory_args),
      (''List'', map_option ListMem \<circ> de_list_memory_args),
      (''Update'', map_option Update \<circ> de_update_memory_args),
      (''Delete'', map_option Delete \<circ> de_delete_memory_args),
      (''DeleteMany'', map_option DeleteMany \<circ> de_delete_many_memory_args),
      (''Link'', map_option Link \<circ> de_link_memory_args),
      (''Unlink'', map_option Unlink \<circ> de_unlink_memory_args),
      (''GetLinked'', map_option GetLinked \<circ> de_get_linked_args),
      (''GetLinkedMany'', map_option GetLinkedMany \<circ> de_get_linked_many_args),
      (''VectorSearch'', map_option VectorSearch \<circ> de_vector_search_args),
      (''SearchLexical'', map_option SearchLexical \<circ> de_search_lexical_args),
      (''BatchUpdate'', map_option BatchUpdate \<circ> de_batch_update_args)]"

fun ok_memory :: "memory_request \<Rightarrow> bool" where
  "ok_memory (Search a) = ok_search_memory_args a"
| "ok_memory (ListMem a) = ok_list_memory_args a"
| "ok_memory (Update a) = ok_update_memory_args a"
| "ok_memory (VectorSearch a) = ok_vector_search_args a"
| "ok_memory (SearchLexical a) = ok_search_lexical_args a"
| "ok_memory _ = True"

section \<open>Requests\<close>

definition with_op :: "string \<Rightarrow> string \<times> members \<Rightarrow> members" where
  "with_op bucket = (\<lambda>(op, kvs). (''bucket'', JStr bucket) # (''op'', JStr op) # kvs)"

fun ser_request :: "request \<Rightarrow> members" where
  "ser_request (Diagnostics r) = with_op ''Diagnostics'' (ser_diagnostics r)"
| "ser_request (Memory r) = with_op ''Memory'' (ser_memory r)"
| "ser_request (Lifecycle r) = with_op ''Lifecycle'' (ser_lifecycle r)"
| "ser_request UnknownBucket = [(''bucket'', JStr ''UnknownBucket'')]"

definition de_op :: "(string \<times> (members \<Rightarrow> 'a option)) list \<Rightarrow> members \<Rightarrow> 'a option" where
  "de_op table kvs = Option.bind (tagged ''op'' kvs) (variant table)"

text \<open>\<open>#[serde(other)]\<close>: any other bucket.\<close>

definition de_request :: "members \<Rightarrow> request option" where
  "de_request kvs = do {
     (bucket, rest) \<leftarrow> tagged ''bucket'' kvs;
     if bucket = ''Diagnostics'' then map_option Diagnostics (de_op de_diagnostics rest)
     else if bucket = ''Memory'' then map_option Memory (de_op de_memory rest)
     else if bucket = ''Lifecycle'' then map_option Lifecycle (de_op de_lifecycle rest)
     else Some UnknownBucket
   }"

fun ok_request :: "request \<Rightarrow> bool" where
  "ok_request (Diagnostics r) = ok_diagnostics r"
| "ok_request (Memory r) = ok_memory r"
| "ok_request (Lifecycle r) = ok_lifecycle r"
| "ok_request UnknownBucket = True"

lemma lifecycle_wire:
  "variant de_lifecycle (ser_lifecycle r) = (if ok_lifecycle r then Some r else None)"
  "values_at ''op'' (snd (ser_lifecycle r)) = []" "values_at ''bucket'' (snd (ser_lifecycle r)) = []"
  by (cases r; simp add: variant_def de_lifecycle_def wire)+

lemma diagnostics_wire:
  "variant de_diagnostics (ser_diagnostics r) = (if ok_diagnostics r then Some r else None)"
  "values_at ''op'' (snd (ser_diagnostics r)) = []" "values_at ''bucket'' (snd (ser_diagnostics r)) = []"
  by (cases r; simp add: variant_def de_diagnostics_def wire)+

lemma memory_wire:
  "variant de_memory (ser_memory r) = (if ok_memory r then Some r else None)"
  "values_at ''op'' (snd (ser_memory r)) = []" "values_at ''bucket'' (snd (ser_memory r)) = []"
  by (cases r; simp add: variant_def de_memory_def wire)+

lemma tagged_with_op:
  assumes "values_at ''op'' (snd x) = []" "values_at ''bucket'' (snd x) = []"
  shows "tagged ''bucket'' (with_op bucket x) = Some (bucket, (''op'', JStr (fst x)) # snd x)"
    "tagged ''op'' ((''op'', JStr (fst x)) # snd x) = Some x"
  using assms by (simp_all add: with_op_def case_prod_beta tagged_own)

text \<open>A request is read back exactly when its numbers fit their types and its floats are finite.\<close>

lemma request_wire: "de_request (ser_request r) = (if ok_request r then Some r else None)"
  using tagged_with_op [OF lifecycle_wire(2,3)] tagged_with_op [OF diagnostics_wire(2,3)] tagged_with_op [OF memory_wire(2,3)]
  by (cases r) (simp_all add: de_request_def de_op_def lifecycle_wire(1) diagnostics_wire(1) memory_wire(1) tagged_own)

section \<open>Absent fields\<close>

text \<open>What a request means that leaves out everything it may leave out.\<close>

theorem absent_fields:
  "de_tick_args [] = Some \<lparr>tk_synchronous = False\<rparr>"
  "de_recent_traces_args [] = Some 20" "de_subscribe_args [] = Some True"
  "de_find_fading_args [(''user_id'', JStr u), (''max_retention'', JReal r)]
   = Some \<lparr>ff_user_id = u, ff_max_retention = r, ff_limit = 100\<rparr>"
  "de_mint_bridge_token_args [(''user_id'', JStr u), (''scope'', ser_scope sc)]
   = Some \<lparr>mt_user_id = u, mt_scope = sc, mt_ttl_seconds = 30 * 24 * 60 * 60\<rparr>"
  "de_batch_memory_entry [(''content'', JStr c)]
   = Some \<lparr>be_content = c, be_category = ''semantic'', be_memory_type = ''fact'', be_metadata = ''{}''\<rparr>"
  "de_store_memory_args [(''user_id'', JStr u), (''content'', JStr c), (''category'', JStr ct), (''memory_type'', JStr mt)]
   = Some \<lparr>sm_user_id = u, sm_content = c, sm_category = ct, sm_memory_type = mt, sm_metadata = ''{}'', sm_importance = None\<rparr>"
  "de_search_memory_args [(''user_id'', JStr u), (''query'', JStr q)]
   = Some \<lparr>sa_user_id = u, sa_query = q, sa_limit = 10, sa_deep_recall = False, sa_hybrid = False,
       sa_graph_expansion_hops = 0, sa_bridge_discovery = False\<rparr>"
  "de_list_memory_args [(''user_id'', JStr u)]
   = Some \<lparr>li_user_id = u, li_categories = None, li_memory_types = None, li_min_retention_floor = None,
       li_min_importance = None, li_created_after = None, li_created_before = None, li_limit = None, li_offset = None,
       li_include_superseded = False, li_include_cold = False, li_include_stubs = False\<rparr>"
  "de_link_memory_args [(''user_id'', JStr u), (''source_id'', JStr s), (''target_id'', JStr t)]
   = Some \<lparr>lk_user_id = u, lk_source_id = s, lk_target_id = t, lk_strength = 1 / 10, lk_bidirectional = True,
       lk_kind = ''explicit''\<rparr>"
  by (simp_all add: de_tick_args_def de_recent_traces_args_def de_subscribe_args_def de_find_fading_args_def
      de_mint_bridge_token_args_def de_batch_memory_entry_def de_store_memory_args_def de_search_memory_args_def
      de_list_memory_args_def de_link_memory_args_def fields wire default_trace_limit_def default_find_limit_def default_ttl_def
      default_category_def default_memory_type_def default_metadata_def default_limit_def default_link_strength_def
      default_link_kind_def)

section \<open>Other versions\<close>

text \<open>Members this version does not know are ignored wherever they are added; an unknown bucket is a request,
  an unknown operation of a known bucket is an error.\<close>

lemma tagged_unknown:
  "values_at k extra = [] \<Longrightarrow> tagged k (kvs @ extra) = map_option (\<lambda>(t, rest). (t, rest @ extra)) (tagged k kvs)"
proof -
  assume a: "values_at k extra = []"
  then have "filter (\<lambda>(k', _). k' \<noteq> k) extra = extra" by (induction extra) (auto split: if_splits)
  then show ?thesis by (auto simp: tagged_def a split: list.splits json.splits)
qed

lemma variant_unknown:
  assumes "\<forall>(t, de) \<in> set table. \<forall>kvs. de (kvs @ extra) = de kvs"
  shows "variant table (t, kvs @ extra) = variant table (t, kvs)"
proof (cases "map_of table t")
  case (Some de)
  then show ?thesis using assms map_of_SomeD [OF Some] by (auto simp: variant_def)
qed (simp add: variant_def)

lemma tables_unknown:
  assumes "unknown extra"
  shows "\<forall>(t, de) \<in> set de_lifecycle. \<forall>kvs. de (kvs @ extra) = de kvs"
    "\<forall>(t, de) \<in> set de_diagnostics. \<forall>kvs. de (kvs @ extra) = de kvs"
    "\<forall>(t, de) \<in> set de_memory. \<forall>kvs. de (kvs @ extra) = de kvs"
  using assms by (simp_all add: de_lifecycle_def de_diagnostics_def de_memory_def wire)

lemma de_op_unknown:
  assumes "unknown extra" "\<forall>(t, de) \<in> set table. \<forall>kvs. de (kvs @ extra) = de kvs"
  shows "de_op table (kvs @ extra) = de_op table kvs"
  using variant_unknown [OF assms(2)]
  by (cases "tagged ''op'' kvs") (simp_all add: de_op_def tagged_unknown [OF unknown_tags(2) [OF assms(1)]] case_prod_beta)

lemma request_unknown_members:
  assumes "unknown extra"
  shows "de_request (kvs @ extra) = de_request kvs"
proof -
  note ops = tables_unknown [OF assms, THEN de_op_unknown [OF assms]]
  show ?thesis
    by (cases "tagged ''bucket'' kvs")
      (simp_all add: de_request_def tagged_unknown [OF unknown_tags(1) [OF assms]] case_prod_beta ops)
qed

lemma request_unknown_bucket:
  assumes "values_at ''bucket'' kvs = [JStr b]" "b \<notin> {''Diagnostics'', ''Memory'', ''Lifecycle''}"
  shows "de_request kvs = Some UnknownBucket"
  using assms by (simp add: de_request_def tagged_def)

lemma de_op_unknown_op:
  assumes "op \<notin> fst ` set table"
  shows "de_op table ((''op'', JStr op) # kvs) = None"
proof -
  have "map_of table op = None" using assms by (simp add: map_of_eq_None_iff)
  then show ?thesis by (simp add: de_op_def tagged_def variant_def split: list.split)
qed

lemma request_unknown_op:
  assumes "op \<notin> fst ` set de_diagnostics \<union> fst ` set de_memory \<union> fst ` set de_lifecycle"
    and "b \<in> {''Diagnostics'', ''Memory'', ''Lifecycle''}" "values_at ''bucket'' kvs = []"
  shows "de_request ((''bucket'', JStr b) # (''op'', JStr op) # kvs) = None"
proof -
  have "tagged ''bucket'' ((''bucket'', JStr b) # (''op'', JStr op) # kvs) = Some (b, (''op'', JStr op) # kvs)"
    using assms(3) by (intro tagged_own) simp
  moreover have "de_op de_diagnostics ((''op'', JStr op) # kvs) = None" "de_op de_memory ((''op'', JStr op) # kvs) = None"
    "de_op de_lifecycle ((''op'', JStr op) # kvs) = None"
    using assms(1) by (simp_all add: de_op_unknown_op)
  ultimately show ?thesis using assms(2) by (auto simp: de_request_def)
qed

end
