(* ===== verification/Wire_Responses.thy ===== *)
theory Wire_Responses
  imports Wire_Requests
begin

text \<open>
  The JSON of responses and events (\<open>crates/protocol/src/lib.rs\<close>): the kind of the data is a tag beside its
  fields; absent data and errors are not written.
\<close>

section \<open>The fields of all data\<close>

definition DATA_KEYS :: "string list" where
  "DATA_KEYS =
   [''kind'', ''name'', ''level'', ''message'', ''trace_id'', ''request_id'', ''bucket'', ''op'',
    ''embed_ms'', ''vector_ms'', ''fusion_ms'', ''format_ms'', ''elapsed_ms'', ''user_id'', ''scope'',
    ''expires_at_unix'', ''hot'', ''cold'', ''stub'', ''total'', ''id'', ''content'', ''category'',
    ''memory_type'', ''created_at'', ''last_accessed_at'', ''valid_from'', ''valid_until'',
    ''retention_floor'', ''retrieval_count'', ''importance'', ''stability'', ''is_cold'',
    ''cold_since'', ''is_superseded'', ''superseded_by'', ''is_stub'', ''stub_content'', ''metadata'',
    ''current_retention'', ''days_at_floor'', ''memory_id'', ''score'', ''daemon_version'',
    ''protocol_version'', ''build_id'', ''instance'', ''daemon_pid'', ''socket_path'', ''pid_path'',
    ''db_path'', ''log_path'', ''uptime_seconds'', ''memory_count'', ''retriable'', ''exit_code'',
    ''checks'', ''traces'', ''accepted'', ''replay_snapshot_sent'', ''ids'', ''associations_created'',
    ''results'', ''bridge_paths'', ''token'', ''memories'', ''affected'', ''strength'', ''completed'',
    ''memories_decayed'']"

definition unknown_data :: "members \<Rightarrow> bool" where
  "unknown_data extra \<longleftrightarrow> (\<forall>k \<in> set DATA_KEYS. values_at k extra = [])"

lemma unknown_data_all: "unknown_data extra \<Longrightarrow> list_all (\<lambda>k. values_at k extra = []) DATA_KEYS"
  by (simp add: unknown_data_def list_all_iff)

lemmas unknown_data_at = unknown_data_all [unfolded DATA_KEYS_def list.pred_inject]

lemma unknown_data_tag: "unknown_data extra \<Longrightarrow> values_at ''kind'' extra = []"
  by (simp add: unknown_data_at)

section \<open>Diagnostics\<close>

fun ser_level :: "doctor_check_level \<Rightarrow> json" where
  "ser_level Check_ok = JStr ''ok''"
| "ser_level Check_warn = JStr ''warn''"
| "ser_level Check_error = JStr ''error''"

definition de_level :: "json \<Rightarrow> doctor_check_level option" where
  "de_level = de_name [(''ok'', Check_ok), (''warn'', Check_warn), (''error'', Check_error)]"

interpretation level_w: wire_value ser_level de_level "\<lambda>_. True"
proof
  show "de_level (ser_level x) = (if True then Some x else None)" "ser_level x \<noteq> JNull" for x
    by (cases x; simp add: de_level_def de_name_def)+
qed

lemmas [wire] = level_w.trip

definition ser_doctor_check_data :: "doctor_check_data \<Rightarrow> members" where
  "ser_doctor_check_data a = [(''name'', JStr (dc_name a)), (''level'', ser_level (dc_level a)),
    (''message'', JStr (dc_message a))]"

definition de_doctor_check_data :: "members \<Rightarrow> doctor_check_data option" where
  "de_doctor_check_data kvs = do {
     nm \<leftarrow> field ''name'' json_as_str kvs;
     lv \<leftarrow> field ''level'' de_level kvs;
     msg \<leftarrow> field ''message'' json_as_str kvs;
     Some \<lparr>dc_name = nm, dc_level = lv, dc_message = msg\<rparr>
   }"

lemma doctor_check_data_wire [wire]:
  "de_doctor_check_data (ser_doctor_check_data a) = Some a"
  "unknown_data extra \<Longrightarrow> de_doctor_check_data (kvs @ extra) = de_doctor_check_data kvs"
  by (cases a; simp add: de_doctor_check_data_def ser_doctor_check_data_def fields wire)
    (simp_all add: ser_doctor_check_data_def de_doctor_check_data_def fields unknown_data_at)

interpretation doctor_check_data_w: wire_value "JObj \<circ> ser_doctor_check_data" "struct de_doctor_check_data" "\<lambda>_. True"
  by unfold_locales (simp_all add: wire)

lemmas [wire] = doctor_check_data_w.list_trip

definition ser_trace_data :: "trace_data \<Rightarrow> members" where
  "ser_trace_data a = [(''trace_id'', JStr (td_trace_id a)), (''request_id'', ser_nat (td_request_id a)),
    (''bucket'', JStr (td_bucket a)), (''op'', JStr (td_op a)), (''embed_ms'', ser_opt JReal (td_embed_ms a)),
    (''vector_ms'', ser_opt JReal (td_vector_ms a)), (''fusion_ms'', ser_opt JReal (td_fusion_ms a)),
    (''format_ms'', ser_opt JReal (td_format_ms a)), (''elapsed_ms'', JReal (td_elapsed_ms a))]"

definition de_trace_data :: "members \<Rightarrow> trace_data option" where
  "de_trace_data kvs = do {
     trace_id \<leftarrow> field ''trace_id'' json_as_str kvs;
     request_id \<leftarrow> field ''request_id'' json_as_u64 kvs;
     bucket \<leftarrow> field ''bucket'' json_as_str kvs;
     op0 \<leftarrow> field ''op'' json_as_str kvs;
     embed_ms \<leftarrow> field_opt ''embed_ms'' de_f64 kvs;
     vector_ms \<leftarrow> field_opt ''vector_ms'' de_f64 kvs;
     fusion_ms \<leftarrow> field_opt ''fusion_ms'' de_f64 kvs;
     format_ms \<leftarrow> field_opt ''format_ms'' de_f64 kvs;
     elapsed_ms \<leftarrow> field ''elapsed_ms'' de_f64 kvs;
     Some \<lparr>td_trace_id = trace_id, td_request_id = request_id, td_bucket = bucket, td_op = op0,
       td_embed_ms = embed_ms, td_vector_ms = vector_ms, td_fusion_ms = fusion_ms, td_format_ms = format_ms,
       td_elapsed_ms = elapsed_ms\<rparr>
   }"

definition ok_trace_data :: "trace_data \<Rightarrow> bool" where
  "ok_trace_data a \<longleftrightarrow> fits_u64 (td_request_id a)"

lemma trace_data_wire [wire]:
  "de_trace_data (ser_trace_data a) = (if ok_trace_data a then Some a else None)"
  "unknown_data extra \<Longrightarrow> de_trace_data (kvs @ extra) = de_trace_data kvs"
  by (cases a; simp add: de_trace_data_def ser_trace_data_def ok_trace_data_def fields wire)
    (simp_all add: ser_trace_data_def de_trace_data_def fields unknown_data_at)

interpretation trace_data_w: wire_value "JObj \<circ> ser_trace_data" "struct de_trace_data" "ok_trace_data"
  by unfold_locales (simp_all add: wire)

lemmas [wire] = trace_data_w.list_trip

definition ser_bridge_token_validated_data :: "bridge_token_validated_data \<Rightarrow> members" where
  "ser_bridge_token_validated_data a = [(''user_id'', JStr (bv_user_id a)),
    (''scope'', ser_scope (bv_scope a)), (''expires_at_unix'', JInt (bv_expires_at_unix a))]"

definition de_bridge_token_validated_data :: "members \<Rightarrow> bridge_token_validated_data option" where
  "de_bridge_token_validated_data kvs = do {
     user_id \<leftarrow> field ''user_id'' json_as_str kvs;
     sc \<leftarrow> field ''scope'' de_scope kvs;
     expires_at_unix \<leftarrow> field ''expires_at_unix'' json_as_i64 kvs;
     Some \<lparr>bv_user_id = user_id, bv_scope = sc, bv_expires_at_unix = expires_at_unix\<rparr>
   }"

definition ok_bridge_token_validated_data :: "bridge_token_validated_data \<Rightarrow> bool" where
  "ok_bridge_token_validated_data a \<longleftrightarrow> fits_i64 (bv_expires_at_unix a)"

lemma bridge_token_validated_data_wire [wire]:
  "de_bridge_token_validated_data (ser_bridge_token_validated_data a) = (if ok_bridge_token_validated_data a then Some a else None)"
  "values_at ''kind'' (ser_bridge_token_validated_data a) = []"
  "unknown_data extra \<Longrightarrow> de_bridge_token_validated_data (kvs @ extra) = de_bridge_token_validated_data kvs"
  by (cases a; simp add: de_bridge_token_validated_data_def ser_bridge_token_validated_data_def ok_bridge_token_validated_data_def fields wire)
    (simp_all add: ser_bridge_token_validated_data_def de_bridge_token_validated_data_def fields unknown_data_at)

definition ser_counts_data :: "counts_data \<Rightarrow> members" where
  "ser_counts_data a = [(''hot'', JInt (cd_hot a)), (''cold'', JInt (cd_cold a)), (''stub'', JInt (cd_stub a)),
    (''total'', JInt (cd_total a))]"

definition de_counts_data :: "members \<Rightarrow> counts_data option" where
  "de_counts_data kvs = do {
     n_hot \<leftarrow> field ''hot'' json_as_i64 kvs;
     n_cold \<leftarrow> field ''cold'' json_as_i64 kvs;
     n_stub \<leftarrow> field ''stub'' json_as_i64 kvs;
     tot \<leftarrow> field ''total'' json_as_i64 kvs;
     Some \<lparr>cd_hot = n_hot, cd_cold = n_cold, cd_stub = n_stub, cd_total = tot\<rparr>
   }"

definition ok_counts_data :: "counts_data \<Rightarrow> bool" where
  "ok_counts_data a \<longleftrightarrow> fits_i64 (cd_hot a) \<and> fits_i64 (cd_cold a) \<and>
    fits_i64 (cd_stub a) \<and> fits_i64 (cd_total a)"

lemma counts_data_wire [wire]:
  "de_counts_data (ser_counts_data a) = (if ok_counts_data a then Some a else None)"
  "values_at ''kind'' (ser_counts_data a) = []"
  "unknown_data extra \<Longrightarrow> de_counts_data (kvs @ extra) = de_counts_data kvs"
  by (cases a; simp add: de_counts_data_def ser_counts_data_def ok_counts_data_def fields wire)
    (simp_all add: ser_counts_data_def de_counts_data_def fields unknown_data_at)

definition ser_status_data :: "status_data \<Rightarrow> members" where
  "ser_status_data a = [(''daemon_version'', JStr (sd_daemon_version a)),
    (''protocol_version'', ser_nat (sd_protocol_version a)), (''build_id'', JStr (sd_build_id a)),
    (''instance'', JStr (sd_instance a)), (''daemon_pid'', ser_nat (sd_daemon_pid a)),
    (''socket_path'', JStr (sd_socket_path a)), (''pid_path'', JStr (sd_pid_path a)),
    (''db_path'', JStr (sd_db_path a)), (''log_path'', JStr (sd_log_path a)),
    (''uptime_seconds'', ser_nat (sd_uptime_seconds a)), (''memory_count'', ser_nat (sd_memory_count a))]"

definition de_status_data :: "members \<Rightarrow> status_data option" where
  "de_status_data kvs = do {
     daemon_version \<leftarrow> field ''daemon_version'' json_as_str kvs;
     protocol_version \<leftarrow> field_or 0 ''protocol_version'' de_u32 kvs;
     build \<leftarrow> field_or [] ''build_id'' json_as_str kvs;
     inst \<leftarrow> field_or [] ''instance'' json_as_str kvs;
     daemon_pid \<leftarrow> field_or 0 ''daemon_pid'' de_u32 kvs;
     socket_path \<leftarrow> field_or [] ''socket_path'' json_as_str kvs;
     pid_path \<leftarrow> field_or [] ''pid_path'' json_as_str kvs;
     db_path \<leftarrow> field_or [] ''db_path'' json_as_str kvs;
     log_path \<leftarrow> field_or [] ''log_path'' json_as_str kvs;
     uptime_seconds \<leftarrow> field ''uptime_seconds'' json_as_u64 kvs;
     memory_count \<leftarrow> field ''memory_count'' json_as_u64 kvs;
     Some \<lparr>sd_daemon_version = daemon_version, sd_protocol_version = protocol_version,
       sd_build_id = build, sd_instance = inst, sd_daemon_pid = daemon_pid, sd_socket_path = socket_path,
       sd_pid_path = pid_path, sd_db_path = db_path, sd_log_path = log_path,
       sd_uptime_seconds = uptime_seconds, sd_memory_count = memory_count\<rparr>
   }"

definition ok_status_data :: "status_data \<Rightarrow> bool" where
  "ok_status_data a \<longleftrightarrow> fits_u32 (sd_protocol_version a) \<and>
    fits_u32 (sd_daemon_pid a) \<and> fits_u64 (sd_uptime_seconds a) \<and> fits_u64 (sd_memory_count a)"

lemma status_data_wire [wire]:
  "de_status_data (ser_status_data a) = (if ok_status_data a then Some a else None)"
  "values_at ''kind'' (ser_status_data a) = []"
  "unknown_data extra \<Longrightarrow> de_status_data (kvs @ extra) = de_status_data kvs"
  by (cases a; simp add: de_status_data_def ser_status_data_def ok_status_data_def fields wire)
    (simp_all add: ser_status_data_def de_status_data_def fields unknown_data_at)

section \<open>Memories\<close>

definition ser_memory_data :: "memory_data \<Rightarrow> members" where
  "ser_memory_data a = [(''id'', JStr (md_id a)), (''user_id'', JStr (md_user_id a)),
    (''content'', JStr (md_content a)), (''category'', JStr (md_category a)),
    (''memory_type'', JStr (md_memory_type a)), (''created_at'', JInt (md_created_at a)),
    (''last_accessed_at'', JInt (md_last_accessed_at a)), (''valid_from'', ser_opt JInt (md_valid_from a)),
    (''valid_until'', ser_opt JInt (md_valid_until a)), (''retention_floor'', JReal (md_retention_floor a)),
    (''retrieval_count'', JInt (md_retrieval_count a)), (''importance'', JReal (md_importance a)),
    (''stability'', JReal (md_stability a)), (''is_cold'', JBool (md_is_cold a)),
    (''cold_since'', ser_opt JInt (md_cold_since a)), (''is_superseded'', JBool (md_is_superseded a)),
    (''superseded_by'', ser_opt JStr (md_superseded_by a)), (''is_stub'', JBool (md_is_stub a)),
    (''stub_content'', ser_opt JStr (md_stub_content a)), (''metadata'', JStr (md_metadata a)),
    (''current_retention'', ser_fl (md_current_retention a)), (''days_at_floor'', JInt (md_days_at_floor a))]"

definition de_memory_data :: "members \<Rightarrow> memory_data option" where
  "de_memory_data kvs = do {
     ident \<leftarrow> field ''id'' json_as_str kvs;
     user_id \<leftarrow> field ''user_id'' json_as_str kvs;
     content \<leftarrow> field ''content'' json_as_str kvs;
     category \<leftarrow> field ''category'' json_as_str kvs;
     memory_type \<leftarrow> field ''memory_type'' json_as_str kvs;
     created_at \<leftarrow> field ''created_at'' json_as_i64 kvs;
     last_accessed_at \<leftarrow> field ''last_accessed_at'' json_as_i64 kvs;
     valid_from \<leftarrow> field_opt ''valid_from'' json_as_i64 kvs;
     valid_until \<leftarrow> field_opt ''valid_until'' json_as_i64 kvs;
     retention_floor \<leftarrow> field ''retention_floor'' de_f64 kvs;
     retrieval_count \<leftarrow> field ''retrieval_count'' json_as_i64 kvs;
     imp \<leftarrow> field ''importance'' de_f64 kvs;
     stab \<leftarrow> field ''stability'' de_f64 kvs;
     is_cold \<leftarrow> field ''is_cold'' de_bool kvs;
     cold_since \<leftarrow> field_opt ''cold_since'' json_as_i64 kvs;
     is_superseded \<leftarrow> field ''is_superseded'' de_bool kvs;
     superseded_by \<leftarrow> field_opt ''superseded_by'' json_as_str kvs;
     is_stub \<leftarrow> field ''is_stub'' de_bool kvs;
     stub_content \<leftarrow> field_opt ''stub_content'' json_as_str kvs;
     meta \<leftarrow> field ''metadata'' json_as_str kvs;
     current_retention \<leftarrow> field_or (Fin 0) ''current_retention'' de_fl kvs;
     days_at_floor \<leftarrow> field_or 0 ''days_at_floor'' json_as_i64 kvs;
     Some \<lparr>md_id = ident, md_user_id = user_id, md_content = content, md_category = category,
       md_memory_type = memory_type, md_created_at = created_at, md_last_accessed_at = last_accessed_at,
       md_valid_from = valid_from, md_valid_until = valid_until, md_retention_floor = retention_floor,
       md_retrieval_count = retrieval_count, md_importance = imp, md_stability = stab, md_is_cold = is_cold,
       md_cold_since = cold_since, md_is_superseded = is_superseded, md_superseded_by = superseded_by,
       md_is_stub = is_stub, md_stub_content = stub_content, md_metadata = meta,
       md_current_retention = current_retention, md_days_at_floor = days_at_floor\<rparr>
   }"

definition ok_memory_data :: "memory_data \<Rightarrow> bool" where
  "ok_memory_data a \<longleftrightarrow> fits_i64 (md_created_at a) \<and>
    fits_i64 (md_last_accessed_at a) \<and> pred_option fits_i64 (md_valid_from a) \<and>
    pred_option fits_i64 (md_valid_until a) \<and> fits_i64 (md_retrieval_count a) \<and>
    pred_option fits_i64 (md_cold_since a) \<and> is_fin (md_current_retention a) \<and>
    fits_i64 (md_days_at_floor a)"

lemma memory_data_wire [wire]:
  "de_memory_data (ser_memory_data a) = (if ok_memory_data a then Some a else None)"
  "values_at ''kind'' (ser_memory_data a) = []"
  "unknown_data extra \<Longrightarrow> de_memory_data (kvs @ extra) = de_memory_data kvs"
  by (cases a; simp add: de_memory_data_def ser_memory_data_def ok_memory_data_def fields wire)
    (simp_all add: ser_memory_data_def de_memory_data_def fields unknown_data_at)

interpretation memory_data_w: wire_value "JObj \<circ> ser_memory_data" "struct de_memory_data" "ok_memory_data"
  by unfold_locales (simp_all add: wire)

lemmas [wire] = memory_data_w.list_trip

definition ser_search_hit :: "search_hit \<Rightarrow> members" where
  "ser_search_hit a = [(''memory_id'', JStr (sh_memory_id a)), (''content'', JStr (sh_content a)),
    (''category'', JStr (sh_category a)), (''memory_type'', JStr (sh_memory_type a)),
    (''score'', ser_fl (sh_score a))]"

definition de_search_hit :: "members \<Rightarrow> search_hit option" where
  "de_search_hit kvs = do {
     memory_id \<leftarrow> field ''memory_id'' json_as_str kvs;
     content \<leftarrow> field ''content'' json_as_str kvs;
     category \<leftarrow> field ''category'' json_as_str kvs;
     memory_type \<leftarrow> field ''memory_type'' json_as_str kvs;
     score0 \<leftarrow> field ''score'' de_fl kvs;
     Some \<lparr>sh_memory_id = memory_id, sh_content = content, sh_category = category,
       sh_memory_type = memory_type, sh_score = score0\<rparr>
   }"

definition ok_search_hit :: "search_hit \<Rightarrow> bool" where
  "ok_search_hit a \<longleftrightarrow> is_fin (sh_score a)"

lemma search_hit_wire [wire]:
  "de_search_hit (ser_search_hit a) = (if ok_search_hit a then Some a else None)"
  "unknown_data extra \<Longrightarrow> de_search_hit (kvs @ extra) = de_search_hit kvs"
  by (cases a; simp add: de_search_hit_def ser_search_hit_def ok_search_hit_def fields wire)
    (simp_all add: ser_search_hit_def de_search_hit_def fields unknown_data_at)

interpretation search_hit_w: wire_value "JObj \<circ> ser_search_hit" "struct de_search_hit" "ok_search_hit"
  by unfold_locales (simp_all add: wire)

lemmas [wire] = search_hit_w.list_trip

definition ser_linked_memory_data :: "memory_data \<times> real \<Rightarrow> members" where
  "ser_linked_memory_data a = [(''memory'', JObj (ser_memory_data (fst a))), (''link_strength'', JReal (snd a))]"

definition de_linked_memory_data :: "members \<Rightarrow> (memory_data \<times> real) option" where
  "de_linked_memory_data kvs = do {
     mem \<leftarrow> field ''memory'' (struct de_memory_data) kvs;
     link_strength \<leftarrow> field ''link_strength'' de_f64 kvs;
     Some (mem, link_strength)
   }"

definition ok_linked_memory_data :: "memory_data \<times> real \<Rightarrow> bool" where
  "ok_linked_memory_data a \<longleftrightarrow> ok_memory_data (fst a)"

lemma linked_memory_data_wire [wire]:
  "de_linked_memory_data (ser_linked_memory_data a) = (if ok_linked_memory_data a then Some a else None)"
  by (cases a) (simp add: de_linked_memory_data_def ser_linked_memory_data_def ok_linked_memory_data_def fields wire)

interpretation linked_memory_data_w: wire_value "JObj \<circ> ser_linked_memory_data" "struct de_linked_memory_data" "ok_linked_memory_data"
  by unfold_locales (simp_all add: wire)

lemmas [wire] = linked_memory_data_w.list_trip

section \<open>Data\<close>

definition ser_doctor_data :: "int \<Rightarrow> doctor_check_data list \<Rightarrow> members" where
  "ser_doctor_data exit_code checks = [(''exit_code'', JInt exit_code),
    (''checks'', ser_list (JObj \<circ> ser_doctor_check_data) checks)]"

definition de_doctor_data :: "members \<Rightarrow> response_data option" where
  "de_doctor_data kvs = do {
     exit_code \<leftarrow> field ''exit_code'' de_i32 kvs;
     checks \<leftarrow> field ''checks'' (de_list (struct de_doctor_check_data)) kvs;
     Some (DoctorR exit_code checks)
   }"

lemma doctor_data_wire [wire]:
  "de_doctor_data (ser_doctor_data exit_code checks) = (if fits_i32 exit_code then Some (DoctorR exit_code checks) else None)"
  "values_at ''kind'' (ser_doctor_data exit_code checks) = []"
  "unknown_data extra \<Longrightarrow> de_doctor_data (kvs @ extra) = de_doctor_data kvs"
  by (simp_all add: de_doctor_data_def ser_doctor_data_def fields wire unknown_data_at)

definition ser_recent_traces_data :: "trace_data list \<Rightarrow> members" where
  "ser_recent_traces_data traces = [(''traces'', ser_list (JObj \<circ> ser_trace_data) traces)]"

definition de_recent_traces_data :: "members \<Rightarrow> response_data option" where
  "de_recent_traces_data kvs = do {
     traces \<leftarrow> field ''traces'' (de_list (struct de_trace_data)) kvs;
     Some (RecentTracesR traces)
   }"

lemma recent_traces_data_wire [wire]:
  "de_recent_traces_data (ser_recent_traces_data traces) = (if list_all ok_trace_data traces then Some (RecentTracesR traces) else None)"
  "values_at ''kind'' (ser_recent_traces_data traces) = []"
  "unknown_data extra \<Longrightarrow> de_recent_traces_data (kvs @ extra) = de_recent_traces_data kvs"
  by (simp_all add: de_recent_traces_data_def ser_recent_traces_data_def fields wire unknown_data_at)

definition ser_shutdown_data :: "bool \<Rightarrow> members" where
  "ser_shutdown_data accepted = [(''accepted'', JBool accepted)]"

definition de_shutdown_data :: "members \<Rightarrow> response_data option" where
  "de_shutdown_data kvs = do {
     accepted \<leftarrow> field ''accepted'' de_bool kvs;
     Some (ShutdownR accepted)
   }"

lemma shutdown_data_wire [wire]:
  "de_shutdown_data (ser_shutdown_data accepted) = Some (ShutdownR accepted)"
  "values_at ''kind'' (ser_shutdown_data accepted) = []"
  "unknown_data extra \<Longrightarrow> de_shutdown_data (kvs @ extra) = de_shutdown_data kvs"
  by (simp_all add: de_shutdown_data_def ser_shutdown_data_def fields wire unknown_data_at)

definition ser_subscribed_data :: "bool \<Rightarrow> members" where
  "ser_subscribed_data replay_snapshot_sent = [(''replay_snapshot_sent'', JBool replay_snapshot_sent)]"

definition de_subscribed_data :: "members \<Rightarrow> response_data option" where
  "de_subscribed_data kvs = do {
     replay_snapshot_sent \<leftarrow> field ''replay_snapshot_sent'' de_bool kvs;
     Some (SubscribedR replay_snapshot_sent)
   }"

lemma subscribed_data_wire [wire]:
  "de_subscribed_data (ser_subscribed_data replay_snapshot_sent) = Some (SubscribedR replay_snapshot_sent)"
  "values_at ''kind'' (ser_subscribed_data replay_snapshot_sent) = []"
  "unknown_data extra \<Longrightarrow> de_subscribed_data (kvs @ extra) = de_subscribed_data kvs"
  by (simp_all add: de_subscribed_data_def ser_subscribed_data_def fields wire unknown_data_at)

definition ser_memory_stored_data :: "string \<Rightarrow> members" where
  "ser_memory_stored_data ident = [(''id'', JStr ident)]"

definition de_memory_stored_data :: "members \<Rightarrow> response_data option" where
  "de_memory_stored_data kvs = do {
     ident \<leftarrow> field ''id'' json_as_str kvs;
     Some (MemoryStoredR ident)
   }"

lemma memory_stored_data_wire [wire]:
  "de_memory_stored_data (ser_memory_stored_data ident) = Some (MemoryStoredR ident)"
  "values_at ''kind'' (ser_memory_stored_data ident) = []"
  "unknown_data extra \<Longrightarrow> de_memory_stored_data (kvs @ extra) = de_memory_stored_data kvs"
  by (simp_all add: de_memory_stored_data_def ser_memory_stored_data_def fields wire unknown_data_at)

definition ser_memory_stored_batch_data :: "string list \<Rightarrow> nat \<Rightarrow> members" where
  "ser_memory_stored_batch_data idents associations_created = [(''ids'', ser_list JStr idents),
    (''associations_created'', ser_nat associations_created)]"

definition de_memory_stored_batch_data :: "members \<Rightarrow> response_data option" where
  "de_memory_stored_batch_data kvs = do {
     idents \<leftarrow> field ''ids'' (de_list json_as_str) kvs;
     associations_created \<leftarrow> field ''associations_created'' json_as_u64 kvs;
     Some (MemoryStoredBatchR idents associations_created)
   }"

lemma memory_stored_batch_data_wire [wire]:
  "de_memory_stored_batch_data (ser_memory_stored_batch_data idents associations_created) = (if fits_u64 associations_created then Some (MemoryStoredBatchR idents associations_created) else None)"
  "values_at ''kind'' (ser_memory_stored_batch_data idents associations_created) = []"
  "unknown_data extra \<Longrightarrow> de_memory_stored_batch_data (kvs @ extra) = de_memory_stored_batch_data kvs"
  by (simp_all add: de_memory_stored_batch_data_def ser_memory_stored_batch_data_def fields wire unknown_data_at)

definition ser_memory_search_results_data :: "search_hit list \<Rightarrow> string list list \<Rightarrow> members" where
  "ser_memory_search_results_data res bridge_paths = [
    (''results'', ser_list (JObj \<circ> ser_search_hit) res),
    (''bridge_paths'', ser_list (ser_list JStr) bridge_paths)]"

definition de_memory_search_results_data :: "members \<Rightarrow> response_data option" where
  "de_memory_search_results_data kvs = do {
     res \<leftarrow> field ''results'' (de_list (struct de_search_hit)) kvs;
     bridge_paths \<leftarrow> field_or [] ''bridge_paths'' (de_list (de_list json_as_str)) kvs;
     Some (MemorySearchResultsR res bridge_paths)
   }"

lemma memory_search_results_data_wire [wire]:
  "de_memory_search_results_data (ser_memory_search_results_data res bridge_paths) = (if list_all ok_search_hit res then Some (MemorySearchResultsR res bridge_paths) else None)"
  "values_at ''kind'' (ser_memory_search_results_data res bridge_paths) = []"
  "unknown_data extra \<Longrightarrow> de_memory_search_results_data (kvs @ extra) = de_memory_search_results_data kvs"
  by (simp_all add: de_memory_search_results_data_def ser_memory_search_results_data_def fields wire unknown_data_at)

definition ser_bridge_token_data :: "string \<Rightarrow> int \<Rightarrow> members" where
  "ser_bridge_token_data tok expires_at_unix = [(''token'', JStr tok),
    (''expires_at_unix'', JInt expires_at_unix)]"

definition de_bridge_token_data :: "members \<Rightarrow> response_data option" where
  "de_bridge_token_data kvs = do {
     tok \<leftarrow> field ''token'' json_as_str kvs;
     expires_at_unix \<leftarrow> field ''expires_at_unix'' json_as_i64 kvs;
     Some (BridgeTokenR tok expires_at_unix)
   }"

lemma bridge_token_data_wire [wire]:
  "de_bridge_token_data (ser_bridge_token_data tok expires_at_unix) = (if fits_i64 expires_at_unix then Some (BridgeTokenR tok expires_at_unix) else None)"
  "values_at ''kind'' (ser_bridge_token_data tok expires_at_unix) = []"
  "unknown_data extra \<Longrightarrow> de_bridge_token_data (kvs @ extra) = de_bridge_token_data kvs"
  by (simp_all add: de_bridge_token_data_def ser_bridge_token_data_def fields wire unknown_data_at)

definition ser_memories_data :: "memory_data list \<Rightarrow> members" where
  "ser_memories_data mems = [(''memories'', ser_list (JObj \<circ> ser_memory_data) mems)]"

definition de_memories_data :: "members \<Rightarrow> response_data option" where
  "de_memories_data kvs = do {
     mems \<leftarrow> field ''memories'' (de_list (struct de_memory_data)) kvs;
     Some (MemoriesR mems)
   }"

lemma memories_data_wire [wire]:
  "de_memories_data (ser_memories_data mems) = (if list_all ok_memory_data mems then Some (MemoriesR mems) else None)"
  "values_at ''kind'' (ser_memories_data mems) = []"
  "unknown_data extra \<Longrightarrow> de_memories_data (kvs @ extra) = de_memories_data kvs"
  by (simp_all add: de_memories_data_def ser_memories_data_def fields wire unknown_data_at)

definition ser_affected_data :: "nat \<Rightarrow> members" where
  "ser_affected_data affected = [(''affected'', ser_nat affected)]"

definition de_affected_data :: "members \<Rightarrow> response_data option" where
  "de_affected_data kvs = do {
     affected \<leftarrow> field ''affected'' json_as_u64 kvs;
     Some (AffectedR affected)
   }"

lemma affected_data_wire [wire]:
  "de_affected_data (ser_affected_data affected) = (if fits_u64 affected then Some (AffectedR affected) else None)"
  "values_at ''kind'' (ser_affected_data affected) = []"
  "unknown_data extra \<Longrightarrow> de_affected_data (kvs @ extra) = de_affected_data kvs"
  by (simp_all add: de_affected_data_def ser_affected_data_def fields wire unknown_data_at)

definition ser_linked_memories_data :: "(memory_data \<times> real) list \<Rightarrow> members" where
  "ser_linked_memories_data mems = [(''memories'', ser_list (JObj \<circ> ser_linked_memory_data) mems)]"

definition de_linked_memories_data :: "members \<Rightarrow> response_data option" where
  "de_linked_memories_data kvs = do {
     mems \<leftarrow> field ''memories'' (de_list (struct de_linked_memory_data)) kvs;
     Some (LinkedMemoriesR mems)
   }"

lemma linked_memories_data_wire [wire]:
  "de_linked_memories_data (ser_linked_memories_data mems) = (if list_all ok_linked_memory_data mems then Some (LinkedMemoriesR mems) else None)"
  "values_at ''kind'' (ser_linked_memories_data mems) = []"
  "unknown_data extra \<Longrightarrow> de_linked_memories_data (kvs @ extra) = de_linked_memories_data kvs"
  by (simp_all add: de_linked_memories_data_def ser_linked_memories_data_def fields wire unknown_data_at)

definition ser_link_strength_data :: "real \<Rightarrow> members" where
  "ser_link_strength_data strength = [(''strength'', JReal strength)]"

definition de_link_strength_data :: "members \<Rightarrow> response_data option" where
  "de_link_strength_data kvs = do {
     strength \<leftarrow> field ''strength'' de_f64 kvs;
     Some (LinkStrengthR strength)
   }"

lemma link_strength_data_wire [wire]:
  "de_link_strength_data (ser_link_strength_data strength) = Some (LinkStrengthR strength)"
  "values_at ''kind'' (ser_link_strength_data strength) = []"
  "unknown_data extra \<Longrightarrow> de_link_strength_data (kvs @ extra) = de_link_strength_data kvs"
  by (simp_all add: de_link_strength_data_def ser_link_strength_data_def fields wire unknown_data_at)

definition ser_lexical_ids_data :: "string list \<Rightarrow> members" where
  "ser_lexical_ids_data idents = [(''ids'', ser_list JStr idents)]"

definition de_lexical_ids_data :: "members \<Rightarrow> response_data option" where
  "de_lexical_ids_data kvs = do {
     idents \<leftarrow> field ''ids'' (de_list json_as_str) kvs;
     Some (LexicalIdsR idents)
   }"

lemma lexical_ids_data_wire [wire]:
  "de_lexical_ids_data (ser_lexical_ids_data idents) = Some (LexicalIdsR idents)"
  "values_at ''kind'' (ser_lexical_ids_data idents) = []"
  "unknown_data extra \<Longrightarrow> de_lexical_ids_data (kvs @ extra) = de_lexical_ids_data kvs"
  by (simp_all add: de_lexical_ids_data_def ser_lexical_ids_data_def fields wire unknown_data_at)

definition ser_tick_result_data :: "bool \<Rightarrow> nat \<Rightarrow> members" where
  "ser_tick_result_data completed memories_decayed = [(''completed'', JBool completed),
    (''memories_decayed'', ser_nat memories_decayed)]"

definition de_tick_result_data :: "members \<Rightarrow> response_data option" where
  "de_tick_result_data kvs = do {
     completed \<leftarrow> field ''completed'' de_bool kvs;
     memories_decayed \<leftarrow> field ''memories_decayed'' json_as_u64 kvs;
     Some (TickR completed memories_decayed)
   }"

lemma tick_result_data_wire [wire]:
  "de_tick_result_data (ser_tick_result_data completed memories_decayed) = (if fits_u64 memories_decayed then Some (TickR completed memories_decayed) else None)"
  "values_at ''kind'' (ser_tick_result_data completed memories_decayed) = []"
  "unknown_data extra \<Longrightarrow> de_tick_result_data (kvs @ extra) = de_tick_result_data kvs"
  by (simp_all add: de_tick_result_data_def ser_tick_result_data_def fields wire unknown_data_at)

section \<open>Errors\<close>

fun error_kind_name :: "response_error_kind \<Rightarrow> string" where
  "error_kind_name ProtocolMismatch_kind = ''ProtocolMismatch''"
| "error_kind_name InvalidPayload_kind = ''InvalidPayload''"
| "error_kind_name InvalidQuery_kind = ''InvalidQuery''"
| "error_kind_name NotFound_kind = ''NotFound''"
| "error_kind_name Conflict_kind = ''Conflict''"
| "error_kind_name ProviderError_kind = ''ProviderError''"
| "error_kind_name NoLlmConfigured_kind = ''NoLlmConfigured''"
| "error_kind_name StorageError_kind = ''StorageError''"
| "error_kind_name RateLimited_kind = ''RateLimited''"
| "error_kind_name ShuttingDown_kind = ''ShuttingDown''"
| "error_kind_name Internal_kind = ''Internal''"

definition ser_error_kind :: "response_error_kind \<Rightarrow> json" where
  "ser_error_kind k = JStr (error_kind_name k)"

definition de_error_kind :: "json \<Rightarrow> response_error_kind option" where
  "de_error_kind = de_name (map (\<lambda>k. (error_kind_name k, k)) [ProtocolMismatch_kind, InvalidPayload_kind,
     InvalidQuery_kind, NotFound_kind, Conflict_kind, ProviderError_kind, NoLlmConfigured_kind, StorageError_kind,
     RateLimited_kind, ShuttingDown_kind, Internal_kind])"

interpretation error_kind_w: wire_value ser_error_kind de_error_kind "\<lambda>_. True"
proof
  show "de_error_kind (ser_error_kind x) = (if True then Some x else None)" "ser_error_kind x \<noteq> JNull" for x
    by (cases x; simp add: de_error_kind_def de_name_def ser_error_kind_def)+
qed

lemmas [wire] = error_kind_w.trip

definition ser_response_error :: "response_error \<Rightarrow> members" where
  "ser_response_error a = [(''kind'', ser_error_kind (re_kind a)), (''message'', JStr (re_message a)),
    (''retriable'', JBool (re_retriable a))]"

definition de_response_error :: "members \<Rightarrow> response_error option" where
  "de_response_error kvs = do {
     kd \<leftarrow> field ''kind'' de_error_kind kvs;
     msg \<leftarrow> field ''message'' json_as_str kvs;
     retriable \<leftarrow> field ''retriable'' de_bool kvs;
     Some \<lparr>re_kind = kd, re_message = msg, re_retriable = retriable\<rparr>
   }"

lemma response_error_wire [wire]:
  "de_response_error (ser_response_error a) = Some a"
  "unknown_data extra \<Longrightarrow> de_response_error (kvs @ extra) = de_response_error kvs"
  by (cases a; simp add: de_response_error_def ser_response_error_def fields wire)
    (simp_all add: ser_response_error_def de_response_error_def fields unknown_data_at)

section \<open>Responses\<close>

fun ser_response_data :: "response_data \<Rightarrow> members" where
  "ser_response_data (StatusR a) = (''kind'', JStr ''Status'') # ser_status_data a"
| "ser_response_data (DoctorR exit_code checks) = (''kind'', JStr ''Doctor'') # ser_doctor_data exit_code checks"
| "ser_response_data (RecentTracesR traces) = (''kind'', JStr ''RecentTraces'') # ser_recent_traces_data traces"
| "ser_response_data (ShutdownR accepted) = (''kind'', JStr ''Shutdown'') # ser_shutdown_data accepted"
| "ser_response_data (SubscribedR replay_snapshot_sent) = (''kind'', JStr ''Subscribed'') # ser_subscribed_data replay_snapshot_sent"
| "ser_response_data (BridgeTokenValidatedR a) = (''kind'', JStr ''BridgeTokenValidated'') # ser_bridge_token_validated_data a"
| "ser_response_data (MemoryStoredR ident) = (''kind'', JStr ''MemoryStored'') # ser_memory_stored_data ident"
| "ser_response_data (MemoryStoredBatchR idents associations_created) = (''kind'', JStr ''MemoryStoredBatch'') # ser_memory_stored_batch_data idents associations_created"
| "ser_response_data (MemorySearchResultsR res bridge_paths) = (''kind'', JStr ''MemorySearchResults'') # ser_memory_search_results_data res bridge_paths"
| "ser_response_data (BridgeTokenR tok expires_at_unix) = (''kind'', JStr ''BridgeToken'') # ser_bridge_token_data tok expires_at_unix"
| "ser_response_data (CountsR a) = (''kind'', JStr ''Counts'') # ser_counts_data a"
| "ser_response_data (MemoryR a) = (''kind'', JStr ''Memory'') # ser_memory_data a"
| "ser_response_data (MemoriesR mems) = (''kind'', JStr ''Memories'') # ser_memories_data mems"
| "ser_response_data (AffectedR affected) = (''kind'', JStr ''Affected'') # ser_affected_data affected"
| "ser_response_data (LinkedMemoriesR mems) = (''kind'', JStr ''LinkedMemories'') # ser_linked_memories_data mems"
| "ser_response_data (LinkStrengthR strength) = (''kind'', JStr ''LinkStrength'') # ser_link_strength_data strength"
| "ser_response_data (LexicalIdsR idents) = (''kind'', JStr ''LexicalIds'') # ser_lexical_ids_data idents"
| "ser_response_data (TickR completed memories_decayed) = (''kind'', JStr ''Tick'') # ser_tick_result_data completed memories_decayed"

definition de_response_data :: "members \<Rightarrow> response_data option" where
  "de_response_data kvs = Option.bind (tagged ''kind'' kvs) (variant
     [(''Status'', map_option StatusR \<circ> de_status_data),
      (''Doctor'', de_doctor_data),
      (''RecentTraces'', de_recent_traces_data),
      (''Shutdown'', de_shutdown_data),
      (''Subscribed'', de_subscribed_data),
      (''BridgeTokenValidated'', map_option BridgeTokenValidatedR \<circ> de_bridge_token_validated_data),
      (''MemoryStored'', de_memory_stored_data),
      (''MemoryStoredBatch'', de_memory_stored_batch_data),
      (''MemorySearchResults'', de_memory_search_results_data),
      (''BridgeToken'', de_bridge_token_data),
      (''Counts'', map_option CountsR \<circ> de_counts_data),
      (''Memory'', map_option MemoryR \<circ> de_memory_data),
      (''Memories'', de_memories_data),
      (''Affected'', de_affected_data),
      (''LinkedMemories'', de_linked_memories_data),
      (''LinkStrength'', de_link_strength_data),
      (''LexicalIds'', de_lexical_ids_data),
      (''Tick'', de_tick_result_data)])"

fun ok_response_data :: "response_data \<Rightarrow> bool" where
  "ok_response_data (StatusR a) = ok_status_data a"
| "ok_response_data (DoctorR exit_code checks) = (fits_i32 exit_code)"
| "ok_response_data (RecentTracesR traces) = (list_all ok_trace_data traces)"
| "ok_response_data (BridgeTokenValidatedR a) = ok_bridge_token_validated_data a"
| "ok_response_data (MemoryStoredBatchR idents associations_created) = (fits_u64 associations_created)"
| "ok_response_data (MemorySearchResultsR res bridge_paths) = (list_all ok_search_hit res)"
| "ok_response_data (BridgeTokenR tok expires_at_unix) = (fits_i64 expires_at_unix)"
| "ok_response_data (CountsR a) = ok_counts_data a"
| "ok_response_data (MemoryR a) = ok_memory_data a"
| "ok_response_data (MemoriesR mems) = (list_all ok_memory_data mems)"
| "ok_response_data (AffectedR affected) = (fits_u64 affected)"
| "ok_response_data (LinkedMemoriesR mems) = (list_all ok_linked_memory_data mems)"
| "ok_response_data (TickR completed memories_decayed) = (fits_u64 memories_decayed)"
| "ok_response_data _ = True"

lemma response_data_wire: "de_response_data (ser_response_data d) = (if ok_response_data d then Some d else None)"
  by (cases d; simp add: de_response_data_def variant_def tagged_own wire)

interpretation response_data_w: wire_value "JObj \<circ> ser_response_data" "struct de_response_data" ok_response_data
  by unfold_locales (simp_all add: response_data_wire)

lemmas [wire] = response_data_w.opt_trip

definition ser_response :: "response \<Rightarrow> members" where
  "ser_response r = (''ok'', JBool (rp_ok r))
     # (case rp_data r of None \<Rightarrow> [] | Some d \<Rightarrow> [(''data'', JObj (ser_response_data d))])
     @ (case rp_error r of None \<Rightarrow> [] | Some e \<Rightarrow> [(''error'', JObj (ser_response_error e))])"

definition de_response :: "members \<Rightarrow> response option" where
  "de_response kvs = do {
     ok \<leftarrow> field ''ok'' de_bool kvs;
     dat \<leftarrow> field_opt ''data'' (struct de_response_data) kvs;
     err \<leftarrow> field_opt ''error'' (struct de_response_error) kvs;
     Some \<lparr>rp_ok = ok, rp_data = dat, rp_error = err\<rparr>
   }"

definition ok_response :: "response \<Rightarrow> bool" where
  "ok_response r \<longleftrightarrow> pred_option ok_response_data (rp_data r)"

lemma response_wire: "de_response (ser_response r) = (if ok_response r then Some r else None)"
  by (cases r; cases "rp_data r"; cases "rp_error r")
    (simp_all add: de_response_def ser_response_def ok_response_def fields de_opt_def response_data_wire wire)

section \<open>Events\<close>

fun ser_event :: "event \<Rightarrow> members" where
  "ser_event (CurrentState memory_count occurred_at) = [(''kind'', JStr ''CurrentState''),
     (''memory_count'', ser_nat memory_count), (''occurred_at'', JStr occurred_at)]"
| "ser_event (TickCompleted memories_decayed consolidations_attempted occurred_at) = [(''kind'', JStr ''TickCompleted''),
     (''memories_decayed'', ser_nat memories_decayed),
     (''consolidations_attempted'', ser_nat consolidations_attempted), (''occurred_at'', JStr occurred_at)]"
| "ser_event (EventStreamLagged skipped occurred_at) = [(''kind'', JStr ''EventStreamLagged''),
     (''skipped'', ser_nat skipped), (''occurred_at'', JStr occurred_at)]"

definition de_event :: "members \<Rightarrow> event option" where
  "de_event kvs = Option.bind (tagged ''kind'' kvs) (variant
     [(''CurrentState'', \<lambda>kvs. do {
         memory_count \<leftarrow> field ''memory_count'' json_as_u64 kvs;
         occurred_at \<leftarrow> field ''occurred_at'' json_as_str kvs;
         Some (CurrentState memory_count occurred_at)
       }),
      (''TickCompleted'', \<lambda>kvs. do {
         memories_decayed \<leftarrow> field ''memories_decayed'' json_as_u64 kvs;
         consolidations_attempted \<leftarrow> field ''consolidations_attempted'' json_as_u64 kvs;
         occurred_at \<leftarrow> field ''occurred_at'' json_as_str kvs;
         Some (TickCompleted memories_decayed consolidations_attempted occurred_at)
       }),
      (''EventStreamLagged'', \<lambda>kvs. do {
         skipped \<leftarrow> field ''skipped'' json_as_u64 kvs;
         occurred_at \<leftarrow> field ''occurred_at'' json_as_str kvs;
         Some (EventStreamLagged skipped occurred_at)
       })])"

fun ok_event :: "event \<Rightarrow> bool" where
  "ok_event (CurrentState n _) = fits_u64 n"
| "ok_event (TickCompleted n k _) = (fits_u64 n \<and> fits_u64 k)"
| "ok_event (EventStreamLagged n _) = fits_u64 n"

lemma event_wire: "de_event (ser_event e) = (if ok_event e then Some e else None)"
  by (cases e) (simp_all add: de_event_def variant_def tagged_own fields wire)

section \<open>Other versions\<close>

lemma response_data_unknown_members:
  assumes "unknown_data extra"
  shows "de_response_data (kvs @ extra) = de_response_data kvs"
  unfolding de_response_data_def
  by (cases "tagged ''kind'' kvs")
    (auto simp: tagged_unknown [OF unknown_data_tag [OF assms]] intro!: variant_unknown simp: wire assms)

text \<open>A kind of event this version does not know is an error.\<close>

lemma event_unknown_kind:
  assumes "values_at ''kind'' kvs = [JStr k]" "k \<notin> {''CurrentState'', ''TickCompleted'', ''EventStreamLagged''}"
  shows "de_event kvs = None"
  using assms by (simp add: de_event_def tagged_def variant_def)

end
