(* ===== verification/Codec.thy ===== *)
theory Codec
  imports Protocol
begin

text \<open>
  \<open>IpcCodec\<close> (\<open>crates/protocol/src/codec.rs\<close>) and the stream of messages a \<open>Framed\<close> socket makes of the
  bytes that arrive. JSON text is a parameter: \<open>to_vec\<close> and \<open>from_slice\<close> of serde.
\<close>

section \<open>The codec\<close>

datatype codec_error = Frame_size | Invalid_data string

definition ipc_encode ::
  "(ipc_message \<Rightarrow> string + byte list) \<Rightarrow> ipc_message \<Rightarrow> byte list \<Rightarrow> codec_error + byte list" where
  "ipc_encode to_vec item dst = (case to_vec item of
      Inl e \<Rightarrow> Inl (Invalid_data e)
    | Inr json \<Rightarrow> (case encode_frame json of None \<Rightarrow> Inl Frame_size | Some bytes \<Rightarrow> Inr (dst @ bytes)))"

text \<open>The message, if there is a whole frame, and the bytes that are left.\<close>

definition ipc_decode ::
  "(byte list \<Rightarrow> string + ipc_message) \<Rightarrow> byte list \<Rightarrow> (codec_error + ipc_message option) \<times> byte list" where
  "ipc_decode from_slice src = (case decode_frame src of
      Frame_too_big \<Rightarrow> (Inl Frame_size, src)
    | Need_more \<Rightarrow> (Inr None, src)
    | Frame frame rest \<Rightarrow> (case from_slice frame of
        Inl e \<Rightarrow> (Inl (Invalid_data e), rest)
      | Inr msg \<Rightarrow> (Inr (Some msg), rest)))"

section \<open>A stream of messages\<close>

text \<open>Decoding what the buffer holds: the messages, the error that ended it if there was one, and the rest.\<close>

lemma ipc_decode_shrinks: "ipc_decode from_slice src = (Inr (Some m), rest) \<Longrightarrow> length rest < length src"
  by (auto simp: ipc_decode_def decode_frame_def Let_def split: list.splits if_splits frame_result.splits sum.splits)

function drain_buffer ::
  "(byte list \<Rightarrow> string + ipc_message) \<Rightarrow> byte list \<Rightarrow> ipc_message list \<times> codec_error option \<times> byte list" where
  "drain_buffer from_slice buf = (case ipc_decode from_slice buf of
      (Inl e, rest) \<Rightarrow> ([], Some e, rest)
    | (Inr None, rest) \<Rightarrow> ([], None, rest)
    | (Inr (Some m), rest) \<Rightarrow> (case drain_buffer from_slice rest of (ms, e, r) \<Rightarrow> (m # ms, e, r)))"
  by pat_completeness auto
termination
  by (relation "measure (\<lambda>(_, buf). length buf)") (auto dest: ipc_decode_shrinks [OF sym])

declare drain_buffer.simps [simp del]

text \<open>\<open>Framed\<close>: each read appends to the buffer and decodes what it can; an error ends the stream.\<close>

fun framed :: "(byte list \<Rightarrow> string + ipc_message) \<Rightarrow> byte list list \<Rightarrow> byte list \<Rightarrow> ipc_message list \<times> codec_error option" where
  "framed from_slice [] buf = ([], None)"
| "framed from_slice (chunk # chunks) buf = (case drain_buffer from_slice (buf @ chunk) of
      (ms, Some e, _) \<Rightarrow> (ms, Some e)
    | (ms, None, rest) \<Rightarrow> (case framed from_slice chunks rest of (ms', e) \<Rightarrow> (ms @ ms', e)))"

text \<open>Sending: every message goes behind what the write buffer holds.\<close>

fun ipc_encode_all ::
  "(ipc_message \<Rightarrow> string + byte list) \<Rightarrow> ipc_message list \<Rightarrow> byte list \<Rightarrow> codec_error + byte list" where
  "ipc_encode_all to_vec [] dst = Inr dst"
| "ipc_encode_all to_vec (m # ms) dst = (case ipc_encode to_vec m dst of
      Inl e \<Rightarrow> Inl e
    | Inr dst' \<Rightarrow> ipc_encode_all to_vec ms dst')"

section \<open>The stream does not depend on how the bytes arrive\<close>

lemma decode_frame_append:
  "decode_frame b = Frame p rest \<Longrightarrow> decode_frame (b @ c) = Frame p (rest @ c)"
  "decode_frame b = Frame_too_big \<Longrightarrow> decode_frame (b @ c) = Frame_too_big"
  by (auto simp: decode_frame_def Let_def split: list.splits if_splits)

lemma drain_buffer_eq:
  "decode_frame b = Need_more \<Longrightarrow> drain_buffer f b = ([], None, b)"
  "decode_frame b = Frame_too_big \<Longrightarrow> drain_buffer f b = ([], Some Frame_size, b)"
  "decode_frame b = Frame p rest \<Longrightarrow> f p = Inl e \<Longrightarrow> drain_buffer f b = ([], Some (Invalid_data e), rest)"
  "decode_frame b = Frame p rest \<Longrightarrow> f p = Inr m \<Longrightarrow>
   drain_buffer f b = (case drain_buffer f rest of (ms, e, r) \<Rightarrow> (m # ms, e, r))"
  by (subst drain_buffer.simps; simp add: ipc_decode_def)+

lemma frame_shorter: "decode_frame b = Frame p rest \<Longrightarrow> length rest < length b"
  by (auto simp: decode_frame_def Let_def split: list.splits if_splits)

text \<open>More bytes change neither the messages decoded so far nor an error, and what was left over is decoded
  together with them.\<close>

lemma drain_buffer_append:
  "case drain_buffer f b of
     (ms, None, r) \<Rightarrow> drain_buffer f (b @ c) = (case drain_buffer f (r @ c) of (ms', e, r') \<Rightarrow> (ms @ ms', e, r'))
   | (ms, Some e, r) \<Rightarrow> drain_buffer f (b @ c) = (ms, Some e, r @ c)"
proof (induction "length b" arbitrary: b rule: less_induct)
  case less
  show ?case
  proof (cases "decode_frame b")
    case (Frame p rest)
    note F = Frame decode_frame_append(1) [OF Frame, of c]
    show ?thesis
    proof (cases "f p")
      case (Inr m)
      then show ?thesis
        using less [OF frame_shorter [OF Frame]] F
        by (simp add: drain_buffer_eq(4) split: prod.splits option.splits)
    qed (simp add: F drain_buffer_eq(3))
  qed (simp_all add: drain_buffer_eq decode_frame_append split: prod.split)
qed

lemma drain_buffer_rest: "drain_buffer f b = (ms, None, r) \<Longrightarrow> decode_frame r = Need_more"
proof (induction "length b" arbitrary: b ms rule: less_induct)
  case less
  show ?case
  proof (cases "decode_frame b")
    case (Frame p rest)
    then show ?thesis
      using less frame_shorter [OF Frame]
      by (cases "f p") (auto simp: drain_buffer_eq(3,4) [OF Frame] split: prod.splits)
  qed (use less.prems in \<open>simp_all add: drain_buffer_eq\<close>)
qed

lemma framed_drain:
  "decode_frame buf = Need_more \<Longrightarrow>
   framed f chunks buf = (case drain_buffer f (buf @ concat chunks) of (ms, e, _) \<Rightarrow> (ms, e))"
proof (induction chunks arbitrary: buf)
  case (Cons chunk chunks)
  show ?case
    using drain_buffer_append [of f "buf @ chunk" "concat chunks"] drain_buffer_rest [of f "buf @ chunk"] Cons.IH
    by (auto split: prod.splits option.splits)
qed (simp add: drain_buffer_eq)

lemma framed_start: "framed f chunks [] = (case drain_buffer f (concat chunks) of (ms, e, _) \<Rightarrow> (ms, e))"
  using framed_drain [of "[]" f chunks] by (simp add: decode_frame_def)

lemma drain_encoded:
  assumes "\<forall>m \<in> set ms. \<forall>j. to_vec m = Inr j \<longrightarrow> f j = Inr m" "ipc_encode_all to_vec ms dst = Inr bytes"
  shows "\<exists>bs. bytes = dst @ bs \<and>
    drain_buffer f (bs @ rest) = (case drain_buffer f rest of (ms', e, r) \<Rightarrow> (ms @ ms', e, r))"
  using assms
proof (induction ms arbitrary: dst)
  case (Cons m ms)
  from Cons.prems(2) obtain j b where j: "to_vec m = Inr j" "encode_frame j = Some b" "ipc_encode_all to_vec ms (dst @ b) = Inr bytes"
    by (auto simp: ipc_encode_def split: sum.splits option.splits)
  have f: "f j = Inr m" "\<forall>m \<in> set ms. \<forall>j. to_vec m = Inr j \<longrightarrow> f j = Inr m" using Cons.prems(1) j(1) by simp_all
  from Cons.IH [OF f(2) j(3)] obtain bs where bs: "bytes = dst @ b @ bs"
    "drain_buffer f (bs @ rest) = (case drain_buffer f rest of (ms', e, r) \<Rightarrow> (ms @ ms', e, r))" by auto
  have "decode_frame (b @ bs @ rest) = Frame j (bs @ rest)" by (rule decode_encoded_frame [OF j(2)])
  from drain_buffer_eq(4) [where f = f, OF this f(1)] show ?case
    using bs by (intro exI [of _ "b @ bs"]) (simp split: prod.split)
qed (simp split: prod.split)

text \<open>The stream of messages. What a receiver decodes depends only on the bytes sent, not on how they are
  cut into reads. If serde reads back what it wrote, the messages sent arrive, in order and without an
  error; while bytes are still missing a prefix of them has arrived; a header that announces more
  than 16 MiB ends the stream with an error behind them, and so does a message that cannot be read.\<close>

lemma codec_stream:
  assumes "\<forall>m \<in> set ms. \<forall>j. to_vec m = Inr j \<longrightarrow> from_slice j = Inr m" "ipc_encode_all to_vec ms [] = Inr bytes"
  shows "framed from_slice chunks [] = framed from_slice [concat chunks] []"
    and "concat chunks = bytes \<Longrightarrow> framed from_slice chunks [] = (ms, None)"
    and "concat chunks = take k bytes \<Longrightarrow> \<exists>n. framed from_slice chunks [] = (take n ms, None)"
    and "concat chunks = bytes @ a # b # c # d # rest \<Longrightarrow> MAX_FRAME < be_value a b c d \<Longrightarrow>
      framed from_slice chunks [] = (ms, Some Frame_size)"
    and "ipc_encode to_vec bad bytes = Inr bytes' \<Longrightarrow> to_vec bad = Inr j \<Longrightarrow> from_slice j = Inl e \<Longrightarrow>
      concat chunks = bytes' @ rest \<Longrightarrow> framed from_slice chunks [] = (ms, Some (Invalid_data e))"
proof -
  have all: "drain_buffer from_slice (bytes @ rest) = (case drain_buffer from_slice rest of (ms', e, r) \<Rightarrow> (ms @ ms', e, r))"
    for rest using drain_encoded [where dst = "[]" and rest = rest, OF assms] by simp
  have nil: "drain_buffer from_slice [] = ([], None, [])" by (rule drain_buffer_eq(1)) (simp add: decode_frame_def)
  have whole: "drain_buffer from_slice bytes = (ms, None, [])" using all [of "[]"] nil by simp
  show "framed from_slice chunks [] = framed from_slice [concat chunks] []" by (simp add: framed_start)
  show "concat chunks = bytes \<Longrightarrow> framed from_slice chunks [] = (ms, None)" by (simp add: framed_start whole)
  show "\<exists>n. framed from_slice chunks [] = (take n ms, None)" if "concat chunks = take k bytes"
  proof -
    obtain ms' e r where d: "drain_buffer from_slice (take k bytes) = (ms', e, r)" using prod_cases3 by blast
    obtain ms'' e' r' where d': "drain_buffer from_slice (r @ drop k bytes) = (ms'', e', r')" using prod_cases3 by blast
    have "e = None \<and> ms = ms' @ ms''"
      using drain_buffer_append [of from_slice "take k bytes" "drop k bytes"] whole by (cases e) (simp_all add: d d')
    then show ?thesis by (intro exI [of _ "length ms'"]) (simp add: framed_start that d)
  qed
  show "framed from_slice chunks [] = (ms, Some Frame_size)"
    if "concat chunks = bytes @ a # b # c # d # rest" "MAX_FRAME < be_value a b c d"
  proof -
    have "drain_buffer from_slice (a # b # c # d # rest) = ([], Some Frame_size, a # b # c # d # rest)"
      by (rule drain_buffer_eq(2)) (use that(2) in \<open>simp add: decode_frame_def Let_def\<close>)
    then show ?thesis by (simp add: framed_start that(1) all)
  qed
  show "framed from_slice chunks [] = (ms, Some (Invalid_data e))"
    if "ipc_encode to_vec bad bytes = Inr bytes'" "to_vec bad = Inr j" "from_slice j = Inl e" "concat chunks = bytes' @ rest"
  proof -
    have "\<exists>b. encode_frame j = Some b \<and> bytes' = bytes @ b"
      using that(1,2) by (auto simp: ipc_encode_def split: option.splits)
    then obtain b where b: "encode_frame j = Some b" "bytes' = bytes @ b" by blast
    have "drain_buffer from_slice (b @ rest) = ([], Some (Invalid_data e), rest)"
      by (rule drain_buffer_eq(3) [where f = from_slice, OF decode_encoded_frame [OF b(1)] that(3)])
    then show ?thesis by (simp add: framed_start that(4) b(2) all)
  qed
qed

end
