(* ===== verification/Wire_Messages.thy ===== *)
theory Wire_Messages
  imports Wire_Responses Codec Client
begin

text \<open>
  Whole messages (\<open>IpcMessage\<close> and \<open>IpcPayload\<close> of \<open>crates/protocol/src/lib.rs\<close>) as JSON, and the stream of
  messages between client and daemon with that JSON inside its frames. The text of a JSON value is the
  parameter \<open>json_codec\<close>; the words of serde's complaint about a value are a parameter too.
\<close>

section \<open>The envelope\<close>

fun ser_payload :: "ipc_payload \<Rightarrow> members" where
  "ser_payload (RequestP r) = [(''kind'', JStr ''Request''), (''body'', JObj (ser_request r))]"
| "ser_payload (ResponseP r) = [(''kind'', JStr ''Response''), (''body'', JObj (ser_response r))]"
| "ser_payload (EventP e) = [(''kind'', JStr ''Event''), (''body'', JObj (ser_event e))]"

text \<open>\<open>#[serde(tag = "kind", content = "body")]\<close>: the two members in either order.\<close>

definition de_payload :: "members \<Rightarrow> ipc_payload option" where
  "de_payload kvs = do {
     kd \<leftarrow> field ''kind'' json_as_str kvs;
     if kd = ''Request'' then map_option RequestP (field ''body'' (struct de_request) kvs)
     else if kd = ''Response'' then map_option ResponseP (field ''body'' (struct de_response) kvs)
     else if kd = ''Event'' then map_option EventP (field ''body'' (struct de_event) kvs)
     else None
   }"

fun ok_payload :: "ipc_payload \<Rightarrow> bool" where
  "ok_payload (RequestP r) = ok_request r"
| "ok_payload (ResponseP r) = ok_response r"
| "ok_payload (EventP e) = ok_event e"

definition ser_message :: "ipc_message \<Rightarrow> json" where
  "ser_message m = JObj [(''id'', ser_nat (im_id m)), (''payload'', JObj (ser_payload (im_payload m)))]"

definition de_message :: "json \<Rightarrow> ipc_message option" where
  "de_message = struct (\<lambda>kvs. do {
     ident \<leftarrow> field ''id'' json_as_u64 kvs;
     payload \<leftarrow> field ''payload'' (struct de_payload) kvs;
     Some \<lparr>im_id = ident, im_payload = payload\<rparr>
   })"

definition ok_message :: "ipc_message \<Rightarrow> bool" where
  "ok_message m \<longleftrightarrow> fits_u64 (im_id m) \<and> ok_payload (im_payload m)"

lemma payload_wire: "de_payload (ser_payload p) = (if ok_payload p then Some p else None)"
  by (cases p) (simp_all add: de_payload_def fields request_wire response_wire event_wire)

lemma message_read_back: "de_message (ser_message m) = (if ok_message m then Some m else None)"
  by (cases m) (simp add: de_message_def ser_message_def ok_message_def fields payload_wire wire)

text \<open>C32: The JSON of messages. A message that is written and read back is the same message, provided that
  its integers fit their types and every float in it is a number; with an infinite or undefined float it
  is written as well, but cannot be read. A request may have any further members, and so may the data of a
  response: they are ignored. A request of an unknown bucket is read as such; a request with an unknown
  operation in a known bucket, and an event of an unknown kind, cannot be read.\<close>

theorem message_wire:
  "de_message (ser_message m) = (if ok_message m then Some m else None)
   \<and> (unknown extra \<longrightarrow> de_request (kvs @ extra) = de_request kvs)
   \<and> (unknown_data extra' \<longrightarrow> de_response_data (kvs' @ extra') = de_response_data kvs')
   \<and> (values_at ''bucket'' rq = [JStr b] \<and> b \<notin> {''Diagnostics'', ''Memory'', ''Lifecycle''} \<longrightarrow>
        de_request rq = Some UnknownBucket)
   \<and> (op \<notin> fst ` set de_diagnostics \<union> fst ` set de_memory \<union> fst ` set de_lifecycle
        \<and> b' \<in> {''Diagnostics'', ''Memory'', ''Lifecycle''} \<and> values_at ''bucket'' args = [] \<longrightarrow>
        de_request ((''bucket'', JStr b') # (''op'', JStr op) # args) = None)
   \<and> (values_at ''kind'' ev = [JStr k] \<and> k \<notin> {''CurrentState'', ''TickCompleted'', ''EventStreamLagged''} \<longrightarrow>
        de_event ev = None)"
  using request_unknown_members response_data_unknown_members request_unknown_bucket request_unknown_op
    event_unknown_kind by (intro conjI impI) (simp_all add: message_read_back)

text \<open>Two of the fixtures of the repository (\<open>crates/protocol/tests/fixtures\<close>): \<open>requests/memory_store.json\<close>
  and \<open>responses/doctor.json\<close>; and requests of other versions.\<close>

definition store_fixture :: json where
  "store_fixture = JObj [(''id'', JInt 1), (''payload'', JObj [(''kind'', JStr ''Request''), (''body'', JObj
     [(''bucket'', JStr ''Memory''), (''op'', JStr ''Store''), (''user_id'', JStr ''default''),
      (''content'', JStr ''User dislikes mocked database tests.''), (''category'', JStr ''semantic''),
      (''memory_type'', JStr ''preference''), (''metadata'', JStr ''{\"project\":\"cognitive-memory\"}''),
      (''importance'', JNull)])])]"

definition store_message :: ipc_message where
  "store_message = \<lparr>im_id = 1, im_payload = RequestP (Memory (Store \<lparr>sm_user_id = ''default'',
     sm_content = ''User dislikes mocked database tests.'', sm_category = ''semantic'', sm_memory_type = ''preference'',
     sm_metadata = ''{\"project\":\"cognitive-memory\"}'', sm_importance = None\<rparr>))\<rparr>"

definition doctor_fixture :: json where
  "doctor_fixture = JObj [(''id'', JInt 20), (''payload'', JObj [(''kind'', JStr ''Response''), (''body'', JObj
     [(''ok'', JBool True), (''data'', JObj [(''kind'', JStr ''Doctor''), (''exit_code'', JInt 1),
       (''checks'', JArr [JObj [(''name'', JStr ''memories present''), (''level'', JStr ''warn''),
         (''message'', JStr ''store is empty'')]])])])])]"

definition doctor_message :: ipc_message where
  "doctor_message = \<lparr>im_id = 20, im_payload = ResponseP (response_ok (DoctorR 1
     [\<lparr>dc_name = ''memories present'', dc_level = Check_warn, dc_message = ''store is empty''\<rparr>]))\<rparr>"

lemma fixtures_written: "ser_message store_message = store_fixture" "ser_message doctor_message = doctor_fixture"
  by (simp_all add: ser_message_def store_message_def store_fixture_def doctor_message_def doctor_fixture_def
      with_op_def ser_store_memory_args_def ser_response_def response_ok_def ser_doctor_data_def ser_list_def
      ser_doctor_check_data_def ser_nat_def)

theorem message_wire_witness:
  "de_message store_fixture = Some store_message \<and> de_message doctor_fixture = Some doctor_message
   \<and> de_request (ser_request (Memory (Subscribe True)) @ [(''filter'', JStr ''core'')]) = de_request (ser_request (Memory (Subscribe True)))
   \<and> de_request [(''bucket'', JStr ''FutureFeature''), (''op'', JStr ''DoSomething''), (''extra_field'', JInt 42)] = Some UnknownBucket
   \<and> de_request [(''bucket'', JStr ''Memory''), (''op'', JStr ''DoSomething'')] = None"
proof (intro conjI)
  note W = message_wire [where kvs = "[]" and extra = "[]" and kvs' = "[]" and extra' = "[]" and rq = "[]" and b = "[]" and op = "[]"
      and b' = "[]" and args = "[]" and ev = "[]" and k = "[]"]
  have "ok_message store_message" "ok_message doctor_message"
    by (simp_all add: ok_message_def store_message_def doctor_message_def fits_u64_def ok_response_def response_ok_def fits_i32_def)
  then show "de_message store_fixture = Some store_message" "de_message doctor_fixture = Some doctor_message"
    using W [of store_message, THEN conjunct1] W [of doctor_message, THEN conjunct1] by (simp_all add: fixtures_written)
  have u: "unknown [(''filter'', JStr ''core'')]" by (simp add: unknown_def REQUEST_KEYS_def)
  show "de_request (ser_request (Memory (Subscribe True)) @ [(''filter'', JStr ''core'')]) = de_request (ser_request (Memory (Subscribe True)))"
    by (rule message_wire [THEN conjunct2, THEN conjunct1, THEN mp, OF u])
  show "de_request [(''bucket'', JStr ''FutureFeature''), (''op'', JStr ''DoSomething''), (''extra_field'', JInt 42)] = Some UnknownBucket"
    by (rule message_wire [where b = "''FutureFeature''", THEN conjunct2, THEN conjunct2, THEN conjunct2, THEN conjunct1, THEN mp]) simp
  show "de_request [(''bucket'', JStr ''Memory''), (''op'', JStr ''DoSomething'')] = None"
    by (rule message_wire [THEN conjunct2, THEN conjunct2, THEN conjunct2, THEN conjunct2, THEN conjunct1, THEN mp])
      (simp add: de_diagnostics_def de_memory_def de_lifecycle_def)
qed

section \<open>Messages in frames\<close>

definition message_to_vec :: "json_codec \<Rightarrow> ipc_message \<Rightarrow> string + byte list" where
  "message_to_vec J m = js_to_vec J (ser_message m)"

definition message_from_slice :: "json_codec \<Rightarrow> (json \<Rightarrow> string) \<Rightarrow> byte list \<Rightarrow> string + ipc_message" where
  "message_from_slice J complaint bytes = (case js_from_slice J bytes of
      Inl e \<Rightarrow> Inl e
    | Inr j \<Rightarrow> (case de_message j of Some m \<Rightarrow> Inr m | None \<Rightarrow> Inl (complaint j)))"

definition received ::
  "json_codec \<Rightarrow> (json \<Rightarrow> string) \<Rightarrow> byte list list \<Rightarrow> ipc_message list \<times> codec_error option" where
  "received J complaint chunks = framed (message_from_slice J complaint) chunks []"

lemma wire_laws:
  assumes fine: "\<forall>m \<in> set ms. ok_message m"
    and printer: "\<forall>m \<in> insert bad (set ms). \<forall>b. js_to_vec J (ser_message m) = Inr b \<longrightarrow> js_from_slice J b = Inr (ser_message m)"
    and sent: "ipc_encode_all (message_to_vec J) ms [] = Inr bytes"
  shows "received J complaint chunks = received J complaint [concat chunks]"
    and "concat chunks = bytes \<Longrightarrow> received J complaint chunks = (ms, None)"
    and "concat chunks = take k bytes \<Longrightarrow> \<exists>n. received J complaint chunks = (take n ms, None)"
    and "concat chunks = bytes @ a # b # c # d # rest \<Longrightarrow> MAX_FRAME < be_value a b c d \<Longrightarrow>
      received J complaint chunks = (ms, Some Frame_size)"
    and "\<not> ok_message bad \<Longrightarrow> ipc_encode (message_to_vec J) bad bytes = Inr bytes' \<Longrightarrow> concat chunks = bytes' @ rest \<Longrightarrow>
      received J complaint chunks = (ms, Some (Invalid_data (complaint (ser_message bad))))"
proof -
  have readable: "\<forall>m \<in> set ms. \<forall>b. message_to_vec J m = Inr b \<longrightarrow> message_from_slice J complaint b = Inr m"
    using fine printer by (simp add: message_to_vec_def message_from_slice_def message_read_back)
  note S = codec_stream [OF readable sent]
  show "received J complaint chunks = received J complaint [concat chunks]"
    "concat chunks = bytes \<Longrightarrow> received J complaint chunks = (ms, None)"
    "concat chunks = take k bytes \<Longrightarrow> \<exists>n. received J complaint chunks = (take n ms, None)"
    "concat chunks = bytes @ a # b # c # d # rest \<Longrightarrow> MAX_FRAME < be_value a b c d \<Longrightarrow>
      received J complaint chunks = (ms, Some Frame_size)"
    using S(1-4) by (simp_all add: received_def)
  show "received J complaint chunks = (ms, Some (Invalid_data (complaint (ser_message bad))))"
    if "\<not> ok_message bad" "ipc_encode (message_to_vec J) bad bytes = Inr bytes'" "concat chunks = bytes' @ rest"
  proof -
    have "\<exists>j. message_to_vec J bad = Inr j" using that(2) by (auto simp: ipc_encode_def split: sum.splits)
    then obtain j where j: "message_to_vec J bad = Inr j" by blast
    then have "message_from_slice J complaint j = Inl (complaint (ser_message bad))"
      using printer that(1) by (simp add: message_to_vec_def message_from_slice_def message_read_back)
    then show ?thesis unfolding received_def using S(5) [OF that(2) j _ that(3)] by simp
  qed
qed


text \<open>A printer that knows two messages: a subscription, and a hit whose score is not a number.\<close>

definition nan_message :: ipc_message where
  "nan_message = \<lparr>im_id = 3, im_payload = ResponseP (response_ok (MemorySearchResultsR
     [\<lparr>sh_memory_id = ''m'', sh_content = ''c'', sh_category = ''semantic'', sh_memory_type = ''fact'', sh_score = NaN\<rparr>] []))\<rparr>"

definition sub_message :: ipc_message where
  "sub_message = \<lparr>im_id = 2, im_payload = RequestP (Memory (Subscribe True))\<rparr>"

definition two_messages :: json_codec where
  "two_messages = \<lparr>js_to_vec = (\<lambda>j. if j = ser_message sub_message then Inr [104, 105]
       else if j = ser_message nan_message then Inr [110] else Inl ''other''),
     js_from_slice = (\<lambda>p. if p = [104, 105] then Inr (ser_message sub_message)
       else if p = [110] then Inr (ser_message nan_message) else Inl ''other'')\<rparr>"


end
