(* ===== verification/End_To_End.thy ===== *)
theory End_To_End
  imports Wire_Messages
begin

text \<open>
  One request from the call of \<open>IpcClient::request\<close> to its return, over both sides of the socket: the
  client (\<open>crates/client/src/lib.rs\<close>), the codec (\<open>crates/protocol/src/codec.rs\<close>) in both directions with
  the data types' own JSON, and the dispatch of the daemon (\<open>crates/daemon/src/server.rs\<close>).
\<close>

section \<open>What the client reads\<close>

fun codec_error_text :: "codec_error \<Rightarrow> string" where
  "codec_error_text Frame_size = ''frame size too big''"
| "codec_error_text (Invalid_data e) = e"

text \<open>What \<open>framed.next()\<close> yields for the messages of a stream and the error that ended it.\<close>

definition inbox_of :: "ipc_message list \<times> codec_error option \<Rightarrow> (string + ipc_message) list" where
  "inbox_of r = map Inr (fst r) @ (case snd r of None \<Rightarrow> [] | Some e \<Rightarrow> [Inl (codec_error_text e)])"

lemma encode_all_append:
  "ipc_encode_all f (ms @ ns) dst = (case ipc_encode_all f ms dst of Inl e \<Rightarrow> Inl e | Inr b \<Rightarrow> ipc_encode_all f ns b)"
  by (induction ms arbitrary: dst) (simp_all split: sum.splits)

text \<open>The reply behind some events: it arrives with them, or, when it cannot be read back, the stream ends
  in an error behind them.\<close>

lemma replies_arrive:
  assumes evs: "\<forall>m \<in> set evs. ok_message m"
    and printer: "\<forall>m \<in> insert reply (set evs). \<forall>b. js_to_vec J (ser_message m) = Inr b \<longrightarrow> js_from_slice J b = Inr (ser_message m)"
    and sent: "ipc_encode_all (message_to_vec J) (evs @ [reply]) [] = Inr bytes" and chunks: "concat chunks = bytes"
  shows "inbox_of (received J complaint chunks)
    = map Inr evs @ [if ok_message reply then Inr reply else Inl (complaint (ser_message reply))]"
proof (cases "ok_message reply")
  case True
  have "received J complaint chunks = (evs @ [reply], None)"
    by (rule wire_laws(2) [where bad = reply, OF _ _ sent chunks]) (use evs printer True in auto)
  then show ?thesis using True by (simp add: inbox_of_def)
next
  case False
  obtain b where b: "ipc_encode_all (message_to_vec J) evs [] = Inr b" "ipc_encode (message_to_vec J) reply b = Inr bytes"
    using sent by (auto simp: encode_all_append split: sum.splits)
  have "received J complaint chunks = (evs, Some (Invalid_data (complaint (ser_message reply))))"
    by (rule wire_laws(5) [where rest = "[]", OF evs printer b(1) False b(2)]) (simp add: chunks)
  then show ?thesis using False by (simp add: inbox_of_def)
qed

text \<open>The response the daemon makes of what the handler returned.\<close>

definition reply_to :: "texts \<Rightarrow> handler_error + response \<Rightarrow> response" where
  "reply_to T outcome = (case outcome of Inr resp \<Rightarrow> resp
     | Inl e \<Rightarrow> response_err \<lparr>re_kind = error_kind_for e, re_message = handler_error_text T e, re_retriable = False\<rparr>)"

lemma dispatch_request:
  assumes "dispatch T E \<lparr>im_id = i, im_payload = RequestP req\<rparr> u s = (reply, s')"
  shows "reply = \<lparr>im_id = i, im_payload = ResponseP (reply_to T (fst (handle_request E req u s)))\<rparr>"
    and "app_store s' = app_store (snd (handle_request E req u s))"
  using assms
  by (auto simp: dispatch_def answer_def reply_to_def Let_def split: prod.splits sum.splits)

section \<open>The whole way\<close>


text \<open>A status request whose answer comes behind an event.\<close>

definition status_client :: "(string + ipc_message) list \<Rightarrow> client" where
  "status_client inbox = \<lparr>ct_next_id = 5, ct_inbox = inbox, ct_sent = []\<rparr>"

definition state_event :: ipc_message where
  "state_event = \<lparr>im_id = 0, im_payload = EventP (CurrentState 0 ''now'')\<rparr>"

definition exchange :: json_codec where
  "exchange = \<lparr>js_to_vec = (\<lambda>j. if j = ser_message demo_message then Inr [7]
       else if j = ser_message state_event then Inr [8]
       else if j = ser_message (fst demo_reply) then Inr [9] else Inl ''other''),
     js_from_slice = (\<lambda>p. if p = [7] then Inr (ser_message demo_message)
       else if p = [8] then Inr (ser_message state_event)
       else if p = [9] then Inr (ser_message (fst demo_reply)) else Inl ''other'')\<rparr>"

lemma exchange_reads_back:
  "x = demo_message \<or> x = state_event \<or> x = fst demo_reply \<Longrightarrow> js_to_vec exchange (ser_message x) = Inr b \<Longrightarrow>
    js_from_slice exchange b = Inr (ser_message x)"
  by (auto simp: exchange_def split: if_splits)

lemma demo_reply_eq:
  "fst demo_reply = \<lparr>im_id = 5, im_payload = ResponseP (reply_to demo_texts (fst (handle_request demo_env (Diagnostics Status) ''default'' (fresh_app 1000))))\<rparr>"
  "ok_message (fst demo_reply)"
proof -
  obtain r s' where d: "demo_reply = (r, s')" by (cases demo_reply)
  show eq: "fst demo_reply = \<lparr>im_id = 5, im_payload = ResponseP (reply_to demo_texts (fst (handle_request demo_env (Diagnostics Status) ''default'' (fresh_app 1000))))\<rparr>"
    using dispatch_request(1) [of demo_texts demo_env 5 "Diagnostics Status"] d
    by (simp add: demo_reply_def demo_message_def)
  show "ok_message (fst demo_reply)"
    unfolding eq
    by (simp add: handle_request_def handle_status_def reply_to_def sm_simps ok_message_def ok_response_def response_ok_def
        ok_status_data_def fits_u64_def fits_u32_def demo_env_def fresh_app_def empty_db_def IPC_PROTOCOL_VERSION_def)
qed


end
