(* ===== verification/Handshake_Io.thy ===== *)
theory Handshake_Io
  imports Client Daemon_Main
begin

text \<open>
  The daemon's side of the handshake on the raw stream (\<open>handle_connection\<close> up to its loop, and the two
  helpers of \<open>crates/daemon/src/server.rs\<close> that read and write length-prefixed JSON). The stream and
  serde are those of the client's model. A result comes with the bytes that were handed to \<open>write_all\<close>.
\<close>

section \<open>Length-prefixed JSON\<close>

definition daemon_write_json :: "json_codec \<Rightarrow> stream \<Rightarrow> json \<Rightarrow> (daemon_error + unit) \<times> byte list" where
  "daemon_write_json J sk v = (case js_to_vec J v of
      Inl e \<Rightarrow> (Inl (Daemon_io e), [])
    | Inr bytes \<Rightarrow> (case encode_frame bytes of
        None \<Rightarrow> (Inl (Daemon_io ''frame size too big''), [])
      | Some buf \<Rightarrow> (map_sum Daemon_io id (st_write sk buf), buf)))"

text \<open>The value and the reads that are left. What the buffer holds behind the frame is dropped with it.\<close>

fun daemon_read_json ::
  "json_codec \<Rightarrow> byte list \<Rightarrow> (string + byte list) list \<Rightarrow> daemon_error + json \<times> (string + byte list) list" where
  "daemon_read_json J buf reads = (case decode_frame buf of
      Frame_too_big \<Rightarrow> Inl (Daemon_io ''frame size too big'')
    | Frame frame _ \<Rightarrow> (case js_from_slice J frame of Inl e \<Rightarrow> Inl (Daemon_io e) | Inr v \<Rightarrow> Inr (v, reads))
    | Need_more \<Rightarrow> (case reads of
        [] \<Rightarrow> Inl (Daemon_io ''client closed during handshake'')
      | Inl e # _ \<Rightarrow> Inl (Daemon_io e)
      | Inr bytes # later \<Rightarrow> if bytes = [] then Inl (Daemon_io ''client closed during handshake'')
                           else daemon_read_json J (buf @ bytes) later))"

declare daemon_read_json.simps [simp del]

section \<open>The handshake\<close>

text \<open>\<open>None\<close>: the client was told that its version does not fit, and the connection is over. Otherwise the
  user of the connection, and the reads that the loop behind will decode.\<close>

definition handle_hello ::
  "env \<Rightarrow> json_codec \<Rightarrow> stream \<Rightarrow> string \<Rightarrow> (daemon_error + (string \<times> (string + byte list) list) option) \<times> byte list" where
  "handle_hello E J sk session_id = (case daemon_read_json J [] (st_reads sk) of
      Inl e \<Rightarrow> (Inl e, [])
    | Inr (hello, later) \<Rightarrow> (case handshake E session_id hello of
        Refused refusal \<Rightarrow> (Inr None, snd (daemon_write_json J sk refusal))
      | Welcomed user_id greeting \<Rightarrow> (case daemon_write_json J sk greeting of
          (Inl e, sent) \<Rightarrow> (Inl e, sent)
        | (Inr _, sent) \<Rightarrow> (Inr (Some (user_id, later)), sent))))"

section \<open>Reading a frame\<close>

text \<open>The reader takes reads until the frame is complete, and not one more.\<close>

lemma daemon_read_chunks:
  assumes "encode_frame payload = Some bytes" "[] \<notin> set chunks" "js_from_slice J payload = Inr v"
    and "buf @ concat chunks = bytes @ extra"
  shows "\<exists>n \<le> length chunks. daemon_read_json J buf (map Inr chunks @ later) = Inr (v, drop n (map Inr chunks @ later))
    \<and> length bytes \<le> length (buf @ concat (take n chunks))
    \<and> (\<forall>m < n. length (buf @ concat (take m chunks)) < length bytes)"
  using assms(2,4)
proof (induction chunks arbitrary: buf)
  case Nil
  then have "decode_frame buf = Frame payload extra" using decode_encoded_frame [OF assms(1)] by simp
  then show ?case using assms(3) Nil by (simp add: daemon_read_json.simps)
next
  case (Cons x chunks)
  show ?case
  proof (cases "length buf < length bytes")
    case True
    have "buf = take (length buf) (buf @ concat (x # chunks))" by simp
    also have "\<dots> = take (length buf) bytes" using True Cons.prems(2) by simp
    finally have more: "decode_frame buf = Need_more" using decode_frame_prefix [OF assms(1) True] by simp
    obtain n where n: "n \<le> length chunks"
      "daemon_read_json J (buf @ x) (map Inr chunks @ later) = Inr (v, drop n (map Inr chunks @ later))"
      "length bytes \<le> length ((buf @ x) @ concat (take n chunks))"
      "\<forall>m < n. length ((buf @ x) @ concat (take m chunks)) < length bytes"
      using Cons.IH [of "buf @ x"] Cons.prems by auto
    have "length (buf @ concat (take m (x # chunks))) < length bytes" if "m < Suc n" for m
      using that True n(4) by (cases m) auto
    moreover have "daemon_read_json J buf (map Inr (x # chunks) @ later) = Inr (v, drop (Suc n) (map Inr (x # chunks) @ later))"
      using more n(2) Cons.prems(1) by (subst daemon_read_json.simps) auto
    ultimately show ?thesis using n(1,3) by (intro exI [of _ "Suc n"]) simp
  next
    case False
    then obtain tail where "buf = bytes @ tail"
      using Cons.prems(2) by (metis append_eq_append_conv_if append_take_drop_id not_less)
    then have "decode_frame buf = Frame payload tail" using decode_encoded_frame [OF assms(1)] by simp
    then show ?thesis using assms(3) False by (intro exI [of _ 0]) (simp add: daemon_read_json.simps)
  qed
qed

lemma daemon_read_short:
  assumes "encode_frame payload = Some bytes" "k < length bytes"
  shows "daemon_read_json J [] [Inr (take k bytes)] = Inl (Daemon_io ''client closed during handshake'')"
  using decode_frame_prefix [OF assms]
  by (simp add: daemon_read_json.simps [of J "[]"] daemon_read_json.simps [of J "take k bytes"] decode_frame_def [of "[]"])

section \<open>Both sides\<close>

text \<open>C28: The handshake between the client and the daemon over a stream that cuts the bytes as it likes. The
  daemon takes the user of the hello, and the client accepts the bytes the daemon has sent. The loop of
  the daemon starts at the read behind the one that completed the hello: when the client waits for the
  welcome nothing is lost, and what a client sends along with its hello in one read is dropped. When the
  stream ends within the hello, the daemon ends the connection and sends nothing.\<close>

theorem handshake_end_to_end:
  assumes serde: "\<forall>v j. js_to_vec J v = Inr j \<longrightarrow> js_from_slice J j = Inr v"
    and hello: "js_to_vec J (client_hello label u) = Inr hj" "encode_frame hj = Some hello"
    and greet: "handshake E sid (client_hello label u) = Welcomed w greeting"
      "js_to_vec J greeting = Inr wj" "encode_frame wj = Some reply"
    and ds: "st_write ds = (\<lambda>_. Inr ())" "st_reads ds = map Inr chunks @ later" "concat chunks = hello @ extra" "[] \<notin> set chunks"
    and sk: "st_connect sk = Inr ()" "st_write sk = (\<lambda>_. Inr ())" "st_reads sk = map Inr chunks' @ later'" "[] \<notin> set chunks'"
  shows "(\<exists>n \<le> length chunks. handle_hello E J ds sid = (Inr (Some (u, drop n (st_reads ds))), reply)
      \<and> length hello \<le> length (concat (take n chunks)) \<and> (\<forall>m < n. length (concat (take m chunks)) < length hello)
      \<and> (extra = [] \<longrightarrow> drop n (st_reads ds) = later))
    \<and> (concat chunks' = snd (handle_hello E J ds sid) @ rest \<longrightarrow>
      connect J sk inbox label u = Inr \<lparr>ct_next_id = 1, ct_inbox = inbox, ct_sent = []\<rparr>)
    \<and> (k < length hello \<longrightarrow> handle_hello E J (ds\<lparr>st_reads := [Inr (take k hello)]\<rparr>) sid
      = (Inl (Daemon_io ''client closed during handshake''), []))"
proof -
  have J: "js_from_slice J hj = Inr (client_hello label u)" "js_from_slice J wj = Inr greeting"
    using serde hello(1) greet(2) by blast+
  have len: "length hj \<le> MAX_FRAME" using hello(2) by (simp add: encode_frame_Some)
  have wr: "daemon_write_json J ds greeting = (Inr (), reply)"
    using greet(2,3) ds(1) by (simp add: daemon_write_json_def)
  obtain n where n: "n \<le> length chunks" "daemon_read_json J [] (st_reads ds) = Inr (client_hello label u, drop n (st_reads ds))"
    "length hello \<le> length (concat (take n chunks))" "\<forall>m < n. length (concat (take m chunks)) < length hello"
    using daemon_read_chunks [where buf = "[]" and later = later, OF hello(2) ds(4) J(1)] ds(2,3) by auto
  have w: "w = u" using connect_handshake [OF hello(1) len greet(1,2) J(2) greet(3), of "sk\<lparr>st_reads := [Inr reply]\<rparr>" "[reply]" "[]" "[]" inbox]
      sk(1,2) greet(3) by (auto simp: encode_frame_Some be_bytes_def)
  have run: "handle_hello E J ds sid = (Inr (Some (u, drop n (st_reads ds))), reply)"
    by (simp add: handle_hello_def n(2) greet(1) wr w)
  have "drop n (st_reads ds) = later" if "extra = []"
  proof -
    have "concat (take n chunks) @ concat (drop n chunks) = hello"
      using ds(3) that by (metis append_Nil2 append_take_drop_id concat_append)
    then have "concat (drop n chunks) = []" using n(3) by (metis add_le_same_cancel1 le_zero_eq length_0_conv length_append)
    then have "drop n chunks = []" using ds(4) by (metis concat_eq_Nil_conv in_set_dropD list.set_intros(1) neq_Nil_conv)
    then show ?thesis using n(1) by (simp add: ds(2) drop_map [symmetric])
  qed
  moreover have "connect J sk inbox label u = Inr \<lparr>ct_next_id = 1, ct_inbox = inbox, ct_sent = []\<rparr>"
    if "concat chunks' = snd (handle_hello E J ds sid) @ rest"
    using connect_handshake [OF hello(1) len greet(1,2) J(2) greet(3), of sk chunks' later' rest inbox] sk that run by simp
  moreover have "handle_hello E J (ds\<lparr>st_reads := [Inr (take k hello)]\<rparr>) sid = (Inl (Daemon_io ''client closed during handshake''), [])"
    if "k < length hello"
    by (simp add: handle_hello_def daemon_read_short [OF hello(2) that])
  ultimately show ?thesis using n run by blast
qed

text \<open>A serde that knows the two messages of a handshake.\<close>

definition two_json :: "json \<Rightarrow> json \<Rightarrow> json_codec" where
  "two_json v w = \<lparr>js_to_vec = (\<lambda>j. if j = v then Inr [1] else if j = w then Inr [2] else Inl ''unknown''),
     js_from_slice = (\<lambda>b. Inr (if b = [1] then v else w))\<rparr>"

definition hello_stream :: "(string + byte list) list \<Rightarrow> stream" where
  "hello_stream reads = \<lparr>st_connect = Inr (), st_write = (\<lambda>_. Inr ()), st_reads = reads\<rparr>"

theorem handshake_end_to_end_witness:
  "\<exists>J n. n \<le> 2 \<and> handle_hello demo_env J (hello_stream [Inr [0, 0, 0], Inr [1, 1, 9], Inr [8]]) ''s''
      = (Inr (Some (''alice'', drop n [Inr [0, 0, 0], Inr [1, 1, 9], Inr [8]])), [0, 0, 0, 1, 2])
    \<and> connect J (hello_stream [Inr [0, 0, 0, 1], Inr [2]]) [] ''cm'' ''alice'' = Inr \<lparr>ct_next_id = 1, ct_inbox = [], ct_sent = []\<rparr>"
proof -
  define hl where "hl = client_hello ''cm'' ''alice''"
  obtain g where g: "handshake demo_env ''s'' (client_hello ''cm'' ''alice'') = Welcomed ''alice'' g" and ne: "g \<noteq> hl"
    unfolding hl_def by (simp add: handshake_def client_hello_proto) (simp add: client_hello_def)
  have f: "encode_frame [1] = Some [0, 0, 0, 1, 1]" "encode_frame [2] = Some [0, 0, 0, 1, 2]"
    by (simp_all add: encode_frame_def be_bytes_def MAX_FRAME_def)
  let ?J = "two_json hl g"
  have J: "\<forall>v j. js_to_vec ?J v = Inr j \<longrightarrow> js_from_slice ?J j = Inr v" "js_to_vec ?J (client_hello ''cm'' ''alice'') = Inr [1]"
    "js_to_vec ?J g = Inr [2]"
    using ne by (auto simp: two_json_def hl_def [symmetric])
  let ?ds = "hello_stream [Inr [0, 0, 0], Inr [1, 1, 9], Inr [8]]" and ?sk = "hello_stream [Inr [0, 0, 0, 1], Inr [2]]"
  have "st_write ?ds = (\<lambda>_. Inr ())" "st_reads ?ds = map Inr [[0, 0, 0], [1, 1, 9]] @ [Inr [8]]"
    "concat [[0, 0, 0], [1, 1, 9]] = [0, 0, 0, 1, 1] @ [9 :: byte]" "[] \<notin> set [[0, 0, 0], [1, 1, 9 :: byte]]"
    and "st_connect ?sk = Inr ()" "st_write ?sk = (\<lambda>_. Inr ())" "st_reads ?sk = map Inr [[0, 0, 0, 1], [2]] @ []"
    "[] \<notin> set [[0, 0, 0, 1], [2 :: byte]]"
    by (simp_all add: hello_stream_def)
  note spec = handshake_end_to_end [OF J(1,2) f(1) g J(3) f(2) this]
  obtain n where n: "n \<le> 2" "handle_hello demo_env ?J ?ds ''s'' = (Inr (Some (''alice'', drop n (st_reads ?ds))), [0, 0, 0, 1, 2])"
    using spec [of "[]" "[]" 0] by (auto simp: numeral_2_eq_2)
  then have "concat [[0, 0, 0, 1], [2]] = snd (handle_hello demo_env ?J ?ds ''s'') @ []" by simp
  then have "connect ?J ?sk [] ''cm'' ''alice'' = Inr \<lparr>ct_next_id = 1, ct_inbox = [], ct_sent = []\<rparr>"
    using spec [of "[]" "[]" 0] by blast
  then show ?thesis using n by (intro exI [of _ ?J] exI [of _ n]) (simp add: hello_stream_def)
qed

end
