(* ===== verification/Cli_Commands.thy ===== *)
theory Cli_Commands
  imports Client Core_Config
begin

text \<open>
  The command line client \<open>cm\<close> (\<open>crates/cli/src/main.rs\<close>), the part without processes: the
  subcommands and the request each of them sends, what is printed for a response, and the commands that
  work on the local files (model download, configuration). Parsing the command line is clap's; a
  \<open>cli\<close> value is what it returns. Parameters: the JSON text of a response, the TOML library, the
  download.
\<close>

section \<open>Subcommands\<close>

datatype daemon_command = Start bool | Stop | Restart | Daemon_status

record store_cmd =
  sc_content :: string
  sc_category_arg :: string
  sc_type_arg :: string
  sc_metadata_arg :: string
  sc_core :: bool
  sc_importance_arg :: "real option"

record list_cmd =
  lc_category :: "string option"
  lc_memory_type :: "string option"
  lc_min_retention :: "real option"
  lc_min_importance :: "real option"
  lc_limit :: int
  lc_offset :: int
  lc_include_superseded :: bool
  lc_include_cold :: bool
  lc_include_stubs :: bool

record update_cmd =
  uc_id :: string
  uc_content :: "string option"
  uc_category :: "string option"
  uc_memory_type :: "string option"
  uc_metadata :: "string option"
  uc_retention_floor :: "real option"
  uc_importance :: "real option"
  uc_stability :: "real option"
  uc_valid_until :: "int option"

record search_cmd =
  qc_query :: string
  qc_limit :: nat
  qc_deep_recall :: bool
  qc_hybrid :: bool
  qc_graph_hops :: nat
  qc_bridge_discovery :: bool

record set_llm_cmd =
  xc_provider :: string
  xc_model_path :: "path option"
  xc_api_key_env :: "string option"
  xc_model :: "string option"

datatype cli_command =
    Status_cmd
  | Daemon_cmd daemon_command
  | Doctor_cmd
  | Trace_cmd nat
  | Counts_cmd
  | Store_cmd store_cmd
  | StoreBatch_cmd "string list" string string real
  | Search_cmd search_cmd
  | SearchLexical_cmd string nat
  | Get_cmd string
  | GetMany_cmd "string list"
  | List_cmd list_cmd
  | Update_cmd update_cmd
  | Delete_cmd string
  | DeleteMany_cmd "string list"
  | Link_cmd string string real string bool
  | Unlink_cmd string string bool
  | Linked_cmd string real
  | LinkedMany_cmd "string list" real
  | Tick_cmd bool
  | FindFading_cmd real int
  | FindStable_cmd real int int
  | MarkSuperseded_cmd string "string list"
  | Cold_cmd string "int option"
  | Hot_cmd string
  | Stub_cmd string string
  | Retention_cmd string real
  | BatchRetention_cmd "string list"
  | Clear_cmd bool
  | MintToken_cmd string nat
  | DownloadModel_cmd string
  | ConfigGetLlm_cmd
  | ConfigSetLlm_cmd set_llm_cmd

record cli =
  cli_socket :: "path option"
  cli_user_id :: string
  cli_json :: bool
  cli_no_spawn :: bool
  cli_command :: cli_command

section \<open>Numbers on the command line\<close>

text \<open>\<open>str::parse::<f64>\<close>: an optional sign, then \<open>inf\<close>, \<open>infinity\<close> or \<open>nan\<close> in any case, or digits
  with an optional point and an optional exponent; at least one digit before the exponent. The value is
  exact.\<close>

definition is_digit :: "char \<Rightarrow> bool" where
  "is_digit c \<longleftrightarrow> 48 \<le> (of_char c :: nat) \<and> (of_char c :: nat) \<le> 57"

definition digits_val :: "string \<Rightarrow> nat" where
  "digits_val ds = fold (\<lambda>c n. 10 * n + (of_char c - 48)) ds 0"

definition to_lower :: "char \<Rightarrow> char" where
  "to_lower c = (if 65 \<le> (of_char c :: nat) \<and> (of_char c :: nat) \<le> 90 then char_of ((of_char c :: nat) + 32) else c)"

definition take_sign :: "string \<Rightarrow> bool \<times> string" where
  "take_sign s = (case s of
      c # r \<Rightarrow> if c = CHR ''-'' then (True, r) else if c = CHR ''+'' then (False, r) else (False, s)
    | [] \<Rightarrow> (False, s))"

definition parse_exponent :: "string \<Rightarrow> int option" where
  "parse_exponent s = (case s of
      [] \<Rightarrow> Some 0
    | c # r \<Rightarrow> if to_lower c \<noteq> CHR ''e'' then None
        else (case take_sign r of (neg, ds) \<Rightarrow>
          if ds = [] \<or> \<not> list_all is_digit ds then None
          else Some (if neg then - int (digits_val ds) else int (digits_val ds))))"

definition parse_decimal :: "string \<Rightarrow> real option" where
  "parse_decimal s =
     (let whole = takeWhile is_digit s; r1 = dropWhile is_digit s;
          (frac, r2) = (case r1 of
              c # r \<Rightarrow> if c = CHR ''.'' then (takeWhile is_digit r, dropWhile is_digit r) else ([], r1)
            | [] \<Rightarrow> ([], r1))
      in if whole = [] \<and> frac = [] then None
         else map_option (\<lambda>e. real (digits_val (whole @ frac)) * 10 powi (e - int (length frac))) (parse_exponent r2))"

definition parse_f64 :: "string \<Rightarrow> fl option" where
  "parse_f64 s = (case take_sign s of (neg, r) \<Rightarrow>
     let v = (if map to_lower r \<in> {''inf'', ''infinity''} then Some PInf
              else if map to_lower r = ''nan'' then Some NaN
              else map_option Fin (parse_decimal r))
     in map_option (if neg then f_neg else id) v)"

section \<open>Requests\<close>

text \<open>Why a command sends nothing: a pair without \<open>=\<close>, a floor that is no number, or a number JSON
  cannot carry (the daemon refuses the frame).\<close>

datatype cli_error = Bad_pair string | Bad_floor string | Not_finite string

definition split_once :: "char \<Rightarrow> string \<Rightarrow> (string \<times> string) option" where
  "split_once c s = (if c \<in> set s then Some (takeWhile (\<lambda>x. x \<noteq> c) s, tl (dropWhile (\<lambda>x. x \<noteq> c) s)) else None)"

definition retention_pair :: "string \<Rightarrow> cli_error + retention_update" where
  "retention_pair pair = (case split_once (CHR ''='') pair of
      None \<Rightarrow> Inl (Bad_pair pair)
    | Some (i, flr) \<Rightarrow> (case parse_f64 flr of
        None \<Rightarrow> Inl (Bad_floor flr)
      | Some (Fin x) \<Rightarrow> Inr \<lparr>ru_id = i, ru_retention_floor = x\<rparr>
      | Some _ \<Rightarrow> Inl (Not_finite flr)))"

fun retention_pairs :: "string list \<Rightarrow> cli_error + retention_update list" where
  "retention_pairs [] = Inr []"
| "retention_pairs (p # ps) = (case retention_pair p of
      Inl e \<Rightarrow> Inl e
    | Inr u \<Rightarrow> map_sum id (\<lambda>us. u # us) (retention_pairs ps))"

definition mint_scope :: "string \<Rightarrow> bridge_scope" where
  "mint_scope s = (if s = ''read'' then Read else if s = ''admin'' then Admin else Write)"

text \<open>\<open>None\<close> is the \<open>unreachable!\<close> of the commands that \<open>main\<close> handles itself.\<close>

fun command_request :: "int \<Rightarrow> string \<Rightarrow> cli_command \<Rightarrow> (cli_error + request) option" where
  "command_request now user Status_cmd = Some (Inr (Diagnostics Status))"
| "command_request now user Doctor_cmd = Some (Inr (Diagnostics Doctor))"
| "command_request now user (Trace_cmd n) = Some (Inr (Diagnostics (RecentTraces n)))"
| "command_request now user Counts_cmd = Some (Inr (Diagnostics (Counts user)))"
| "command_request now user (Store_cmd c) = Some (Inr (Memory (Store \<lparr>
     sm_user_id = user, sm_content = sc_content c,
     sm_category = (if sc_core c then ''core'' else sc_category_arg c),
     sm_memory_type = sc_type_arg c, sm_metadata = sc_metadata_arg c, sm_importance = sc_importance_arg c\<rparr>)))"
| "command_request now user (StoreBatch_cmd contents cat ty w) = Some (Inr (Memory (StoreBatch \<lparr>
     sb_user_id = user,
     sb_memories = map (\<lambda>c. \<lparr>be_content = c, be_category = cat, be_memory_type = ty, be_metadata = ''{}''\<rparr>) contents,
     sb_initial_link_weight = w\<rparr>)))"
| "command_request now user (Search_cmd c) = Some (Inr (Memory (Search \<lparr>
     sa_user_id = user, sa_query = qc_query c, sa_limit = qc_limit c, sa_deep_recall = qc_deep_recall c,
     sa_hybrid = qc_hybrid c, sa_graph_expansion_hops = qc_graph_hops c,
     sa_bridge_discovery = qc_bridge_discovery c\<rparr>)))"
| "command_request now user (SearchLexical_cmd q n) = Some (Inr (Memory (SearchLexical \<lparr>
     sl_user_id = user, sl_query = q, sl_limit = n\<rparr>)))"
| "command_request now user (Get_cmd i) = Some (Inr (Memory (Get \<lparr>gm_user_id = user, gm_id = i\<rparr>)))"
| "command_request now user (GetMany_cmd ids) = Some (Inr (Memory (GetMany \<lparr>gn_user_id = user, gn_ids = ids\<rparr>)))"
| "command_request now user (List_cmd c) = Some (Inr (Memory (ListMem \<lparr>
     li_user_id = user, li_categories = map_option (\<lambda>x. [x]) (lc_category c),
     li_memory_types = map_option (\<lambda>x. [x]) (lc_memory_type c),
     li_min_retention_floor = lc_min_retention c, li_min_importance = lc_min_importance c,
     li_created_after = None, li_created_before = None,
     li_limit = Some (lc_limit c), li_offset = Some (lc_offset c),
     li_include_superseded = lc_include_superseded c, li_include_cold = lc_include_cold c,
     li_include_stubs = lc_include_stubs c\<rparr>)))"
| "command_request now user (Update_cmd c) = Some (Inr (Memory (Update \<lparr>
     up_user_id = user, up_id = uc_id c, up_content = uc_content c, up_category = uc_category c,
     up_memory_type = uc_memory_type c, up_metadata = uc_metadata c, up_retention_floor = uc_retention_floor c,
     up_importance = uc_importance c, up_stability = uc_stability c, up_valid_until = uc_valid_until c\<rparr>)))"
| "command_request now user (Delete_cmd i) = Some (Inr (Memory (Delete \<lparr>dm_user_id = user, dm_id = i\<rparr>)))"
| "command_request now user (DeleteMany_cmd ids) = Some (Inr (Memory (DeleteMany \<lparr>dn_user_id = user, dn_ids = ids\<rparr>)))"
| "command_request now user (Link_cmd a b w k directed) = Some (Inr (Memory (Link \<lparr>
     lk_user_id = user, lk_source_id = a, lk_target_id = b, lk_strength = w,
     lk_bidirectional = (\<not> directed), lk_kind = k\<rparr>)))"
| "command_request now user (Unlink_cmd a b directed) = Some (Inr (Memory (Unlink \<lparr>
     ul_user_id = user, ul_source_id = a, ul_target_id = b, ul_bidirectional = (\<not> directed)\<rparr>)))"
| "command_request now user (Linked_cmd a w) = Some (Inr (Memory (GetLinked \<lparr>
     gl_user_id = user, gl_source_id = a, gl_min_strength = w\<rparr>)))"
| "command_request now user (LinkedMany_cmd as w) = Some (Inr (Memory (GetLinkedMany \<lparr>
     gk_user_id = user, gk_source_ids = as, gk_min_strength = w\<rparr>)))"
| "command_request now user (Tick_cmd synchronous) = Some (Inr (Lifecycle (Tick \<lparr>tk_synchronous = synchronous\<rparr>)))"
| "command_request now user (FindFading_cmd r n) = Some (Inr (Lifecycle (FindFading \<lparr>
     ff_user_id = user, ff_max_retention = r, ff_limit = n\<rparr>)))"
| "command_request now user (FindStable_cmd st acc n) = Some (Inr (Lifecycle (FindStable \<lparr>
     fs_user_id = user, fs_min_stability = st, fs_min_access_count = acc, fs_limit = n\<rparr>)))"
| "command_request now user (MarkSuperseded_cmd summary ids) = Some (Inr (Lifecycle (MarkSuperseded \<lparr>
     ms_user_id = user, ms_ids = ids, ms_summary_id = summary\<rparr>)))"
| "command_request now user (Cold_cmd i since) = Some (Inr (Lifecycle (MigrateToCold \<lparr>
     mc_user_id = user, mc_id = i, mc_cold_since = (case since of Some t \<Rightarrow> t | None \<Rightarrow> now)\<rparr>)))"
| "command_request now user (Hot_cmd i) = Some (Inr (Lifecycle (MigrateToHot \<lparr>mh_user_id = user, mh_id = i\<rparr>)))"
| "command_request now user (Stub_cmd i content) = Some (Inr (Lifecycle (ConvertToStub \<lparr>
     cs_user_id = user, cs_id = i, cs_stub_content = content\<rparr>)))"
| "command_request now user (Retention_cmd i r) = Some (Inr (Lifecycle (UpdateRetention \<lparr>
     ur_user_id = user, ur_id = i, ur_retention_floor = r\<rparr>)))"
| "command_request now user (BatchRetention_cmd pairs) = Some (map_sum id
     (\<lambda>us. Memory (BatchUpdate \<lparr>bu_user_id = user, bu_updates = us\<rparr>)) (retention_pairs pairs))"
| "command_request now user (Clear_cmd confirm) = Some (Inr (Lifecycle (Clear \<lparr>
     cl_user_id = user, cl_confirm = confirm\<rparr>)))"
| "command_request now user (MintToken_cmd sc ttl) = Some (Inr (Diagnostics (MintBridgeToken \<lparr>
     mt_user_id = user, mt_scope = mint_scope sc, mt_ttl_seconds = ttl\<rparr>)))"
| "command_request now user (Daemon_cmd _) = None"
| "command_request now user (DownloadModel_cmd _) = None"
| "command_request now user ConfigGetLlm_cmd = None"
| "command_request now user (ConfigSetLlm_cmd _) = None"

section \<open>Printing\<close>

text \<open>\<open>{:.k}\<close> of a float: rounded to \<open>k\<close> decimals, halves to even.\<close>

definition round_even :: "real \<Rightarrow> nat" where
  "round_even x = (let n = nat \<lfloor>x\<rfloor>; r = x - real n in
     if r < 1 / 2 then n else if 1 / 2 < r then Suc n else if even n then n else Suc n)"

definition pad_zeros :: "nat \<Rightarrow> string \<Rightarrow> string" where
  "pad_zeros k s = replicate (k - length s) (CHR ''0'') @ s"

definition fmt_fixed :: "nat \<Rightarrow> fl \<Rightarrow> string" where
  "fmt_fixed k x = (case x of
      Fin a \<Rightarrow> (let n = round_even (\<bar>a\<bar> * 10 ^ k) in
        (if a < 0 then ''-'' else []) @ radix_str 10 (n div 10 ^ k) @ ''.'' @ pad_zeros k (radix_str 10 (n mod 10 ^ k)))
    | PInf \<Rightarrow> ''inf'' | NInf \<Rightarrow> ''-inf'' | NaN \<Rightarrow> ''NaN'')"

definition fmt_int :: "int \<Rightarrow> string" where
  "fmt_int n = (if n < 0 then ''-'' else []) @ radix_str 10 (nat \<bar>n\<bar>)"

definition fmt_bool :: "bool \<Rightarrow> string" where
  "fmt_bool b = (if b then ''true'' else ''false'')"

definition NL :: string where
  "NL = [CHR 0x0A]"

definition TAB :: string where
  "TAB = [CHR 0x09]"

definition writeln :: "string list \<Rightarrow> string" where
  "writeln parts = concat parts @ NL"

fun debug_level :: "doctor_check_level \<Rightarrow> string" where
  "debug_level Check_ok = ''Ok''"
| "debug_level Check_warn = ''Warn''"
| "debug_level Check_error = ''Error''"

fun debug_scope :: "bridge_scope \<Rightarrow> string" where
  "debug_scope Read = ''Read''"
| "debug_scope Write = ''Write''"
| "debug_scope Admin = ''Admin''"

fun debug_kind :: "response_error_kind \<Rightarrow> string" where
  "debug_kind ProtocolMismatch_kind = ''ProtocolMismatch''"
| "debug_kind InvalidPayload_kind = ''InvalidPayload''"
| "debug_kind InvalidQuery_kind = ''InvalidQuery''"
| "debug_kind NotFound_kind = ''NotFound''"
| "debug_kind Conflict_kind = ''Conflict''"
| "debug_kind ProviderError_kind = ''ProviderError''"
| "debug_kind NoLlmConfigured_kind = ''NoLlmConfigured''"
| "debug_kind StorageError_kind = ''StorageError''"
| "debug_kind RateLimited_kind = ''RateLimited''"
| "debug_kind ShuttingDown_kind = ''ShuttingDown''"
| "debug_kind Internal_kind = ''Internal''"

text \<open>Seconds as \<open>1d 2h 3m 4s\<close>, leading zero units dropped.\<close>

definition format_uptime :: "nat \<Rightarrow> string" where
  "format_uptime secs =
     (let days = secs div 86400; hours = secs mod 86400 div 3600; minutes = secs mod 3600 div 60; seconds = secs mod 60;
          p1 = (if 0 < days then [radix_str 10 days @ ''d''] else []);
          p2 = p1 @ (if 0 < hours \<or> p1 \<noteq> [] then [radix_str 10 hours @ ''h''] else []);
          p3 = p2 @ (if 0 < minutes \<or> p2 \<noteq> [] then [radix_str 10 minutes @ ''m''] else [])
      in join_str '' '' (p3 @ [radix_str 10 seconds @ ''s'']))"

fun print_data :: "response_data \<Rightarrow> string" where
  "print_data (StatusR s) =
     writeln [''daemon: '', sd_daemon_version s, '' pid='', radix_str 10 (sd_daemon_pid s), '' instance='', sd_instance s,
       '' (memories: '', radix_str 10 (sd_memory_count s), '', uptime: '', format_uptime (sd_uptime_seconds s), '')''] @
     writeln [''socket: '', sd_socket_path s] @ writeln [''pid:    '', sd_pid_path s] @
     writeln [''db:     '', sd_db_path s] @ writeln [''log:    '', sd_log_path s]"
| "print_data (DoctorR code checks) =
     writeln [''doctor: exit_code='', fmt_int code] @
     concat (map (\<lambda>c. writeln [debug_level (dc_level c), TAB, dc_name c, TAB, dc_message c]) checks)"
| "print_data (RecentTracesR ts) =
     (if ts = [] then writeln [''(no traces)'']
      else concat (map (\<lambda>t. writeln [fmt_fixed 1 (Fin (td_elapsed_ms t)), ''ms'', TAB, td_trace_id t, TAB,
             td_bucket t, TAB, td_op t]) ts))"
| "print_data (ShutdownR accepted) = writeln [''shutdown accepted: '', fmt_bool accepted]"
| "print_data (SubscribedR sent) = writeln [''subscribed (snapshot: '', fmt_bool sent, '')'']"
| "print_data (BridgeTokenValidatedR v) =
     writeln [''token valid: user='', bv_user_id v, '' scope='', debug_scope (bv_scope v),
       '' expires_at_unix='', fmt_int (bv_expires_at_unix v)]"
| "print_data (CountsR c) =
     writeln [''hot:   '', fmt_int (cd_hot c)] @ writeln [''cold:  '', fmt_int (cd_cold c)] @
     writeln [''stub:  '', fmt_int (cd_stub c)] @ writeln [''total: '', fmt_int (cd_total c)]"
| "print_data (MemoryStoredR i) = writeln [''stored: '', i]"
| "print_data (MemoryStoredBatchR ids n) =
     writeln [''stored '', radix_str 10 (length ids), '' memories with '', radix_str 10 n, '' associations created:''] @
     concat (map (\<lambda>i. writeln [''  '', i]) ids)"
| "print_data (MemorySearchResultsR hits bridges) =
     (if hits = [] then writeln [''(no results)'']
      else concat (map (\<lambda>h. writeln [fmt_fixed 3 (sh_score h), TAB, sh_memory_id h, TAB, sh_content h]) hits)) @
     (if bridges \<noteq> [] then writeln [''bridges:''] @
        concat (map (\<lambda>p. writeln [''  '', join_str '' -> '' p]) bridges) else [])"
| "print_data (MemoryR m) =
     writeln [''id:       '', md_id m] @ writeln [''content:  '', md_content m] @ writeln [''category: '', md_category m] @
     writeln [''type:     '', md_memory_type m] @ writeln [''floor:    '', fmt_fixed 3 (Fin (md_retention_floor m))] @
     writeln [''metadata: '', md_metadata m]"
| "print_data (MemoriesR ms) =
     (if ms = [] then writeln [''(no memories)'']
      else concat (map (\<lambda>m. writeln [md_id m, TAB, md_category m, TAB, md_content m]) ms))"
| "print_data (AffectedR n) = writeln [''affected: '', radix_str 10 n]"
| "print_data (LinkedMemoriesR ls) =
     (if ls = [] then writeln [''(no linked memories)'']
      else concat (map (\<lambda>(m, w). writeln [fmt_fixed 3 (Fin w), TAB, md_id m, TAB, md_content m]) ls))"
| "print_data (LinkStrengthR w) = writeln [''strength: '', fmt_fixed 3 (Fin w)]"
| "print_data (LexicalIdsR ids) = concat (map (\<lambda>i. writeln [i]) ids)"
| "print_data (TickR completed n) =
     writeln [''tick: completed='', fmt_bool completed, '' memories_decayed='', radix_str 10 n]"
| "print_data (BridgeTokenR token expires) =
     writeln [''token (store now, not shown again):''] @ writeln [''  '', token] @
     writeln [''  expires_at_unix: '', fmt_int expires]"

definition print_human :: "response \<Rightarrow> string" where
  "print_human resp = (case rp_data resp of Some d \<Rightarrow> print_data d | None \<Rightarrow> writeln [''(empty response)''])"

text \<open>What a run prints and the code of \<open>process::exit\<close> when it is called. \<open>json_text\<close> is what
  \<open>serde_json\<close> prints of an error or of the data.\<close>

record printed =
  pn_stdout :: string
  pn_stderr :: string
  pn_exit :: "nat option"

record json_text =
  jt_error :: "response_error \<Rightarrow> string + string"
  jt_data :: "response_data option \<Rightarrow> string + string"

definition print_response :: "json_text \<Rightarrow> bool \<Rightarrow> response \<Rightarrow> string + printed" where
  "print_response J as_json resp =
     (if \<not> rp_ok resp then
       (case rp_error resp of
          None \<Rightarrow> Inl ''response not ok but no error attached''
        | Some e \<Rightarrow>
            if as_json then map_sum id (\<lambda>out. \<lparr>pn_stdout = out @ NL, pn_stderr = [], pn_exit = Some 2\<rparr>) (jt_error J e)
            else Inr \<lparr>pn_stdout = [], pn_stderr = writeln [''error: '', re_message e, '' ('', debug_kind (re_kind e), '')''],
                       pn_exit = Some 2\<rparr>)
      else if as_json then map_sum id (\<lambda>out. \<lparr>pn_stdout = out @ NL, pn_stderr = [], pn_exit = None\<rparr>) (jt_data J (rp_data resp))
      else Inr \<lparr>pn_stdout = print_human resp, pn_stderr = [], pn_exit = None\<rparr>)"

section \<open>Local commands\<close>

definition model_registry :: "string \<Rightarrow> string + string \<times> string" where
  "model_registry name =
     (if name = ''qwen3-4b'' then Inr
        (''https://huggingface.co/unsloth/Qwen3-4B-Instruct-2507-GGUF/resolve/main/Qwen3-4B-Instruct-2507-Q4_K_M.gguf'',
         ''Qwen3-4B-Instruct-2507-Q4_K_M.gguf'')
      else if name = ''gemma-3-4b'' then Inr
        (''https://huggingface.co/unsloth/gemma-3-4b-it-GGUF/resolve/main/gemma-3-4b-it-Q4_K_M.gguf'',
         ''gemma-3-4b-it-Q4_K_M.gguf'')
      else Inl (''unknown model `'' @ name @ ''`; available: qwen3-4b, gemma-3-4b''))"

text \<open>The download: the error text of the request, or the body. The file is read by the daemon only;
  its content is kept as a string.\<close>

definition run_download_model :: "(string \<Rightarrow> string + string) \<Rightarrow> path \<Rightarrow> string \<Rightarrow> unit io" where
  "run_download_model fetch target_dir name =
     bind_sm (lift_sm (model_registry name)) (\<lambda>(url, filename).
     bind_sm (create_dir_all target_dir) (\<lambda>_.
     bind_sm (gets_sm (\<lambda>s. path_exists s (path_join target_dir filename))) (\<lambda>there.
       if there then ret_sm ()
       else bind_sm (lift_sm (fetch url)) (\<lambda>bytes. write_file (path_join target_dir filename) bytes))))"

definition run_config_get_llm :: "toml \<Rightarrow> (llm_config \<Rightarrow> string) \<Rightarrow> path \<Rightarrow> (fs, config_error, string) sm" where
  "run_config_get_llm T pretty p =
     bind_sm (load_from T p) (\<lambda>cfg. ret_sm (case cf_llm cfg of
        None \<Rightarrow> ''no LLM configured (heuristic conflict resolution; consolidation skipped)''
      | Some llm \<Rightarrow> pretty llm))"

definition chosen_llm :: "path \<Rightarrow> set_llm_cmd \<Rightarrow> fs \<Rightarrow> string + llm_config" where
  "chosen_llm model_dir c s =
     (if xc_provider c = ''none'' then Inr Llm_none
      else if xc_provider c = ''local'' then (case xc_model_path c of
          Some p \<Rightarrow> Inr (Llm_local p)
        | None \<Rightarrow>
            (let dflt = path_join model_dir ''Qwen3-4B-Instruct-2507-Q4_K_M.gguf'' in
             if \<not> path_exists s dflt
             then Inl (''no --model-path specified and default '' @ dflt @ '' not found; run `cm download-model` first'')
             else Inr (Llm_local dflt)))
      else if xc_provider c = ''openai'' then Inr (Llm_openai
          (case xc_api_key_env c of Some k \<Rightarrow> k | None \<Rightarrow> ''OPENAI_API_KEY'')
          (case xc_model c of Some m \<Rightarrow> m | None \<Rightarrow> ''gpt-4o-mini''))
      else if xc_provider c = ''anthropic'' then Inr (Llm_anthropic
          (case xc_api_key_env c of Some k \<Rightarrow> k | None \<Rightarrow> ''ANTHROPIC_API_KEY'')
          (case xc_model c of Some m \<Rightarrow> m | None \<Rightarrow> ''claude-haiku-4-5-20251001''))
      else Inl (''unknown provider `'' @ xc_provider c @ ''`; expected one of: local, openai, anthropic, none''))"

definition run_config_set_llm ::
  "toml \<Rightarrow> path \<Rightarrow> path \<Rightarrow> set_llm_cmd \<Rightarrow> (fs, string + config_error, unit) sm" where
  "run_config_set_llm T p model_dir c =
     bind_sm (\<lambda>s. (map_sum Inl id (chosen_llm model_dir c s), s)) (\<lambda>new_llm.
     bind_sm (map_err Inr (load_from T p)) (\<lambda>cfg.
       map_err Inr (save_to T p (cfg\<lparr>cf_llm := Some new_llm\<rparr>))))"

section \<open>A command speaks for its user\<close>

fun is_local :: "cli_command \<Rightarrow> bool" where
  "is_local (Daemon_cmd _) = True"
| "is_local (DownloadModel_cmd _) = True"
| "is_local ConfigGetLlm_cmd = True"
| "is_local (ConfigSetLlm_cmd _) = True"
| "is_local _ = False"

text \<open>Which pairs of \<open>batch-retention\<close> are well-formed: an id, \<open>=\<close>, and a finite number.\<close>

definition good_pair :: "string \<Rightarrow> bool" where
  "good_pair p \<longleftrightarrow> (\<exists>i flr x. split_once (CHR ''='') p = Some (i, flr) \<and> parse_f64 flr = Some (Fin x))"

lemma retention_pair_good: "(\<exists>u. retention_pair p = Inr u) \<longleftrightarrow> good_pair p"
  by (auto simp: retention_pair_def good_pair_def split: option.split fl.splits)

lemma retention_pairs_good: "(\<exists>us. retention_pairs ps = Inr us) \<longleftrightarrow> list_all good_pair ps"
proof (induction ps)
  case (Cons p ps)
  show ?case
    using Cons retention_pair_good [of p]
    by (cases "retention_pair p"; cases "retention_pairs ps") auto
qed simp

text \<open>Every command of the command line client is one of three: it is local and never reaches the
  daemon; it is a batch of retention floors with an ill-formed pair, and nothing is sent; or it is one
  request that names the user of the connection or no user at all, and a listing that carries both
  its limit and its offset.\<close>

theorem command_request_cases:
  "case command_request now user c of
      None \<Rightarrow> is_local c
    | Some (Inl e) \<Rightarrow> (\<exists>pairs. c = BatchRetention_cmd pairs \<and> \<not> list_all good_pair pairs)
    | Some (Inr req) \<Rightarrow> request_user_id req \<in> {None, Some user}
        \<and> (case req of Memory (ListMem args) \<Rightarrow> li_limit args \<noteq> None \<and> li_offset args \<noteq> None | _ \<Rightarrow> True)"
proof (cases c)
  case (BatchRetention_cmd pairs)
  show ?thesis
    using BatchRetention_cmd retention_pairs_good [of pairs] by (cases "retention_pairs pairs") auto
qed simp_all

section \<open>Switching the language model\<close>

text \<open>Switching the language model keeps the rest of the configuration. When \<open>config-set-llm\<close> succeeds,
  the file afterwards loads to the configuration that was there (the default one when there was no
  file) with only the model replaced, and is readable by its owner alone. Relied on: the TOML library
  parses what it printed.\<close>

theorem set_llm_keeps_the_rest:
  assumes run: "run_config_set_llm T p model_dir c s = (Inr (), s')"
    and toml: "\<And>cfg content. tm_to_string T cfg = Inr content \<Longrightarrow> tm_from_str T content = Inr cfg"
  shows "\<exists>cfg llm. load_from T p s = (Inr cfg, s) \<and> chosen_llm model_dir c s = Inr llm
    \<and> load_from T p s' = (Inr (cfg\<lparr>cf_llm := Some llm\<rparr>), s') \<and> is_private_file s' p"
proof -
  obtain llm cfg where "chosen_llm model_dir c s = Inr llm" "load_from T p s = (Inr cfg, s)"
    "save_to T p (cfg\<lparr>cf_llm := Some llm\<rparr>) s = (Inr (), s')"
    using run unfolding run_config_set_llm_def bind_sm_Inr_iff map_err_Inr
    by (cases "chosen_llm model_dir c s") (auto simp: load_from_def)
  then show ?thesis using save_to_loads [OF _ toml] by blast
qed

text \<open>A TOML library that prints nothing, and a switch to no model in the demonstration file system.\<close>

definition demo_toml :: toml where
  "demo_toml = \<lparr>tm_from_str = (\<lambda>_. Inr \<lparr>cf_llm = Some Llm_none, cf_lifecycle = None\<rparr>),
     tm_to_string = (\<lambda>cfg. if cfg = \<lparr>cf_llm = Some Llm_none, cf_lifecycle = None\<rparr> then Inr '''' else Inl ''unsupported'')\<rparr>"

definition demo_set_llm :: set_llm_cmd where
  "demo_set_llm = \<lparr>xc_provider = ''none'', xc_model_path = None, xc_api_key_env = None, xc_model = None\<rparr>"

definition demo_config_fs :: fs where
  "demo_config_fs = \<lparr>fs_dirs = [''/c'' \<mapsto> 448], fs_files = Map.empty, fs_umask = 63, fs_fault = Map.empty\<rparr>"

theorem set_llm_keeps_the_rest_witness:
  "\<exists>s'. run_config_set_llm demo_toml ''/c/config.toml'' ''/m'' demo_set_llm demo_config_fs = (Inr (), s')
     \<and> load_from demo_toml ''/c/config.toml'' s' = (Inr \<lparr>cf_llm = Some Llm_none, cf_lifecycle = None\<rparr>, s')"
proof -
  have "path_parent ''/c/config.toml'' = Some ''/c''"
    by (simp add: path_parent_def dir_part_def rstrip_slash_def Let_def)
  then obtain s' where run: "run_config_set_llm demo_toml ''/c/config.toml'' ''/m'' demo_set_llm demo_config_fs = (Inr (), s')"
    by (simp add: run_config_set_llm_def chosen_llm_def demo_set_llm_def load_from_def save_to_def demo_toml_def
        demo_config_fs_def default_daemon_config_def read_to_string_def ensure_private_dir_def create_dir_all_def
        repair_mode_def mode_of_def set_mode_def write_file_def secure_private_file_if_exists_def path_exists_def
        guarded_def map_err_def bind_sm_def lift_sm_def ret_sm_def gets_sm_def Let_def)
  moreover have "tm_to_string demo_toml cfg = Inr content \<Longrightarrow> tm_from_str demo_toml content = Inr cfg" for cfg content
    by (simp add: demo_toml_def split: if_splits)
  ultimately show ?thesis
    using set_llm_keeps_the_rest [OF run]
    by (auto simp: load_from_def read_to_string_def demo_config_fs_def default_daemon_config_def chosen_llm_def demo_set_llm_def)
qed

section \<open>Uptime\<close>

text \<open>Reading an uptime back: digits build a number, a unit adds it to the seconds.\<close>

fun uptime_step :: "char \<Rightarrow> nat \<times> nat \<Rightarrow> nat \<times> nat" where
  "uptime_step c (acc, t) =
     (if is_digit c then (10 * acc + (of_char c - 48), t)
      else if c = CHR ''d'' then (0, t + acc * 86400)
      else if c = CHR ''h'' then (0, t + acc * 3600)
      else if c = CHR ''m'' then (0, t + acc * 60)
      else if c = CHR ''s'' then (0, t + acc)
      else (acc, t))"

definition read_uptime :: "string \<Rightarrow> nat" where
  "read_uptime s = snd (fold uptime_step s (0, 0))"

lemma digit_char_10:
  "n < 10 \<Longrightarrow> is_digit (digit_char n) \<and> (of_char (digit_char n) :: nat) = 48 + n"
proof -
  assume "n < 10"
  moreover have "list_all (\<lambda>n. is_digit (digit_char n) \<and> (of_char (digit_char n) :: nat) = 48 + n) [0..<10]" by code_simp
  ultimately show ?thesis by (simp add: list_all_iff)
qed

lemma fold_uptime_radix: "fold uptime_step (radix_str 10 n) (0, t) = (n, t)"
proof (induction n rule: less_induct)
  case (less n)
  show ?case
  proof (cases "n < 10")
    case True
    then show ?thesis using digit_char_10 [OF True] by (simp add: radix_str.simps [of 10 n])
  next
    case False
    then have "n div 10 < n" by simp
    then show ?thesis
      using False less.IH [of "n div 10"] digit_char_10 [of "n mod 10"] by (simp add: radix_str.simps [of 10 n])
  qed
qed

lemma uptime_units:
  "\<not> is_digit (CHR ''d'')" "\<not> is_digit (CHR ''h'')" "\<not> is_digit (CHR ''m'')" "\<not> is_digit (CHR ''s'')" "\<not> is_digit (CHR '' '')"
  by (simp_all add: is_digit_def of_char_def)

text \<open>An uptime is printed without loss: reading the units back gives the number of seconds, for every
  number, so two different uptimes never look alike.\<close>

theorem format_uptime_reads_back: "read_uptime (format_uptime secs) = secs"
proof -
  define d h m x where "d = secs div 86400" and "h = secs mod 86400 div 3600" and "m = secs mod 3600 div 60" and "x = secs mod 60"
  have secs: "secs = d * 86400 + h * 3600 + m * 60 + x" 
  proof -
    have "secs mod 86400 mod 3600 = secs mod 3600" "secs mod 3600 mod 60 = secs mod 60" by (simp_all add: mod_mod_cancel)
    then show ?thesis
      using div_mult_mod_eq [of secs 86400] div_mult_mod_eq [of "secs mod 86400" 3600] div_mult_mod_eq [of "secs mod 3600" 60]
      unfolding d_def h_def m_def x_def by linarith
  qed
  have "read_uptime (format_uptime secs) = d * 86400 + h * 3600 + m * 60 + x"
    unfolding format_uptime_def Let_def d_def [symmetric] h_def [symmetric] m_def [symmetric] x_def [symmetric]
    by (cases "0 < d"; cases "0 < h"; cases "0 < m") (simp_all add: read_uptime_def fold_uptime_radix uptime_units)
  then show ?thesis using secs by simp
qed

end
