(* ===== verification/Cli_Process.thy ===== *)
theory Cli_Process
  imports Cli_Commands Rust_Text
begin

text \<open>
  The processes of the command line client (\<open>crates/cli/src/main.rs\<close>): finding out whether a daemon
  runs, clearing away a broken one, starting one and waiting for it, and the \<open>daemon\<close> subcommands.

  The world holds the files, the clock in milliseconds, the signals that were sent and the processes
  that were started. What the rest of the machine does is the parameter \<open>machine\<close>: whether a process
  is alive, whether somebody listens on a socket, whether a signal is refused, what the files are and
  how late a sleep ends, what a connection to the daemon yields. Its answers may depend on the whole
  world, the signals and the time included.
\<close>

section \<open>World\<close>

datatype signal = SIGTERM | SIGKILL

type_synonym environment_vars = "(string \<times> string) list"

record world =
  wd_fs :: fs
  wd_clock :: nat
  wd_signals :: "(int \<times> signal) list"
  wd_spawned :: "(path \<times> environment_vars) list"

record machine =
  mc_alive :: "world \<Rightarrow> int \<Rightarrow> bool"
  mc_refuses :: "world \<Rightarrow> int \<Rightarrow> signal \<Rightarrow> string option"
  mc_listening :: "world \<Rightarrow> path \<Rightarrow> bool"
  mc_files :: "nat \<Rightarrow> world \<Rightarrow> fs"
  mc_late :: "world \<Rightarrow> nat"
  mc_connect :: "world \<Rightarrow> path \<Rightarrow> string \<Rightarrow> client_error + unit"
  mc_request :: "world \<Rightarrow> path \<Rightarrow> request \<Rightarrow> (client_error + response) \<times> nat"
  mc_spawn :: "world \<Rightarrow> path \<Rightarrow> string + nat"
  mc_run :: "world \<Rightarrow> path \<Rightarrow> string + bool"

type_synonym 'a proc = "(world, string, 'a) sm"

definition sleep :: "machine \<Rightarrow> nat \<Rightarrow> world \<Rightarrow> world" where
  "sleep M ms w = w\<lparr>wd_fs := mc_files M ms w, wd_clock := wd_clock w + ms + mc_late M w\<rparr>"

definition on_fs :: "'a io \<Rightarrow> 'a proc" where
  "on_fs m = zoom wd_fs (\<lambda>f w. w\<lparr>wd_fs := f\<rparr>) m"

text \<open>\<open>let _ = std::fs::remove_file(..)\<close>.\<close>

definition try_remove :: "path \<Rightarrow> unit proc" where
  "try_remove p w = (Inr (), w\<lparr>wd_fs := snd (remove_file p (wd_fs w))\<rparr>)"

section \<open>Process ids\<close>

text \<open>\<open>str::parse::<u32>\<close>: an optional plus sign, digits, at most 32 bits. Then the cast \<open>pid as i32\<close>,
  which wraps.\<close>

definition parse_u32 :: "string \<Rightarrow> nat option" where
  "parse_u32 s =
     (let ds = (case s of c # r \<Rightarrow> if c = CHR ''+'' then r else s | [] \<Rightarrow> s) in
      if ds = [] \<or> \<not> list_all is_digit ds \<or> 2 ^ 32 \<le> digits_val ds then None else Some (digits_val ds))"

definition read_pid_file :: "path \<Rightarrow> fs \<Rightarrow> string + nat option" where
  "read_pid_file p s = (case read_to_string p s of
      Inr content \<Rightarrow> (case parse_u32 (trim_str content) of
          Some pid \<Rightarrow> Inr (Some pid) | None \<Rightarrow> Inl (''parse pid file '' @ p))
    | Inl Not_found \<Rightarrow> Inr None
    | Inl (Other_io e) \<Rightarrow> Inl (''read pid file '' @ p))"

definition process_is_alive :: "machine \<Rightarrow> nat \<Rightarrow> world \<Rightarrow> bool" where
  "process_is_alive M pid w = mc_alive M w (as_i32 pid)"

definition send_signal :: "machine \<Rightarrow> nat \<Rightarrow> signal \<Rightarrow> unit proc" where
  "send_signal M pid sig w = (case mc_refuses M w (as_i32 pid) sig of
      Some e \<Rightarrow> (Inl e, w)
    | None \<Rightarrow> (Inr (), w\<lparr>wd_signals := wd_signals w @ [(as_i32 pid, sig)]\<rparr>))"

definition terminate_process :: "machine \<Rightarrow> nat \<Rightarrow> unit proc" where
  "terminate_process M pid = send_signal M pid SIGTERM"

definition kill_process :: "machine \<Rightarrow> nat \<Rightarrow> unit proc" where
  "kill_process M pid = send_signal M pid SIGKILL"

section \<open>Clearing away a broken daemon\<close>

definition clear_files :: "runtime_paths \<Rightarrow> unit proc" where
  "clear_files P = bind_sm (try_remove (rp_pid_path P)) (\<lambda>_. try_remove (rp_socket_path P))"

text \<open>The loop of two seconds: whether the process is gone, at the latest after the deadline.\<close>

function await_death :: "machine \<Rightarrow> nat \<Rightarrow> nat \<Rightarrow> world \<Rightarrow> bool \<times> world" where
  "await_death M pid start w =
     (if wd_clock w - start < 2000
      then if \<not> process_is_alive M pid w then (True, w) else await_death M pid start (sleep M 50 w)
      else (False, w))"
  by pat_completeness auto
termination
  by (relation "measure (\<lambda>(M, pid, start, w). start + 2000 - wd_clock w)") (auto simp: sleep_def)

declare await_death.simps [simp del]

text \<open>The end of a process that is alive: \<open>SIGTERM\<close>, two seconds of grace, \<open>SIGKILL\<close>.\<close>

definition put_down :: "machine \<Rightarrow> runtime_paths \<Rightarrow> nat \<Rightarrow> unit proc" where
  "put_down M P pid =
     bind_sm (terminate_process M pid) (\<lambda>_ w.
       case await_death M pid (wd_clock w) w of
         (True, w') \<Rightarrow> clear_files P w'
       | (False, w') \<Rightarrow> bind_sm (kill_process M pid) (\<lambda>_. clear_files P) w')"

definition recover_broken_daemon :: "machine \<Rightarrow> runtime_paths \<Rightarrow> unit proc" where
  "recover_broken_daemon M P w =
     (if mc_listening M w (rp_socket_path P) then (Inr (), w)
      else (case read_pid_file (rp_pid_path P) (wd_fs w) of
          Inl e \<Rightarrow> (Inl e, w)
        | Inr None \<Rightarrow> try_remove (rp_socket_path P) w
        | Inr (Some pid) \<Rightarrow>
            if \<not> process_is_alive M pid w then clear_files P w else put_down M P pid w))"

section \<open>Starting and waiting\<close>

definition daemon_bin_path :: "os_env \<Rightarrow> string + path \<Rightarrow> path" where
  "daemon_bin_path V current_exe = (case ev_vars V ''COGNITIVE_MEMORY_DAEMON_BIN'' of
      Some p \<Rightarrow> p
    | None \<Rightarrow> (case current_exe of
        Inr exe \<Rightarrow> (case path_parent exe of Some d \<Rightarrow> path_join d ''cm-daemon'' | None \<Rightarrow> ''cm-daemon'')
      | Inl _ \<Rightarrow> ''cm-daemon''))"

definition child_env :: "runtime_paths \<Rightarrow> environment_vars" where
  "child_env P = [(''COGNITIVE_MEMORY_INSTANCE'', rp_instance P), (''COGNITIVE_MEMORY_SOCKET_PATH'', rp_socket_path P),
     (''COGNITIVE_MEMORY_DB_PATH'', rp_db_path P), (''COGNITIVE_MEMORY_PID_PATH'', rp_pid_path P),
     (''COGNITIVE_MEMORY_LOG_PATH'', rp_daemon_log_path P)]"

definition spawn_child :: "machine \<Rightarrow> path \<Rightarrow> runtime_paths \<Rightarrow> nat proc" where
  "spawn_child M bin P w = (case mc_spawn M w bin of
      Inl e \<Rightarrow> (Inl (''failed to spawn '' @ bin), w)
    | Inr pid \<Rightarrow> (Inr pid, w\<lparr>wd_spawned := wd_spawned w @ [(bin, child_env P)]\<rparr>))"

definition spawn_daemon :: "machine \<Rightarrow> path \<Rightarrow> runtime_paths \<Rightarrow> nat proc" where
  "spawn_daemon M bin P =
     bind_sm (on_fs (ensure_private_dirs P)) (\<lambda>_.
     bind_sm (on_fs (case path_parent (rp_socket_path P) of
         Some d \<Rightarrow> ensure_private_dir d | None \<Rightarrow> ret_sm ())) (\<lambda>_.
       spawn_child M bin P))"

text \<open>The answer to \<open>Status\<close> on a fresh connection, and the time it took, at most two seconds.\<close>

definition probe_status :: "machine \<Rightarrow> path \<Rightarrow> world \<Rightarrow> status_data option \<times> world" where
  "probe_status M p w = (case mc_connect M w p ''default'' of
      Inl _ \<Rightarrow> (None, w)
    | Inr _ \<Rightarrow> (case mc_request M w p (Diagnostics Status) of (res, took) \<Rightarrow>
        (case res of
           Inr resp \<Rightarrow> (case rp_data resp of Some (StatusR st) \<Rightarrow> Some st | _ \<Rightarrow> None)
         | Inl _ \<Rightarrow> None,
         w\<lparr>wd_clock := wd_clock w + min took 2000\<rparr>)))"

definition expected :: "nat option \<Rightarrow> status_data \<Rightarrow> bool" where
  "expected pid st = (case pid of None \<Rightarrow> True | Some p \<Rightarrow> sd_daemon_pid st = p)"

lemma probe_clock: "wd_clock w \<le> wd_clock (snd (probe_status M p w))"
  "wd_clock (snd (probe_status M p w)) \<le> wd_clock w + 2000"
  by (auto simp: probe_status_def split: sum.split prod.split)

function ready_loop :: "machine \<Rightarrow> runtime_paths \<Rightarrow> nat option \<Rightarrow> nat \<Rightarrow> nat \<Rightarrow> world \<Rightarrow> (string + unit) \<times> world" where
  "ready_loop M P pid timeout start w =
     (let (st, w1) = probe_status M (rp_socket_path P) w in
      if (case st of Some s \<Rightarrow> expected pid s | None \<Rightarrow> False) then (Inr (), sleep M 150 w1)
      else if timeout \<le> wd_clock w1 - start
      then (Inl (''daemon did not become ready at '' @ rp_socket_path P @ '' within '' @ radix_str 10 (timeout div 1000)
              @ ''s; log: '' @ rp_daemon_log_path P), w1)
      else ready_loop M P pid timeout start (sleep M 50 w1))"
  by pat_completeness auto
termination
proof (relation "measure (\<lambda>(M, P, pid, timeout, start, w). start + timeout - wd_clock w)")
  fix M P pid timeout start w x st w1
  assume x: "x = probe_status M (rp_socket_path P) w" "(st, w1) = x"
    and "\<not> timeout \<le> wd_clock w1 - start"
  moreover have "wd_clock w \<le> wd_clock w1" using x probe_clock(1) [of w M "rp_socket_path P"] by (metis snd_conv)
  ultimately show "((M, P, pid, timeout, start, sleep M 50 w1), M, P, pid, timeout, start, w)
      \<in> measure (\<lambda>(M, P, pid, timeout, start, w). start + timeout - wd_clock w)"
    by (simp add: sleep_def)
qed simp

declare ready_loop.simps [simp del]

definition wait_for_daemon_ready :: "machine \<Rightarrow> runtime_paths \<Rightarrow> nat option \<Rightarrow> nat \<Rightarrow> unit proc" where
  "wait_for_daemon_ready M P pid timeout w = ready_loop M P pid timeout (wd_clock w) w"

definition socket_gone :: "machine \<Rightarrow> path \<Rightarrow> world \<Rightarrow> bool" where
  "socket_gone M p w \<longleftrightarrow> \<not> path_exists (wd_fs w) p \<or> \<not> mc_listening M w p"

function exit_loop :: "machine \<Rightarrow> runtime_paths \<Rightarrow> nat \<Rightarrow> nat \<Rightarrow> world \<Rightarrow> (string + unit) \<times> world" where
  "exit_loop M P timeout start w = (case read_pid_file (rp_pid_path P) (wd_fs w) of
      Inl e \<Rightarrow> (Inl e, w)
    | Inr found \<Rightarrow>
        if socket_gone M (rp_socket_path P) w
           \<and> (case found of Some pid \<Rightarrow> \<not> process_is_alive M pid w | None \<Rightarrow> True) then (Inr (), w)
        else if timeout \<le> wd_clock w - start
        then (Inl (''daemon did not exit within '' @ radix_str 10 (timeout div 1000) @ ''s; pid: '' @ rp_pid_path P
                @ '', socket: '' @ rp_socket_path P), w)
        else exit_loop M P timeout start (sleep M 50 w))"
  by pat_completeness auto
termination
  by (relation "measure (\<lambda>(M, P, timeout, start, w). start + timeout - wd_clock w)") (auto simp: sleep_def)

declare exit_loop.simps [simp del]

definition wait_for_daemon_exit :: "machine \<Rightarrow> runtime_paths \<Rightarrow> nat \<Rightarrow> unit proc" where
  "wait_for_daemon_exit M P timeout w = exit_loop M P timeout (wd_clock w) w"

definition connect_client :: "machine \<Rightarrow> path \<Rightarrow> string \<Rightarrow> (world, client_error, unit) sm" where
  "connect_client M p user w = (mc_connect M w p user, w)"

datatype cli_failure = Failed string | Client_failed client_error

definition connect_or_spawn ::
  "machine \<Rightarrow> path \<Rightarrow> runtime_paths \<Rightarrow> string \<Rightarrow> bool \<Rightarrow> (world, cli_failure, unit) sm" where
  "connect_or_spawn M bin P user auto_spawn w = (case mc_connect M w (rp_socket_path P) user of
      Inr _ \<Rightarrow> (Inr (), w)
    | Inl e \<Rightarrow>
        if \<not> auto_spawn then (Inl (Client_failed e), w)
        else bind_sm (map_err Failed (recover_broken_daemon M P)) (\<lambda>_.
             bind_sm (map_err Failed (spawn_daemon M bin P)) (\<lambda>child_pid.
             bind_sm (map_err Failed (wait_for_daemon_ready M P (Some child_pid) 5000)) (\<lambda>_.
               map_err Client_failed (connect_client M (rp_socket_path P) user)))) w)"

definition request_on :: "machine \<Rightarrow> path \<Rightarrow> request \<Rightarrow> (world, cli_failure, response) sm" where
  "request_on M p req w = (case mc_request M w p req of
      (res, took) \<Rightarrow> (map_sum Client_failed id res, w\<lparr>wd_clock := wd_clock w + took\<rparr>))"

definition lift_print :: "string + printed \<Rightarrow> (world, cli_failure, printed) sm" where
  "lift_print r = lift_sm (map_sum Failed id r)"

definition say :: "string list \<Rightarrow> printed" where
  "say ls = \<lparr>pn_stdout = concat (map (\<lambda>l. l @ NL) ls), pn_stderr = [], pn_exit = None\<rparr>"

definition announce :: "string \<Rightarrow> nat \<Rightarrow> runtime_paths \<Rightarrow> printed" where
  "announce what pid P = say [''daemon '' @ what @ '': pid='' @ radix_str 10 pid, ''socket: '' @ rp_socket_path P,
     ''log:    '' @ rp_daemon_log_path P]"

text \<open>\<open>Client::connect(..).with_context(|| ..)?\<close> and \<open>let _ = ..\<close>.\<close>

definition must_connect :: "machine \<Rightarrow> path \<Rightarrow> string \<Rightarrow> (world, cli_failure, unit) sm" where
  "must_connect M p user = map_err (\<lambda>_. Failed ''daemon is not running'') (connect_client M p user)"

definition attempt :: "('s, 'e, 'a) sm \<Rightarrow> ('s, 'f, unit) sm" where
  "attempt m s = (Inr (), snd (m s))"

fun run_daemon_command ::
  "machine \<Rightarrow> path \<Rightarrow> json_text \<Rightarrow> runtime_paths \<Rightarrow> string \<Rightarrow> bool \<Rightarrow> daemon_command \<Rightarrow> (world, cli_failure, printed) sm" where
  "run_daemon_command M bin J P user as_json (Start True) =
     (\<lambda>w. (case mc_run M w bin of
         Inl e \<Rightarrow> Inl (Failed (''run '' @ bin))
       | Inr True \<Rightarrow> Inr (say []) | Inr False \<Rightarrow> Inl (Failed ''daemon exited''), w))"
| "run_daemon_command M bin J P user as_json (Start False) =
     (\<lambda>w. case mc_connect M w (rp_socket_path P) user of
         Inr _ \<Rightarrow> bind_sm (request_on M (rp_socket_path P) (Diagnostics Status)) (\<lambda>resp.
                   lift_print (print_response J as_json resp)) w
       | Inl _ \<Rightarrow> bind_sm (map_err Failed (recover_broken_daemon M P)) (\<lambda>_.
                   bind_sm (map_err Failed (spawn_daemon M bin P)) (\<lambda>pid.
                   bind_sm (map_err Failed (wait_for_daemon_ready M P (Some pid) 5000)) (\<lambda>_.
                     ret_sm (announce ''started'' pid P)))) w)"
| "run_daemon_command M bin J P user as_json Stop =
     bind_sm (must_connect M (rp_socket_path P) user) (\<lambda>_.
     bind_sm (request_on M (rp_socket_path P) (Diagnostics Shutdown)) (\<lambda>resp.
     bind_sm (lift_print (print_response J as_json resp)) (\<lambda>out.
       if pn_exit out \<noteq> None then ret_sm out
       else bind_sm (map_err Failed (wait_for_daemon_exit M P 5000)) (\<lambda>_. ret_sm out))))"
| "run_daemon_command M bin J P user as_json Restart =
     bind_sm (\<lambda>w. case mc_connect M w (rp_socket_path P) user of
         Inr _ \<Rightarrow> bind_sm (attempt (request_on M (rp_socket_path P) (Diagnostics Shutdown))) (\<lambda>_.
                   attempt (wait_for_daemon_exit M P 5000)) w
       | Inl _ \<Rightarrow> map_err Failed (recover_broken_daemon M P) w) (\<lambda>_.
     bind_sm (map_err Failed (spawn_daemon M bin P)) (\<lambda>pid.
     bind_sm (map_err Failed (wait_for_daemon_ready M P (Some pid) 5000)) (\<lambda>_.
       ret_sm (announce ''restarted'' pid P))))"
| "run_daemon_command M bin J P user as_json Daemon_status =
     bind_sm (must_connect M (rp_socket_path P) user) (\<lambda>_.
     bind_sm (request_on M (rp_socket_path P) (Diagnostics Status)) (\<lambda>resp.
       lift_print (print_response J as_json resp)))"

definition cli_runtime_paths :: "os_env \<Rightarrow> path option \<Rightarrow> runtime_paths option" where
  "cli_runtime_paths V socket_override = map_option (\<lambda>P. case socket_override of
      Some p \<Rightarrow> P\<lparr>rp_socket_path := p\<rparr> | None \<Rightarrow> P) (resolve_paths V)"

text \<open>The commands for the daemon: connect, send the one request, print the answer.\<close>

definition run_command ::
  "machine \<Rightarrow> path \<Rightarrow> json_text \<Rightarrow> runtime_paths \<Rightarrow> int \<Rightarrow> cli \<Rightarrow> cli_error + request \<Rightarrow> (world, cli_failure, printed) sm" where
  "run_command M bin J P now c req =
     bind_sm (connect_or_spawn M bin P (cli_user_id c) (\<not> cli_no_spawn c)) (\<lambda>_.
     bind_sm (lift_sm (map_sum (\<lambda>_. Failed ''bad argument'') id req)) (\<lambda>r.
     bind_sm (request_on M (rp_socket_path P) r) (\<lambda>resp.
       lift_print (print_response J (cli_json c) resp))))"

section \<open>Process ids that fit\<close>

text \<open>Below \<open>2^31\<close> the signal goes to the process named; above, the cast wraps to a negative number, which
  \<open>kill\<close> reads as a process group, or as everybody.\<close>

lemma as_i32_everybody: "as_i32 4294967295 = - 1"
  by (simp add: as_i32_def)

section \<open>What recovering does\<close>

lemma await_death_spec:
  assumes "await_death M pid start w = (gone, w')" "start \<le> wd_clock w"
  shows "wd_signals w' = wd_signals w" "wd_spawned w' = wd_spawned w" "wd_clock w \<le> wd_clock w'"
    "gone \<Longrightarrow> \<not> process_is_alive M pid w'" "\<not> gone \<Longrightarrow> start + 2000 \<le> wd_clock w'"
proof -
  have "wd_signals w' = wd_signals w \<and> wd_spawned w' = wd_spawned w \<and> wd_clock w \<le> wd_clock w'
      \<and> (if gone then \<not> process_is_alive M pid w' else start + 2000 \<le> wd_clock w')"
    using assms
  proof (induction M pid start w rule: await_death.induct)
    case (1 M pid start w)
    show ?case
    proof (cases "wd_clock w - start < 2000 \<and> process_is_alive M pid w")
      case True
      then have "await_death M pid start (sleep M 50 w) = (gone, w')"
        using "1.prems"(1) by (simp add: await_death.simps [of M pid start w])
      moreover have "start \<le> wd_clock (sleep M 50 w)" using "1.prems"(2) by (simp add: sleep_def)
      ultimately show ?thesis using "1.IH" True by (auto simp: sleep_def)
    next
      case False
      then show ?thesis
        using "1.prems" by (auto simp: await_death.simps [of M pid start w] split: if_splits)
    qed
  qed
  then show "wd_signals w' = wd_signals w" "wd_spawned w' = wd_spawned w" "wd_clock w \<le> wd_clock w'"
    "gone \<Longrightarrow> \<not> process_is_alive M pid w'" "\<not> gone \<Longrightarrow> start + 2000 \<le> wd_clock w'" by auto
qed

text \<open>A file is gone, or the operating system does not let it go.\<close>

definition file_gone :: "path \<Rightarrow> world \<Rightarrow> bool" where
  "file_gone p w \<longleftrightarrow> fs_fault (wd_fs w) p \<noteq> None \<or> fs_files (wd_fs w) p = None"

lemma try_remove_spec:
  assumes "try_remove p w = (res, w')"
  shows "res = Inr ()" "file_gone p w'" "file_gone q w \<Longrightarrow> file_gone q w'"
    "wd_signals w' = wd_signals w" "wd_spawned w' = wd_spawned w" "wd_clock w' = wd_clock w"
  using assms by (auto simp: try_remove_def file_gone_def remove_file_def guarded_def split: option.splits if_splits)

lemma clear_files_spec:
  assumes "clear_files P w = (res, w')"
  shows "res = Inr ()" "file_gone (rp_pid_path P) w'" "file_gone (rp_socket_path P) w'"
    "wd_signals w' = wd_signals w" "wd_spawned w' = wd_spawned w" "wd_clock w' = wd_clock w"
proof -
  obtain w1 where w1: "try_remove (rp_pid_path P) w = (Inr (), w1)" by (simp add: try_remove_def)
  then have w2: "try_remove (rp_socket_path P) w1 = (res, w')" using assms by (simp add: clear_files_def bind_sm_def)
  show "res = Inr ()" "file_gone (rp_pid_path P) w'" "file_gone (rp_socket_path P) w'"
    "wd_signals w' = wd_signals w" "wd_spawned w' = wd_spawned w" "wd_clock w' = wd_clock w"
    using try_remove_spec [OF w1] try_remove_spec [OF w2] by auto
qed

lemma read_pid_none: "read_pid_file p s = Inr None \<Longrightarrow> fs_files s p = None"
  by (auto simp: read_pid_file_def read_to_string_def split: option.splits if_splits sum.splits io_error.splits)

lemma put_down_spec:
  assumes "put_down M P pid w = (res, w')"
  shows "wd_spawned w' = wd_spawned w
    \<and> (\<exists>sent. wd_signals w' = wd_signals w @ sent \<and> (sent = [] \<or> sent = [(as_i32 pid, SIGTERM)]
        \<or> sent = [(as_i32 pid, SIGTERM), (as_i32 pid, SIGKILL)] \<and> wd_clock w + 2000 \<le> wd_clock w'))
    \<and> (res = Inr () \<longrightarrow> file_gone (rp_socket_path P) w' \<and> file_gone (rp_pid_path P) w')"
proof (cases "mc_refuses M w (as_i32 pid) SIGTERM")
  case (Some e)
  then show ?thesis
    using assms by (auto simp: put_down_def terminate_process_def send_signal_def bind_sm_def)
next
  case None
  define w1 where "w1 = w\<lparr>wd_signals := wd_signals w @ [(as_i32 pid, SIGTERM)]\<rparr>"
  obtain gone w2 where w2: "await_death M pid (wd_clock w1) w1 = (gone, w2)" by fastforce
  note D = await_death_spec [OF w2 order_refl]
  have run: "(if gone then clear_files P w2 else bind_sm (kill_process M pid) (\<lambda>_. clear_files P) w2) = (res, w')"
    using assms None w2
    by (cases gone) (simp_all add: put_down_def terminate_process_def send_signal_def bind_sm_def w1_def)
  define w3 where "w3 = w2\<lparr>wd_signals := wd_signals w2 @ [(as_i32 pid, SIGKILL)]\<rparr>"
  consider "gone" "clear_files P w2 = (res, w')"
    | e where "\<not> gone" "res = Inl e" "w' = w2" | "\<not> gone" "clear_files P w3 = (res, w')"
    using run by (cases gone; cases "mc_refuses M w2 (as_i32 pid) SIGKILL")
      (auto simp: kill_process_def send_signal_def bind_sm_def w3_def)
  then show ?thesis
    by cases (use D clear_files_spec in \<open>auto simp: w1_def w3_def\<close>)
qed

lemma recover_cases:
  assumes "recover_broken_daemon M P w = (res, w')"
  obtains (up) "mc_listening M w (rp_socket_path P)" "res = Inr ()" "w' = w"
    | (err) e where "\<not> mc_listening M w (rp_socket_path P)" "res = Inl e" "w' = w"
    | (none) "\<not> mc_listening M w (rp_socket_path P)" "read_pid_file (rp_pid_path P) (wd_fs w) = Inr None"
        "try_remove (rp_socket_path P) w = (res, w')"
    | (dead) "\<not> mc_listening M w (rp_socket_path P)" "clear_files P w = (res, w')"
    | (alive) pid where "\<not> mc_listening M w (rp_socket_path P)" "read_pid_file (rp_pid_path P) (wd_fs w) = Inr (Some pid)"
        "process_is_alive M pid w" "put_down M P pid w = (res, w')"
  using assms by (auto simp: recover_broken_daemon_def split: if_splits sum.splits option.splits)

lemma recover_spawns_nothing: "recover_broken_daemon M P w = (res, w') \<Longrightarrow> wd_spawned w' = wd_spawned w"
  by (erule recover_cases) (use try_remove_spec(5) clear_files_spec(5) put_down_spec in \<open>blast+\<close>)


text \<open>A machine on which process 7 ends at the first signal, its files, and a daemon that answers under the
  pid 8 as soon as it was started.\<close>

definition demo_status :: "nat \<Rightarrow> status_data" where
  "demo_status pid = \<lparr>sd_daemon_version = [], sd_protocol_version = 1, sd_build_id = [], sd_instance = [], sd_daemon_pid = pid,
     sd_socket_path = ''/s'', sd_pid_path = ''/p'', sd_db_path = [], sd_log_path = [], sd_uptime_seconds = 0,
     sd_memory_count = 0\<rparr>"

definition demo_machine :: machine where
  "demo_machine = \<lparr>mc_alive = (\<lambda>w p. p = 7 \<and> wd_signals w = []), mc_refuses = (\<lambda>_ _ _. None),
     mc_listening = (\<lambda>w _. wd_spawned w \<noteq> []), mc_files = (\<lambda>_ w. wd_fs w), mc_late = (\<lambda>_. 0),
     mc_connect = (\<lambda>w _ _. if wd_spawned w = [] then Inl UnexpectedClose else Inr ()),
     mc_request = (\<lambda>_ _ _. (Inr (response_ok (StatusR (demo_status 8))), 5)),
     mc_spawn = (\<lambda>_ _. Inr 8), mc_run = (\<lambda>_ _. Inr True)\<rparr>"

definition demo_cli_paths :: runtime_paths where
  "demo_cli_paths = \<lparr>rp_instance = ''i'', rp_config_dir = ''/d'', rp_data_dir = ''/d'', rp_runtime_dir = ''/d'', rp_cache_dir = ''/d'',
     rp_log_dir = ''/d'', rp_config_path = ''/c'', rp_socket_path = ''/s'', rp_pid_path = ''/p'', rp_db_path = ''/b'',
     rp_bridge_token_path = ''/t'', rp_bridge_port_path = ''/o'', rp_model_cache_dir = ''/d'', rp_daemon_log_path = ''/l''\<rparr>"

definition demo_world :: world where
  "demo_world = \<lparr>wd_fs = \<lparr>fs_dirs = [''/'' \<mapsto> 448, ''/d'' \<mapsto> 448], fs_files = [''/p'' \<mapsto> (384, ''7''), ''/s'' \<mapsto> (448, [])],
       fs_umask = 63, fs_fault = Map.empty\<rparr>, wd_clock = 0, wd_signals = [], wd_spawned = []\<rparr>"

lemma demo_pid: "read_pid_file ''/p'' (wd_fs demo_world) = Inr (Some 7)"
proof -
  have "trim_str ''7'' = ''7''" by code_simp
  then have "parse_u32 (trim_str ''7'') = Some 7"
    by (simp add: parse_u32_def digits_val_def is_digit_def of_char_def)
  then show ?thesis by (simp add: read_pid_file_def read_to_string_def demo_world_def)
qed

lemma demo_recovers:
  "\<exists>w'. recover_broken_daemon demo_machine demo_cli_paths demo_world = (Inr (), w') \<and> wd_signals w' = [(7, SIGTERM)]"
proof -
  let ?w = "demo_world\<lparr>wd_signals := [(7, SIGTERM)]\<rparr>"
  have seven: "as_i32 7 = 7" by (simp add: as_i32_small)
  have "\<not> process_is_alive demo_machine 7 ?w" by (simp add: process_is_alive_def demo_machine_def)
  then have death: "await_death demo_machine 7 (wd_clock ?w) ?w = (True, ?w)" by (subst await_death.simps) simp
  have sent: "terminate_process demo_machine 7 demo_world = (Inr (), ?w)"
    by (simp add: terminate_process_def send_signal_def seven demo_machine_def) (simp add: demo_world_def)
  have down: "put_down demo_machine demo_cli_paths 7 demo_world = clear_files demo_cli_paths ?w"
    using sent death by (simp add: put_down_def bind_sm_def)
  have alive: "process_is_alive demo_machine 7 demo_world"
    by (simp add: process_is_alive_def seven demo_machine_def demo_world_def)
  have quiet: "\<not> mc_listening demo_machine demo_world p" for p by (simp add: demo_machine_def demo_world_def)
  have "read_pid_file (rp_pid_path demo_cli_paths) (wd_fs demo_world) = Inr (Some 7)"
    using demo_pid by (simp add: demo_cli_paths_def)
  then have "recover_broken_daemon demo_machine demo_cli_paths demo_world = clear_files demo_cli_paths ?w"
    using quiet alive down by (simp add: recover_broken_daemon_def)
  moreover obtain res w' where "clear_files demo_cli_paths ?w = (res, w')" by fastforce
  ultimately show ?thesis using clear_files_spec by fastforce
qed


section \<open>Waiting ends\<close>

text \<open>The three ways a round of the loop goes on.\<close>

lemma ready_loop_round:
  assumes "ready_loop M P pid timeout start w = (res, w')" "probe_status M (rp_socket_path P) w = (st, w1)"
  obtains (ready) x where "st = Some x" "expected pid x" "res = Inr ()" "w' = sleep M 150 w1"
    | (late) "res \<noteq> Inr ()" "w' = w1"
    | (again) "\<not> (case st of Some s \<Rightarrow> expected pid s | None \<Rightarrow> False)" "\<not> timeout \<le> wd_clock w1 - start"
        "ready_loop M P pid timeout start (sleep M 50 w1) = (res, w')"
  using assms by (auto simp: ready_loop.simps [of M P pid timeout start w] split: option.splits if_splits)

lemma probe_world:
  "probe_status M p w = (st, w1) \<Longrightarrow> wd_clock w1 \<le> wd_clock w + 2000 \<and> wd_spawned w1 = wd_spawned w \<and> wd_signals w1 = wd_signals w"
  using probe_clock(2) [of M p w] by (auto simp: probe_status_def split: sum.splits prod.splits)

lemma ready_loop_answered:
  assumes "ready_loop M P pid timeout start w = (res, w')"
  shows "wd_spawned w' = wd_spawned w \<and> wd_signals w' = wd_signals w
    \<and> (res = Inr () \<longrightarrow> (\<exists>v st. fst (probe_status M (rp_socket_path P) v) = Some st \<and> expected pid st))"
  using assms
proof (induction M P pid timeout start w rule: ready_loop.induct)
  case (1 M P pid timeout start w)
  obtain st w1 where probe: "probe_status M (rp_socket_path P) w = (st, w1)" by fastforce
  from "1.prems" probe show ?case
  proof (cases rule: ready_loop_round)
    case (ready x)
    then show ?thesis using probe_world [OF probe] probe by (auto simp: sleep_def intro!: exI [of _ w])
  next
    case late
    then show ?thesis using probe_world [OF probe] by simp
  next
    case again
    then show ?thesis using "1.IH" [OF probe [symmetric] refl again] probe_world [OF probe] by (simp add: sleep_def)
  qed
qed

lemma ready_loop_clock:
  assumes "ready_loop M P pid timeout start w = (res, w')"
    and "wd_clock w \<le> start + timeout + 50 + L" and "\<forall>v. mc_late M v \<le> L"
  shows "wd_clock w' \<le> start + timeout + 2200 + 2 * L"
  using assms
proof (induction M P pid timeout start w rule: ready_loop.induct)
  case (1 M P pid timeout start w)
  have slack: "mc_late M v \<le> L" for v using "1.prems"(3) by blast
  obtain st w1 where probe: "probe_status M (rp_socket_path P) w = (st, w1)" by fastforce
  have w1: "wd_clock w1 \<le> wd_clock w + 2000" using probe_world [OF probe] by blast
  from "1.prems"(1) probe show ?case
  proof (cases rule: ready_loop_round)
    case (ready x)
    have "wd_clock w' = wd_clock w1 + 150 + mc_late M w1" using ready(4) by (simp add: sleep_def)
    then show ?thesis using w1 slack [of w1] "1.prems"(2) by linarith
  next
    case late
    then show ?thesis using "1.prems"(2) w1 by simp
  next
    case again
    have "wd_clock (sleep M 50 w1) \<le> start + timeout + 50 + L" using again(2) slack [of w1] by (simp add: sleep_def)
    then show ?thesis using "1.IH" [OF probe [symmetric] refl again] "1.prems"(3) by simp
  qed
qed



section \<open>Connecting\<close>

lemma on_fs_world: "on_fs m w = (res, w') \<Longrightarrow> wd_signals w' = wd_signals w \<and> wd_spawned w' = wd_spawned w"
  by (auto simp: on_fs_def zoom_def split: prod.splits)

lemma spawn_daemon_spec:
  assumes "spawn_daemon M bin P w = (Inr pid, w')"
  shows "wd_spawned w' = wd_spawned w @ [(bin, child_env P)]" "\<exists>v. mc_spawn M v bin = Inr pid"
proof -
  obtain u1 w1 u2 w2 where "on_fs (ensure_private_dirs P) w = (Inr u1, w1)"
    "on_fs (case path_parent (rp_socket_path P) of Some d \<Rightarrow> ensure_private_dir d | None \<Rightarrow> ret_sm ()) w1 = (Inr u2, w2)"
    "spawn_child M bin P w2 = (Inr pid, w')"
    using assms unfolding spawn_daemon_def bind_sm_Inr_iff by blast
  then show "wd_spawned w' = wd_spawned w @ [(bin, child_env P)]" "\<exists>v. mc_spawn M v bin = Inr pid"
    by (auto simp: spawn_child_def dest!: on_fs_world split: sum.splits)
qed



end
