(* ===== verification/Cli_Main.thy ===== *)
theory Cli_Main
  imports Cli_Process
begin

text \<open>
  The program \<open>cm\<close> (\<open>main\<close> of \<open>crates/cli/src/main.rs\<close>): which commands are carried out without the daemon,
  and the connection, the request and the answer of the others. What the local commands print about
  their progress is not kept.
\<close>

record cli_ctx =
  cx_env :: os_env
  cx_machine :: machine
  cx_bin :: path
  cx_json :: json_text
  cx_toml :: toml
  cx_pretty :: "llm_config \<Rightarrow> string"
  cx_fetch :: "string \<Rightarrow> string + string"
  cx_now :: int

fun config_error_message :: "config_error \<Rightarrow> string" where
  "config_error_message (Config_io e) = e"
| "config_error_message (Config_parse e) = e"
| "config_error_message (Config_serialize e) = e"

definition local_files :: "('e \<Rightarrow> string) \<Rightarrow> ('a \<Rightarrow> printed) \<Rightarrow> (fs, 'e, 'a) sm \<Rightarrow> (world, cli_failure, printed) sm" where
  "local_files msg out m = bind_sm (zoom wd_fs (\<lambda>f w. w\<lparr>wd_fs := f\<rparr>) (map_err (\<lambda>e. Failed (msg e)) m)) (\<lambda>x. ret_sm (out x))"

text \<open>\<open>None\<close> is a panic: directories that cannot be resolved, or the arm of \<open>run_command\<close> that is marked
  unreachable.\<close>

definition cli_main :: "cli_ctx \<Rightarrow> cli \<Rightarrow> (world, cli_failure, printed) sm option" where
  "cli_main C c = (case cli_command c of
      Daemon_cmd d \<Rightarrow> map_option (\<lambda>P.
        run_daemon_command (cx_machine C) (cx_bin C) (cx_json C) P (cli_user_id c) (cli_json c) d)
        (cli_runtime_paths (cx_env C) (cli_socket c))
    | DownloadModel_cmd name \<Rightarrow> map_option (\<lambda>P.
        local_files id (\<lambda>_. say []) (run_download_model (cx_fetch C) (rp_model_cache_dir P) name)) (resolve_paths (cx_env C))
    | ConfigGetLlm_cmd \<Rightarrow> map_option (\<lambda>P.
        local_files config_error_message (\<lambda>s. say [s]) (run_config_get_llm (cx_toml C) (cx_pretty C) (rp_config_path P)))
        (resolve_paths (cx_env C))
    | ConfigSetLlm_cmd s \<Rightarrow> map_option (\<lambda>P.
        local_files (\<lambda>e. case e of Inl m \<Rightarrow> m | Inr e \<Rightarrow> config_error_message e) (\<lambda>_. say [])
          (run_config_set_llm (cx_toml C) (rp_config_path P) (rp_model_cache_dir P) s)) (resolve_paths (cx_env C))
    | cmd \<Rightarrow> Option.bind (cli_runtime_paths (cx_env C) (cli_socket c)) (\<lambda>P.
        map_option (\<lambda>req. run_command (cx_machine C) (cx_bin C) (cx_json C) P (cx_now C) c req)
          (command_request (cx_now C) (cli_user_id c) cmd)))"

section \<open>Which commands touch what\<close>

lemma command_request_remote: "\<not> is_local cmd \<Longrightarrow> \<exists>req. command_request now user cmd = Some req"
  by (cases cmd) auto

lemma local_files_world:
  "local_files msg out m w = (r, w') \<Longrightarrow> wd_clock w' = wd_clock w \<and> wd_signals w' = wd_signals w \<and> wd_spawned w' = wd_spawned w"
  by (auto simp: local_files_def bind_sm_def zoom_def map_err_def ret_sm_def split: prod.splits sum.splits)

text \<open>Every command is carried out: the arm that is marked unreachable is. The commands on the model and
  the configuration neither signal a process nor start one, and so does every other command under
  \<open>--no-spawn\<close> except the \<open>daemon\<close> ones.\<close>

theorem cli_main_spec:
  assumes "resolve_paths (cx_env C) = Some P"
  shows "\<exists>run. cli_main C c = Some run
    \<and> (\<forall>w r w'. run w = (r, w') \<and> (\<forall>d. cli_command c \<noteq> Daemon_cmd d) \<and> (is_local (cli_command c) \<or> cli_no_spawn c) \<longrightarrow>
         wd_signals w' = wd_signals w \<and> wd_spawned w' = wd_spawned w)
    \<and> (\<not> is_local (cli_command c) \<longrightarrow> (\<exists>req Q. command_request (cx_now C) (cli_user_id c) (cli_command c) = Some req
         \<and> cli_runtime_paths (cx_env C) (cli_socket c) = Some Q
         \<and> run = run_command (cx_machine C) (cx_bin C) (cx_json C) Q (cx_now C) c req))"
proof -
  obtain Q where Q: "cli_runtime_paths (cx_env C) (cli_socket c) = Some Q"
    using assms by (simp add: cli_runtime_paths_def)
  show ?thesis
  proof (cases "is_local (cli_command c)")
    case True
    then show ?thesis
      using assms Q by (cases "cli_command c") (auto simp: cli_main_def dest: local_files_world)
  next
    case False
    then obtain req where req: "command_request (cx_now C) (cli_user_id c) (cli_command c) = Some req"
      using command_request_remote by blast
    let ?run = "run_command (cx_machine C) (cx_bin C) (cx_json C) Q (cx_now C) c req"
    have run: "cli_main C c = Some ?run"
      using False req Q by (cases "cli_command c") (simp_all add: cli_main_def)
    have "wd_signals w' = wd_signals w \<and> wd_spawned w' = wd_spawned w" if "?run w = (r, w')" "cli_no_spawn c" for w r w'
      using that by (auto simp: run_command_def connect_or_spawn_def request_on_def lift_print_def bind_sm_def lift_sm_def
          split: prod.splits sum.splits)
    with run False req Q show ?thesis by blast
  qed
qed

end
