(* ===== verification/Spec2Isabelle.thy ===== *)
theory Spec2Isabelle
  imports Store_Laws Assoc_Graph Search_Laws Server Tick_Laws Conflict_Laws Consolidation_Laws Response_Laws Client Core_Paths Hash_Maps Llm Core_Config
    Serve_Loop Http_Bridge Ingest_Laws Startup End_To_End Handshake_Io Cli_Main
begin

text \<open>
  Verification of cognitive-memory-daemon, a local memory service for assistants: a daemon that
  keeps memories of several users in SQLite, searches them by embedding, lets them decay, links and
  consolidates them, and serves requests over a Unix socket; a client library, a command line client
  \<open>cm\<close> and an HTTP bridge talk to it.

  \<^bold>\<open>The program and how its parts meet.\<close>
  \<open>cm-daemon\<close> (\<open>crates/daemon\<close>) opens the store (\<open>crates/store\<close>), which first runs the pending
  migrations, builds an embedding provider (\<open>crates/embeddings\<close>) and maybe a language model
  (\<open>crates/llm\<close>), merges the configuration (\<open>crates/core\<close>) into the lifecycle parameters
  (\<open>crates/lifecycle\<close>), binds its socket and serves connections. A connection shakes hands, then
  exchanges length-prefixed messages (\<open>crates/protocol\<close>); every request is dispatched to a handler,
  and the handlers work on the store through the repositories and on the memories through the searcher
  (\<open>crates/search\<close>), which expands along the association graph (\<open>crates/graph\<close>). A maintenance request
  (\<open>Tick\<close>) runs decay, cold storage, expiry, conflict resolution and consolidation.
  \<open>crates/client\<close> is the other end of the socket, \<open>crates/cli\<close> and \<open>crates/http-bridge\<close> use it.

  \<^bold>\<open>Style of the model.\<close>
  Stateful code is explicit state passing: \<open>('s, 'e, 'a) sm\<close> maps a state to an error or a value and
  the state after it (\<open>CM_Prelude\<close>), \<open>?\<close> is \<open>bind_sm\<close>, a loop is \<open>for_sm\<close> or \<open>fold_sm\<close>, a database
  transaction is \<open>transaction\<close>, which restores the state on an error. The state of the store is the
  record \<open>db\<close> (\<open>Schema\<close>), one list of rows per table; the state of the daemon is the record \<open>app\<close>
  (\<open>App_State\<close>); the file system is the record \<open>fs\<close> (\<open>Core_Paths\<close>). Concurrency is a step relation
  (\<open>Server\<close>). Errors are the error types of the crates. Code outside the repository is a parameter:
  the embedding model, the language model, SHA-256, random identifiers, the FTS5 matcher, the iteration
  order of a hash map, serde and TOML texts, the clock, the processes of the machine.

  \<^bold>\<open>Theories, in dependency order.\<close>
  \<^item> \<open>CM_Prelude\<close>: computations and their frames (locale \<open>frame_rel\<close>: a preorder on states that single
    operations keep is kept by everything composed of them), sorting by a comparator (locale \<open>cmp_on\<close>),
    tables with a key (locale \<open>row_store\<close>), write-once caches (locale \<open>write_once\<close>), strings.
  \<^item> \<open>Rust_Float\<close>: \<open>f64\<close> as reals with infinities and NaN, \<open>f32\<close> as bit patterns, byte encodings.
  \<^item> \<open>Lifecycle\<close> (\<open>lifecycle/src/lib.rs\<close>): retention, boosts, promotion, association decay. Retention
    stays between its floor and 1 and never grows with time; boosts keep a state well-formed.
  \<^item> \<open>Schema\<close>, \<open>Memory_Repo\<close>, \<open>Association_Repo\<close> (\<open>store/src/repos.rs\<close>): tables, constraints, and every
    operation of the repositories. \<open>wf_db\<close> (keys, foreign keys, the full-text mirror, ranges) is kept by
    each; \<open>others_step u\<close> says that only rows of user \<open>u\<close> change. \<open>Store_Laws\<close> states what callers rely
    on: updates, cascading deletion, pages, links.
  \<^item> \<open>Migrations\<close> (\<open>store/src/pool.rs\<close>): the migrations and their runner over a catalog of tables. From
    every released version the newest schema is reached with the values kept; an interrupted migration
    blocks the store. \<open>Store_Open\<close> (\<open>Store::open\<close>, \<open>Store::in_memory\<close>): the file, the pools and the migrations.
  \<^item> \<open>Embeddings\<close> (\<open>embeddings/src\<close>): canonical text and the cache in front of the provider;
    \<open>Embedding_Providers\<close> (\<open>fake.rs\<close>, \<open>local.rs\<close>): the provider that stretches a hash to a vector, down to the
    rounding to single precision, and the one that asks fastembed.
  \<^item> \<open>Level_Search\<close>, \<open>Assoc_Graph\<close> (\<open>graph/src/lib.rs\<close>), \<open>Bridge_Search\<close>: breadth-first search with a
    depth bound, once as an invariant, used for the expansion of the graph and for shortest paths.
  \<^item> \<open>Rank\<close>, \<open>Searcher\<close>, \<open>Search_Laws\<close> (\<open>search/src\<close>): cosine similarity, rank fusion, the search and
    bridge discovery. A search returns distinct memories of the user, sorted, at most the limit; a dense
    one exactly the best candidates; bridges are shortest paths.
  \<^item> \<open>Protocol\<close> (\<open>protocol/src\<close>): messages and the frame codec. \<open>Codec\<close> (\<open>codec.rs\<close>): the stream of
    messages does not depend on how the bytes arrive. \<open>Wire_Json\<close> (locales \<open>wire_type\<close>, \<open>wire_value\<close>),
    \<open>Wire_Requests\<close>, \<open>Wire_Responses\<close>, \<open>Wire_Messages\<close>: the JSON that serde derives for every type; what
    is written is read back exactly when its integers fit and its floats are numbers.
  \<^item> \<open>Trace_Ring\<close> (\<open>daemon/src/trace.rs\<close>): the ring of traces refines the history cut to its capacity.
  \<^item> \<open>Store_Frames\<close>, \<open>App_State\<close>, \<open>Diagnostics_Handlers\<close>, \<open>Memory_Handlers\<close>, \<open>Lifecycle_Handlers\<close>,
    \<open>Requests\<close> (\<open>daemon/src/handlers.rs\<close>, \<open>doctor.rs\<close>): every handler. Whatever is served, the database
    stays consistent, a request changes memories of its own user only, a request for another user is
    refused, and a bridge token lives exactly as long as it was minted for. \<open>Response_Laws\<close>: a request
    that succeeds is answered with the data that belong to it, all of its own user.
  \<^item> \<open>Server\<close> (\<open>daemon/src/server.rs\<close>): dispatch, handshake, and all connections as a step relation; in
    every reachable state the permits bound the requests in flight and every response answers one request;
    a connection that ends by shutdown has answered all it read.
  \<^item> \<open>Row_Loops\<close>, \<open>Tick_Laws\<close>, \<open>Conflict_Laws\<close>, \<open>Consolidation_Laws\<close>, \<open>Ingest_Laws\<close>: what the passes of a tick and the storing
    of a memory do to each row.
  \<^item> \<open>Client\<close> (\<open>client/src/lib.rs\<close>): handshake, requests, timeouts; a late answer desynchronises the client.
  \<^item> \<open>Handshake_Io\<close> (\<open>handle_connection\<close> of \<open>daemon/src/server.rs\<close> up to its loop): the handshake on the raw
    stream; both sides agree however the bytes are cut, and what is read behind the hello is lost.
  \<^item> \<open>End_To_End\<close>: client, codec and dispatch composed. A call of the client returns what the handler of the
    daemon returned, however the socket cuts the bytes, and fails when the reply cannot be read back.
  \<^item> \<open>Core_Paths\<close>, \<open>Core_Config\<close> (\<open>core/src\<close>), \<open>Hash_Maps\<close> (locale \<open>keyed_store\<close>): instances share no
    durable path, directories become private, a saved configuration is read back.
  \<^item> \<open>Llm\<close> (\<open>llm/src\<close>): providers, extraction cache, and the token bucket (locale \<open>credit_limiter\<close>).
    \<open>Local_Llm\<close> (\<open>llm/src/local.rs\<close>): the model is loaded once; what the greedy loop returns and when it fails.
  \<^item> \<open>Daemon_Main\<close> (\<open>daemon/src/main.rs\<close>, \<open>serve\<close>): start and stop of the daemon over the file system. \<open>Serve_Loop\<close>
    (\<open>Daemon::serve\<close>): the accept loop, draining, and the whole life of a daemon as a step relation. \<open>Startup\<close> (\<open>main\<close>): the binary
    composed of all its parts; a start that fails at the socket has migrated the database by then.
  \<^item> \<open>Http_Bridge\<close> (\<open>http-bridge/src\<close>): both routes composed with the daemon; a memory changes through the
    bridge only under a token that allows it, and only a memory of its user.
  \<^item> \<open>Cli_Commands\<close>, \<open>Cli_Process\<close> (\<open>cli/src/main.rs\<close>): the request of every subcommand, printing,
    configuration, and the control of the daemon process; \<open>Cli_Main\<close>: the program.

  \<^bold>\<open>Bounds and fuel.\<close>
  All recursion terminates by a measure or structurally, except two loops that wait for the outside:
  \<open>acquire\<close> of the token bucket has fuel, with a bound that is shown to suffice when the capacity
  is at least one; \<open>ready_loop\<close> of the command line client ends at its deadline, because every round
  sleeps. Integers are mathematical where no operation of the code can wrap at a value that occurs;
  where a cast changes a value (\<open>as i64\<close>, \<open>as u32\<close>, \<open>as i32\<close>) the model has the cast.

  \<^bold>\<open>Not modelled.\<close>
  Rounding of floating point numbers (results are exact reals, special values follow IEEE 754; only the deterministic
  embedding provider rounds to \<open>f32\<close>); the
  arithmetic inside the ONNX and llama.cpp models (parameters, with the documented laws of batches and
  contexts where a theorem needs them); what the pragmas and the busy time-outs of \<open>sqlx\<close> do; the
  tasks of tokio below the granularity of one handler (a request task runs its handler in one step);
  the text of a JSON value (serde_json), the positional forms serde accepts besides objects and tag names, clap's argument parsing, axum's routing and extraction, tracing's output; and the
  unit tests inside the crates.
\<close>

end
